(* ===== verification/Prelude.thy ===== *)
theory Prelude
  imports Main "HOL-Library.Word" "HOL-Library.Sublist"
begin

text \<open>
  Shared ground of the development: Go's \<^verbatim>\<open>int64\<close> arithmetic, decimal numbers, the functions
  of Go's \<^verbatim>\<open>strings\<close> and \<^verbatim>\<open>encoding/binary\<close> packages that the program calls, and the generic
  list lemmas of the component theories.

  A Go \<^verbatim>\<open>string\<close> and a Go \<^verbatim>\<open>[]byte\<close> are both sequences of bytes, and a HOL \<^typ>\<open>char\<close> is a
  byte, so both are \<^typ>\<open>string\<close> here and the conversions between them are the identity.
  A Go \<^verbatim>\<open>int64\<close> (and \<^verbatim>\<open>int\<close>, on 64-bit platforms) is an \<^typ>\<open>int\<close> in the range
  \<^verbatim>\<open>int64\<close>; additions and products that can leave the range are wrapped by \<^verbatim>\<open>wrap64\<close>
  where they are written.
\<close>

type_synonym bytes = string

named_theorems go_simps \<open>equations of the Go library functions\<close>
named_theorems wire_simps \<open>read-after-write laws of the encodings\<close>

section \<open>Machine integers\<close>

definition int64 :: "int \<Rightarrow> bool" where
  "int64 x \<longleftrightarrow> - (2 ^ 63) \<le> x \<and> x < 2 ^ 63"

definition wrap64 :: "int \<Rightarrow> int" where
  "wrap64 x = (x + 2 ^ 63) mod 2 ^ 64 - 2 ^ 63"

lemma wrap64_range: "int64 (wrap64 x)"
  by (simp add: wrap64_def int64_def)

lemma wrap64_id [simp]: "int64 x \<Longrightarrow> wrap64 x = x"
  by (simp add: wrap64_def int64_def)

lemma wrap64_overflow: "2 ^ 63 \<le> x \<Longrightarrow> x < 2 ^ 64 \<Longrightarrow> wrap64 x = x - 2 ^ 64"
proof -
  assume a: "2 ^ 63 \<le> x" "x < 2 ^ 64"
  have "(x + 2 ^ 63) mod 2 ^ 64 = ((x - 2 ^ 63) + 2 ^ 64) mod 2 ^ 64"
    by (rule arg_cong [where f = "\<lambda>y. y mod 2 ^ 64"]) simp
  also have "\<dots> = (x - 2 ^ 63) mod 2 ^ 64" by (rule mod_add_self2)
  also have "\<dots> = x - 2 ^ 63" using a by (intro mod_pos_pos_trivial) auto
  finally show ?thesis by (simp add: wrap64_def)
qed

lemma wrap64_add: "wrap64 (wrap64 a + b) = wrap64 (a + b)"
proof -
  have "((a + 2 ^ 63) mod 2 ^ 64 - 2 ^ 63 + b + 2 ^ 63) mod 2 ^ 64 = ((a + 2 ^ 63) mod 2 ^ 64 + b) mod (2 ^ 64 :: int)"
    by (rule arg_cong [where f = "\<lambda>x. x mod 2 ^ 64"]) simp
  also have "\<dots> = (a + b + 2 ^ 63) mod 2 ^ 64" by (simp only: mod_add_left_eq add.assoc add.commute [of "2 ^ 63" b])
  finally show ?thesis by (simp add: wrap64_def)
qed

lemma int64_nat_bound: "n \<le> 2 ^ 62 \<Longrightarrow> int64 (int n)"
  by (simp add: int64_def)

lemma int64_between: "0 \<le> x \<Longrightarrow> x \<le> y \<Longrightarrow> int64 y \<Longrightarrow> int64 x"
  by (simp add: int64_def)

section \<open>Decimal numbers\<close>

definition digit_char :: "nat \<Rightarrow> char" where
  "digit_char d = char_of (48 + d)"

definition is_digit :: "char \<Rightarrow> bool" where
  "is_digit c \<longleftrightarrow> 48 \<le> (of_char c :: nat) \<and> (of_char c :: nat) \<le> 57"

definition digit_val :: "char \<Rightarrow> nat" where
  "digit_val c = of_char c - 48"

text \<open>\<^verbatim>\<open>strconv.Itoa\<close> and the verb \<^verbatim>\<open>%d\<close>.\<close>

fun show_nat :: "nat \<Rightarrow> string" where
  "show_nat n = (if n < 10 then [digit_char n] else show_nat (n div 10) @ [digit_char (n mod 10)])"

declare show_nat.simps [simp del]

definition show_int :: "int \<Rightarrow> string" where
  "show_int i = (if i < 0 then ''-'' @ show_nat (nat (- i)) else show_nat (nat i))"

definition nat_of_digits :: "string \<Rightarrow> nat" where
  "nat_of_digits s = foldl (\<lambda>n c. 10 * n + digit_val c) 0 s"

lemma of_char_digit: "d < 10 \<Longrightarrow> (of_char (digit_char d) :: nat) = 48 + d"
  by (simp add: digit_char_def)

lemma digit_val_char [simp]: "d < 10 \<Longrightarrow> digit_val (digit_char d) = d"
  by (simp add: digit_val_def of_char_digit)

lemma is_digit_char [simp]: "d < 10 \<Longrightarrow> is_digit (digit_char d)"
  by (simp add: is_digit_def of_char_digit)

lemma nat_of_digits_append [simp]:
  "nat_of_digits (s @ [c]) = 10 * nat_of_digits s + digit_val c"
  by (simp add: nat_of_digits_def)

lemma show_nat_digits: "\<forall>c\<in>set (show_nat n). is_digit c"
proof (induction n rule: show_nat.induct)
  case (1 n)
  then show ?case by (subst show_nat.simps) auto
qed

lemma show_nat_nonempty [simp]: "show_nat n \<noteq> []"
  by (subst show_nat.simps) simp

lemma nat_of_show_nat [simp]: "nat_of_digits (show_nat n) = n"
proof (induction n rule: show_nat.induct)
  case (1 n)
  show ?case
  proof (cases "n < 10")
    case True
    then show ?thesis by (simp add: show_nat.simps [of n] nat_of_digits_def)
  next
    case False
    with "1" show ?thesis by (simp add: show_nat.simps [of n])
  qed
qed

lemma show_nat_inj: "show_nat m = show_nat n \<longleftrightarrow> m = n"
  by (metis nat_of_show_nat)

text \<open>A number longer than one digit does not start with zero.\<close>

lemma show_nat_hd: "10 \<le> n \<Longrightarrow> hd (show_nat n) \<noteq> CHR ''0''"
proof (induction n rule: show_nat.induct)
  case (1 n)
  then have step: "show_nat n = show_nat (n div 10) @ [digit_char (n mod 10)]"
    by (simp add: show_nat.simps [of n])
  show ?case
  proof (cases "n div 10 < 10")
    case True
    from True have "show_nat (n div 10) = [digit_char (n div 10)]"
      by (simp add: show_nat.simps [of "n div 10"])
    moreover have "digit_char (n div 10) \<noteq> CHR ''0''"
    proof
      assume "digit_char (n div 10) = CHR ''0''"
      then have "digit_val (digit_char (n div 10)) = digit_val (CHR ''0'')" by simp
      with True "1.prems" show False by (simp add: digit_val_def [of "CHR ''0''"])
    qed
    ultimately show ?thesis using step by simp
  next
    case False
    with "1" have "hd (show_nat (n div 10)) \<noteq> CHR ''0''" by simp
    with step show ?thesis by simp
  qed
qed

section \<open>Lists\<close>

text \<open>A loop that changes the first element with a property and stops.\<close>

fun update_first :: "('a \<Rightarrow> bool) \<Rightarrow> ('a \<Rightarrow> 'a) \<Rightarrow> 'a list \<Rightarrow> 'a list" where
  "update_first P f [] = []"
| "update_first P f (x # xs) = (if P x then f x # xs else x # update_first P f xs)"

lemma length_update_first [simp]: "length (update_first P f xs) = length xs"
  by (induction xs) auto

lemma update_first_none: "\<forall>x\<in>set xs. \<not> P x \<Longrightarrow> update_first P f xs = xs"
  by (induction xs) auto

lemma map_update_first: "(\<And>x. P x \<Longrightarrow> g (f x) = g x) \<Longrightarrow> map g (update_first P f xs) = map g xs"
  by (induction xs) auto

lemma update_first_split:
  assumes "x \<in> set xs" "P x"
  obtains ys y zs where "xs = ys @ y # zs" "P y" "\<forall>x\<in>set ys. \<not> P x" "update_first P f xs = ys @ f y # zs"
proof -
  from assms have "\<exists>x\<in>set xs. P x" by blast
  then obtain ys y zs where s: "xs = ys @ y # zs" "P y" "\<forall>x\<in>set ys. \<not> P x"
    using split_list_first_prop [of xs P] by blast
  moreover have "update_first P f (ys @ y # zs) = ys @ f y # zs"
    using s(2,3) by (induction ys) auto
  ultimately show thesis using that by blast
qed

lemma find_unique:
  assumes "x \<in> set xs" "P x" "\<forall>y\<in>set xs. P y \<longrightarrow> y = x"
  shows "find P xs = Some x"
proof (cases "find P xs")
  case None
  with assms(1,2) show ?thesis by (auto simp: find_None_iff)
next
  case (Some y)
  then have "y \<in> set xs" "P y" by (auto simp: find_Some_iff)
  with Some assms(3) show ?thesis by simp
qed

end
