(* ===== verification/Go_Strings.thy ===== *)
theory Go_Strings
  imports Prelude
begin

text \<open>
  The parts of Go's packages \<^verbatim>\<open>strings\<close>, \<^verbatim>\<open>encoding/hex\<close>, \<^verbatim>\<open>encoding/base64\<close> and
  \<^verbatim>\<open>encoding/binary\<close> that adrop calls, as executable functions with their read-after-write laws.
  \<^verbatim>\<open>to_lower\<close> and \<^verbatim>\<open>equal_fold\<close> fold ASCII letters only: the program applies them to
  hexadecimal digests.
\<close>

section \<open>strings\<close>

text \<open>\<^verbatim>\<open>strings.TrimSpace\<close>: the UTF-8 encodings of the runes of \<^verbatim>\<open>unicode.IsSpace\<close>.\<close>

definition white_runes :: "string list" where
  "white_runes =
     [[CHR 0x09], [CHR 0x0A], [CHR 0x0B], [CHR 0x0C], [CHR 0x0D], [CHR '' ''],
      [CHR 0xC2, CHR 0x85], [CHR 0xC2, CHR 0xA0], [CHR 0xE1, CHR 0x9A, CHR 0x80],
      [CHR 0xE2, CHR 0x80, CHR 0x80], [CHR 0xE2, CHR 0x80, CHR 0x81],
      [CHR 0xE2, CHR 0x80, CHR 0x82], [CHR 0xE2, CHR 0x80, CHR 0x83],
      [CHR 0xE2, CHR 0x80, CHR 0x84], [CHR 0xE2, CHR 0x80, CHR 0x85],
      [CHR 0xE2, CHR 0x80, CHR 0x86], [CHR 0xE2, CHR 0x80, CHR 0x87],
      [CHR 0xE2, CHR 0x80, CHR 0x88], [CHR 0xE2, CHR 0x80, CHR 0x89],
      [CHR 0xE2, CHR 0x80, CHR 0x8A], [CHR 0xE2, CHR 0x80, CHR 0xA8],
      [CHR 0xE2, CHR 0x80, CHR 0xA9], [CHR 0xE2, CHR 0x80, CHR 0xAF],
      [CHR 0xE2, CHR 0x81, CHR 0x9F], [CHR 0xE3, CHR 0x80, CHR 0x80]]"

function strip_runes :: "string list \<Rightarrow> string \<Rightarrow> string" where
  "strip_runes ws s = (case find (\<lambda>w. w \<noteq> [] \<and> prefix w s) ws of
     None \<Rightarrow> s
   | Some w \<Rightarrow> strip_runes ws (drop (length w) s))"
  by pat_completeness auto
termination
  by (relation "measure (\<lambda>(ws, s). length s)") (auto simp: find_Some_iff prefix_def)

declare strip_runes.simps [simp del]

definition trim_space :: "string \<Rightarrow> string" where
  "trim_space s = rev (strip_runes (map rev white_runes) (rev (strip_runes white_runes s)))"

lemma strip_runes_id: "\<forall>w\<in>set ws. w \<noteq> [] \<longrightarrow> \<not> prefix w s \<Longrightarrow> strip_runes ws s = s"
proof -
  assume "\<forall>w\<in>set ws. w \<noteq> [] \<longrightarrow> \<not> prefix w s"
  then have "find (\<lambda>w. w \<noteq> [] \<and> prefix w s) ws = None" by (auto simp: find_None_iff)
  then show ?thesis by (subst strip_runes.simps) simp
qed

lemma strip_runes_suffix: "suffix (strip_runes ws s) s"
proof (induction ws s rule: strip_runes.induct)
  case (1 ws s)
  show ?case
  proof (cases "find (\<lambda>w. w \<noteq> [] \<and> prefix w s) ws")
    case None
    then show ?thesis by (simp add: strip_runes.simps [of ws s])
  next
    case (Some w)
    with "1" have "suffix (strip_runes ws (drop (length w) s)) (drop (length w) s)" by simp
    then have "suffix (strip_runes ws (drop (length w) s)) s"
      by (meson suffix_drop suffix_order.trans)
    with Some show ?thesis by (simp add: strip_runes.simps [of ws s])
  qed
qed

lemma trim_space_subset: "set (trim_space s) \<subseteq> set s"
  unfolding trim_space_def
  by (metis order_trans set_mono_suffix set_rev strip_runes_suffix)

text \<open>\<^verbatim>\<open>strings.Split\<close> at a one-byte separator and \<^verbatim>\<open>strings.Join\<close>.\<close>

fun go_split :: "char \<Rightarrow> string \<Rightarrow> string list" where
  "go_split c [] = [[]]"
| "go_split c (x # xs) =
     (if x = c then [] # go_split c xs
      else (case go_split c xs of [] \<Rightarrow> [[x]] | y # ys \<Rightarrow> (x # y) # ys))"

fun go_join :: "string \<Rightarrow> string list \<Rightarrow> string" where
  "go_join sep [] = []"
| "go_join sep [x] = x"
| "go_join sep (x # y # ys) = x @ sep @ go_join sep (y # ys)"

lemma go_split_nonempty [simp]: "go_split c s \<noteq> []"
  by (induction s) (auto split: list.splits)

lemma go_split_part: "p \<in> set (go_split c s) \<Longrightarrow> c \<notin> set p"
  by (induction s arbitrary: p) (auto split: list.splits if_splits)

lemma go_split_set: "p \<in> set (go_split c s) \<Longrightarrow> set p \<subseteq> set s"
proof (induction s arbitrary: p)
  case (Cons x xs)
  then show ?case by (cases "go_split c xs") (force split: if_splits)+
qed auto

lemma go_join_Cons: "ys \<noteq> [] \<Longrightarrow> go_join sep (x # ys) = x @ sep @ go_join sep ys"
  by (cases ys) auto

lemma go_join_split [simp]: "go_join [c] (go_split c s) = s"
proof (induction s)
  case (Cons x xs)
  show ?case
  proof (cases "go_split c xs")
    case (Cons y ys)
    with Cons.IH show ?thesis
      by (cases ys) auto
  qed simp
qed simp

lemma go_split_no_sep: "c \<notin> set s \<Longrightarrow> go_split c s = [s]"
  by (induction s) auto

lemma go_split_append: "c \<notin> set p \<Longrightarrow> go_split c (p @ c # s) = p # go_split c s"
  by (induction p) auto

lemma go_split_join: "ps \<noteq> [] \<Longrightarrow> \<forall>p\<in>set ps. c \<notin> set p \<Longrightarrow> go_split c (go_join [c] ps) = ps"
proof (induction "[c]" ps rule: go_join.induct)
  case (3 x y ys)
  then show ?case by (simp add: go_split_append)
qed (auto simp: go_split_no_sep)

text \<open>\<^verbatim>\<open>strings.ToLower\<close> and \<^verbatim>\<open>strings.EqualFold\<close> on ASCII.\<close>

definition lower_char :: "char \<Rightarrow> char" where
  "lower_char c =
     (if 65 \<le> (of_char c :: nat) \<and> (of_char c :: nat) \<le> 90 then char_of ((of_char c :: nat) + 32) else c)"

text \<open>
  \<^verbatim>\<open>ToLower\<close> and \<^verbatim>\<open>EqualFold\<close> on ASCII. The program uses them on hexadecimal texts, and no letter from a to f has
  another form in Unicode, so comparing with a digest gives the same answer; other texts are treated more
  strictly than by Go.
\<close>

definition to_lower :: "string \<Rightarrow> string" where
  "to_lower s = map lower_char s"

definition equal_fold :: "string \<Rightarrow> string \<Rightarrow> bool" where
  "equal_fold a b \<longleftrightarrow> to_lower a = to_lower b"

lemma lower_char_idem [simp]: "lower_char (lower_char c) = lower_char c"
proof -
  have "(of_char c :: nat) < 256" by simp
  then show ?thesis by (auto simp: lower_char_def)
qed

lemma to_lower_idem [simp]: "to_lower (to_lower s) = to_lower s"
  by (simp add: to_lower_def)

lemma equal_fold_refl [simp]: "equal_fold s s"
  by (simp add: equal_fold_def)

lemma equal_fold_sym: "equal_fold a b \<longleftrightarrow> equal_fold b a"
  by (auto simp: equal_fold_def)

lemma equal_fold_lower [simp]: "equal_fold (to_lower a) b \<longleftrightarrow> equal_fold a b"
  by (simp add: equal_fold_def)

section \<open>encoding/binary: big-endian unsigned integers\<close>

fun be_put :: "nat \<Rightarrow> nat \<Rightarrow> bytes" where
  "be_put 0 n = []"
| "be_put (Suc k) n = be_put k (n div 256) @ [char_of (n mod 256)]"

definition be_get :: "bytes \<Rightarrow> nat" where
  "be_get s = foldl (\<lambda>n c. 256 * n + of_char c) 0 s"

lemma be_get_snoc [simp]: "be_get (s @ [c]) = 256 * be_get s + of_char c"
  by (simp add: be_get_def)

lemma length_be_put [simp]: "length (be_put k n) = k"
  by (induction k arbitrary: n) auto

lemma be_get_put [wire_simps]: "n < 256 ^ k \<Longrightarrow> be_get (be_put k n) = n"
proof (induction k arbitrary: n)
  case (Suc k)
  then have "n div 256 < 256 ^ k" by (simp add: less_mult_imp_div_less mult.commute)
  with Suc.IH show ?case by simp
qed (simp add: be_get_def)

lemma be_get_bound: "be_get s < 256 ^ length s"
proof (induction s rule: rev_induct)
  case (snoc c s)
  have "(of_char c :: nat) < 256" by simp
  then have "256 * be_get s + of_char c < 256 * Suc (be_get s)" by simp
  also have "\<dots> \<le> 256 * 256 ^ length s" using snoc by (intro mult_le_mono2 Suc_leI)
  finally show ?case by simp
qed (simp add: be_get_def)

lemma be_put_get: "be_put (length s) (be_get s) = s"
proof (induction s rule: rev_induct)
  case (snoc c s)
  have "(256 * be_get s + of_char c) div 256 = be_get s" "(256 * be_get s + of_char c) mod 256 = of_char c"
    by (simp_all add: div_add1_eq)
  with snoc show ?case by (simp del: of_char_mod_256)
qed simp

section \<open>encoding/hex\<close>

definition hex_digit :: "nat \<Rightarrow> char" where
  "hex_digit d = (if d < 10 then char_of (48 + d) else char_of (87 + d))"

definition hex_val :: "char \<Rightarrow> nat option" where
  "hex_val c = (let n = (of_char c :: nat) in
     if 48 \<le> n \<and> n \<le> 57 then Some (n - 48)
     else if 97 \<le> n \<and> n \<le> 102 then Some (n - 87)
     else if 65 \<le> n \<and> n \<le> 70 then Some (n - 55)
     else None)"

fun hex_encode :: "bytes \<Rightarrow> string" where
  "hex_encode [] = []"
| "hex_encode (c # s) = hex_digit (of_char c div 16) # hex_digit (of_char c mod 16) # hex_encode s"

fun hex_decode :: "string \<Rightarrow> bytes option" where
  "hex_decode [] = Some []"
| "hex_decode [c] = None"
| "hex_decode (a # b # s) = (case (hex_val a, hex_val b) of
     (Some x, Some y) \<Rightarrow> map_option ((#) (char_of (16 * x + y))) (hex_decode s)
   | _ \<Rightarrow> None)"

lemma hex_val_digit [simp]: "d < 16 \<Longrightarrow> hex_val (hex_digit d) = Some d"
  by (auto simp: hex_val_def hex_digit_def)

lemma lower_hex_digit: "d < 16 \<Longrightarrow> lower_char (hex_digit d) = hex_digit d"
  by (auto simp: lower_char_def hex_digit_def)

lemma hex_decode_encode [wire_simps]: "hex_decode (hex_encode s) = Some s"
proof (induction s)
  case (Cons c s)
  have lt: "(of_char c :: nat) < 256" by simp
  then have "(of_char c :: nat) div 16 < 16" by linarith
  moreover have "char_of (16 * (of_char c div 16) + of_char c mod 16 :: nat) = c"
    by (simp only: mult_div_mod_eq) simp
  ultimately show ?case using Cons by simp
qed simp

lemma length_hex_encode [simp]: "length (hex_encode s) = 2 * length s"
  by (induction s) auto

lemma to_lower_hex_encode [simp]: "to_lower (hex_encode s) = hex_encode s"
proof (induction s)
  case (Cons c s)
  have "(of_char c :: nat) < 256" by simp
  then have "(of_char c :: nat) div 16 < 16" by linarith
  with Cons show ?case by (simp add: to_lower_def lower_hex_digit)
qed (simp add: to_lower_def)

lemma hex_encode_inj [simp]: "hex_encode a = hex_encode b \<longleftrightarrow> a = b"
  by (metis hex_decode_encode option.inject)

text \<open>Decoding accepts upper case; encoding what was decoded gives the lower-case text.\<close>

lemma hex_val_lower: "hex_val c = Some v \<Longrightarrow> v < 16 \<and> lower_char c = hex_digit v"
proof -
  assume h: "hex_val c = Some v"
  have c: "char_of (of_char c :: nat) = c" by simp
  from h show ?thesis
    using c by (auto simp: hex_val_def Let_def lower_char_def hex_digit_def split: if_splits)
qed

lemma hex_encode_decode: "hex_decode s = Some b \<Longrightarrow> hex_encode b = to_lower s"
proof (induction s arbitrary: b rule: hex_decode.induct)
  case (3 a1 a2 s)
  then obtain x y t where "hex_val a1 = Some x" "hex_val a2 = Some y" "hex_decode s = Some t"
      and b: "b = char_of (16 * x + y) # t"
    by (auto split: option.splits)
  moreover from this hex_val_lower have "x < 16" "y < 16" by blast+
  moreover from this have "16 * x + y < 256" by linarith
  ultimately show ?case using "3.IH" hex_val_lower by (auto simp: to_lower_def)
qed (auto simp: to_lower_def)

end
