(* ===== verification/Paths.thy ===== *)
theory Paths
  imports Go_Strings
begin

text \<open>
  File names: the functions of Go's \<^verbatim>\<open>path/filepath\<close> (on Unix) that the receiver applies to names
  a peer chose, \<^verbatim>\<open>sanitizeName\<close> and \<^verbatim>\<open>uniquePathExcept\<close> of \<^verbatim>\<open>internal/daemon/util.go\<close>, and
  \<^verbatim>\<open>validRelPath\<close> of \<^verbatim>\<open>receive.go\<close>.
\<close>

abbreviation slash :: char where
  "slash \<equiv> CHR ''/''"

section \<open>path/filepath\<close>

text \<open>\<^verbatim>\<open>Clean\<close> works on the components between slashes; the stack holds them last first.\<close>

definition clean_step :: "bool \<Rightarrow> string \<Rightarrow> string list \<Rightarrow> string list" where
  "clean_step rooted c st =
     (if c = [] \<or> c = ''.'' then st
      else if c = ''..'' then
        (case st of [] \<Rightarrow> if rooted then [] else [c]
         | x # xs \<Rightarrow> if x = ''..'' then c # st else xs)
      else c # st)"

definition is_rooted :: "string \<Rightarrow> bool" where
  "is_rooted p \<longleftrightarrow> (case p of [] \<Rightarrow> False | c # _ \<Rightarrow> c = slash)"

definition clean_comps :: "string \<Rightarrow> string list" where
  "clean_comps p = rev (fold (clean_step (is_rooted p)) (go_split slash p) [])"

definition Clean :: "string \<Rightarrow> string" where
  "Clean p = (let out = (if is_rooted p then ''/'' else []) @ go_join ''/'' (clean_comps p) in
     if out = [] then ''.'' else out)"

definition Join :: "string \<Rightarrow> string \<Rightarrow> string" where
  "Join a b = (if a \<noteq> [] then Clean (a @ ''/'' @ b) else if b \<noteq> [] then Clean b else [])"

definition Base :: "string \<Rightarrow> string" where
  "Base p = (if p = [] then ''.''
     else let b = last (go_split slash (rev (dropWhile (\<lambda>c. c = slash) (rev p)))) in
       if b = [] then ''/'' else b)"

definition Dir :: "string \<Rightarrow> string" where
  "Dir p = Clean (rev (dropWhile (\<lambda>c. c \<noteq> slash) (rev p)))"

text \<open>\<^verbatim>\<open>Ext\<close>: from the last dot of the last component. \<^verbatim>\<open>stem_of\<close> is the name without it.\<close>

definition has_ext :: "string \<Rightarrow> bool" where
  "has_ext p \<longleftrightarrow> CHR ''.'' \<in> set (takeWhile (\<lambda>c. c \<noteq> slash) (rev p))"

definition Ext :: "string \<Rightarrow> string" where
  "Ext p = (if has_ext p then CHR ''.'' # rev (takeWhile (\<lambda>c. c \<noteq> CHR ''.'') (rev p)) else [])"

definition TrimSuffix :: "string \<Rightarrow> string \<Rightarrow> string" where
  "TrimSuffix s t = (if suffix t s then take (length s - length t) s else s)"

section \<open>Names from peers\<close>

definition sanitizeName :: "string \<Rightarrow> string" where
  "sanitizeName name =
     (let n = Base (Clean (''/'' @ name));
          n = dropWhile (\<lambda>c. c = slash) n in
      if n = [] \<or> n = ''.'' \<or> n = ''..'' then ''file'' else n)"

definition validRelPath :: "string \<Rightarrow> bool" where
  "validRelPath p \<longleftrightarrow> p \<noteq> [] \<and> \<not> list_ex (\<lambda>c. c \<in> {CHR 0x5C, CHR '':'', CHR 0x00}) p \<and>
     list_all (\<lambda>part. part \<noteq> [] \<and> part \<noteq> ''.'' \<and> part \<noteq> ''..'') (go_split slash p)"

definition numbered :: "string \<Rightarrow> nat \<Rightarrow> string" where
  "numbered name i = TrimSuffix name (Ext name) @ '' ('' @ show_nat i @ '')'' @ Ext name"

text \<open>
  The search for a free name. The loop has no bound in the code, so a search that does not end is
  \<^term>\<open>None\<close>.
\<close>

partial_function (option) next_free :: "(string \<Rightarrow> bool) \<Rightarrow> string \<Rightarrow> string \<Rightarrow> nat \<Rightarrow> string option" where
  "next_free free dir name i =
     (let c = Join dir (numbered name i) in
      if free c then Some c else next_free free dir name (i + 1))"

definition uniquePathExcept :: "(string \<Rightarrow> bool) \<Rightarrow> string \<Rightarrow> string \<Rightarrow> (string \<Rightarrow> bool) \<Rightarrow> string option" where
  "uniquePathExcept exists dir name taken =
     (let free = (\<lambda>c. \<not> exists c \<and> \<not> taken c); candidate = Join dir name in
      if free candidate then Some candidate else next_free free dir name 1)"

section \<open>Ordinary names\<close>

text \<open>A relative path of ordinary components: none empty, none a dot or two dots.\<close>

definition plain_comp :: "string \<Rightarrow> bool" where
  "plain_comp c \<longleftrightarrow> c \<noteq> [] \<and> c \<noteq> ''.'' \<and> c \<noteq> ''..'' \<and> slash \<notin> set c"

definition plain_rel :: "string \<Rightarrow> bool" where
  "plain_rel p \<longleftrightarrow> list_all plain_comp (go_split slash p)"

lemma validRelPath_plain: "validRelPath p \<Longrightarrow> plain_rel p"
  by (auto simp: validRelPath_def plain_rel_def plain_comp_def list_all_iff dest: go_split_part)

lemma plain_comp_rel: "plain_comp c \<Longrightarrow> plain_rel c"
  by (simp add: plain_rel_def plain_comp_def go_split_no_sep)

lemma clean_step_plain: "list_all plain_comp cs \<Longrightarrow> fold (clean_step r) cs st = rev cs @ st"
  by (induction cs arbitrary: st) (auto simp: clean_step_def plain_comp_def)

lemma go_split_slash: "go_split c (a @ c # b) = go_split c a @ go_split c b"
  by (induction a) (auto split: list.splits)

lemma plain_rel_start: "plain_rel n \<Longrightarrow> n \<noteq> [] \<and> \<not> is_rooted n"
  by (cases n) (auto simp: plain_rel_def plain_comp_def is_rooted_def split: if_splits)

text \<open>The components a directory stands for, and what joining an ordinary name does to them.\<close>

definition dir_comps :: "string \<Rightarrow> string list" where
  "dir_comps d = (if d = [] then [] else clean_comps d)"

lemma Join_plain:
  assumes "plain_rel n"
  shows "Join d n = (if is_rooted d then ''/'' else []) @ go_join ''/'' (dir_comps d @ go_split slash n)"
proof -
  have n: "n \<noteq> []" "\<not> is_rooted n" using plain_rel_start [OF assms] by auto
  have cs: "list_all plain_comp (go_split slash n)" using assms by (simp add: plain_rel_def)
  have ne: "go_join ''/'' (xs @ go_split slash n) \<noteq> []" for xs
  proof -
    have "go_split slash n \<noteq> []" "hd (go_split slash n) \<noteq> []"
      using cs by (cases "go_split slash n"; auto simp: plain_comp_def)+
    then obtain y ys where "go_split slash n = y # ys" "y \<noteq> []" by (cases "go_split slash n") auto
    then show ?thesis by (cases xs; cases ys) (auto simp: go_join_Cons)
  qed
  show ?thesis
  proof (cases "d = []")
    case True
    then show ?thesis
      using n clean_step_plain [OF cs, of False "[]"] ne [of "[]"]
      by (simp add: Join_def Clean_def clean_comps_def dir_comps_def is_rooted_def)
  next
    case False
    then have r: "is_rooted (d @ slash # n) = is_rooted d" by (cases d) (simp_all add: is_rooted_def)
    have "clean_comps (d @ slash # n) = clean_comps d @ go_split slash n"
      by (simp add: clean_comps_def go_split_slash r clean_step_plain [OF cs])
    with False r ne show ?thesis by (simp add: Join_def Clean_def dir_comps_def)
  qed
qed

lemma Join_plain_inj:
  assumes "plain_rel m" "plain_rel n" "Join d m = Join d n"
  shows "m = n"
proof -
  let ?c = "\<lambda>n. dir_comps d @ go_split slash n"
  have "slash \<notin> set c" if "c \<in> set (clean_comps d)" for c
  proof -
    have "set (fold (clean_step r) cs st) \<subseteq> set cs \<union> set st" for r cs st
      by (induction cs arbitrary: st) (fastforce simp: clean_step_def split: if_splits list.splits)+
    from subsetD [OF this [of "is_rooted d" "go_split slash d" "[]"]] that
    have "c \<in> set (go_split slash d)" by (simp add: clean_comps_def)
    then show ?thesis by (rule go_split_part)
  qed
  then have "\<forall>c\<in>set (?c n). slash \<notin> set c" for n by (auto simp: dir_comps_def dest: go_split_part split: if_splits)
  then have "go_split slash (go_join ''/'' (?c n)) = ?c n" for n by (intro go_split_join) auto
  with assms have "?c m = ?c n" by (metis Join_plain append_same_eq same_append_eq)
  then show ?thesis by (metis go_join_split same_append_eq)
qed

section \<open>Sanitized and numbered names\<close>

lemma clean_rooted_plain: "is_rooted p \<Longrightarrow> list_all plain_comp (clean_comps p)"
proof -
  have "list_all plain_comp st \<Longrightarrow> \<forall>c\<in>set cs. slash \<notin> set c \<Longrightarrow> list_all plain_comp (fold (clean_step True) cs st)"
    for cs st
  proof (induction cs arbitrary: st)
    case (Cons c cs)
    then have "slash \<notin> set c" by simp
    then have "c \<noteq> [] \<and> c \<noteq> ''.'' \<and> c \<noteq> ''..'' \<longrightarrow> plain_comp c" by (simp add: plain_comp_def)
    moreover have "\<not> plain_comp ''..''" by (simp add: plain_comp_def)
    ultimately have "list_all plain_comp (clean_step True c st)"
      using Cons.prems(1) by (auto simp: clean_step_def split: list.splits)
    with Cons show ?case by simp
  qed simp
  from this [of "[]" "go_split slash p"] show "is_rooted p \<Longrightarrow> ?thesis"
    by (auto simp: clean_comps_def list_all_rev dest: go_split_part)
qed

lemma last_go_join:
  assumes "cs \<noteq> []" "last cs \<noteq> []" "slash \<notin> set (last cs)"
  shows "last (go_join ''/'' cs) \<noteq> slash" "go_join ''/'' cs \<noteq> []"
  using assms by (induction "''/''" cs rule: go_join.induct) (auto split: if_splits dest: last_in_set)

lemma Base_rooted:
  assumes "cs \<noteq> []" "list_all plain_comp cs"
  shows "Base (slash # go_join ''/'' cs) = last cs"
proof -
  have l: "last cs \<noteq> []" "slash \<notin> set (last cs)"
    using assms by (auto simp: list_all_iff plain_comp_def)
  let ?p = "slash # go_join ''/'' cs"
  have "dropWhile (\<lambda>c. c = slash) (rev ?p) = rev ?p"
    using last_go_join [OF assms(1) l] by (cases "rev (go_join ''/'' cs)") (auto simp: last_rev hd_rev [symmetric])
  moreover have "go_split slash ?p = [] # cs"
    using assms by (simp, intro go_split_join) (auto simp: list_all_iff plain_comp_def)
  ultimately show ?thesis using assms(1) l by (simp add: Base_def del: rev.simps)
qed

lemma sanitizeName_plain: "plain_comp (sanitizeName name)"
proof -
  let ?p = "slash # name"
  have r: "is_rooted ?p" by (simp add: is_rooted_def)
  have cs: "list_all plain_comp (clean_comps ?p)" by (rule clean_rooted_plain [OF r])
  show ?thesis
  proof (cases "clean_comps ?p = []")
    case True
    then show ?thesis by (simp add: sanitizeName_def Clean_def r Base_def plain_comp_def)
  next
    case False
    then have l: "plain_comp (last (clean_comps ?p))" using cs by (simp add: list_all_iff)
    then have "dropWhile (\<lambda>c. c = slash) (last (clean_comps ?p)) = last (clean_comps ?p)"
      by (cases "last (clean_comps ?p)") (auto simp: plain_comp_def)
    with False l show ?thesis
      by (simp add: sanitizeName_def Clean_def r Base_rooted [OF False cs] Let_def del: dropWhile_eq_Nil_conv)
        (simp add: plain_comp_def)
  qed
qed

lemma TrimSuffix_append: "TrimSuffix (a @ b) b = a"
  by (simp add: TrimSuffix_def suffix_def)

lemma Ext_split:
  obtains stem where "name = stem @ Ext name" "TrimSuffix name (Ext name) = stem" "slash \<notin> set (Ext name)"
    "\<And>d. d \<in> set (tl (Ext name)) \<Longrightarrow> d \<noteq> CHR ''.''" "Ext name \<noteq> [] \<Longrightarrow> hd (Ext name) = CHR ''.''"
proof (cases "has_ext name")
  case True
  define t where "t = takeWhile (\<lambda>c. c \<noteq> CHR ''.'') (rev name)"
  have dot: "CHR ''.'' \<in> set (rev name)" using True by (auto simp: has_ext_def dest: set_takeWhileD)
  then have "dropWhile (\<lambda>c. c \<noteq> CHR ''.'') (rev name) \<noteq> []" by (auto simp: dropWhile_eq_Nil_conv)
  from this hd_dropWhile [OF this] obtain r where "dropWhile (\<lambda>c. c \<noteq> CHR ''.'') (rev name) = CHR ''.'' # r"
    by (cases "dropWhile (\<lambda>c. c \<noteq> CHR ''.'') (rev name)") auto
  then have rn: "rev name = t @ CHR ''.'' # r"
    using takeWhile_dropWhile_id [of "\<lambda>c. c \<noteq> CHR ''.''" "rev name"] by (simp add: t_def)
  have ext: "Ext name = CHR ''.'' # rev t" using True by (simp add: Ext_def t_def)
  have n: "name = rev r @ Ext name" unfolding ext using arg_cong [OF rn, of rev] by simp
  have "slash \<notin> set t"
  proof
    assume "slash \<in> set t"
    then have "takeWhile (\<lambda>c. c \<noteq> slash) (rev name) = takeWhile (\<lambda>c. c \<noteq> slash) t"
      unfolding rn by (intro takeWhile_append1) auto
    then have "CHR ''.'' \<in> set t" using True by (auto simp: has_ext_def dest: set_takeWhileD)
    then show False by (auto simp: t_def dest: set_takeWhileD)
  qed
  then have "slash \<notin> set (Ext name)" by (simp add: ext)
  moreover have "d \<noteq> CHR ''.''" if "d \<in> set (tl (Ext name))" for d
    using that by (auto simp: ext t_def dest: set_takeWhileD)
  moreover have "TrimSuffix name (Ext name) = rev r"
    using TrimSuffix_append [of "rev r" "Ext name"] by (simp only: n [symmetric])
  moreover have "hd (Ext name) = CHR ''.''" by (simp add: ext)
  ultimately show thesis using n by (intro that [of "rev r"])
next
  case False
  then show thesis using that [of name] by (simp add: Ext_def TrimSuffix_def)
qed

lemma go_split_append_tail:
  "c \<notin> set t \<Longrightarrow> go_split c (s @ t) = butlast (go_split c s) @ [last (go_split c s) @ t]"
  by (induction s) (auto simp: go_split_no_sep split: list.splits)

lemma numbered_eq:
  obtains stem ext where "name = stem @ ext" "\<And>i. numbered name i = stem @ '' ('' @ show_nat i @ '')'' @ ext"
    "slash \<notin> set ext" "ext = Ext name"
  by (rule Ext_split [of name]) (metis numbered_def that)

lemma show_nat_slash [simp]: "slash \<notin> set (show_nat i)"
  using show_nat_digits [of i] by (auto simp: is_digit_def)

lemma numbered_plain:
  assumes "plain_rel name"
  shows "plain_rel (numbered name i)"
proof -
  obtain stem ext where e: "name = stem @ ext" "\<And>i. numbered name i = stem @ '' ('' @ show_nat i @ '')'' @ ext"
    "slash \<notin> set ext" using numbered_eq [of name] by metis
  let ?cs = "go_split slash stem"
  have "list_all plain_comp (butlast ?cs @ [last ?cs @ ext])"
    using assms go_split_append_tail [OF e(3), of stem] by (simp add: plain_rel_def e(1))
  moreover have "slash \<notin> set ('' ('' @ show_nat i @ '')'' @ ext)" using e(3) by simp
  moreover have "slash \<notin> set (last ?cs)" by (intro go_split_part [of _ _ stem]) simp
  ultimately show ?thesis
    unfolding plain_rel_def e(2)
    using go_split_append_tail [of slash "'' ('' @ show_nat i @ '')'' @ ext" stem]
    by (auto simp: plain_comp_def append_eq_Cons_conv)
qed

lemma numbered_inj: "numbered name i = numbered name j \<longleftrightarrow> i = j"
  by (rule numbered_eq [of name]) (simp add: show_nat_inj)

lemma next_free_finds:
  assumes "free (Join dir (numbered name (i + k)))"
  shows "\<exists>j. next_free free dir name i = Some (Join dir (numbered name j)) \<and> free (Join dir (numbered name j))"
  using assms
proof (induction k arbitrary: i)
  case 0
  then show ?case by (subst next_free.simps) (auto simp: Let_def)
next
  case (Suc k)
  then have "\<exists>j. next_free free dir name (i + 1) = Some (Join dir (numbered name j)) \<and> free (Join dir (numbered name j))"
    by (intro Suc.IH) simp
  then show ?case by (subst next_free.simps) (auto simp: Let_def)
qed

text \<open>The loop ends: the numbered names differ, and only finitely many of them are taken.\<close>

lemma next_free_ends:
  assumes "plain_rel name" "finite {c. \<not> free c}"
  shows "\<exists>j. next_free free dir name i = Some (Join dir (numbered name j)) \<and> free (Join dir (numbered name j))"
proof -
  let ?c = "\<lambda>k. Join dir (numbered name (i + k))"
  have "inj ?c"
    by (rule injI) (metis Join_plain_inj add_left_cancel assms(1) numbered_inj numbered_plain)
  then have "infinite (range ?c)" using finite_imageD infinite_UNIV_nat by blast
  then have "\<not> range ?c \<subseteq> {c. \<not> free c}" using assms(2) finite_subset by blast
  then obtain k where "free (?c k)" by auto
  then show ?thesis by (rule next_free_finds)
qed

text \<open>The names \<^verbatim>\<open>uniquePathExcept\<close> may give a file: its own, or a numbered one.\<close>

definition variant :: "string \<Rightarrow> string \<Rightarrow> bool" where
  "variant name n \<longleftrightarrow> n = name \<or> (\<exists>i. n = numbered name i)"

lemma variant_plain: "plain_rel name \<Longrightarrow> variant name n \<Longrightarrow> plain_rel n"
  by (auto simp: variant_def numbered_plain)

lemma unique_path:
  assumes "plain_rel name" "finite {c. exists c}" "finite {c. taken c}"
  obtains n where "uniquePathExcept exists dir name taken = Some (Join dir n)" "variant name n"
    "\<not> exists (Join dir n)" "\<not> taken (Join dir n)"
proof (cases "\<not> exists (Join dir name) \<and> \<not> taken (Join dir name)")
  case True
  then show thesis by (intro that [of name]) (auto simp: uniquePathExcept_def variant_def)
next
  case False
  let ?free = "\<lambda>c. \<not> exists c \<and> \<not> taken c"
  have "{c. \<not> ?free c} = {c. exists c} \<union> {c. taken c}" by auto
  then have "finite {c. \<not> ?free c}" using assms(2,3) by simp
  from next_free_ends [OF assms(1) this, of dir 1] obtain j where
    "next_free ?free dir name 1 = Some (Join dir (numbered name j))" "?free (Join dir (numbered name j))" by blast
  with False show thesis by (intro that [of "numbered name j"]) (auto simp: uniquePathExcept_def variant_def)
qed

lemma next_free_sound:
  assumes "next_free free dir name i = Some c"
  shows "free c \<and> (\<exists>j. c = Join dir (numbered name j))"
  by (rule next_free.raw_induct [OF _ assms, where P = "\<lambda>free dir name i c. free c \<and> (\<exists>j. c = Join dir (numbered name j))"])
    (fastforce simp: Let_def split: if_splits)

lemma unique_path_sound:
  assumes "uniquePathExcept exists dir name taken = Some c"
  obtains n where "c = Join dir n" "variant name n" "\<not> exists c" "\<not> taken c"
  using assms next_free_sound [of "\<lambda>c. \<not> exists c \<and> \<not> taken c" dir name 1 c]
  by (auto simp: uniquePathExcept_def variant_def Let_def split: if_splits)

section \<open>How names end\<close>

lemma suffix_append_notin:
  assumes "suffix t (a @ b)" "a \<noteq> [] \<longrightarrow> last a \<notin> set t"
  shows "suffix t b"
proof (cases "a = []")
  case False
  from assms(1) have "suffix t b \<or> (\<exists>w. t = w @ b \<and> suffix w a)" by (simp add: suffix_append)
  moreover have "suffix t b" if "t = w @ b" "suffix w a" for w
  proof (cases "w = []")
    case w: False
    then have "last w = last a" using that(2) by (auto simp: suffix_def)
    with that(1) w assms(2) False show ?thesis by (auto dest: last_in_set)
  qed (use that in simp)
  ultimately show ?thesis by blast
qed (use assms in simp)

lemma numbered_suffix:
  assumes "suffix t (numbered name i)" "CHR '')'' \<notin> set t"
  shows "suffix t name"
proof -
  obtain stem ext where e: "name = stem @ ext" "numbered name i = stem @ '' ('' @ show_nat i @ '')'' @ ext"
    using numbered_eq [of name] by metis
  have "suffix t ((stem @ '' ('' @ show_nat i @ '')'') @ ext)" using assms(1) by (simp add: e(2))
  then have "suffix t ext" by (rule suffix_append_notin) (use assms(2) in simp)
  with e(1) show ?thesis by (simp add: suffix_appendI)
qed

lemma variant_suffix: "variant name n \<Longrightarrow> suffix t n \<Longrightarrow> CHR '')'' \<notin> set t \<Longrightarrow> suffix t name"
  by (auto simp: variant_def dest: numbered_suffix)

lemma go_join_append: "xs \<noteq> [] \<Longrightarrow> ys \<noteq> [] \<Longrightarrow> go_join sep (xs @ ys) = go_join sep xs @ sep @ go_join sep ys"
  by (induction sep xs rule: go_join.induct) (auto simp: go_join_Cons)

lemma Join_ends:
  assumes "plain_rel n"
  obtains pre where "Join d n = pre @ n" "pre \<noteq> [] \<longrightarrow> last pre = slash"
proof (cases "dir_comps d = []")
  case True
  then show thesis using that [of "if is_rooted d then ''/'' else []"] by (simp add: Join_plain [OF assms])
next
  case False
  then show thesis
    using that [of "(if is_rooted d then ''/'' else []) @ go_join ''/'' (dir_comps d) @ ''/''"]
    by (simp add: Join_plain [OF assms] go_join_append)
qed

lemma Join_suffix: "plain_rel n \<Longrightarrow> suffix t (Join d n) \<Longrightarrow> slash \<notin> set t \<Longrightarrow> suffix t n"
  by (elim Join_ends [of n d]) (auto intro: suffix_append_notin)

lemma dir_comps_plain: "plain_rel d \<Longrightarrow> dir_comps d = go_split slash d"
  using plain_rel_start [of d] clean_step_plain [of "go_split slash d" False "[]"]
  by (simp add: dir_comps_def clean_comps_def plain_rel_def)

lemma Join_plain_rel:
  assumes "plain_rel b" "a = [] \<or> plain_rel a"
  shows "plain_rel (Join a b)"
proof -
  have cs: "list_all plain_comp (dir_comps a @ go_split slash b)"
    using assms dir_comps_plain [of a] by (auto simp: plain_rel_def) (simp add: dir_comps_def)
  then have "go_split slash (go_join ''/'' (dir_comps a @ go_split slash b)) = dir_comps a @ go_split slash b"
    by (intro go_split_join) (auto simp: list_all_iff plain_comp_def)
  moreover have "\<not> is_rooted a" using assms(2) plain_rel_start by (auto simp: is_rooted_def)
  ultimately show ?thesis using cs by (simp add: plain_rel_def Join_plain [OF assms(1)])
qed

text \<open>A tail without slashes may be added to a name before or after it is joined.\<close>

lemma Join_append_tail:
  assumes "plain_rel n" "slash \<notin> set t" "2 < length t"
  shows "Join d n @ t = Join d (n @ t)" "plain_rel (n @ t)"
proof -
  let ?cs = "go_split slash n"
  have split: "go_split slash (n @ t) = butlast ?cs @ [last ?cs @ t]" by (rule go_split_append_tail [OF assms(2)])
  have "slash \<notin> set (last ?cs)" by (intro go_split_part [of _ _ n]) simp
  then have "plain_comp (last ?cs @ t)"
    using assms(2,3) by (auto simp: plain_comp_def dest!: arg_cong [of _ _ length])
  moreover have "list_all plain_comp (butlast ?cs)"
    using assms(1) by (auto simp: plain_rel_def list_all_iff dest: in_set_butlastD)
  ultimately show p: "plain_rel (n @ t)" by (simp add: plain_rel_def split)
  have "go_join ''/'' (xs @ [x]) @ t = go_join ''/'' (xs @ [x @ t])" for xs x
    by (induction "''/''" xs rule: go_join.induct) auto
  from this [of "dir_comps d @ butlast ?cs" "last ?cs"]
  show "Join d n @ t = Join d (n @ t)" by (simp add: Join_plain [OF assms(1)] Join_plain [OF p] split)
qed

end
