(* ===== verification/Json.thy ===== *)
theory Json
  imports Go_Strings
begin

text \<open>
  Go's \<^verbatim>\<open>encoding/json\<close> as far as the wire protocol uses it: \<^verbatim>\<open>Marshal\<close> of strings, integers,
  booleans, arrays and structs (HTML-escaping, invalid UTF-8 replaced by U+FFFD), and
  \<^verbatim>\<open>Unmarshal\<close>'s parser (whitespace, escapes with surrogate pairs, number syntax). A number is kept
  as its literal, as Go's decoder does until it knows the field's type. The decoder's nesting
  limit of 10000 is not modelled.
\<close>

section \<open>UTF-8\<close>

abbreviation cv :: "char \<Rightarrow> nat" where
  "cv c \<equiv> of_char c"

definition cont :: "char \<Rightarrow> bool" where
  "cont c \<longleftrightarrow> 128 \<le> cv c \<and> cv c \<le> 191"

text \<open>The length of an encoding by its first byte (0: no first byte), and its other bytes.\<close>

definition rune_size :: "char \<Rightarrow> nat" where
  "rune_size a =
     (if cv a < 128 then 1
      else if 194 \<le> cv a \<and> cv a \<le> 223 then 2
      else if 224 \<le> cv a \<and> cv a \<le> 239 then 3
      else if 240 \<le> cv a \<and> cv a \<le> 244 then 4
      else 0)"

definition rune_ok :: "string \<Rightarrow> bool" where
  "rune_ok r \<longleftrightarrow> list_all cont (tl r) \<and>
     (cv (hd r) = 224 \<longrightarrow> 160 \<le> cv (r ! 1)) \<and> (cv (hd r) = 237 \<longrightarrow> cv (r ! 1) \<le> 159) \<and>
     (cv (hd r) = 240 \<longrightarrow> 144 \<le> cv (r ! 1)) \<and> (cv (hd r) = 244 \<longrightarrow> cv (r ! 1) \<le> 143)"

text \<open>\<^verbatim>\<open>utf8.DecodeRune\<close>: the length of the valid encoding at the head of \<^term>\<open>s\<close>, 0 if there is none.\<close>

definition rune_len :: "string \<Rightarrow> nat" where
  "rune_len s = (case s of [] \<Rightarrow> 0 | a # _ \<Rightarrow>
     let n = rune_size a in if 0 < n \<and> n \<le> length s \<and> rune_ok (take n s) then n else 0)"

lemma rune_len_Nil [simp]: "rune_len [] = 0"
  by (simp add: rune_len_def)

lemma rune_len_ascii [simp]: "cv c < 128 \<Longrightarrow> rune_len (c # t) = 1"
  by (simp add: rune_len_def rune_size_def rune_ok_def)

lemma rune_len_le: "rune_len s \<le> length s"
  by (simp add: rune_len_def Let_def split: list.splits)

lemma rune_len_take:
  assumes "0 < rune_len s"
  shows "rune_len (take (rune_len s) s @ r) = rune_len s"
proof -
  from assms obtain a t where s: "s = a # t" by (cases s) auto
  with assms have n: "rune_len s = rune_size a" "rune_size a \<le> length s"
      "rune_ok (take (rune_size a) s)" "0 < rune_size a"
    by (auto simp: rune_len_def Let_def split: if_splits)
  then obtain m where m: "rune_size a = Suc m" using gr0_implies_Suc by blast
  then have "take (rune_len s) s @ r = a # (take m t @ r)" unfolding n(1) by (simp add: s)
  moreover have "take (rune_size a) (a # (take m t @ r)) = take (rune_size a) s"
    using n(2) by (simp add: m s)
  ultimately show ?thesis using n by (simp add: rune_len_def [of "a # _"] s m)
qed

function utf8_valid :: "string \<Rightarrow> bool" where
  "utf8_valid s =
     (if s = [] then True else if rune_len s = 0 then False else utf8_valid (drop (rune_len s) s))"
  by pat_completeness auto
termination
  by (relation "measure length") auto

declare utf8_valid.simps [simp del]

lemma utf8_valid_Nil [simp]: "utf8_valid []"
  by (simp add: utf8_valid.simps)

lemma utf8_valid_ascii: "\<forall>c\<in>set s. cv c < 128 \<Longrightarrow> utf8_valid s"
  by (induction s) (simp_all add: utf8_valid.simps [of "_ # _"])

text \<open>\<^verbatim>\<open>utf8.AppendRune\<close> for a scalar value.\<close>

definition utf8_encode :: "nat \<Rightarrow> string" where
  "utf8_encode r =
     (if r < 128 then [char_of r]
      else if r < 2048 then [char_of (192 + r div 64), char_of (128 + r mod 64)]
      else if r < 65536 then
        [char_of (224 + r div 4096), char_of (128 + r div 64 mod 64), char_of (128 + r mod 64)]
      else [char_of (240 + r div 262144), char_of (128 + r div 4096 mod 64),
            char_of (128 + r div 64 mod 64), char_of (128 + r mod 64)])"

definition rune_error :: string where
  "rune_error = [CHR 0xEF, CHR 0xBF, CHR 0xBD]"

section \<open>Values and printing\<close>

datatype json = JNull | JBool bool | JNum string | JStr string | JArr "json list"
  | JObj "(string \<times> json) list"

text \<open>One ASCII character inside a JSON string, HTML-escaped.\<close>

definition json_esc :: "char \<Rightarrow> string" where
  "json_esc c =
     (if c = CHR ''\"'' then [CHR 0x5C, CHR ''\"'']
      else if c = CHR 0x5C then [CHR 0x5C, CHR 0x5C]
      else if c = CHR 0x08 then [CHR 0x5C, CHR ''b'']
      else if c = CHR 0x0C then [CHR 0x5C, CHR ''f'']
      else if c = CHR 0x0A then [CHR 0x5C, CHR ''n'']
      else if c = CHR 0x0D then [CHR 0x5C, CHR ''r'']
      else if c = CHR 0x09 then [CHR 0x5C, CHR ''t'']
      else if cv c < 32 \<or> c = CHR ''<'' \<or> c = CHR ''>'' \<or> c = CHR ''&'' then
        [CHR 0x5C, CHR ''u'', CHR ''0'', CHR ''0'', hex_digit (cv c div 16), hex_digit (cv c mod 16)]
      else [c])"

function json_body :: "string \<Rightarrow> string" where
  "json_body s = (case s of [] \<Rightarrow> [] | c # t \<Rightarrow>
     if cv c < 128 then json_esc c @ json_body t
     else if rune_len s = 0 then CHR 0x5C # ''ufffd'' @ json_body t
     else if take 3 s = [CHR 0xE2, CHR 0x80, CHR 0xA8] then CHR 0x5C # ''u2028'' @ json_body (drop 3 s)
     else if take 3 s = [CHR 0xE2, CHR 0x80, CHR 0xA9] then CHR 0x5C # ''u2029'' @ json_body (drop 3 s)
     else take (rune_len s) s @ json_body (drop (rune_len s) s))"
  by pat_completeness auto
termination
  by (relation "measure length") auto

declare json_body.simps [simp del]

definition json_quote :: "string \<Rightarrow> string" where
  "json_quote s = CHR ''\"'' # json_body s @ [CHR ''\"'']"

fun json_print :: "json \<Rightarrow> string" where
  "json_print JNull = ''null''"
| "json_print (JBool b) = (if b then ''true'' else ''false'')"
| "json_print (JNum s) = s"
| "json_print (JStr s) = json_quote s"
| "json_print (JArr vs) = ''['' @ go_join '','' (map json_print vs) @ '']''"
| "json_print (JObj kvs) =
     CHR 0x7B # go_join '','' (map (\<lambda>(k, v). json_quote k @ '':'' @ json_print v) kvs) @ [CHR 0x7D]"

text \<open>
  \<^verbatim>\<open>json.MarshalIndent(v, "", "  ")\<close>. The first argument is the line break with the indentation
  of the enclosing value.
\<close>

fun json_indent :: "string \<Rightarrow> json \<Rightarrow> string" where
  "json_indent nl (JArr vs) = (if vs = [] then ''[]'' else
     ''['' @ nl @ ''  '' @ go_join ('','' @ nl @ ''  '') (map (json_indent (nl @ ''  '')) vs) @ nl @ '']'')"
| "json_indent nl (JObj kvs) = (if kvs = [] then [CHR 0x7B, CHR 0x7D] else
     CHR 0x7B # nl @ ''  '' @
     go_join ('','' @ nl @ ''  '')
       (map (\<lambda>(k, v). json_quote k @ '': '' @ json_indent (nl @ ''  '') v) kvs) @ nl @ [CHR 0x7D])"
| "json_indent nl v = json_print v"

definition MarshalIndent :: "json \<Rightarrow> bytes" where
  "MarshalIndent v = json_indent [CHR 0x0A] v"

section \<open>Parsing\<close>

definition json_ws :: "char \<Rightarrow> bool" where
  "json_ws c \<longleftrightarrow> c \<in> {CHR '' '', CHR 0x09, CHR 0x0A, CHR 0x0D}"

definition skip_ws :: "string \<Rightarrow> string" where
  "skip_ws s = dropWhile json_ws s"

text \<open>\<^verbatim>\<open>getu4\<close>: the value of four hexadecimal digits.\<close>

definition hex4 :: "string \<Rightarrow> nat option" where
  "hex4 s = (case s of a # b # c # d # _ \<Rightarrow>
       (case (hex_val a, hex_val b, hex_val c, hex_val d) of
          (Some w, Some x, Some y, Some z) \<Rightarrow> Some (w * 4096 + x * 256 + y * 16 + z)
        | _ \<Rightarrow> None)
     | _ \<Rightarrow> None)"

definition surrogate :: "nat \<Rightarrow> bool" where
  "surrogate r \<longleftrightarrow> 55296 \<le> r \<and> r \<le> 57343"

text \<open>A second escape that completes a surrogate pair begun by \<^term>\<open>r\<close>: the rune.\<close>

definition low_pair :: "nat \<Rightarrow> string \<Rightarrow> nat option" where
  "low_pair r s = (case s of a # b # t \<Rightarrow>
       if a = CHR 0x5C \<and> b = CHR ''u'' \<and> r < 56320 then
         (case hex4 t of
            Some q \<Rightarrow> if 56320 \<le> q \<and> q \<le> 57343
              then Some (65536 + (r - 55296) * 1024 + (q - 56320)) else None
          | None \<Rightarrow> None)
       else None
     | _ \<Rightarrow> None)"

definition simple_escape :: "char \<Rightarrow> char option" where
  "simple_escape c = map_of
     [(CHR ''\"'', CHR ''\"''), (CHR 0x5C, CHR 0x5C), (CHR ''/'', CHR ''/''), (CHR ''b'', CHR 0x08),
      (CHR ''f'', CHR 0x0C), (CHR ''n'', CHR 0x0A), (CHR ''r'', CHR 0x0D), (CHR ''t'', CHR 0x09)] c"

text \<open>The rest of a string literal after its opening quote: the decoded text and what follows.\<close>

function p_chars :: "string \<Rightarrow> (string \<times> string) option" where
  "p_chars s = (case s of [] \<Rightarrow> None | c # t \<Rightarrow>
     if c = CHR ''\"'' then Some ([], t)
     else if c = CHR 0x5C then
       (case t of [] \<Rightarrow> None | e # u \<Rightarrow>
          if e = CHR ''u'' then
            (case hex4 u of None \<Rightarrow> None
             | Some r \<Rightarrow>
                 if surrogate r then
                   (case low_pair r (drop 4 u) of
                      Some q \<Rightarrow> map_option (apfst ((@) (utf8_encode q))) (p_chars (drop 10 u))
                    | None \<Rightarrow> map_option (apfst ((@) rune_error)) (p_chars (drop 4 u)))
                 else map_option (apfst ((@) (utf8_encode r))) (p_chars (drop 4 u)))
          else (case simple_escape e of None \<Rightarrow> None
                | Some d \<Rightarrow> map_option (apfst ((#) d)) (p_chars u)))
     else if cv c < 32 then None
     else if cv c < 128 then map_option (apfst ((#) c)) (p_chars t)
     else if rune_len s = 0 then map_option (apfst ((@) rune_error)) (p_chars t)
     else map_option (apfst ((@) (take (rune_len s) s))) (p_chars (drop (rune_len s) s)))"
  by pat_completeness auto
termination
  by (relation "measure length") auto

declare p_chars.simps [simp del]

text \<open>Number literals.\<close>

definition p_digits :: "string \<Rightarrow> (string \<times> string) option" where
  "p_digits s = (let d = takeWhile is_digit s in
     if d = [] then None else Some (d, dropWhile is_digit s))"

definition p_frac :: "string \<Rightarrow> (string \<times> string) option" where
  "p_frac s = (case s of c # t \<Rightarrow>
       if c = CHR ''.'' then map_option (apfst ((#) c)) (p_digits t) else Some ([], s)
     | [] \<Rightarrow> Some ([], []))"

definition p_exp :: "string \<Rightarrow> (string \<times> string) option" where
  "p_exp s = (case s of c # t \<Rightarrow>
       if c = CHR ''e'' \<or> c = CHR ''E'' then
         (case t of d # u \<Rightarrow>
            if d = CHR ''+'' \<or> d = CHR ''-'' then map_option (apfst (\<lambda>x. c # d # x)) (p_digits u)
            else map_option (apfst ((#) c)) (p_digits t)
          | [] \<Rightarrow> None)
       else Some ([], s)
     | [] \<Rightarrow> Some ([], []))"

definition p_int :: "string \<Rightarrow> (string \<times> string) option" where
  "p_int s = (case s of c # t \<Rightarrow>
       if c = CHR ''0'' then Some ([c], t) else p_digits s
     | [] \<Rightarrow> None)"

definition p_num :: "string \<Rightarrow> (string \<times> string) option" where
  "p_num s = (let (sgn, t) = (case s of c # u \<Rightarrow> if c = CHR ''-'' then ([c], u) else ([], s)
                              | [] \<Rightarrow> ([], s)) in
     case p_int t of None \<Rightarrow> None | Some (i, u) \<Rightarrow>
       (case p_frac u of None \<Rightarrow> None | Some (f, v) \<Rightarrow>
          (case p_exp v of None \<Rightarrow> None | Some (e, w) \<Rightarrow> Some (sgn @ i @ f @ e, w))))"

definition p_lit :: "string \<Rightarrow> 'a \<Rightarrow> string \<Rightarrow> ('a \<times> string) option" where
  "p_lit l v s = (if prefix l s then Some (v, drop (length l) s) else None)"

text \<open>
  Values, array elements and object members. The first argument is fuel: one unit per call.
  \<^verbatim>\<open>json_unmarshal\<close> gives more than any input of that length can use.
\<close>

fun p_value :: "nat \<Rightarrow> string \<Rightarrow> (json \<times> string) option"
  and p_elems :: "nat \<Rightarrow> string \<Rightarrow> (json list \<times> string) option"
  and p_members :: "nat \<Rightarrow> string \<Rightarrow> ((string \<times> json) list \<times> string) option" where
  "p_value 0 s = None"
| "p_value (Suc n) s = (case s of [] \<Rightarrow> None | c # t \<Rightarrow>
     if c = CHR 0x7B then
       (case skip_ws t of [] \<Rightarrow> None | d # u \<Rightarrow>
          if d = CHR 0x7D then Some (JObj [], u)
          else map_option (apfst JObj) (p_members n (d # u)))
     else if c = CHR ''['' then
       (case skip_ws t of [] \<Rightarrow> None | d # u \<Rightarrow>
          if d = CHR '']'' then Some (JArr [], u)
          else map_option (apfst JArr) (p_elems n (d # u)))
     else if c = CHR ''\"'' then map_option (apfst JStr) (p_chars t)
     else if c = CHR ''t'' then p_lit ''true'' (JBool True) s
     else if c = CHR ''f'' then p_lit ''false'' (JBool False) s
     else if c = CHR ''n'' then p_lit ''null'' JNull s
     else map_option (apfst JNum) (p_num s))"
| "p_elems 0 s = None"
| "p_elems (Suc n) s = (case p_value n s of None \<Rightarrow> None | Some (v, t) \<Rightarrow>
     (case skip_ws t of [] \<Rightarrow> None | d # u \<Rightarrow>
        if d = CHR '']'' then Some ([v], u)
        else if d = CHR '','' then map_option (apfst ((#) v)) (p_elems n (skip_ws u))
        else None))"
| "p_members 0 s = None"
| "p_members (Suc n) s = (case s of [] \<Rightarrow> None | q # s' \<Rightarrow>
     if q \<noteq> CHR ''\"'' then None
     else (case p_chars s' of None \<Rightarrow> None | Some (k, t) \<Rightarrow>
       (case skip_ws t of [] \<Rightarrow> None | col # t' \<Rightarrow>
          if col \<noteq> CHR '':'' then None
          else (case p_value n (skip_ws t') of None \<Rightarrow> None | Some (v, u) \<Rightarrow>
            (case skip_ws u of [] \<Rightarrow> None | d # w \<Rightarrow>
               if d = CHR 0x7D then Some ([(k, v)], w)
               else if d = CHR '','' then map_option (apfst ((#) (k, v))) (p_members n (skip_ws w))
               else None)))))"

definition json_unmarshal :: "bytes \<Rightarrow> json option" where
  "json_unmarshal s = (case p_value (2 * length s + 2) (skip_ws s) of
     Some (v, t) \<Rightarrow> if skip_ws t = [] then Some v else None
   | None \<Rightarrow> None)"

end
