(* ===== verification/Json_Laws.thy ===== *)
theory Json_Laws
  imports Json
begin

text \<open>
  Reading back what was printed: strings of valid UTF-8, integers, arrays and objects. The fuel of
  the parser is always enough: two units for every byte of the input.
\<close>

section \<open>Strings\<close>

lemma simple_escapes:
  "simple_escape CHR ''\"'' = Some CHR ''\"''" "simple_escape CHR 0x5C = Some CHR 0x5C"
  "simple_escape CHR ''b'' = Some CHR 0x08" "simple_escape CHR ''f'' = Some CHR 0x0C"
  "simple_escape CHR ''n'' = Some CHR 0x0A" "simple_escape CHR ''r'' = Some CHR 0x0D"
  "simple_escape CHR ''t'' = Some CHR 0x09"
  by (simp_all add: simple_escape_def)

lemma p_chars_quote: "p_chars (CHR ''\"'' # t) = Some ([], t)"
  by (simp add: p_chars.simps [of "_ # _"])

lemma p_chars_simple:
  "e \<noteq> CHR ''u'' \<Longrightarrow> simple_escape e = Some d \<Longrightarrow>
   p_chars (CHR 0x5C # e # u) = map_option (apfst ((#) d)) (p_chars u)"
  by (simp add: p_chars.simps [of "_ # _"])

lemma p_chars_u4:
  assumes "hex4 [a, b, c, d] = Some r" "\<not> surrogate r"
  shows "p_chars (CHR 0x5C # CHR ''u'' # a # b # c # d # u) =
    map_option (apfst ((@) (utf8_encode r))) (p_chars u)"
proof -
  have "hex4 (a # b # c # d # u) = Some r"
    using assms(1) by (simp add: hex4_def)
  with assms(2) show ?thesis by (simp add: p_chars.simps [of "CHR 0x5C # _"])
qed

lemma p_chars_plain:
  "32 \<le> cv c \<Longrightarrow> cv c < 128 \<Longrightarrow> c \<noteq> CHR ''\"'' \<Longrightarrow> c \<noteq> CHR 0x5C \<Longrightarrow>
   p_chars (c # t) = map_option (apfst ((#) c)) (p_chars t)"
  by (simp add: p_chars.simps [of "_ # _"])

lemma p_chars_rune:
  assumes "128 \<le> cv c" "0 < rune_len (c # t)"
  shows "p_chars (c # t) =
    map_option (apfst ((@) (take (rune_len (c # t)) (c # t)))) (p_chars (drop (rune_len (c # t)) (c # t)))"
proof -
  have "c \<noteq> CHR ''\"''" "c \<noteq> CHR 0x5C" using assms(1) by auto
  with assms show ?thesis by (simp add: p_chars.simps [of "c # t"])
qed

lemma hex4_00:
  assumes "cv c < 256"
  shows "hex4 [CHR ''0'', CHR ''0'', hex_digit (cv c div 16), hex_digit (cv c mod 16)] = Some (cv c)"
proof -
  have "cv c div 16 < 16" using assms by linarith
  moreover have "hex_val CHR ''0'' = Some 0" by (simp add: hex_val_def)
  ultimately show ?thesis by (simp add: hex4_def)
qed

lemma append_single: "(@) [c] = (#) c"
  by (simp add: fun_eq_iff)

lemma p_chars_esc:
  assumes "cv c < 128"
  shows "p_chars (json_esc c @ s) = map_option (apfst ((#) c)) (p_chars s)"
proof (cases "c \<in> {CHR ''\"'', CHR 0x5C, CHR 0x08, CHR 0x0C, CHR 0x0A, CHR 0x0D, CHR 0x09}")
  case True
  then show ?thesis by (auto simp: json_esc_def p_chars_simple simple_escapes)
next
  case False
  show ?thesis
  proof (cases "cv c < 32 \<or> c = CHR ''<'' \<or> c = CHR ''>'' \<or> c = CHR ''&''")
    case True
    have "\<not> surrogate (cv c)" using assms by (simp add: surrogate_def)
    moreover have "utf8_encode (cv c) = [c]" using assms by (simp add: utf8_encode_def)
    ultimately show ?thesis
      using False True hex4_00 [of c] by (simp add: json_esc_def p_chars_u4 append_single)
  next
    case plain: False
    with False assms show ?thesis by (simp add: json_esc_def p_chars_plain)
  qed
qed

lemma hex4_line_seps: "hex4 ''2028'' = Some 8232" "hex4 ''2029'' = Some 8233"
  by (simp_all add: hex4_def hex_val_def)

lemma char_of_val: "of_char c = (n :: nat) \<Longrightarrow> char_of n = c"
  by auto

lemma utf8_line_seps:
  "utf8_encode 8232 = [CHR 0xE2, CHR 0x80, CHR 0xA8]" "utf8_encode 8233 = [CHR 0xE2, CHR 0x80, CHR 0xA9]"
proof -
  have "char_of (226 :: nat) = CHR 0xE2" "char_of (128 :: nat) = CHR 0x80"
       "char_of (168 :: nat) = CHR 0xA8" "char_of (169 :: nat) = CHR 0xA9"
    by (rule char_of_val, simp)+
  then show "utf8_encode 8232 = [CHR 0xE2, CHR 0x80, CHR 0xA8]"
      "utf8_encode 8233 = [CHR 0xE2, CHR 0x80, CHR 0xA9]"
    by (simp_all add: utf8_encode_def)
qed

lemma rune_len_3:
  assumes "take 3 s = [CHR 0xE2, CHR 0x80, x]" "0 < rune_len s"
  shows "rune_len s = 3"
proof -
  from assms(1) obtain t where "s = CHR 0xE2 # t" by (cases s) auto
  with assms(2) show ?thesis
    by (auto simp: rune_len_def Let_def rune_size_def split: if_splits)
qed

lemma json_body_ascii: "cv c < 128 \<Longrightarrow> json_body (c # t) = json_esc c @ json_body t"
  by (simp add: json_body.simps [of "c # t"])

lemma json_body_multi:
  "128 \<le> cv c \<Longrightarrow> json_body (c # t) =
    (if rune_len (c # t) = 0 then CHR 0x5C # ''ufffd'' @ json_body t
     else if take 3 (c # t) = [CHR 0xE2, CHR 0x80, CHR 0xA8] then CHR 0x5C # ''u2028'' @ json_body (drop 3 (c # t))
     else if take 3 (c # t) = [CHR 0xE2, CHR 0x80, CHR 0xA9] then CHR 0x5C # ''u2029'' @ json_body (drop 3 (c # t))
     else take (rune_len (c # t)) (c # t) @ json_body (drop (rune_len (c # t)) (c # t)))"
  by (subst json_body.simps) simp

lemma json_body_rune:
  assumes "128 \<le> cv c" "s = c # t" "0 < rune_len s"
  shows "p_chars (json_body s @ r) =
    map_option (apfst ((@) (take (rune_len s) s))) (p_chars (json_body (drop (rune_len s) s) @ r))"
proof -
  consider (ls) "take 3 s = [CHR 0xE2, CHR 0x80, CHR 0xA8]" | (ps) "take 3 s = [CHR 0xE2, CHR 0x80, CHR 0xA9]"
    | (other) "take 3 s \<noteq> [CHR 0xE2, CHR 0x80, CHR 0xA8]" "take 3 s \<noteq> [CHR 0xE2, CHR 0x80, CHR 0xA9]"
    by blast
  then show ?thesis
  proof cases
    case ls
    have n: "rune_len s = 3" using rune_len_3 [OF ls assms(3)] .
    have "json_body s = CHR 0x5C # ''u2028'' @ json_body (drop 3 s)"
      using json_body_multi [OF assms(1), of t, folded assms(2)] ls assms(3) by simp
    then show ?thesis
      using ls n by (simp add: p_chars_u4 hex4_line_seps surrogate_def utf8_line_seps)
  next
    case ps
    have n: "rune_len s = 3" using rune_len_3 [OF ps assms(3)] .
    have "json_body s = CHR 0x5C # ''u2029'' @ json_body (drop 3 s)"
      using json_body_multi [OF assms(1), of t, folded assms(2)] ps assms(3) by simp
    then show ?thesis
      using ps n by (simp add: p_chars_u4 hex4_line_seps surrogate_def utf8_line_seps)
  next
    case other
    then have body: "json_body s = take (rune_len s) s @ json_body (drop (rune_len s) s)"
      using json_body_multi [OF assms(1), of t, folded assms(2)] assms(3) by simp
    let ?n = "rune_len s" and ?u = "take (rune_len s) s @ json_body (drop (rune_len s) s) @ r"
    obtain u' where u': "?u = c # u'"
      using assms by (metis Suc_pred append_Cons take_Suc_Cons)
    have n: "rune_len ?u = ?n" by (rule rune_len_take [OF assms(3)])
    have take_u: "take ?n ?u = take ?n s" and drop_u: "drop ?n ?u = json_body (drop ?n s) @ r"
      using rune_len_le [of s] by simp_all
    from p_chars_rune [OF assms(1), of u'] n assms(3) u' take_u drop_u show ?thesis
      by (simp add: body)
  qed
qed

lemma p_chars_body: "utf8_valid s \<Longrightarrow> p_chars (json_body s @ CHR ''\"'' # r) = Some (s, r)"
proof (induction s rule: utf8_valid.induct)
  case (1 s)
  show ?case
  proof (cases s)
    case Nil
    then show ?thesis by (simp add: json_body.simps [of "[]"] p_chars_quote)
  next
    case (Cons c t)
    then have "s \<noteq> []" by simp
    with "1.prems" utf8_valid.simps [of s]
    have n: "0 < rune_len s" and v: "utf8_valid (drop (rune_len s) s)"
      by (auto split: if_splits)
    with "1.IH" Cons have IH: "p_chars (json_body (drop (rune_len s) s) @ CHR ''\"'' # r) =
        Some (drop (rune_len s) s, r)" by simp
    show ?thesis
    proof (cases "cv c < 128")
      case True
      with Cons IH show ?thesis by (simp add: json_body_ascii p_chars_esc)
    next
      case False
      then have "128 \<le> cv c" by simp
      from json_body_rune [OF this Cons n, of "CHR ''\"'' # r"] IH show ?thesis by simp
    qed
  qed
qed

section \<open>Numbers\<close>

text \<open>What may follow a value inside a printed array or object, or at its end.\<close>

definition json_delim :: "string \<Rightarrow> bool" where
  "json_delim r \<longleftrightarrow> (case r of [] \<Rightarrow> True | c # _ \<Rightarrow> json_ws c \<or> c \<in> {CHR '','', CHR '']'', CHR 0x7D})"

lemma json_delim_simps [simp]:
  "json_delim []" "json_delim (CHR '','' # r)" "json_delim (CHR '']'' # r)" "json_delim (CHR 0x7D # r)"
  by (simp_all add: json_delim_def)

lemma json_delim_num:
  assumes "json_delim r"
  shows "takeWhile is_digit r = []" "dropWhile is_digit r = r" "p_frac r = Some ([], r)" "p_exp r = Some ([], r)"
  using assms by (auto simp: json_delim_def json_ws_def p_frac_def p_exp_def is_digit_def split: list.splits)

lemma p_int_show:
  assumes "json_delim r"
  shows "p_int (show_nat n @ r) = Some (show_nat n, r)"
proof -
  obtain c t where s: "show_nat n = c # t" by (meson neq_Nil_conv show_nat_nonempty)
  show ?thesis
  proof (cases "c = CHR ''0''")
    case True
    have "n < 10"
      using show_nat_hd [of n] s True by (metis list.sel(1) linorder_not_less)
    then have "show_nat n = [digit_char n]" by (simp add: show_nat.simps [of n])
    with s True show ?thesis by (simp add: p_int_def)
  next
    case False
    have "takeWhile is_digit (show_nat n @ r) = show_nat n"
         "dropWhile is_digit (show_nat n @ r) = r"
      using show_nat_digits [of n] json_delim_num(1,2) [OF assms]
      by (simp_all add: takeWhile_append2 dropWhile_append2)
    then have "p_digits (show_nat n @ r) = Some (show_nat n, r)"
      by (simp add: p_digits_def)
    with s False show ?thesis by (simp add: p_int_def)
  qed
qed

lemma show_nat_hd_digit: "show_nat n = c # t \<Longrightarrow> is_digit c"
  using show_nat_digits [of n] by simp

lemma p_num_show:
  assumes "json_delim r"
  shows "p_num (show_int i @ r) = Some (show_int i, r)"
proof -
  note tail = json_delim_num(3,4) [OF assms]
  show ?thesis
  proof (cases "i < 0")
    case True
    with tail show ?thesis by (simp add: p_num_def show_int_def p_int_show [OF assms])
  next
    case False
    obtain c t where s: "show_nat (nat i) = c # t" by (meson neq_Nil_conv show_nat_nonempty)
    then have "c \<noteq> CHR ''-''" using show_nat_hd_digit [OF s] by (auto simp: is_digit_def)
    with s have "(case show_nat (nat i) @ r of c # u \<Rightarrow> if c = CHR ''-'' then ([c], u)
        else ([], show_nat (nat i) @ r) | [] \<Rightarrow> ([], show_nat (nat i) @ r)) = ([], show_nat (nat i) @ r)"
      by simp
    with False tail show ?thesis by (simp add: p_num_def show_int_def p_int_show [OF assms])
  qed
qed

text \<open>The integer a number literal stands for, if it is one an \<^verbatim>\<open>int64\<close> field accepts.\<close>

definition int_of_lit :: "string \<Rightarrow> int option" where
  "int_of_lit s =
     (let (neg, d) = (case s of c # t \<Rightarrow> if c = CHR ''-'' then (True, t) else (False, s)
                      | [] \<Rightarrow> (False, s));
          v = (if neg then - int (nat_of_digits d) else int (nat_of_digits d))
      in if d \<noteq> [] \<and> list_all is_digit d \<and> int64 v then Some v else None)"

lemma int_of_show_int [wire_simps]: "int64 i \<Longrightarrow> int_of_lit (show_int i) = Some i"
proof (cases "i < 0")
  case True
  assume "int64 i"
  with True show ?thesis
    using show_nat_digits [of "nat (- i)"]
    by (simp add: int_of_lit_def show_int_def list_all_iff)
next
  case False
  assume i: "int64 i"
  obtain c t where s: "show_nat (nat i) = c # t" by (meson neq_Nil_conv show_nat_nonempty)
  then have "c \<noteq> CHR ''-''" using show_nat_hd_digit [OF s] by (auto simp: is_digit_def)
  with s have "(case show_nat (nat i) of c # t \<Rightarrow> if c = CHR ''-'' then (True, t) else (False, show_nat (nat i))
      | [] \<Rightarrow> (False, show_nat (nat i))) = (False, show_nat (nat i))"
    by simp
  with False i show ?thesis
    using show_nat_digits [of "nat i"] by (simp add: int_of_lit_def show_int_def list_all_iff)
qed

section \<open>Values\<close>

text \<open>The values the program marshals.\<close>

fun json_ok :: "json \<Rightarrow> bool" where
  "json_ok (JNum s) = (\<exists>i. s = show_int i)"
| "json_ok (JStr s) = utf8_valid s"
| "json_ok (JArr vs) = (\<forall>v\<in>set vs. json_ok v)"
| "json_ok (JObj kvs) = (\<forall>(k, v)\<in>set kvs. utf8_valid k \<and> json_ok v)"
| "json_ok _ = True"

definition value_start :: "char \<Rightarrow> bool" where
  "value_start c \<longleftrightarrow> \<not> json_ws c \<and> c \<noteq> CHR '']'' \<and> c \<noteq> CHR 0x7D"

lemma json_print_start: "json_ok v \<Longrightarrow> \<exists>c t. json_print v = c # t \<and> value_start c"
proof (cases v)
  case (JNum s)
  assume "json_ok v"
  with JNum obtain i where s: "s = show_int i" by auto
  show ?thesis
  proof (cases "i < 0")
    case False
    obtain c t where c: "show_nat (nat i) = c # t" by (meson neq_Nil_conv show_nat_nonempty)
    then have "value_start c" using show_nat_hd_digit [OF c]
      by (auto simp: value_start_def is_digit_def json_ws_def)
    with c False s JNum show ?thesis by (simp add: show_int_def)
  qed (simp add: JNum s show_int_def value_start_def json_ws_def)
qed (auto simp: json_quote_def value_start_def json_ws_def)

lemma skip_ws_start [simp]: "value_start c \<Longrightarrow> skip_ws (c # t) = c # t"
  by (simp add: skip_ws_def value_start_def)

lemma skip_ws_plain [simp]: "\<not> json_ws c \<Longrightarrow> skip_ws (c # t) = c # t"
  by (simp add: skip_ws_def)

lemma json_ws_plain [simp]:
  "\<not> json_ws CHR '','' " "\<not> json_ws CHR '']''" "\<not> json_ws CHR 0x7D" "\<not> json_ws CHR '':''" "\<not> json_ws CHR ''\"''"
  by (simp_all add: json_ws_def)

text \<open>A text that is read as a value, whatever follows it.\<close>

definition reads :: "string \<Rightarrow> json \<Rightarrow> bool" where
  "reads t v \<longleftrightarrow> t \<noteq> [] \<and> value_start (hd t) \<and>
     (\<forall>n r. json_delim r \<longrightarrow> 2 * length t < n \<longrightarrow> p_value n (t @ r) = Some (v, r))"

lemma readsD:
  "reads t v \<Longrightarrow> json_delim r \<Longrightarrow> 2 * length t < n \<Longrightarrow> p_value n (t @ r) = Some (v, r)"
  by (simp add: reads_def)

lemma reads_start: "reads t v \<Longrightarrow> skip_ws (t @ r) = t @ r"
  by (cases t) (auto simp: reads_def)

lemma readsI:
  assumes "t \<noteq> []" "value_start (hd t)"
    "\<And>m r. json_delim r \<Longrightarrow> 2 * length t \<le> m \<Longrightarrow> p_value (Suc m) (t @ r) = Some (v, r)"
  shows "reads t v"
  unfolding reads_def
proof (intro conjI allI impI)
  fix n r
  assume "json_delim r" "2 * length t < n"
  then show "p_value n (t @ r) = Some (v, r)" using assms(3) [of r "n - 1"] by (cases n) auto
qed (use assms in auto)

text \<open>Whitespace may follow a comma and come before a closing bracket.\<close>

definition blank :: "string \<Rightarrow> bool" where
  "blank w \<longleftrightarrow> list_all json_ws w"

lemma blank_simps [simp]:
  "blank []" "blank (c # w) \<longleftrightarrow> json_ws c \<and> blank w" "blank (v @ w) \<longleftrightarrow> blank v \<and> blank w"
  by (simp_all add: blank_def)

lemma skip_ws_blank [simp]: "blank w \<Longrightarrow> skip_ws (w @ s) = skip_ws s"
  by (induction w) (simp_all add: skip_ws_def)

lemma json_delim_blank: "blank w \<Longrightarrow> c \<in> {CHR '','', CHR '']'', CHR 0x7D} \<Longrightarrow> json_delim (w @ c # r)"
  by (cases w) (auto simp: json_delim_def)

lemma p_elems_reads:
  assumes "list_all2 reads ts vs" "ts \<noteq> []" "blank w" "blank w'"
    "2 * length (go_join (CHR '','' # w) ts) + 1 < n"
  shows "p_elems n (go_join (CHR '','' # w) ts @ w' @ CHR '']'' # r) = Some (vs, r)"
  using assms
proof (induction ts vs arbitrary: n rule: list_all2_induct)
  case (Cons t ts v vs)
  from Cons.prems obtain m where n: "n = Suc m" by (cases n) auto
  show ?case
  proof (cases ts)
    case Nil
    with Cons n show ?thesis by (simp add: readsD json_delim_blank)
  next
    case ts: (Cons u us)
    let ?tl = "go_join (CHR '','' # w) ts @ w' @ CHR '']'' # r"
    have join: "go_join (CHR '','' # w) (t # ts) = t @ CHR '','' # w @ go_join (CHR '','' # w) ts"
      using ts by (simp add: go_join_Cons)
    obtain v' where "reads u v'" using Cons.hyps ts by (auto simp: list_all2_Cons1)
    then have "skip_ws ?tl = ?tl" using reads_start [of u] ts by (cases us) auto
    moreover have "p_value m (t @ CHR '','' # w @ ?tl) = Some (v, CHR '','' # w @ ?tl)"
      using Cons.prems Cons.hyps n unfolding join by (intro readsD) simp_all
    moreover have "p_elems m ?tl = Some (vs, r)"
      using Cons.prems n ts unfolding join by (intro Cons.IH) simp_all
    ultimately show ?thesis using Cons.prems unfolding join by (simp add: n)
  qed
qed simp

lemma reads_arr:
  assumes "list_all2 reads ts vs" "blank w" "blank w'" "ts \<noteq> []"
  shows "reads (''['' @ w @ go_join (CHR '','' # w) ts @ w' @ '']'') (JArr vs)"
proof (rule readsI)
  fix m r
  let ?in = "go_join (CHR '','' # w) ts @ w' @ CHR '']'' # r"
  assume m: "2 * length (''['' @ w @ go_join (CHR '','' # w) ts @ w' @ '']'') \<le> m"
  obtain t ts' v where t: "ts = t # ts'" "reads t v"
    using assms(1,4) by (cases ts) (auto simp: list_all2_Cons1)
  then obtain c u where c: "t = c # u" "value_start c" by (cases t) (auto simp: reads_def)
  have "\<exists>u'. ?in = c # u'" using t(1) c by (cases ts') auto
  moreover have "p_elems m ?in = Some (vs, r)" using m assms by (intro p_elems_reads) auto
  ultimately show "p_value (Suc m) ((''['' @ w @ go_join (CHR '','' # w) ts @ w' @ '']'') @ r) = Some (JArr vs, r)"
    using c(2) assms(2) by (auto simp: value_start_def)
qed (simp_all add: value_start_def json_ws_def)

text \<open>An object's members: a quoted key, a colon, whitespace, a value.\<close>

definition member_text :: "string \<Rightarrow> string \<times> string \<Rightarrow> string" where
  "member_text ws kt = json_quote (fst kt) @ '':'' @ ws @ snd kt"

definition member_reads :: "string \<times> string \<Rightarrow> string \<times> json \<Rightarrow> bool" where
  "member_reads kt kv \<longleftrightarrow> fst kt = fst kv \<and> utf8_valid (fst kv) \<and> reads (snd kt) (snd kv)"

lemma p_members_step:
  assumes "member_reads (k, t) (k, v)" "blank ws" "blank w" "d \<in> {CHR 0x7D, CHR '',''}" "2 * length t < m"
  shows "p_members (Suc m) (member_text ws (k, t) @ w @ d # u) =
      (if d = CHR 0x7D then Some ([(k, v)], u)
       else map_option (apfst ((#) (k, v))) (p_members m (skip_ws u)))"
proof -
  have delim: "json_delim (w @ d # u)" and nws: "\<not> json_ws d"
    using assms(3,4) by (auto intro!: json_delim_blank)
  have "p_chars (json_body k @ CHR ''\"'' # CHR '':'' # ws @ t @ w @ d # u) =
      Some (k, CHR '':'' # ws @ t @ w @ d # u)"
    using p_chars_body [of k] assms(1) by (simp add: member_reads_def)
  moreover have "skip_ws (ws @ t @ w @ d # u) = t @ w @ d # u"
    using assms(1,2) reads_start [of t v] by (simp add: member_reads_def)
  moreover have "p_value m (t @ w @ d # u) = Some (v, w @ d # u)"
    using assms(1,5) delim by (intro readsD) (simp_all add: member_reads_def)
  ultimately show ?thesis using nws assms(3,4) by (auto simp: member_text_def json_quote_def)
qed

lemma p_members_reads:
  assumes "list_all2 member_reads kts kvs" "kts \<noteq> []" "blank ws" "blank w" "blank w'"
    "2 * length (go_join (CHR '','' # w) (map (member_text ws) kts)) + 1 < n"
  shows "p_members n (go_join (CHR '','' # w) (map (member_text ws) kts) @ w' @ CHR 0x7D # r) = Some (kvs, r)"
  using assms
proof (induction kts kvs arbitrary: n rule: list_all2_induct)
  case (Cons kt kts kv kvs)
  obtain k t v where kt: "kt = (k, t)" "kv = (k, v)"
    using Cons.hyps(1) by (cases kt; cases kv) (auto simp: member_reads_def)
  from Cons.prems obtain m where n: "n = Suc m" by (cases n) auto
  show ?case
  proof (cases kts)
    case Nil
    then show ?thesis
      using Cons p_members_step [of k t v ws w' "CHR 0x7D" m r] by (simp add: n kt member_text_def)
  next
    case kts: (Cons ku kus)
    let ?tl = "go_join (CHR '','' # w) (map (member_text ws) kts) @ w' @ CHR 0x7D # r"
    have join: "go_join (CHR '','' # w) (map (member_text ws) (kt # kts)) =
        member_text ws kt @ CHR '','' # w @ go_join (CHR '','' # w) (map (member_text ws) kts)"
      using kts by (simp add: go_join_Cons)
    have "\<exists>u'. ?tl = CHR ''\"'' # u'"
      using kts by (cases kus) (auto simp: member_text_def json_quote_def)
    then have "skip_ws (w @ ?tl) = ?tl" using Cons.prems by auto
    moreover have "p_members m ?tl = Some (kvs, r)"
      using Cons.prems n kts unfolding join by (intro Cons.IH) simp_all
    moreover have "2 * length t < m"
      using Cons.prems n unfolding join by (simp add: kt member_text_def)
    ultimately show ?thesis
      using p_members_step [of k t v ws "[]" "CHR '',''" m "w @ ?tl"] Cons unfolding join by (simp add: n kt)
  qed
qed simp

lemma reads_obj:
  assumes "list_all2 member_reads kts kvs" "blank ws" "blank w" "blank w'" "kts \<noteq> []"
  shows "reads (CHR 0x7B # w @ go_join (CHR '','' # w) (map (member_text ws) kts) @ w' @ [CHR 0x7D]) (JObj kvs)"
proof (rule readsI)
  fix m r
  let ?in = "go_join (CHR '','' # w) (map (member_text ws) kts)"
  assume m: "2 * length (CHR 0x7B # w @ ?in @ w' @ [CHR 0x7D]) \<le> m"
  obtain kt kts' where kt: "kts = kt # kts'" using assms(5) by (cases kts) auto
  have "\<exists>u'. ?in @ w' @ CHR 0x7D # r = CHR ''\"'' # u'"
    using kt by (cases kts') (auto simp: member_text_def json_quote_def)
  moreover have "p_members m (?in @ w' @ CHR 0x7D # r) = Some (kvs, r)"
    using m assms by (intro p_members_reads) auto
  ultimately show "p_value (Suc m) ((CHR 0x7B # w @ ?in @ w' @ [CHR 0x7D]) @ r) = Some (JObj kvs, r)"
    using assms(3) by auto
qed (simp_all add: value_start_def json_ws_def)

lemma num_start:
  assumes "show_int i = c # t"
  shows "c = CHR ''-'' \<or> is_digit c"
proof (cases "i < 0")
  case False
  with assms show_nat_hd_digit [of "nat i" c t] show ?thesis by (simp add: show_int_def)
qed (use assms in \<open>simp add: show_int_def\<close>)

lemma reads_num: "reads (show_int i) (JNum (show_int i))"
proof -
  obtain c t where c: "show_int i = c # t"
    by (cases "show_int i") (auto simp: show_int_def split: if_splits)
  have cc: "c = CHR ''-'' \<or> is_digit c" by (rule num_start [OF c])
  then have "c \<notin> {CHR 0x7B, CHR ''['', CHR ''\"'', CHR ''t'', CHR ''f'', CHR ''n''}"
    by (auto simp: is_digit_def)
  moreover have "value_start c" using cc by (auto simp: value_start_def json_ws_def is_digit_def)
  moreover have "p_num ((c # t) @ r) = Some (c # t, r)" if "json_delim r" for r
    using p_num_show [OF that, of i] by (simp add: c)
  ultimately show ?thesis unfolding c by (intro readsI) simp_all
qed

lemma reads_atoms:
  "reads ''null'' JNull" "reads (if b then ''true'' else ''false'') (JBool b)"
  "utf8_valid s \<Longrightarrow> reads (json_quote s) (JStr s)"
  "reads ''[]'' (JArr [])" "reads [CHR 0x7B, CHR 0x7D] (JObj [])"
  by (rule readsI; simp add: p_lit_def value_start_def json_ws_def json_quote_def p_chars_body)+

lemma member_reads_map:
  assumes "\<forall>(k, v)\<in>set kvs. utf8_valid k \<and> reads (f v) v"
  shows "list_all2 member_reads (map (\<lambda>(k, v). (k, f v)) kvs) kvs"
  using assms by (induction kvs) (auto simp: member_reads_def)

lemma json_print_reads: "json_ok v \<Longrightarrow> reads (json_print v) v"
proof (induction v rule: json_print.induct)
  case (3 s)
  then show ?case using reads_num by auto
next
  case (5 vs)
  then have "list_all2 reads (map json_print vs) vs" by (induction vs) auto
  with reads_arr [of "map json_print vs" vs "[]" "[]"] reads_atoms(4) show ?case by (cases vs) auto
next
  case (6 kvs)
  then have "list_all2 member_reads (map (\<lambda>(k, v). (k, json_print v)) kvs) kvs"
    by (intro member_reads_map) fastforce
  moreover have "map (member_text []) (map (\<lambda>(k, v). (k, json_print v)) kvs) =
      map (\<lambda>(k, v). json_quote k @ '':'' @ json_print v) kvs"
    by (auto simp: member_text_def)
  ultimately show ?case
    using reads_obj [of "map (\<lambda>(k, v). (k, json_print v)) kvs" kvs "[]" "[]" "[]"] reads_atoms(5)
    by (cases "kvs = []") (simp_all del: map_map)
qed (use reads_atoms in auto)

lemma json_indent_reads: "blank nl \<Longrightarrow> json_ok v \<Longrightarrow> reads (json_indent nl v) v"
proof (induction nl v rule: json_indent.induct)
  case (1 nl vs)
  let ?nl = "nl @ ''  ''"
  have nl: "blank ?nl" using "1.prems" by (simp add: json_ws_def)
  with "1" have "list_all2 reads (map (json_indent ?nl) vs) vs" by (induction vs) auto
  with reads_arr [of "map (json_indent ?nl) vs" vs ?nl nl] "1.prems"(1) nl reads_atoms(4)
  show ?case by (cases "vs = []") auto
next
  case (2 nl kvs)
  let ?nl = "nl @ ''  ''"
  have nl: "blank ?nl" using "2.prems" by (simp add: json_ws_def)
  with "2" have "list_all2 member_reads (map (\<lambda>(k, v). (k, json_indent ?nl v)) kvs) kvs"
    by (intro member_reads_map) fastforce
  moreover have "map (member_text '' '') (map (\<lambda>(k, v). (k, json_indent ?nl v)) kvs) =
      map (\<lambda>(k, v). json_quote k @ '': '' @ json_indent ?nl v) kvs"
    by (auto simp: member_text_def)
  ultimately show ?case
    using reads_obj [of "map (\<lambda>(k, v). (k, json_indent ?nl v)) kvs" kvs "'' ''" ?nl nl] "2.prems"(1) nl reads_atoms(5)
    by (cases "kvs = []") (simp_all add: json_ws_def del: map_map)
qed (simp_all only: json_indent.simps json_print_reads)

lemma json_unmarshal_reads:
  assumes "reads t v"
  shows "json_unmarshal t = Some v"
proof -
  have "p_value (2 * length t + 2) (t @ []) = Some (v, [])" by (intro readsD assms) auto
  moreover have "skip_ws t = t" using reads_start [OF assms, of "[]"] by simp
  ultimately show ?thesis by (simp add: json_unmarshal_def skip_ws_def [of "[]"] del: p_value.simps)
qed

lemma json_unmarshal_print [wire_simps]: "json_ok v \<Longrightarrow> json_unmarshal (json_print v) = Some v"
  by (intro json_unmarshal_reads json_print_reads)

lemma json_unmarshal_indent [wire_simps]: "json_ok v \<Longrightarrow> json_unmarshal (MarshalIndent v) = Some v"
  unfolding MarshalIndent_def by (intro json_unmarshal_reads json_indent_reads) (simp_all add: json_ws_def)

end
