(* ===== verification/Json_Struct.thy ===== *)
theory Json_Struct
  imports Json_Laws
begin

text \<open>
  Structs as \<^verbatim>\<open>encoding/json\<close> marshals and unmarshals them: members in field order, empty ones
  tagged \<^verbatim>\<open>omitempty\<close> left out, and decoding by a table from field names to setters.
\<close>

section \<open>Encoding\<close>

text \<open>Members tagged \<^verbatim>\<open>omitempty\<close>.\<close>

definition opt_str :: "string \<Rightarrow> string \<Rightarrow> (string \<times> json) list" where
  "opt_str k s = (if s = [] then [] else [(k, JStr s)])"

definition opt_bool :: "string \<Rightarrow> bool \<Rightarrow> (string \<times> json) list" where
  "opt_bool k b = (if b then [(k, JBool True)] else [])"

definition opt_int :: "string \<Rightarrow> int \<Rightarrow> (string \<times> json) list" where
  "opt_int k i = (if i = 0 then [] else [(k, JNum (show_int i))])"

section \<open>Decoding\<close>

text \<open>
  \<^verbatim>\<open>json.Unmarshal\<close> into a struct: the members in order, each into the field whose name its key
  matches, case folded (two runes outside ASCII fold to the letters k and s). Unknown members are
  skipped, \<^verbatim>\<open>null\<close> leaves a field as it is, a value of another type is an error. A repeated list
  decodes into the elements already there.
\<close>

fun fold_key :: "string \<Rightarrow> string" where
  "fold_key [] = []"
| "fold_key (c # s) =
     (if prefix [CHR 0xE2, CHR 0x84, CHR 0xAA] (c # s) then CHR ''k'' # fold_key (drop 2 s)
      else if prefix [CHR 0xC5, CHR 0xBF] (c # s) then CHR ''s'' # fold_key (drop 1 s)
      else lower_char c # fold_key s)"

definition set_str :: "(string \<Rightarrow> 'a \<Rightarrow> 'a) \<Rightarrow> json \<Rightarrow> 'a \<Rightarrow> 'a option" where
  "set_str upd v x = (case v of JNull \<Rightarrow> Some x | JStr s \<Rightarrow> Some (upd s x) | _ \<Rightarrow> None)"

definition set_bool :: "(bool \<Rightarrow> 'a \<Rightarrow> 'a) \<Rightarrow> json \<Rightarrow> 'a \<Rightarrow> 'a option" where
  "set_bool upd v x = (case v of JNull \<Rightarrow> Some x | JBool b \<Rightarrow> Some (upd b x) | _ \<Rightarrow> None)"

definition set_int :: "(int \<Rightarrow> 'a \<Rightarrow> 'a) \<Rightarrow> json \<Rightarrow> 'a \<Rightarrow> 'a option" where
  "set_int upd v x = (case v of JNull \<Rightarrow> Some x
     | JNum l \<Rightarrow> map_option (\<lambda>i. upd i x) (int_of_lit l) | _ \<Rightarrow> None)"

type_synonym 'a fields = "(string \<times> (json \<Rightarrow> 'a \<Rightarrow> 'a option)) list"

fun decode_members :: "'a fields \<Rightarrow> (string \<times> json) list \<Rightarrow> 'a \<Rightarrow> 'a option" where
  "decode_members fs [] x = Some x"
| "decode_members fs ((k, v) # ms) x = (case map_of fs (fold_key k) of
     None \<Rightarrow> decode_members fs ms x
   | Some f \<Rightarrow> (case f v x of None \<Rightarrow> None | Some y \<Rightarrow> decode_members fs ms y))"

definition decode_struct :: "'a fields \<Rightarrow> json \<Rightarrow> 'a \<Rightarrow> 'a option" where
  "decode_struct fs v x = (case v of JNull \<Rightarrow> Some x | JObj ms \<Rightarrow> decode_members fs ms x | _ \<Rightarrow> None)"

fun decode_list :: "'a fields \<Rightarrow> 'a \<Rightarrow> json list \<Rightarrow> 'a list \<Rightarrow> 'a list option" where
  "decode_list fs zero [] old = Some []"
| "decode_list fs zero (v # vs) old =
     (case decode_struct fs v (case old of [] \<Rightarrow> zero | f # _ \<Rightarrow> f) of
        None \<Rightarrow> None
      | Some f \<Rightarrow> map_option ((#) f) (decode_list fs zero vs (tl old)))"

lemma decode_list_map:
  "(\<And>x. x \<in> set xs \<Longrightarrow> decode_struct fs (enc x) zero = Some x) \<Longrightarrow>
   decode_list fs zero (map enc xs) [] = Some xs"
  by (induction xs) simp_all

section \<open>Laws\<close>

lemma decode_members_append:
  "decode_members fs (ms @ ns) x = (case decode_members fs ms x of None \<Rightarrow> None | Some y \<Rightarrow> decode_members fs ns y)"
  by (induction fs ms x rule: decode_members.induct) (auto split: option.splits)

text \<open>One member at a time, an omitted one leaving the zero value.\<close>

lemma decode_opt_str:
  "map_of fs (fold_key k) = Some (set_str upd) \<Longrightarrow> upd [] x = x \<Longrightarrow>
   decode_members fs (opt_str k s @ ms) x = decode_members fs ms (upd s x)"
  by (simp add: opt_str_def set_str_def)

lemma decode_opt_bool:
  "map_of fs (fold_key k) = Some (set_bool upd) \<Longrightarrow> upd False x = x \<Longrightarrow>
   decode_members fs (opt_bool k b @ ms) x = decode_members fs ms (upd b x)"
  by (cases b) (simp_all add: opt_bool_def set_bool_def)

lemma decode_opt_int:
  "map_of fs (fold_key k) = Some (set_int upd) \<Longrightarrow> upd 0 x = x \<Longrightarrow> int64 i \<Longrightarrow>
   decode_members fs (opt_int k i @ ms) x = decode_members fs ms (upd i x)"
  by (simp add: opt_int_def set_int_def int_of_show_int)

lemma fold_key_lower: "list_all (\<lambda>c. cv c < 128 \<and> lower_char c = c) s \<Longrightarrow> fold_key s = s"
  by (induction s) auto

declare fold_key.simps [simp del]

lemmas decode_steps = decode_opt_str decode_opt_bool decode_opt_int
lemmas member_defs = set_str_def set_int_def int_of_show_int
lemmas key_lookup = fold_key_lower lower_char_def

definition members_ok :: "(string \<times> json) list \<Rightarrow> bool" where
  "members_ok ms \<longleftrightarrow> list_all (\<lambda>(k, v). utf8_valid k \<and> json_ok v) ms"

lemma members_ok_simps:
  "json_ok (JObj ms) \<longleftrightarrow> members_ok ms"
  "members_ok (ms @ ns) \<longleftrightarrow> members_ok ms \<and> members_ok ns"
  "members_ok ((k, v) # ms) \<longleftrightarrow> utf8_valid k \<and> json_ok v \<and> members_ok ms"
  "members_ok []"
  by (auto simp: members_ok_def list_all_iff)

lemma members_ok_opts:
  "utf8_valid k \<Longrightarrow> utf8_valid s \<Longrightarrow> members_ok (opt_str k s)"
  "utf8_valid k \<Longrightarrow> members_ok (opt_bool k b)"
  "utf8_valid k \<Longrightarrow> members_ok (opt_int k i)"
  by (auto simp: opt_str_def opt_bool_def opt_int_def members_ok_simps)

end
