(* ===== verification/Proto.thy ===== *)
theory Proto
  imports Json_Struct
begin

text \<open>
  The wire protocol, \<^verbatim>\<open>internal/proto/proto.go\<close>: the message header with its JSON encoding, and the
  framing \<^verbatim>\<open>[4-byte length][JSON header][payload]\<close>. A reader is the list of bytes that are still
  to come; the operations return what they leave. A writer is the list of bytes written.
\<close>

section \<open>Constants\<close>

definition ProtocolVersion :: int where
  "ProtocolVersion = 1"

definition MaxHeaderSize :: nat where
  "MaxHeaderSize = 1048576"

definition ChunkSize :: int where
  "ChunkSize = 262144"

definition MaxClipboardSize :: int where
  "MaxClipboardSize = 33554432"

definition TypeHello :: string where [go_simps]: "TypeHello = ''hello''"
definition TypeSessionStart :: string where [go_simps]: "TypeSessionStart = ''session_start''"
definition TypeFileHeader :: string where [go_simps]: "TypeFileHeader = ''file_header''"
definition TypeChunk :: string where [go_simps]: "TypeChunk = ''chunk''"
definition TypeFileEnd :: string where [go_simps]: "TypeFileEnd = ''file_end''"
definition TypeClipboardData :: string where [go_simps]: "TypeClipboardData = ''clipboard''"
definition TypeSessionEnd :: string where [go_simps]: "TypeSessionEnd = ''session_end''"
definition TypeAck :: string where [go_simps]: "TypeAck = ''ack''"
definition TypeProgress :: string where [go_simps]: "TypeProgress = ''progress''"
definition TypeResumeQuery :: string where [go_simps]: "TypeResumeQuery = ''resume_query''"
definition TypeResumeOffer :: string where [go_simps]: "TypeResumeOffer = ''resume_offer''"
definition TypePairRequest :: string where [go_simps]: "TypePairRequest = ''pair_request''"
definition TypePairConfirm :: string where [go_simps]: "TypePairConfirm = ''pair_confirm''"
definition KindFiles :: string where [go_simps]: "KindFiles = ''files''"
definition KindClipboard :: string where [go_simps]: "KindClipboard = ''clipboard''"

section \<open>Data\<close>

record file_meta =
  fm_IsDir :: bool
  fm_Name :: string
  fm_Size :: int
  fm_SHA256 :: string
  fm_RelPath :: string

record header =
  h_Folders :: bool
  h_Type :: string
  h_Version :: int
  h_Fingerprint :: string
  h_Name :: string
  h_Addr :: string
  h_FcmToken :: string
  h_RNS :: string
  h_Kind :: string
  h_Files :: "file_meta list"
  h_Resume :: bool
  h_SHA256 :: string
  h_FileIndex :: int
  h_MIME :: string
  h_OK :: bool
  h_Error :: string
  h_Length :: int
  h_BytesDone :: int
  h_TotalBytes :: int

text \<open>The zero values of the structs.\<close>

definition FileMeta0 :: file_meta where
  "FileMeta0 = \<lparr>fm_IsDir = False, fm_Name = [], fm_Size = 0, fm_SHA256 = [], fm_RelPath = []\<rparr>"

definition Header0 :: header where
  "Header0 = \<lparr>h_Folders = False, h_Type = [], h_Version = 0, h_Fingerprint = [], h_Name = [],
     h_Addr = [], h_FcmToken = [], h_RNS = [], h_Kind = [], h_Files = [], h_Resume = False,
     h_SHA256 = [], h_FileIndex = 0, h_MIME = [], h_OK = False, h_Error = [], h_Length = 0,
     h_BytesDone = 0, h_TotalBytes = 0\<rparr>"

section \<open>Marshalling\<close>

definition file_meta_json :: "file_meta \<Rightarrow> json" where
  "file_meta_json f = JObj
     (opt_bool ''is_dir'' (fm_IsDir f)
      @ [(''name'', JStr (fm_Name f)), (''size'', JNum (show_int (fm_Size f))),
         (''sha256'', JStr (fm_SHA256 f))]
      @ opt_str ''rel_path'' (fm_RelPath f))"

definition opt_files :: "string \<Rightarrow> file_meta list \<Rightarrow> (string \<times> json) list" where
  "opt_files k fs = (if fs = [] then [] else [(k, JArr (map file_meta_json fs))])"

definition header_json :: "header \<Rightarrow> json" where
  "header_json h = JObj
     (opt_bool ''folders'' (h_Folders h)
      @ [(''type'', JStr (h_Type h))]
      @ opt_int ''version'' (h_Version h)
      @ opt_str ''fingerprint'' (h_Fingerprint h)
      @ opt_str ''name'' (h_Name h)
      @ opt_str ''addr'' (h_Addr h)
      @ opt_str ''fcm_token'' (h_FcmToken h)
      @ opt_str ''rns'' (h_RNS h)
      @ opt_str ''kind'' (h_Kind h)
      @ opt_files ''files'' (h_Files h)
      @ opt_bool ''resume'' (h_Resume h)
      @ opt_str ''sha256'' (h_SHA256 h)
      @ opt_int ''file_index'' (h_FileIndex h)
      @ opt_str ''mime'' (h_MIME h)
      @ opt_bool ''ok'' (h_OK h)
      @ opt_str ''error'' (h_Error h)
      @ opt_int ''length'' (h_Length h)
      @ opt_int ''bytes_done'' (h_BytesDone h)
      @ opt_int ''total_bytes'' (h_TotalBytes h))"

definition marshal_header :: "header \<Rightarrow> bytes" where
  "marshal_header h = json_print (header_json h)"

section \<open>Unmarshalling\<close>

definition file_meta_fields :: "file_meta fields" where
  "file_meta_fields =
     [(''is_dir'', set_bool (\<lambda>b f. f\<lparr>fm_IsDir := b\<rparr>)),
      (''name'', set_str (\<lambda>s f. f\<lparr>fm_Name := s\<rparr>)),
      (''size'', set_int (\<lambda>i f. f\<lparr>fm_Size := i\<rparr>)),
      (''sha256'', set_str (\<lambda>s f. f\<lparr>fm_SHA256 := s\<rparr>)),
      (''rel_path'', set_str (\<lambda>s f. f\<lparr>fm_RelPath := s\<rparr>))]"

definition set_files :: "json \<Rightarrow> header \<Rightarrow> header option" where
  "set_files v h = (case v of
     JNull \<Rightarrow> Some (h\<lparr>h_Files := []\<rparr>)
   | JArr vs \<Rightarrow> map_option (\<lambda>fs. h\<lparr>h_Files := fs\<rparr>) (decode_list file_meta_fields FileMeta0 vs (h_Files h))
   | _ \<Rightarrow> None)"

definition header_fields :: "header fields" where
  "header_fields =
     [(''folders'', set_bool (\<lambda>b h. h\<lparr>h_Folders := b\<rparr>)),
      (''type'', set_str (\<lambda>s h. h\<lparr>h_Type := s\<rparr>)),
      (''version'', set_int (\<lambda>i h. h\<lparr>h_Version := i\<rparr>)),
      (''fingerprint'', set_str (\<lambda>s h. h\<lparr>h_Fingerprint := s\<rparr>)),
      (''name'', set_str (\<lambda>s h. h\<lparr>h_Name := s\<rparr>)),
      (''addr'', set_str (\<lambda>s h. h\<lparr>h_Addr := s\<rparr>)),
      (''fcm_token'', set_str (\<lambda>s h. h\<lparr>h_FcmToken := s\<rparr>)),
      (''rns'', set_str (\<lambda>s h. h\<lparr>h_RNS := s\<rparr>)),
      (''kind'', set_str (\<lambda>s h. h\<lparr>h_Kind := s\<rparr>)),
      (''files'', set_files),
      (''resume'', set_bool (\<lambda>b h. h\<lparr>h_Resume := b\<rparr>)),
      (''sha256'', set_str (\<lambda>s h. h\<lparr>h_SHA256 := s\<rparr>)),
      (''file_index'', set_int (\<lambda>i h. h\<lparr>h_FileIndex := i\<rparr>)),
      (''mime'', set_str (\<lambda>s h. h\<lparr>h_MIME := s\<rparr>)),
      (''ok'', set_bool (\<lambda>b h. h\<lparr>h_OK := b\<rparr>)),
      (''error'', set_str (\<lambda>s h. h\<lparr>h_Error := s\<rparr>)),
      (''length'', set_int (\<lambda>i h. h\<lparr>h_Length := i\<rparr>)),
      (''bytes_done'', set_int (\<lambda>i h. h\<lparr>h_BytesDone := i\<rparr>)),
      (''total_bytes'', set_int (\<lambda>i h. h\<lparr>h_TotalBytes := i\<rparr>))]"

definition unmarshal_header :: "bytes \<Rightarrow> header option" where
  "unmarshal_header s = (case json_unmarshal s of
     None \<Rightarrow> None
   | Some v \<Rightarrow> decode_struct header_fields v Header0)"

section \<open>Framing\<close>

datatype proto_error = EOF | UnexpectedEOF | ErrTooLarge | DecodeHeader | PayloadNil int | ErrShortWrite

text \<open>\<^verbatim>\<open>io.ReadFull\<close> of \<^term>\<open>n\<close> bytes, and \<^verbatim>\<open>io.CopyN\<close>: what is copied, and its error.\<close>

definition ReadFull :: "nat \<Rightarrow> bytes \<Rightarrow> (proto_error + bytes) \<times> bytes" where
  "ReadFull n s = (if n \<le> length s then (Inr (take n s), drop n s)
     else if s = [] then (Inl EOF, []) else (Inl UnexpectedEOF, []))"

definition CopyN :: "bytes \<Rightarrow> int \<Rightarrow> bytes \<times> proto_error option" where
  "CopyN src n = (take (nat n) src, if nat n \<le> length src then None else Some EOF)"

definition WriteMessage :: "header \<Rightarrow> bytes option \<Rightarrow> bytes \<times> proto_error option" where
  "WriteMessage hdr payload =
     (let raw = marshal_header hdr; lenbuf = be_put 4 (length raw) in
      if MaxHeaderSize < length raw then ([], Some ErrTooLarge)
      else if 0 < h_Length hdr then
        (case payload of
           None \<Rightarrow> (lenbuf @ raw, Some (PayloadNil (h_Length hdr)))
         | Some p \<Rightarrow> (let (sent, err) = CopyN p (h_Length hdr) in
             if err \<noteq> None then (lenbuf @ raw @ sent, err)
             else if int (length sent) \<noteq> h_Length hdr then (lenbuf @ raw @ sent, Some ErrShortWrite)
             else (lenbuf @ raw @ sent, None)))
      else (lenbuf @ raw, None))"

definition WriteControl :: "header \<Rightarrow> bytes \<times> proto_error option" where
  "WriteControl hdr = WriteMessage (hdr\<lparr>h_Length := 0\<rparr>) None"

definition ReadHeader :: "bytes \<Rightarrow> (proto_error + header) \<times> bytes" where
  "ReadHeader r = (case ReadFull 4 r of
     (Inl e, r') \<Rightarrow> (Inl e, r')
   | (Inr lenbuf, r') \<Rightarrow>
       (let n = be_get lenbuf in
        if n = 0 \<or> MaxHeaderSize < n then (Inl ErrTooLarge, r')
        else (case ReadFull n r' of
            (Inl e, r'') \<Rightarrow> (Inl e, r'')
          | (Inr raw, r'') \<Rightarrow>
              (case unmarshal_header raw of
                 None \<Rightarrow> (Inl DecodeHeader, r'')
               | Some hdr \<Rightarrow> (Inr hdr, r'')))))"

section \<open>Headers that survive the encoding\<close>

definition file_meta_ok :: "file_meta \<Rightarrow> bool" where
  "file_meta_ok f \<longleftrightarrow> utf8_valid (fm_Name f) \<and> utf8_valid (fm_SHA256 f) \<and> utf8_valid (fm_RelPath f)
     \<and> int64 (fm_Size f)"

definition header_ok :: "header \<Rightarrow> bool" where
  "header_ok h \<longleftrightarrow>
     list_all utf8_valid [h_Type h, h_Fingerprint h, h_Name h, h_Addr h, h_FcmToken h, h_RNS h,
       h_Kind h, h_SHA256 h, h_MIME h, h_Error h]
     \<and> list_all int64 [h_Version h, h_FileIndex h, h_Length h, h_BytesDone h, h_TotalBytes h]
     \<and> list_all file_meta_ok (h_Files h)"

lemma file_meta_lookup:
  "map_of file_meta_fields (fold_key ''is_dir'') = Some (set_bool (\<lambda>b f. f\<lparr>fm_IsDir := b\<rparr>))"
  "map_of file_meta_fields (fold_key ''name'') = Some (set_str (\<lambda>s f. f\<lparr>fm_Name := s\<rparr>))"
  "map_of file_meta_fields (fold_key ''size'') = Some (set_int (\<lambda>i f. f\<lparr>fm_Size := i\<rparr>))"
  "map_of file_meta_fields (fold_key ''sha256'') = Some (set_str (\<lambda>s f. f\<lparr>fm_SHA256 := s\<rparr>))"
  "map_of file_meta_fields (fold_key ''rel_path'') = Some (set_str (\<lambda>s f. f\<lparr>fm_RelPath := s\<rparr>))"
  by (simp_all add: file_meta_fields_def key_lookup)

lemma header_lookup:
  "map_of header_fields (fold_key ''folders'') = Some (set_bool (\<lambda>b h. h\<lparr>h_Folders := b\<rparr>))"
  "map_of header_fields (fold_key ''type'') = Some (set_str (\<lambda>s h. h\<lparr>h_Type := s\<rparr>))"
  "map_of header_fields (fold_key ''version'') = Some (set_int (\<lambda>i h. h\<lparr>h_Version := i\<rparr>))"
  "map_of header_fields (fold_key ''fingerprint'') = Some (set_str (\<lambda>s h. h\<lparr>h_Fingerprint := s\<rparr>))"
  "map_of header_fields (fold_key ''name'') = Some (set_str (\<lambda>s h. h\<lparr>h_Name := s\<rparr>))"
  "map_of header_fields (fold_key ''addr'') = Some (set_str (\<lambda>s h. h\<lparr>h_Addr := s\<rparr>))"
  "map_of header_fields (fold_key ''fcm_token'') = Some (set_str (\<lambda>s h. h\<lparr>h_FcmToken := s\<rparr>))"
  "map_of header_fields (fold_key ''rns'') = Some (set_str (\<lambda>s h. h\<lparr>h_RNS := s\<rparr>))"
  "map_of header_fields (fold_key ''kind'') = Some (set_str (\<lambda>s h. h\<lparr>h_Kind := s\<rparr>))"
  "map_of header_fields (fold_key ''files'') = Some set_files"
  "map_of header_fields (fold_key ''resume'') = Some (set_bool (\<lambda>b h. h\<lparr>h_Resume := b\<rparr>))"
  "map_of header_fields (fold_key ''sha256'') = Some (set_str (\<lambda>s h. h\<lparr>h_SHA256 := s\<rparr>))"
  "map_of header_fields (fold_key ''file_index'') = Some (set_int (\<lambda>i h. h\<lparr>h_FileIndex := i\<rparr>))"
  "map_of header_fields (fold_key ''mime'') = Some (set_str (\<lambda>s h. h\<lparr>h_MIME := s\<rparr>))"
  "map_of header_fields (fold_key ''ok'') = Some (set_bool (\<lambda>b h. h\<lparr>h_OK := b\<rparr>))"
  "map_of header_fields (fold_key ''error'') = Some (set_str (\<lambda>s h. h\<lparr>h_Error := s\<rparr>))"
  "map_of header_fields (fold_key ''length'') = Some (set_int (\<lambda>i h. h\<lparr>h_Length := i\<rparr>))"
  "map_of header_fields (fold_key ''bytes_done'') = Some (set_int (\<lambda>i h. h\<lparr>h_BytesDone := i\<rparr>))"
  "map_of header_fields (fold_key ''total_bytes'') = Some (set_int (\<lambda>i h. h\<lparr>h_TotalBytes := i\<rparr>))"
  by (simp_all add: header_fields_def key_lookup)

lemma decode_file_meta:
  assumes "file_meta_ok f"
  shows "decode_struct file_meta_fields (file_meta_json f) FileMeta0 = Some f"
proof -
  have "int64 (fm_Size f)" using assms by (simp add: file_meta_ok_def)
  then show ?thesis
    by (simp add: decode_struct_def file_meta_json_def FileMeta0_def file_meta_lookup member_defs decode_steps
        decode_opt_str [where ms = "[]", simplified])
qed

lemma decode_list_files: "list_all file_meta_ok fs \<Longrightarrow> decode_list file_meta_fields FileMeta0 (map file_meta_json fs) [] = Some fs"
  by (induction fs) (simp_all add: decode_file_meta)

lemma decode_opt_files:
  "list_all file_meta_ok fs \<Longrightarrow> h_Files h = [] \<Longrightarrow>
   decode_members header_fields (opt_files ''files'' fs @ ms) h = decode_members header_fields ms (h\<lparr>h_Files := fs\<rparr>)"
  by (cases h) (simp add: opt_files_def header_lookup set_files_def decode_list_files)

lemma decode_header:
  assumes "header_ok h"
  shows "decode_struct header_fields (header_json h) Header0 = Some h"
  using assms
  by (simp add: header_ok_def decode_struct_def header_json_def Header0_def header_lookup member_defs decode_steps
      decode_opt_files decode_opt_int [where ms = "[]", simplified])

lemma json_ok_file_meta: "file_meta_ok f \<Longrightarrow> json_ok (file_meta_json f)"
  by (simp add: file_meta_ok_def file_meta_json_def members_ok_simps members_ok_opts utf8_valid_ascii
      del: json_ok.simps(4)) auto

lemma json_ok_header: "header_ok h \<Longrightarrow> json_ok (header_json h)"
proof -
  assume h: "header_ok h"
  then have "members_ok (opt_files ''files'' (h_Files h))"
    by (auto simp: opt_files_def header_ok_def list_all_iff json_ok_file_meta utf8_valid_ascii members_ok_simps)
  with h show ?thesis
    by (simp add: header_json_def members_ok_simps header_ok_def members_ok_opts utf8_valid_ascii
        del: json_ok.simps(4))
qed

lemma unmarshal_marshal [wire_simps]: "header_ok h \<Longrightarrow> unmarshal_header (marshal_header h) = Some h"
  by (simp add: unmarshal_header_def marshal_header_def json_unmarshal_print json_ok_header decode_header)

section \<open>Reading back a frame\<close>

text \<open>A header that fits a frame; its payload has the declared length (none when it is not positive).\<close>

definition frame_ok :: "header \<Rightarrow> bytes \<Rightarrow> bool" where
  "frame_ok h p \<longleftrightarrow> header_ok h \<and> length (marshal_header h) \<le> MaxHeaderSize \<and> length p = nat (h_Length h)"

definition frame :: "header \<Rightarrow> bytes \<Rightarrow> bytes" where
  "frame h p = be_put 4 (length (marshal_header h)) @ marshal_header h @ p"

lemma marshal_nonempty [simp]: "marshal_header h \<noteq> []"
  by (simp add: marshal_header_def header_json_def)

lemma WriteMessage_frame:
  assumes "length (marshal_header h) \<le> MaxHeaderSize" "nat (h_Length h) = length p"
  shows "WriteMessage h (Some p) = (frame h p, None)"
proof (cases "0 < h_Length h")
  case True
  then have "h_Length h = int (length p)" using assms(2) by simp
  with assms(1) show ?thesis by (auto simp: WriteMessage_def frame_def CopyN_def Let_def)
next
  case False
  with assms show ?thesis by (auto simp: WriteMessage_def frame_def Let_def)
qed

lemma WriteControl_frame:
  assumes "length (marshal_header (h\<lparr>h_Length := 0\<rparr>)) \<le> MaxHeaderSize"
  shows "WriteControl h = (frame (h\<lparr>h_Length := 0\<rparr>) [], None)"
  using assms by (auto simp: WriteControl_def WriteMessage_def frame_def Let_def)

lemma ReadFull_append [simp]: "length a = n \<Longrightarrow> ReadFull n (a @ b) = (Inr a, b)"
  by (simp add: ReadFull_def)

lemma ReadHeader_frame:
  assumes "header_ok h" "length (marshal_header h) \<le> MaxHeaderSize"
  shows "ReadHeader (frame h p @ r) = (Inr h, p @ r)"
proof -
  let ?raw = "marshal_header h"
  have n: "be_get (be_put 4 (length ?raw)) = length ?raw"
    using assms(2) by (intro be_get_put) (simp add: MaxHeaderSize_def)
  have "frame h p @ r = be_put 4 (length ?raw) @ (?raw @ (p @ r))" by (simp add: frame_def)
  then show ?thesis
    using assms unfolding ReadHeader_def
    by (simp add: n Let_def unmarshal_marshal)
qed

lemma ReadFull_Inr: "ReadFull n s = (Inr a, r) \<Longrightarrow> s = a @ r \<and> length a = n"
  by (auto simp: ReadFull_def split: if_splits)

lemma ReadFull_suffix: "ReadFull n s = (x, r) \<Longrightarrow> suffix r s"
  by (auto simp: ReadFull_def suffix_drop split: if_splits)

text \<open>What \<^verbatim>\<open>ReadHeader\<close> takes from the reader, and that it takes no more than a header.\<close>

lemma ReadHeader_consumes:
  assumes "ReadHeader s = (Inr h, r)"
  obtains raw where "s = be_put 4 (length raw) @ raw @ r" "0 < length raw" "length raw \<le> MaxHeaderSize"
    "unmarshal_header raw = Some h"
proof -
  from assms obtain lenbuf r' where l: "ReadFull 4 s = (Inr lenbuf, r')"
    by (auto simp: ReadHeader_def split: sum.splits prod.splits)
  let ?n = "be_get lenbuf"
  from assms l have n: "0 < ?n" "?n \<le> MaxHeaderSize"
    by (auto simp: ReadHeader_def Let_def split: if_splits)
  with assms l obtain raw where raw: "ReadFull ?n r' = (Inr raw, r)" "unmarshal_header raw = Some h"
    by (auto simp: ReadHeader_def Let_def split: if_splits sum.splits prod.splits option.splits)
  from ReadFull_Inr [OF l] ReadFull_Inr [OF raw(1)]
  have "s = lenbuf @ raw @ r" "length lenbuf = 4" "length raw = ?n" by simp_all
  with n raw(2) be_put_get [of lenbuf] show ?thesis by (intro that [of raw]) auto
qed

lemma ReadHeader_shorter: "ReadHeader s = (Inr h, r) \<Longrightarrow> length r < length s"
  by (erule ReadHeader_consumes) auto

lemma ReadHeader_suffix: "ReadHeader s = (x, r) \<Longrightarrow> suffix r s"
proof -
  assume h: "ReadHeader s = (x, r)"
  obtain y r' where y: "ReadFull 4 s = (y, r')" by force
  show ?thesis
  proof (cases "\<exists>b. y = Inr b \<and> be_get b \<noteq> 0 \<and> be_get b \<le> MaxHeaderSize")
    case True
    then obtain b z r'' where b: "y = Inr b" and z: "ReadFull (be_get b) r' = (z, r'')" by force
    with h y True have "r = r''"
      by (auto simp: ReadHeader_def Let_def split: sum.splits option.splits)
    with ReadFull_suffix [OF y] ReadFull_suffix [OF z] show ?thesis by (meson suffix_order.trans)
  next
    case False
    with h y have "r = r'"
      by (cases y) (auto simp: ReadHeader_def Let_def split: sum.splits)
    with ReadFull_suffix [OF y] show ?thesis by simp
  qed
qed

section \<open>Streams of messages\<close>

text \<open>
  The interface of a self-delimiting framing: a reader that gives back the header and stops at the
  payload, whatever follows. A client reads the payload its header announces, then the next header.
\<close>

primrec read_frames ::
  "(bytes \<Rightarrow> ('h \<times> bytes) option) \<Rightarrow> ('h \<Rightarrow> nat) \<Rightarrow> nat \<Rightarrow> bytes \<Rightarrow> (('h \<times> bytes) list \<times> bytes) option"
where
  "read_frames rd len 0 s = Some ([], s)"
| "read_frames rd len (Suc n) s = (case rd s of
     None \<Rightarrow> None
   | Some (h, r) \<Rightarrow>
       if length r < len h then None
       else map_option (apfst ((#) (h, take (len h) r))) (read_frames rd len n (drop (len h) r)))"

locale framing =
  fixes wr :: "'h \<Rightarrow> bytes \<Rightarrow> bytes"
    and rd :: "bytes \<Rightarrow> ('h \<times> bytes) option"
    and len :: "'h \<Rightarrow> nat"
    and ok :: "'h \<Rightarrow> bool"
  assumes rd_wr: "ok h \<Longrightarrow> rd (wr h p @ r) = Some (h, p @ r)"
begin

definition sent :: "('h \<times> bytes) list \<Rightarrow> bytes" where
  "sent ms = concat (map (\<lambda>(h, p). wr h p) ms)"

definition sendable :: "('h \<times> bytes) list \<Rightarrow> bool" where
  "sendable ms \<longleftrightarrow> list_all (\<lambda>(h, p). ok h \<and> length p = len h) ms"

lemma read_sent: "sendable ms \<Longrightarrow> read_frames rd len (length ms) (sent ms @ r) = Some (ms, r)"
  by (induction ms) (auto simp: sent_def sendable_def rd_wr)

lemma sent_unique:
  assumes "sendable ms" "sendable ns" "length ms = length ns" "sent ms @ r = sent ns @ r'"
  shows "ms = ns \<and> r = r'"
proof -
  have "Some (ms, r) = Some (ns, r')"
    using read_sent [OF assms(1), of r] read_sent [OF assms(2), of r'] unfolding assms(3,4) by (rule trans [OF sym])
  then show ?thesis by simp
qed

end

definition header_reader :: "bytes \<Rightarrow> (header \<times> bytes) option" where
  "header_reader s = (case ReadHeader s of (Inl _, _) \<Rightarrow> None | (Inr h, r) \<Rightarrow> Some (h, r))"

definition sendable_header :: "header \<Rightarrow> bool" where
  "sendable_header h \<longleftrightarrow> header_ok h \<and> length (marshal_header h) \<le> MaxHeaderSize"

interpretation adrop_frames: framing frame header_reader "\<lambda>h. nat (h_Length h)" sendable_header
  by unfold_locales (simp add: header_reader_def sendable_header_def ReadHeader_frame)

text \<open>
  Property C11. A message written with its payload is read back: \<^verbatim>\<open>WriteMessage\<close> succeeds, and
  \<^verbatim>\<open>ReadHeader\<close> on what it wrote, followed by anything, returns the same header and leaves
  exactly the payload and what follows. This holds for every header whose strings are UTF-8, whose
  numbers are \<^verbatim>\<open>int64\<close> and whose encoding is at most \<^verbatim>\<open>MaxHeaderSize\<close>.
\<close>

theorem message_roundtrip:
  assumes "header_ok h" "length (marshal_header h) \<le> MaxHeaderSize" "length p = nat (h_Length h)"
  shows "snd (WriteMessage h (Some p)) = None \<and>
    ReadHeader (fst (WriteMessage h (Some p)) @ r) = (Inr h, p @ r)"
  using WriteMessage_frame [of h p] ReadHeader_frame [of h p r] assms by simp

theorem message_roundtrip_witness:
  "ReadHeader (fst (WriteMessage (Header0\<lparr>h_Type := ''chunk'', h_Length := 3\<rparr>) (Some ''abc'')) @ ''rest'') =
   (Inr (Header0\<lparr>h_Type := ''chunk'', h_Length := 3\<rparr>), ''abcrest'')"
proof -
  let ?h = "Header0\<lparr>h_Type := ''chunk'', h_Length := 3\<rparr>"
  have "header_ok ?h" by (simp add: header_ok_def Header0_def utf8_valid_ascii int64_def)
  moreover have small: "length (marshal_header ?h) < 100" by code_simp
  have "length (marshal_header ?h) \<le> MaxHeaderSize" using small unfolding MaxHeaderSize_def by linarith
  moreover have "length ''abc'' = nat (h_Length ?h)" by (simp add: Header0_def)
  ultimately have "ReadHeader (fst (WriteMessage ?h (Some ''abc'')) @ ''rest'') = (Inr ?h, ''abc'' @ ''rest'')"
    by (intro conjunct2 [OF message_roundtrip])
  then show ?thesis by (simp only: append.simps)
qed

text \<open>
  A stream of messages parses in one way only: any sequence of well-formed messages
  written one after the other is read back as the same headers and payloads, in order, and reading
  stops where the last payload ends.
\<close>

lemma stream_roundtrip:
  assumes "\<forall>(h, p)\<in>set ms. frame_ok h p"
  shows "read_frames header_reader (\<lambda>h. nat (h_Length h)) (length ms)
      (concat (map (\<lambda>(h, p). fst (WriteMessage h (Some p))) ms) @ r) = Some (ms, r)"
proof -
  have "adrop_frames.sendable ms"
    using assms by (auto simp: adrop_frames.sendable_def list_all_iff sendable_header_def frame_ok_def)
  moreover have "concat (map (\<lambda>(h, p). fst (WriteMessage h (Some p))) ms) = adrop_frames.sent ms"
    unfolding adrop_frames.sent_def
    by (rule arg_cong [where f = concat], rule map_cong)
      (use assms WriteMessage_frame in \<open>auto simp: frame_ok_def\<close>)
  ultimately show ?thesis using adrop_frames.read_sent by simp
qed

text \<open>
  \<^verbatim>\<open>ReadHeader\<close> never takes a frame on faith: when it returns a header, it has
  consumed the four length bytes and exactly the announced number of JSON bytes, which is positive
  and at most \<^verbatim>\<open>MaxHeaderSize\<close>; a frame announcing zero or more than that many bytes is refused
  before any of them is read.
\<close>

lemma read_header_bounded:
  "(ReadHeader s = (Inr h, r) \<longrightarrow>
      (\<exists>raw. s = be_put 4 (length raw) @ raw @ r \<and> 0 < length raw \<and> length raw \<le> MaxHeaderSize \<and>
         unmarshal_header raw = Some h)) \<and>
   (4 \<le> length s \<longrightarrow> be_get (take 4 s) = 0 \<or> MaxHeaderSize < be_get (take 4 s) \<longrightarrow>
      ReadHeader s = (Inl ErrTooLarge, drop 4 s))"
proof (intro conjI impI)
  assume "ReadHeader s = (Inr h, r)"
  then show "\<exists>raw. s = be_put 4 (length raw) @ raw @ r \<and> 0 < length raw \<and> length raw \<le> MaxHeaderSize \<and>
      unmarshal_header raw = Some h"
    by (rule ReadHeader_consumes) blast
next
  assume "4 \<le> length s" "be_get (take 4 s) = 0 \<or> MaxHeaderSize < be_get (take 4 s)"
  then show "ReadHeader s = (Inl ErrTooLarge, drop 4 s)"
    by (auto simp: ReadHeader_def ReadFull_def)
qed

end
