(* ===== verification/Sha256.thy ===== *)
theory Sha256
  imports Go_Strings
begin

text \<open>
  \<^verbatim>\<open>crypto/sha256\<close> (FIPS 180-4): the digest that pins certificates and guards every transferred
  file. The program relies on the digest being a function of the bytes and 32 bytes long; no
  theorem assumes that collisions do not exist.
\<close>

unbundle bit_operations_syntax

type_synonym w32 = "32 word"

definition rotr :: "nat \<Rightarrow> w32 \<Rightarrow> w32" where
  "rotr n x = (drop_bit n x) OR (push_bit (32 - n) x)"

definition sha_ch :: "w32 \<Rightarrow> w32 \<Rightarrow> w32 \<Rightarrow> w32" where
  "sha_ch x y z = (x AND y) XOR ((NOT x) AND z)"

definition sha_maj :: "w32 \<Rightarrow> w32 \<Rightarrow> w32 \<Rightarrow> w32" where
  "sha_maj x y z = (x AND y) XOR (x AND z) XOR (y AND z)"

definition big_sigma0 :: "w32 \<Rightarrow> w32" where
  "big_sigma0 x = rotr 2 x XOR rotr 13 x XOR rotr 22 x"

definition big_sigma1 :: "w32 \<Rightarrow> w32" where
  "big_sigma1 x = rotr 6 x XOR rotr 11 x XOR rotr 25 x"

definition small_sigma0 :: "w32 \<Rightarrow> w32" where
  "small_sigma0 x = rotr 7 x XOR rotr 18 x XOR drop_bit 3 x"

definition small_sigma1 :: "w32 \<Rightarrow> w32" where
  "small_sigma1 x = rotr 17 x XOR rotr 19 x XOR drop_bit 10 x"

definition sha_k :: "w32 list" where
  "sha_k =
    [1116352408, 1899447441, 3049323471, 3921009573, 961987163, 1508970993, 2453635748, 2870763221,
     3624381080, 310598401, 607225278, 1426881987, 1925078388, 2162078206, 2614888103, 3248222580,
     3835390401, 4022224774, 264347078, 604807628, 770255983, 1249150122, 1555081692, 1996064986,
     2554220882, 2821834349, 2952996808, 3210313671, 3336571891, 3584528711, 113926993, 338241895,
     666307205, 773529912, 1294757372, 1396182291, 1695183700, 1986661051, 2177026350, 2456956037,
     2730485921, 2820302411, 3259730800, 3345764771, 3516065817, 3600352804, 4094571909, 275423344,
     430227734, 506948616, 659060556, 883997877, 958139571, 1322822218, 1537002063, 1747873779,
     1955562222, 2024104815, 2227730452, 2361852424, 2428436474, 2756734187, 3204031479, 3329325298]"

type_synonym sha_state = "w32 \<times> w32 \<times> w32 \<times> w32 \<times> w32 \<times> w32 \<times> w32 \<times> w32"

definition sha_init :: sha_state where
  "sha_init = (1779033703, 3144134277, 1013904242, 2773480762,
               1359893119, 2600822924, 528734635, 1541459225)"

text \<open>The message schedule keeps the last sixteen words; each round consumes the oldest.\<close>

fun sha_rounds :: "w32 list \<Rightarrow> w32 list \<Rightarrow> sha_state \<Rightarrow> sha_state" where
  "sha_rounds [] w s = s"
| "sha_rounds (k # ks) w (a, b, c, d, e, f, g, h) =
     (let t1 = h + big_sigma1 e + sha_ch e f g + k + w ! 0;
          t2 = big_sigma0 a + sha_maj a b c;
          w' = tl w @ [small_sigma1 (w ! 14) + w ! 9 + small_sigma0 (w ! 1) + w ! 0]
      in sha_rounds ks w' (t1 + t2, a, b, c, d + t1, e, f, g))"

definition sha_add :: "sha_state \<Rightarrow> sha_state \<Rightarrow> sha_state" where
  "sha_add s t = (case (s, t) of
     ((a, b, c, d, e, f, g, h), (a', b', c', d', e', f', g', h')) \<Rightarrow>
       (a + a', b + b', c + c', d + d', e + e', f + f', g + g', h + h'))"

fun be_words :: "bytes \<Rightarrow> w32 list" where
  "be_words (a # b # c # d # s) = of_nat (be_get [a, b, c, d]) # be_words s"
| "be_words s = []"

definition sha_block :: "sha_state \<Rightarrow> bytes \<Rightarrow> sha_state" where
  "sha_block s b = sha_add s (sha_rounds sha_k (be_words b) s)"

definition sha_pad :: "bytes \<Rightarrow> bytes" where
  "sha_pad m = m @ [CHR 0x80] @ replicate ((119 - length m mod 64) mod 64) (CHR 0x00)
     @ be_put 8 (8 * length m mod 2 ^ 64)"

function sha_blocks :: "sha_state \<Rightarrow> bytes \<Rightarrow> sha_state" where
  "sha_blocks s m = (if m = [] then s else sha_blocks (sha_block s (take 64 m)) (drop 64 m))"
  by pat_completeness auto
termination
  by (relation "measure (\<lambda>(s, m). length m)") auto

declare sha_blocks.simps [simp del]

definition sha_out :: "sha_state \<Rightarrow> bytes" where
  "sha_out s = (case s of (a, b, c, d, e, f, g, h) \<Rightarrow>
     concat (map (\<lambda>x. be_put 4 (unat x)) [a, b, c, d, e, f, g, h]))"

definition sha256 :: "bytes \<Rightarrow> bytes" where
  "sha256 m = sha_out (sha_blocks sha_init (sha_pad m))"

definition sha256_hex :: "bytes \<Rightarrow> string" where
  "sha256_hex m = hex_encode (sha256 m)"

lemma length_sha256 [simp]: "length (sha256 m) = 32"
  by (simp add: sha256_def sha_out_def split: prod.splits)

lemma length_sha256_hex [simp]: "length (sha256_hex m) = 64"
  by (simp add: sha256_hex_def)

lemma to_lower_sha256_hex [simp]: "to_lower (sha256_hex m) = sha256_hex m"
  by (simp add: sha256_hex_def)

text \<open>The padded message is a whole number of blocks.\<close>

lemma sha_pad_blocks: "64 dvd length (sha_pad m)"
proof -
  define r where "r = length m mod 64"
  have r: "r < 64" by (simp add: r_def)
  have pad: "(119 - r) mod 64 = (if r < 56 then 55 - r else 119 - r)"
  proof (cases "r < 56")
    case True
    then have "119 - r = (55 - r) + 64" by simp
    moreover have "(55 - r + 64) mod 64 = (55 - r) mod 64" by (rule mod_add_self2)
    ultimately show ?thesis using True by simp
  qed (use r in simp)
  have "64 dvd r + (119 - r) mod 64 + 9"
    using r unfolding pad by (cases "r < 56") auto
  moreover have "length m = 64 * (length m div 64) + r" by (simp add: r_def)
  ultimately have "64 dvd length m + (119 - r) mod 64 + 9"
    by (metis add.assoc dvd_add dvd_triv_left)
  then show ?thesis by (simp add: sha_pad_def r_def ac_simps)
qed

end
