(* ===== verification/Files.thy ===== *)
theory Files
  imports Paths Proto Sha256
begin

text \<open>
  The receiver's file system and the claims on destinations, from \<^verbatim>\<open>internal/daemon/receive.go\<close>:
  \<^verbatim>\<open>reserveSlot\<close>, \<^verbatim>\<open>createDirectory\<close>, \<^verbatim>\<open>partialBytes\<close> and the sidecar of a partial file.

  A file system maps path strings to files and directories. What the operating system decides is an
  argument, \<^verbatim>\<open>os_env\<close>: for each kind of call and path, whether it succeeds, and how many bytes
  of a write reach the disk. Symbolic links are not modelled.
\<close>

section \<open>File system\<close>

datatype node = FFile bytes | FDir

type_synonym fs = "string \<rightharpoonup> node"

datatype recv_error =
    ProtoErr proto_error
  | Unexpected string string
  | UnknownKind string
  | ClipSize int
  | ClipSet
  | EmptyManifest
  | Incomplete
  | IndexRange int
  | DuplicateIndex int
  | InvalidDirEntry
  | UnsafeRelPath string
  | UnsafeDirPath string
  | RootErr
  | MkdirErr string
  | NotDirectory string
  | OpenErr string
  | NegativeChunk int
  | ExceedsSize
  | WriteErr string
  | CloseErr string
  | SizeMismatch int int
  | ShaMismatch
  | RenameErr string
  | FileErr string recv_error
  | NoReturn

record os_env =
  e_open :: "string \<Rightarrow> bool"
  e_read :: "string \<Rightarrow> bool"
  e_write :: "string \<Rightarrow> bytes \<Rightarrow> bytes \<Rightarrow> nat"
  e_close :: "string \<Rightarrow> bool"
  e_rename :: "string \<Rightarrow> bool"
  e_remove :: "string \<Rightarrow> bool"
  e_root :: bool
  e_mkdir :: "string \<Rightarrow> bool"
  e_dirsize :: int
  e_text :: "recv_error \<Rightarrow> string"

text \<open>An operating system on which every call succeeds.\<close>

definition env_ok :: os_env where
  "env_ok = \<lparr>e_open = \<lambda>_. True, e_read = \<lambda>_. True, e_write = \<lambda>_ _ b. length b, e_close = \<lambda>_. True,
     e_rename = \<lambda>_. True, e_remove = \<lambda>_. True, e_root = True, e_mkdir = \<lambda>_. True, e_dirsize = 4096,
     e_text = \<lambda>_. ''error''\<rparr>"

definition os_remove :: "os_env \<Rightarrow> string \<Rightarrow> fs \<Rightarrow> fs" where
  "os_remove env p fs = (if e_remove env p then fs(p := None) else fs)"

definition os_write_file :: "os_env \<Rightarrow> string \<Rightarrow> bytes \<Rightarrow> fs \<Rightarrow> fs" where
  "os_write_file env p data fs = (if e_open env p \<and> fs p \<noteq> Some FDir then fs(p \<mapsto> FFile data) else fs)"

definition os_read_file :: "os_env \<Rightarrow> string \<Rightarrow> fs \<Rightarrow> bytes option" where
  "os_read_file env p fs = (case fs p of
     Some (FFile b) \<Rightarrow> if e_read env p then Some b else None
   | _ \<Rightarrow> None)"

definition stat_size :: "os_env \<Rightarrow> node \<Rightarrow> int" where
  "stat_size env n = (case n of FFile b \<Rightarrow> int (length b) | FDir \<Rightarrow> e_dirsize env)"

definition content :: "fs \<Rightarrow> string \<Rightarrow> bytes" where
  "content fs p = (case fs p of Some (FFile b) \<Rightarrow> b | _ \<Rightarrow> [])"

definition os_append :: "string \<Rightarrow> bytes \<Rightarrow> fs \<Rightarrow> fs" where
  "os_append p b fs = fs(p \<mapsto> FFile (content fs p @ b))"

section \<open>Directories\<close>

fun mkdirs :: "os_env \<Rightarrow> string \<Rightarrow> string \<Rightarrow> string list \<Rightarrow> fs \<Rightarrow> recv_error option \<times> fs" where
  "mkdirs env dir current [] fs = (None, fs)"
| "mkdirs env dir current (part # parts) fs =
     (let current = Join current part; p = Join dir current in
      if fs p = None \<and> \<not> e_mkdir env p then (Some (MkdirErr current), fs)
      else
        (let fs' = (if fs p = None then fs(p \<mapsto> FDir) else fs) in
         if fs' p \<noteq> Some FDir then (Some (NotDirectory current), fs')
         else mkdirs env dir current parts fs'))"

definition createDirectory :: "os_env \<Rightarrow> string \<Rightarrow> string \<Rightarrow> fs \<Rightarrow> recv_error option \<times> fs" where
  "createDirectory env dir rel fs =
     (if \<not> validRelPath rel then (Some (UnsafeDirPath rel), fs)
      else if \<not> e_root env then (Some RootErr, fs)
      else mkdirs env dir [] (go_split slash rel) fs)"

section \<open>Slots\<close>

definition partSuffix :: string where
  "partSuffix = ''.adrop-part''"

record fileSlot =
  sl_dest :: string
  sl_tmp :: string

text \<open>
  \<^verbatim>\<open>d.slots\<close>, the claimed partial files, is the list \<^term>\<open>claimed\<close>. A slot is released by
  deleting its partial file's name from it.
\<close>

definition reserveSlot ::
  "os_env \<Rightarrow> string \<Rightarrow> file_meta \<Rightarrow> fs \<Rightarrow> string list \<Rightarrow> (recv_error + fileSlot) \<times> fs \<times> string list" where
  "reserveSlot env downloadDir meta fs claimed =
     (if fm_RelPath meta \<noteq> [] \<and> \<not> validRelPath (fm_RelPath meta)
      then (Inl (UnsafeRelPath (fm_RelPath meta)), fs, claimed)
      else
        (let name = (if fm_RelPath meta \<noteq> [] then fm_RelPath meta else sanitizeName (fm_Name meta)) in
         case uniquePathExcept (\<lambda>p. fs p \<noteq> None) downloadDir name (\<lambda>c. c @ partSuffix \<in> set claimed) of
           None \<Rightarrow> (Inl NoReturn, fs, claimed)
         | Some dest \<Rightarrow>
             (let (err, fs') = (if fm_RelPath meta \<noteq> [] \<and> Dir name \<noteq> ''.''
                                then createDirectory env downloadDir (Dir name) fs else (None, fs)) in
              case err of
                Some e \<Rightarrow> (Inl e, fs', claimed)
              | None \<Rightarrow>
                  (let tmp = dest @ partSuffix in
                   (Inr \<lparr>sl_dest = dest, sl_tmp = tmp\<rparr>, fs', List.insert tmp claimed)))))"

definition release :: "fileSlot \<Rightarrow> string list \<Rightarrow> string list" where
  "release slot claimed = removeAll (sl_tmp slot) claimed"

section \<open>Partial files\<close>

definition partMetaPath :: "string \<Rightarrow> string" where
  "partMetaPath tmp = tmp @ ''.meta''"

definition writePartMeta :: "os_env \<Rightarrow> string \<Rightarrow> file_meta \<Rightarrow> fs \<Rightarrow> fs" where
  "writePartMeta env tmp meta fs = os_write_file env (partMetaPath tmp) (to_lower (fm_SHA256 meta)) fs"

definition removePart :: "os_env \<Rightarrow> string \<Rightarrow> fs \<Rightarrow> fs" where
  "removePart env tmp fs = os_remove env (partMetaPath tmp) (os_remove env tmp fs)"

definition partialBytes :: "os_env \<Rightarrow> fileSlot \<Rightarrow> file_meta \<Rightarrow> fs \<Rightarrow> int \<times> fs" where
  "partialBytes env slot meta fs =
     (case fs (sl_tmp slot) of
        None \<Rightarrow> (0, fs)
      | Some n \<Rightarrow>
          (let size = stat_size env n in
           if size = 0 \<or> size \<ge> fm_Size meta then (0, fs)
           else (case os_read_file env (partMetaPath (sl_tmp slot)) fs of
               Some recorded \<Rightarrow>
                 if equal_fold (trim_space recorded) (fm_SHA256 meta) then (size, fs)
                 else (0, removePart env (sl_tmp slot) fs)
             | None \<Rightarrow> (0, removePart env (sl_tmp slot) fs))))"

end
