(* ===== verification/Send.thy ===== *)
theory Send
  imports Files
begin

text \<open>
  The sending side, \<^verbatim>\<open>internal/daemon/send.go\<close>: the manifest (\<^verbatim>\<open>buildManifest\<close>), one file
  (\<^verbatim>\<open>sendOneFile\<close>), a session of files (the part of \<^verbatim>\<open>SendFiles\<close> after the connection is open)
  and the clipboard (\<^verbatim>\<open>SendClipboard\<close>). The sender reads the peer's replies from one list of bytes
  and the bytes it writes are another. Cancellation by the user is not modelled.
\<close>

datatype send_error =
    NoFiles
  | LstatErr string
  | NotRegular string
  | UnsafePath string
  | HashErr string
  | OpenFailed string
  | WriteFailed proto_error
  | ReadReply proto_error
  | NoOffer string
  | PeerRejected string
  | ClipTooLarge nat

section \<open>The manifest\<close>

text \<open>
  What \<^verbatim>\<open>Lstat\<close> and \<^verbatim>\<open>WalkDir\<close> see at a path: a regular file, a directory with its entries in
  lexical order, or something else.
\<close>

datatype tree = TFile bytes | TDir "(string \<times> tree) list" | TOther

definition hashFile :: "os_env \<Rightarrow> string \<Rightarrow> bytes \<Rightarrow> string option" where
  "hashFile env path data = (if e_read env path then Some (hex_encode (sha256 data)) else None)"

text \<open>
  The callback of \<^verbatim>\<open>WalkDir\<close> on an entry and, for a directory, on everything below it. \<^term>\<open>rel\<close> is
  \<^verbatim>\<open>filepath.Rel\<close> of the entry to the parent of the walked directory.
\<close>

fun walk :: "os_env \<Rightarrow> string \<Rightarrow> string \<Rightarrow> string \<Rightarrow> tree \<Rightarrow> send_error + (file_meta \<times> string) list"
  and walk_entries :: "os_env \<Rightarrow> string \<Rightarrow> string \<Rightarrow> (string \<times> tree) list \<Rightarrow> send_error + (file_meta \<times> string) list" where
  "walk env entry rel name (TFile data) =
     (if \<not> validRelPath rel then Inl (UnsafePath rel)
      else case hashFile env entry data of
        None \<Rightarrow> Inl (HashErr entry)
      | Some sha \<Rightarrow> Inr [(FileMeta0\<lparr>fm_Name := Base entry, fm_Size := int (length data), fm_SHA256 := sha,
          fm_RelPath := rel\<rparr>, entry)])"
| "walk env entry rel name TOther =
     (if \<not> validRelPath rel then Inl (UnsafePath rel) else Inl (NotRegular entry))"
| "walk env entry rel name (TDir es) =
     (if \<not> validRelPath rel then Inl (UnsafePath rel)
      else case walk_entries env entry rel es of
        Inl e \<Rightarrow> Inl e
      | Inr ms \<Rightarrow> Inr ((FileMeta0\<lparr>fm_Name := name, fm_RelPath := rel, fm_IsDir := True\<rparr>, entry) # ms))"
| "walk_entries env entry rel [] = Inr []"
| "walk_entries env entry rel ((name, t) # es) =
     (case walk env (Join entry name) (rel @ ''/'' @ name) name t of
        Inl e \<Rightarrow> Inl e
      | Inr ms \<Rightarrow>
          (case walk_entries env entry rel es of
             Inl e \<Rightarrow> Inl e
           | Inr ms' \<Rightarrow> Inr (ms @ ms')))"

text \<open>The arguments of \<^verbatim>\<open>buildManifest\<close>, made absolute, with what \<^verbatim>\<open>Lstat\<close> finds there.\<close>

fun manifest_of :: "os_env \<Rightarrow> (string \<times> tree option) list \<Rightarrow> send_error + (file_meta \<times> string) list" where
  "manifest_of env [] = Inr []"
| "manifest_of env ((p, t) # ps) =
     (case (case t of
              None \<Rightarrow> Inl (LstatErr p)
            | Some TOther \<Rightarrow> Inl (NotRegular p)
            | Some (TFile data) \<Rightarrow>
                (case hashFile env p data of
                   None \<Rightarrow> Inl (HashErr p)
                 | Some sha \<Rightarrow> Inr [(FileMeta0\<lparr>fm_Name := Base p, fm_Size := int (length data), fm_SHA256 := sha\<rparr>, p)])
            | Some (TDir es) \<Rightarrow> walk env p (Base p) (Base p) (TDir es)) of
        Inl e \<Rightarrow> Inl e
      | Inr ms \<Rightarrow>
          (case manifest_of env ps of
             Inl e \<Rightarrow> Inl e
           | Inr ms' \<Rightarrow> Inr (ms @ ms')))"

definition buildManifest :: "os_env \<Rightarrow> (string \<times> tree option) list \<Rightarrow> send_error + (file_meta \<times> string) list" where
  "buildManifest env paths =
     (if paths = [] then Inl NoFiles
      else case manifest_of env paths of
        Inl e \<Rightarrow> Inl e
      | Inr ms \<Rightarrow> if ms = [] then Inl NoFiles else Inr ms)"

section \<open>One file\<close>

definition chunk_hdr :: "int \<Rightarrow> bytes \<Rightarrow> header" where
  "chunk_hdr index c = Header0\<lparr>h_Type := TypeChunk, h_FileIndex := index, h_Length := int (length c)\<rparr>"

definition progress_hdr :: "int \<Rightarrow> int \<Rightarrow> int \<Rightarrow> header" where
  "progress_hdr index sent size_m =
     Header0\<lparr>h_Type := TypeProgress, h_FileIndex := index, h_BytesDone := sent, h_TotalBytes := size_m\<rparr>"

text \<open>
  The loop over the file's bytes from the offset on: a chunk, then an advisory progress frame whose
  errors are ignored.
\<close>

function send_chunks :: "int \<Rightarrow> int \<Rightarrow> int \<Rightarrow> bytes \<Rightarrow> proto_error option \<times> bytes" where
  "send_chunks index size_m bytesSent data =
     (if data = [] then (None, [])
      else
        (let buf = take (nat ChunkSize) data;
             (out, err) = WriteMessage (chunk_hdr index buf) (Some buf) in
         if err \<noteq> None then (err, out)
         else
           (let sent = bytesSent + int (length buf);
                progress = fst (WriteControl (progress_hdr index sent size_m));
                (err', out') = send_chunks index size_m sent (drop (nat ChunkSize) data) in
            (err', out @ progress @ out'))))"
  by pat_completeness auto
termination
  by (relation "measure (\<lambda>(index, size_m, sent, data). length data)") (auto simp: ChunkSize_def)

declare send_chunks.simps [simp del]

definition sendOneFile ::
  "(string \<Rightarrow> bytes option) \<Rightarrow> int \<Rightarrow> string \<Rightarrow> file_meta \<Rightarrow> int \<Rightarrow> send_error option \<times> bytes" where
  "sendOneFile src index path m resumeOffset =
     (let fh = WriteControl (Header0\<lparr>h_Type := TypeFileHeader, h_FileIndex := index\<rparr>);
          fe = WriteControl (Header0\<lparr>h_Type := TypeFileEnd, h_FileIndex := index\<rparr>) in
      if fm_IsDir m then
        (case snd fh of Some e \<Rightarrow> (Some (WriteFailed e), fst fh)
         | None \<Rightarrow> (map_option WriteFailed (snd fe), fst fh @ fst fe))
      else
        (case src path of
           None \<Rightarrow> (Some (OpenFailed path), [])
         | Some data \<Rightarrow>
             (let off = (if resumeOffset > 0 \<and> resumeOffset < fm_Size m then resumeOffset else 0) in
              case snd fh of
                Some e \<Rightarrow> (Some (WriteFailed e), fst fh)
              | None \<Rightarrow>
                  (case send_chunks index (fm_Size m) off (drop (nat off) data) of
                     (Some e, out) \<Rightarrow> (Some (WriteFailed e), fst fh @ out)
                   | (None, out) \<Rightarrow> (map_option WriteFailed (snd fe), fst fh @ out @ fst fe)))))"

section \<open>A session\<close>

text \<open>
  The loop over the manifest. Each file: ask for the resume offset, send, read the acknowledgement.
  The result has what was written and what is left of the replies.
\<close>

fun send_entries ::
  "(string \<Rightarrow> bytes option) \<Rightarrow> int \<Rightarrow> (file_meta \<times> string) list \<Rightarrow> bytes \<Rightarrow> send_error option \<times> bytes \<times> bytes" where
  "send_entries src i [] replies = (None, [], replies)"
| "send_entries src i ((m, path) # ms) replies =
     (case WriteControl (Header0\<lparr>h_Type := TypeResumeQuery, h_FileIndex := i, h_SHA256 := fm_SHA256 m\<rparr>) of
        (q, Some e) \<Rightarrow> (Some (WriteFailed e), q, replies)
      | (q, None) \<Rightarrow>
          (case ReadHeader replies of
             (Inl e, r) \<Rightarrow> (Some (ReadReply e), q, r)
           | (Inr offer, r) \<Rightarrow>
               if h_Type offer \<noteq> TypeResumeOffer then (Some (NoOffer (h_Type offer)), q, r)
               else
                 (case sendOneFile src i path m (h_BytesDone offer) of
                    (Some e, out) \<Rightarrow> (Some e, q @ out, r)
                  | (None, out) \<Rightarrow>
                      (case ReadHeader r of
                         (Inl e, r') \<Rightarrow> (Some (ReadReply e), q @ out, r')
                       | (Inr ack, r') \<Rightarrow>
                           if \<not> h_OK ack then (Some (PeerRejected (h_Error ack)), q @ out, r')
                           else
                             (let (err, out', r'') = send_entries src (i + 1) ms r' in (err, q @ out @ out', r''))))))"

definition session_start_hdr :: "file_meta list \<Rightarrow> header" where
  "session_start_hdr manifest =
     Header0\<lparr>h_Type := TypeSessionStart, h_Kind := KindFiles, h_Files := manifest, h_Resume := True\<rparr>"

definition send_session ::
  "(string \<Rightarrow> bytes option) \<Rightarrow> (file_meta \<times> string) list \<Rightarrow> bytes \<Rightarrow> send_error option \<times> bytes \<times> bytes" where
  "send_session src ms replies =
     (case WriteControl (session_start_hdr (map fst ms)) of
        (st, Some e) \<Rightarrow> (Some (WriteFailed e), st, replies)
      | (st, None) \<Rightarrow>
          (case send_entries src 0 ms replies of
             (Some e, out, r) \<Rightarrow> (Some e, st @ out, r)
           | (None, out, r) \<Rightarrow>
               (case WriteControl (Header0\<lparr>h_Type := TypeSessionEnd\<rparr>) of
                  (se, Some e) \<Rightarrow> (Some (WriteFailed e), st @ out @ se, r)
                | (se, None) \<Rightarrow>
                    (case ReadHeader r of
                       (Inl e, r') \<Rightarrow> (Some (ReadReply e), st @ out @ se, r')
                     | (Inr ack, r') \<Rightarrow>
                         if h_Type ack \<noteq> TypeAck \<or> \<not> h_OK ack
                         then (Some (PeerRejected (h_Error ack)), st @ out @ se, r')
                         else (None, st @ out @ se, r')))))"

section \<open>The clipboard\<close>

definition send_clipboard :: "bytes \<Rightarrow> string \<Rightarrow> bytes \<Rightarrow> send_error option \<times> bytes \<times> bytes" where
  "send_clipboard data mime replies =
     (let mime = (if mime = [] then ''text/plain'' else mime) in
      if int (length data) > MaxClipboardSize then (Some (ClipTooLarge (length data)), [], replies)
      else
        (case WriteControl (Header0\<lparr>h_Type := TypeSessionStart, h_Kind := KindClipboard\<rparr>) of
           (st, Some e) \<Rightarrow> (Some (WriteFailed e), st, replies)
         | (st, None) \<Rightarrow>
             (case WriteMessage (Header0\<lparr>h_Type := TypeClipboardData, h_MIME := mime, h_Length := int (length data)\<rparr>)
                     (Some data) of
                (cd, Some e) \<Rightarrow> (Some (WriteFailed e), st @ cd, replies)
              | (cd, None) \<Rightarrow>
                  (case WriteControl (Header0\<lparr>h_Type := TypeSessionEnd\<rparr>) of
                     (se, Some e) \<Rightarrow> (Some (WriteFailed e), st @ cd @ se, replies)
                   | (se, None) \<Rightarrow>
                       (case ReadHeader replies of
                          (Inl e, r) \<Rightarrow> (Some (ReadReply e), st @ cd @ se, r)
                        | (Inr ack, r) \<Rightarrow>
                            if \<not> h_OK ack then (Some (PeerRejected (h_Error ack)), st @ cd @ se, r)
                            else (None, st @ cd @ se, r))))))"

end
