(* ===== verification/Ipc.thy ===== *)
theory Ipc
  imports Prelude
begin

text \<open>
  The data the daemon pushes to its clients, \<^verbatim>\<open>internal/ipc/ipc.go\<close>: pairing information and
  the events of a subscription.
\<close>

record pair_info =
  pi_ID :: string
  pi_Name :: string
  pi_Fingerprint :: string
  pi_Code :: string

record event =
  ev_Kind :: string
  ev_Peer :: string
  ev_File :: string
  ev_Index :: int
  ev_Count :: int
  ev_BytesDone :: int
  ev_Total :: int
  ev_Err :: string
  ev_Pair :: "pair_info option"
  ev_Path :: string

definition Event0 :: event where
  "Event0 = \<lparr>ev_Kind = [], ev_Peer = [], ev_File = [], ev_Index = 0, ev_Count = 0, ev_BytesDone = 0,
     ev_Total = 0, ev_Err = [], ev_Pair = None, ev_Path = []\<rparr>"

end
