(* ===== verification/Receive.thy ===== *)
theory Receive
  imports Files Ipc
begin

text \<open>
  The receiving side, \<^verbatim>\<open>internal/daemon/receive.go\<close>: one file (\<^verbatim>\<open>receiveOneFile\<close>), a session of
  files (\<^verbatim>\<open>receiveFilesWithProgress\<close>), the clipboard (\<^verbatim>\<open>receiveClipboard\<close>) and the dispatch
  (\<^verbatim>\<open>receiveSession\<close>). A connection is the bytes still to be read and the bytes written; its end is
  the end of input, and writes to it are not refused. Loops that read until the peer ends recurse on
  the length of the input.
\<close>

section \<open>One file\<close>

text \<open>
  One turn of the loop of \<^verbatim>\<open>receiveOneFile\<close>: its result (\<^term>\<open>Inl\<close>) or the state of the next turn.
  \<^term>\<open>hashed\<close> is what was written to the hasher, \<^term>\<open>got\<close> the byte count; its addition wraps like
  \<^verbatim>\<open>int64\<close>. A chunk's bytes are copied as they come, so a short payload or a full disk leaves a prefix.
\<close>

type_synonym file_result = "(recv_error + string) \<times> fs \<times> bytes"
type_synonym file_state = "bytes \<times> int \<times> fs \<times> bytes"

definition recv_chunk ::
  "os_env \<Rightarrow> file_meta \<Rightarrow> fileSlot \<Rightarrow> header \<Rightarrow> bytes \<Rightarrow> int \<Rightarrow> fs \<Rightarrow> bytes \<Rightarrow> file_result + file_state" where
  "recv_chunk env meta slot hdr hashed got fs r =
     (let tmp = sl_tmp slot in
      if h_Length hdr < 0 then Inl (Inl (NegativeChunk (h_Length hdr)), removePart env tmp fs, r)
      else if fm_Size meta < wrap64 (got + h_Length hdr) then Inl (Inl ExceedsSize, removePart env tmp fs, r)
      else
        (let n = nat (h_Length hdr);
             avail = take n r;
             written = min (e_write env tmp (content fs tmp) avail) (length avail);
             fs' = os_append tmp (take written avail) fs in
         if written < length avail then Inl (Inl (WriteErr tmp), fs', drop n r)
         else if length avail < n then Inl (Inl (ProtoErr EOF), fs', [])
         else Inr (hashed @ avail, wrap64 (got + h_Length hdr), fs', drop n r)))"

definition recv_end ::
  "os_env \<Rightarrow> file_meta \<Rightarrow> fileSlot \<Rightarrow> bytes \<Rightarrow> int \<Rightarrow> fs \<Rightarrow> bytes \<Rightarrow> file_result" where
  "recv_end env meta slot hashed got fs r =
     (let tmp = sl_tmp slot; dest = sl_dest slot in
      if \<not> e_close env tmp then (Inl (CloseErr tmp), removePart env tmp fs, r)
      else if got \<noteq> fm_Size meta then (Inl (SizeMismatch got (fm_Size meta)), removePart env tmp fs, r)
      else if \<not> equal_fold (hex_encode (sha256 hashed)) (fm_SHA256 meta)
      then (Inl ShaMismatch, removePart env tmp fs, r)
      else if e_rename env dest \<and> fs dest \<noteq> Some FDir
      then (Inr dest, os_remove env (partMetaPath tmp) ((fs(tmp := None))(dest := fs tmp)), r)
      else (Inl (RenameErr dest), removePart env tmp fs, r))"

definition recv_step ::
  "os_env \<Rightarrow> file_meta \<Rightarrow> fileSlot \<Rightarrow> bytes \<Rightarrow> int \<Rightarrow> fs \<Rightarrow> bytes \<Rightarrow> file_result + file_state" where
  "recv_step env meta slot hashed got fs conn =
     (case ReadHeader conn of
        (Inl e, r) \<Rightarrow> Inl (Inl (ProtoErr e), fs, r)
      | (Inr hdr, r) \<Rightarrow>
          if h_Type hdr = TypeChunk then recv_chunk env meta slot hdr hashed got fs r
          else if h_Type hdr = TypeProgress then Inr (hashed, got, fs, r)
          else if h_Type hdr = TypeFileEnd then Inl (recv_end env meta slot hashed got fs r)
          else Inl (Inl (Unexpected ''file body'' (h_Type hdr)), removePart env (sl_tmp slot) fs, r))"

lemma recv_step_shorter: "recv_step env meta slot hashed got fs conn = Inr (h, g, fs', r) \<Longrightarrow> length r < length conn"
  by (auto simp: recv_step_def recv_chunk_def Let_def dest!: ReadHeader_shorter
      split: prod.splits sum.splits if_splits)

function recv_body :: "os_env \<Rightarrow> file_meta \<Rightarrow> fileSlot \<Rightarrow> bytes \<Rightarrow> int \<Rightarrow> fs \<Rightarrow> bytes \<Rightarrow> file_result" where
  "recv_body env meta slot hashed got fs conn =
     (case recv_step env meta slot hashed got fs conn of
        Inl result \<Rightarrow> result
      | Inr (hashed', got', fs', conn') \<Rightarrow> recv_body env meta slot hashed' got' fs' conn')"
  by pat_completeness auto
termination
  by (relation "measure (\<lambda>(env, meta, slot, hashed, got, fs, conn). length conn)")
    (auto dest!: recv_step_shorter)

declare recv_body.simps [simp del]

definition receiveOneFile ::
  "os_env \<Rightarrow> file_meta \<Rightarrow> fileSlot \<Rightarrow> int \<Rightarrow> fs \<Rightarrow> bytes \<Rightarrow> (recv_error + string) \<times> fs \<times> bytes" where
  "receiveOneFile env meta slot resumeOffset fs conn =
     (let tmp = sl_tmp slot in
      if 0 < resumeOffset then
        (let hashed = (case os_read_file env tmp fs of Some b \<Rightarrow> b | None \<Rightarrow> []) in
         case fs tmp of
           Some (FFile b) \<Rightarrow>
             if e_open env tmp
             then recv_body env meta slot hashed resumeOffset (writePartMeta env tmp meta fs) conn
             else (Inl (OpenErr tmp), fs, conn)
         | _ \<Rightarrow> (Inl (OpenErr tmp), fs, conn))
      else if e_open env tmp \<and> fs tmp \<noteq> Some FDir
      then recv_body env meta slot [] 0 (writePartMeta env tmp meta (fs(tmp \<mapsto> FFile []))) conn
      else (Inl (OpenErr tmp), fs, conn))"

section \<open>A session of files\<close>

record session =
  s_fs :: fs
  s_claimed :: "string list"
  s_slots :: "(int \<times> fileSlot) list"
  s_completed :: "int list"
  s_saved :: "string list"
  s_in :: bytes
  s_out :: bytes
  s_events :: "event list"

definition reply :: "header \<Rightarrow> session \<Rightarrow> session" where
  "reply hdr s = s\<lparr>s_out := s_out s @ fst (WriteControl hdr)\<rparr>"

definition emit :: "event \<Rightarrow> session \<Rightarrow> session" where
  "emit ev s = s\<lparr>s_events := s_events s @ [ev]\<rparr>"

definition emitErr :: "os_env \<Rightarrow> string \<Rightarrow> int \<Rightarrow> recv_error \<Rightarrow> session \<Rightarrow> recv_error option \<times> session" where
  "emitErr env peerName count e s =
     (Some e, emit (Event0\<lparr>ev_Kind := ''recv-error'', ev_Peer := peerName, ev_Count := count,
        ev_Err := e_text env e\<rparr>) s)"

definition ack_err :: "os_env \<Rightarrow> int \<Rightarrow> recv_error \<Rightarrow> header" where
  "ack_err env i e = Header0\<lparr>h_Type := TypeAck, h_FileIndex := i, h_OK := False, h_Error := e_text env e\<rparr>"

definition ack_ok :: "int \<Rightarrow> header" where
  "ack_ok i = Header0\<lparr>h_Type := TypeAck, h_FileIndex := i, h_OK := True\<rparr>"

definition slotFor ::
  "os_env \<Rightarrow> string \<Rightarrow> file_meta list \<Rightarrow> int \<Rightarrow> session \<Rightarrow> (recv_error + fileSlot) \<times> session" where
  "slotFor env dir manifest i s =
     (case map_of (s_slots s) i of
        Some slot \<Rightarrow> (Inr slot, s)
      | None \<Rightarrow>
          (case reserveSlot env dir (manifest ! nat i) (s_fs s) (s_claimed s) of
             (Inl e, fs, cl) \<Rightarrow> (Inl e, s\<lparr>s_fs := fs, s_claimed := cl\<rparr>)
           | (Inr slot, fs, cl) \<Rightarrow>
               (Inr slot, s\<lparr>s_fs := fs, s_claimed := cl, s_slots := (i, slot) # s_slots s\<rparr>)))"

definition in_range :: "file_meta list \<Rightarrow> int \<Rightarrow> bool" where
  "in_range manifest i \<longleftrightarrow> 0 \<le> i \<and> i < int (length manifest)"

text \<open>The answers to the frames of a session, in the order of the loop's branches.\<close>

definition on_progress :: "string \<Rightarrow> file_meta list \<Rightarrow> header \<Rightarrow> session \<Rightarrow> session" where
  "on_progress peerName manifest hdr s =
     emit (Event0\<lparr>ev_Kind := ''recv-progress'', ev_Peer := peerName,
       ev_File := (if in_range manifest (h_FileIndex hdr) then fm_Name (manifest ! nat (h_FileIndex hdr)) else []),
       ev_Index := h_FileIndex hdr, ev_Count := int (length manifest),
       ev_BytesDone := h_BytesDone hdr, ev_Total := h_TotalBytes hdr\<rparr>) s"

definition on_resume_query ::
  "os_env \<Rightarrow> string \<Rightarrow> file_meta list \<Rightarrow> bool \<Rightarrow> header \<Rightarrow> session \<Rightarrow> session" where
  "on_resume_query env dir manifest resume hdr s =
     (let i = h_FileIndex hdr;
          (partBytes, s1) =
            (if resume \<and> in_range manifest i \<and> \<not> fm_IsDir (manifest ! nat i) then
               (case slotFor env dir manifest i s of
                  (Inl e, s') \<Rightarrow> (0, s')
                | (Inr slot, s') \<Rightarrow>
                    (let (n, fs') = partialBytes env slot (manifest ! nat i) (s_fs s') in (n, s'\<lparr>s_fs := fs'\<rparr>)))
             else (0, s)) in
      reply (Header0\<lparr>h_Type := TypeResumeOffer, h_FileIndex := i, h_BytesDone := partBytes\<rparr>) s1)"

definition on_directory ::
  "os_env \<Rightarrow> string \<Rightarrow> string \<Rightarrow> int \<Rightarrow> int \<Rightarrow> file_meta \<Rightarrow> session \<Rightarrow> recv_error option \<times> session" where
  "on_directory env dir peerName count i meta s =
     (let (err, s1) =
        (case ReadHeader (s_in s) of
           (Inl e, r) \<Rightarrow> (Some (ProtoErr e), s\<lparr>s_in := r\<rparr>)
         | (Inr end, r) \<Rightarrow>
             if h_Type end \<noteq> TypeFileEnd \<or> h_FileIndex end \<noteq> i \<or> h_Length end \<noteq> 0 \<or> fm_Size meta \<noteq> 0
                \<or> fm_SHA256 meta \<noteq> []
             then (Some InvalidDirEntry, s\<lparr>s_in := r\<rparr>)
             else (let (e, fs') = createDirectory env dir (fm_RelPath meta) (s_fs s) in
                   (e, s\<lparr>s_in := r, s_fs := fs'\<rparr>))) in
      case err of
        Some e \<Rightarrow> emitErr env peerName count e (reply (ack_err env i e) s1)
      | None \<Rightarrow>
          (None, reply (ack_ok i)
             (s1\<lparr>s_completed := i # s_completed s1, s_saved := s_saved s1 @ [fm_RelPath meta]\<rparr>)))"

definition on_file ::
  "os_env \<Rightarrow> string \<Rightarrow> string \<Rightarrow> file_meta list \<Rightarrow> bool \<Rightarrow> int \<Rightarrow> session \<Rightarrow> recv_error option \<times> session" where
  "on_file env dir peerName manifest resume i s =
     (let meta = manifest ! nat i; count = int (length manifest) in
      case slotFor env dir manifest i s of
        (Inl e, s1) \<Rightarrow> emitErr env peerName count (FileErr (fm_Name meta) e) (reply (ack_err env i e) s1)
      | (Inr slot, s1) \<Rightarrow>
          (let (resumeOffset, fs1) = (if resume then partialBytes env slot meta (s_fs s1) else (0, s_fs s1)) in
           case receiveOneFile env meta slot resumeOffset fs1 (s_in s1) of
             (Inl e, fs2, r) \<Rightarrow>
               emitErr env peerName count (FileErr (fm_Name meta) e)
                 (reply (ack_err env i e) (s1\<lparr>s_fs := fs2, s_in := r\<rparr>))
           | (Inr path, fs2, r) \<Rightarrow>
               (None, emit (Event0\<lparr>ev_Kind := ''recv-file-done'', ev_Peer := peerName, ev_File := Base path,
                   ev_Path := path, ev_Index := i, ev_Count := count, ev_BytesDone := fm_Size meta,
                   ev_Total := fm_Size meta\<rparr>)
                 (reply (ack_ok i)
                   (s1\<lparr>s_fs := fs2, s_in := r, s_completed := i # s_completed s1,
                       s_saved := s_saved s1 @ [path]\<rparr>)))))"

text \<open>
  An invariant of the loop's state that gives the conclusion wherever the loop stops holds of its
  result.
\<close>

lemma recv_body_rule:
  assumes "I hashed got fs conn"
    and "\<And>h g f c h' g' f' c'. I h g f c \<Longrightarrow> recv_step env meta slot h g f c = Inr (h', g', f', c') \<Longrightarrow> I h' g' f' c'"
    and "\<And>h g f c res. I h g f c \<Longrightarrow> recv_step env meta slot h g f c = Inl res \<Longrightarrow> Q res"
  shows "Q (recv_body env meta slot hashed got fs conn)"
  using assms
proof (induction env meta slot hashed got fs conn rule: recv_body.induct)
  case (1 env meta slot hashed got fs conn)
  show ?case
  proof (cases "recv_step env meta slot hashed got fs conn")
    case (Inl res)
    with "1.prems"(1,3) show ?thesis by (simp add: recv_body.simps [of env meta slot hashed got fs conn])
  next
    case (Inr st)
    obtain h g f c where st: "st = (h, g, f, c)" by (cases st)
    then have "Q (recv_body env meta slot h g f c)"
      using Inr "1.prems" by (intro "1.IH" [of st h "(g, f, c)" g "(f, c)" f c]) auto
    with Inr st show ?thesis by (simp add: recv_body.simps [of env meta slot hashed got fs conn])
  qed
qed

text \<open>No step gives back input it has read.\<close>

lemma recv_step_suffix:
  "recv_step env meta slot h g f c = Inr (h', g', f', c') \<Longrightarrow> suffix c' c"
  "recv_step env meta slot h g f c = Inl (x, f', c') \<Longrightarrow> suffix c' c"
  by (auto simp: recv_step_def recv_chunk_def recv_end_def Let_def dest!: ReadHeader_suffix
      intro: suffix_order.trans suffix_drop split: prod.splits sum.splits if_splits)

lemma recv_body_suffix: "suffix (snd (snd (recv_body env meta slot h g f c))) c"
  by (rule recv_body_rule [where I = "\<lambda>h g f c'. suffix c' c"])
    (auto dest: recv_step_suffix intro: suffix_order.trans)

lemma receiveOneFile_suffix: "receiveOneFile env meta slot off fs conn = (x, fs', r) \<Longrightarrow> suffix r conn"
proof -
  have "suffix (snd (snd (receiveOneFile env meta slot off fs conn))) conn"
    by (auto simp: receiveOneFile_def Let_def recv_body_suffix split: option.splits node.splits)
  then show "receiveOneFile env meta slot off fs conn = (x, fs', r) \<Longrightarrow> suffix r conn" by simp
qed

lemma session_in_simps [simp]:
  "s_in (reply h s) = s_in s" "s_in (emit ev s) = s_in s" "s_in (snd (emitErr env p c e s)) = s_in s"
  by (simp_all add: reply_def emit_def emitErr_def)

lemma slotFor_in: "slotFor env dir manifest i s = (x, s') \<Longrightarrow> s_in s' = s_in s"
  by (auto simp: slotFor_def split: option.splits prod.splits sum.splits)

lemma on_file_suffix: "on_file env dir peer manifest resume i s = (e, s') \<Longrightarrow> suffix (s_in s') (s_in s)"
  by (auto simp: on_file_def Let_def emitErr_def dest!: slotFor_in receiveOneFile_suffix split: prod.splits sum.splits)

lemma on_directory_suffix: "on_directory env dir peer n i meta s = (e, s') \<Longrightarrow> suffix (s_in s') (s_in s)"
  by (auto simp: on_directory_def Let_def emitErr_def dest!: ReadHeader_suffix
      split: prod.splits sum.splits if_splits option.splits)

lemma on_resume_query_in: "s_in (on_resume_query env dir manifest resume hdr s) = s_in s"
  by (auto simp: on_resume_query_def Let_def dest!: slotFor_in split: prod.splits sum.splits if_splits)

text \<open>
  One turn of the session loop: the session is over (\<^term>\<open>Inl\<close>, with its error) or goes on.
\<close>

definition files_step ::
  "os_env \<Rightarrow> string \<Rightarrow> string \<Rightarrow> file_meta list \<Rightarrow> bool \<Rightarrow> session \<Rightarrow> (recv_error option \<times> session) + session" where
  "files_step env dir peerName manifest resume s =
     (let count = int (length manifest);
          stop = (\<lambda>e s. Inl (emitErr env peerName count e s));
          next = (\<lambda>(err, s). case err of None \<Rightarrow> Inr s | Some e \<Rightarrow> Inl (Some e, s)) in
      case ReadHeader (s_in s) of
        (Inl e, r) \<Rightarrow> stop (ProtoErr e) (s\<lparr>s_in := r\<rparr>)
      | (Inr hdr, r) \<Rightarrow>
          (let s = s\<lparr>s_in := r\<rparr>; i = h_FileIndex hdr in
           if h_Type hdr = TypeSessionEnd then
             (if length (remdups (s_completed s)) \<noteq> length manifest
              then stop Incomplete
                (reply (Header0\<lparr>h_Type := TypeAck, h_Error := e_text env Incomplete\<rparr>) s)
              else Inl (None, s))
           else if h_Type hdr = TypeProgress then Inr (on_progress peerName manifest hdr s)
           else if h_Type hdr = TypeResumeQuery then Inr (on_resume_query env dir manifest resume hdr s)
           else if h_Type hdr \<noteq> TypeFileHeader then stop (Unexpected ''file_header'' (h_Type hdr)) s
           else if \<not> in_range manifest i then stop (IndexRange i) s
           else if i \<in> set (s_completed s) then stop (DuplicateIndex i) s
           else if fm_IsDir (manifest ! nat i)
           then next (on_directory env dir peerName count i (manifest ! nat i) s)
           else next (on_file env dir peerName manifest resume i s)))"

lemma files_step_shorter:
  "files_step env dir peer manifest resume s = Inr s' \<Longrightarrow> length (s_in s') < length (s_in s)"
  by (auto simp: files_step_def Let_def on_progress_def on_resume_query_in
      dest!: ReadHeader_shorter on_directory_suffix on_file_suffix dest: suffix_length_le
      split: prod.splits sum.splits if_splits option.splits)

function files_loop ::
  "os_env \<Rightarrow> string \<Rightarrow> string \<Rightarrow> file_meta list \<Rightarrow> bool \<Rightarrow> session \<Rightarrow> recv_error option \<times> session" where
  "files_loop env dir peerName manifest resume s =
     (case files_step env dir peerName manifest resume s of
        Inl result \<Rightarrow> result
      | Inr s' \<Rightarrow> files_loop env dir peerName manifest resume s')"
  by pat_completeness auto
termination
  by (relation "measure (\<lambda>(env, dir, peerName, manifest, resume, s). length (s_in s))")
    (auto dest!: files_step_shorter)

declare files_loop.simps [simp del]

definition release_all :: "session \<Rightarrow> session" where
  "release_all s = s\<lparr>s_claimed := fold (\<lambda>(i, slot). release slot) (s_slots s) (s_claimed s)\<rparr>"

definition receiveFilesWithProgress ::
  "os_env \<Rightarrow> string \<Rightarrow> string \<Rightarrow> file_meta list \<Rightarrow> bool \<Rightarrow> session \<Rightarrow> recv_error option \<times> session" where
  "receiveFilesWithProgress env dir peerName manifest resume s =
     (if manifest = [] then (Some EmptyManifest, s)
      else
        (let s0 = emit (Event0\<lparr>ev_Kind := ''recv-start'', ev_Peer := peerName, ev_Count := int (length manifest)\<rparr>)
                    (s\<lparr>s_slots := [], s_completed := [], s_saved := []\<rparr>);
             (err, s1) = files_loop env dir peerName manifest resume s0 in
         case err of
           Some e \<Rightarrow> (Some e, release_all s1)
         | None \<Rightarrow>
             (None, release_all
               (emit (Event0\<lparr>ev_Kind := ''recv-done'', ev_Peer := peerName, ev_Count := int (length (s_saved s1))\<rparr>)
                 (reply (Header0\<lparr>h_Type := TypeAck, h_OK := True\<rparr>) s1)))))"

section \<open>The clipboard\<close>

text \<open>
  \<^term>\<open>clip_set\<close> stands for \<^verbatim>\<open>clipboardSet\<close>, which runs a clipboard program: whether it takes the
  data and its MIME type. The result says what it was given.
\<close>

definition receiveClipboard ::
  "os_env \<Rightarrow> (bytes \<Rightarrow> string \<Rightarrow> bool) \<Rightarrow> bytes \<Rightarrow> recv_error option \<times> (bytes \<times> string) option \<times> bytes \<times> bytes" where
  "receiveClipboard env clip_set conn =
     (case ReadHeader conn of
        (Inl e, r) \<Rightarrow> (Some (ProtoErr e), None, r, [])
      | (Inr hdr, r) \<Rightarrow>
          if h_Type hdr \<noteq> TypeClipboardData then (Some (Unexpected ''clipboard data'' (h_Type hdr)), None, r, [])
          else if h_Length hdr < 0 \<or> h_Length hdr > MaxClipboardSize then
            (let e = ClipSize (h_Length hdr) in
             (Some e, None, r, fst (WriteControl (Header0\<lparr>h_Type := TypeAck, h_OK := False, h_Error := e_text env e\<rparr>))))
          else
            (case ReadFull (nat (h_Length hdr)) r of
               (Inl e, r') \<Rightarrow> (Some (ProtoErr e), None, r', [])
             | (Inr buf, r') \<Rightarrow>
                 (let r'' = snd (ReadHeader r') in
                  if clip_set buf (h_MIME hdr)
                  then (None, Some (buf, h_MIME hdr), r'', fst (WriteControl (Header0\<lparr>h_Type := TypeAck, h_OK := True\<rparr>)))
                  else (Some ClipSet, None, r'',
                    fst (WriteControl (Header0\<lparr>h_Type := TypeAck, h_OK := False, h_Error := e_text env ClipSet\<rparr>))))))"

section \<open>A session\<close>

record received =
  rv_session :: session
  rv_clip :: "(bytes \<times> string) option"

definition receiveSession ::
  "os_env \<Rightarrow> (bytes \<Rightarrow> string \<Rightarrow> bool) \<Rightarrow> string \<Rightarrow> string \<Rightarrow> session \<Rightarrow> recv_error option \<times> received" where
  "receiveSession env clip_set dir peerName s =
     (case ReadHeader (s_in s) of
        (Inl e, r) \<Rightarrow> (if e = EOF then None else Some (ProtoErr e), \<lparr>rv_session = s\<lparr>s_in := r\<rparr>, rv_clip = None\<rparr>)
      | (Inr start, r) \<Rightarrow>
          (let s1 = s\<lparr>s_in := r\<rparr> in
           if h_Type start \<noteq> TypeSessionStart
           then (Some (Unexpected ''session_start'' (h_Type start)), \<lparr>rv_session = s1, rv_clip = None\<rparr>)
           else if h_Kind start = KindClipboard then
             (let (err, clip, r', out) = receiveClipboard env clip_set r in
              (err, \<lparr>rv_session = s1\<lparr>s_in := r', s_out := s_out s1 @ out\<rparr>, rv_clip = clip\<rparr>))
           else if h_Kind start = KindFiles then
             (let (err, s2) = receiveFilesWithProgress env dir peerName (h_Files start) (h_Resume start) s1 in
              (err, \<lparr>rv_session = s2, rv_clip = None\<rparr>))
           else (Some (UnknownKind (h_Kind start)), \<lparr>rv_session = s1, rv_clip = None\<rparr>)))"

end
