(* ===== verification/Receive_Laws.thy ===== *)
theory Receive_Laws
  imports Receive
begin

text \<open>
  What the receiver guarantees: a file put in place has the declared size and hash, nothing outside
  a slot is touched, destinations stay inside the download directory and are claimed by one transfer
  at a time.
\<close>

section \<open>Paths of a slot\<close>

definition slot_wf :: "fileSlot \<Rightarrow> bool" where
  "slot_wf slot \<longleftrightarrow> sl_tmp slot = sl_dest slot @ partSuffix"

definition slot_paths :: "fileSlot \<Rightarrow> string set" where
  "slot_paths slot = {sl_tmp slot, partMetaPath (sl_tmp slot)}"

lemma slot_neq [simp]:
  "slot_wf slot \<Longrightarrow> sl_dest slot \<noteq> sl_tmp slot" "slot_wf slot \<Longrightarrow> sl_tmp slot \<noteq> sl_dest slot"
  "slot_wf slot \<Longrightarrow> sl_dest slot \<noteq> partMetaPath (sl_tmp slot)" "partMetaPath p \<noteq> p" "p \<noteq> partMetaPath p"
  by (auto simp: slot_wf_def partSuffix_def partMetaPath_def)

lemma os_frame:
  "p \<noteq> q \<Longrightarrow> os_remove env q fs p = fs p" "p \<noteq> q \<Longrightarrow> os_write_file env q b fs p = fs p"
  "p \<noteq> q \<Longrightarrow> os_append q b fs p = fs p"
  by (simp_all add: os_remove_def os_write_file_def os_append_def)

lemma part_frame:
  "p \<notin> {t, partMetaPath t} \<Longrightarrow> removePart env t fs p = fs p"
  "p \<noteq> partMetaPath t \<Longrightarrow> writePartMeta env t meta fs p = fs p"
  by (simp_all add: removePart_def writePartMeta_def os_frame)

section \<open>One file\<close>

text \<open>What one turn of the loop may change: the partial file and its sidecar, and on success the destination.\<close>

lemma recv_chunk_frame:
  assumes "p \<notin> slot_paths slot"
  shows "recv_chunk env meta slot hdr h g fs r = Inr (h', g', fs', r') \<Longrightarrow> fs' p = fs p"
    "recv_chunk env meta slot hdr h g fs r = Inl (x, fs', r') \<Longrightarrow> fs' p = fs p \<and> (\<exists>e. x = Inl e)"
  using assms
  by (auto simp: recv_chunk_def Let_def slot_paths_def os_frame part_frame split: if_splits)

lemma recv_end_frame:
  assumes "p \<notin> slot_paths slot" "recv_end env meta slot h g fs r = (x, fs', r')" "p \<noteq> sl_dest slot \<or> x = Inl e"
  shows "fs' p = fs p"
  using assms by (auto simp: recv_end_def Let_def slot_paths_def os_frame part_frame split: if_splits)

lemma recv_step_frame:
  assumes "p \<notin> slot_paths slot"
  shows "recv_step env meta slot h g fs c = Inr (h', g', fs', c') \<Longrightarrow> fs' p = fs p"
    "recv_step env meta slot h g fs c = Inl (x, fs', c') \<Longrightarrow> p \<noteq> sl_dest slot \<or> x = Inl e \<Longrightarrow> fs' p = fs p"
  using assms
  by (auto simp: recv_step_def part_frame slot_paths_def [symmetric] dest: recv_chunk_frame recv_end_frame
      split: prod.splits sum.splits if_splits)

text \<open>The last turn of the loop, in a state where an invariant holds.\<close>

lemma recv_body_last:
  assumes "recv_body env meta slot h g fs c = (x, fs', c')" "I h g fs c"
    and "\<And>h g f c h' g' f' c'. I h g f c \<Longrightarrow> recv_step env meta slot h g f c = Inr (h', g', f', c') \<Longrightarrow> I h' g' f' c'"
  obtains h' g' f d where "I h' g' f d" "recv_step env meta slot h' g' f d = Inl (x, fs', c')"
proof -
  have "\<exists>h' g' f d. I h' g' f d \<and> recv_step env meta slot h' g' f d = Inl (recv_body env meta slot h g fs c)"
  proof (rule recv_body_rule [where I = I and Q = "\<lambda>res. \<exists>h' g' f d. I h' g' f d \<and> recv_step env meta slot h' g' f d = Inl res"])
    show "I h g fs c" by (rule assms(2))
  qed (rule assms(3), assumption+, blast)
  with assms(1) that show thesis by auto
qed

lemma recv_body_frame:
  assumes "p \<notin> slot_paths slot" "recv_body env meta slot h g fs c = (x, fs', c')" "p \<noteq> sl_dest slot \<or> x = Inl e"
  shows "fs' p = fs p"
  using assms(2)
proof (rule recv_body_last [where I = "\<lambda>_ _ f _. f p = fs p"])
  fix h g f c h' g' f' c'
  assume "f p = fs p" "recv_step env meta slot h g f c = Inr (h', g', f', c')"
  then show "f' p = fs p" using recv_step_frame(1) [OF assms(1)] by metis
next
  fix h g f c
  assume "f p = fs p" "recv_step env meta slot h g f c = Inl (x, fs', c')"
  then show ?thesis using recv_step_frame(2) [OF assms(1) _ assms(3)] by metis
qed simp

lemma receiveOneFile_frame:
  assumes "p \<notin> slot_paths slot" "receiveOneFile env meta slot off fs c = (x, fs', c')" "p \<noteq> sl_dest slot \<or> x = Inl e"
  shows "fs' p = fs p"
proof -
  have start: "writePartMeta env (sl_tmp slot) meta f p = f p" for f
    using assms(1) by (simp add: part_frame slot_paths_def)
  show ?thesis
    using assms
    by (auto simp: receiveOneFile_def Let_def start slot_paths_def dest!: recv_body_frame [OF assms(1)]
        split: if_splits option.splits node.splits)
qed

text \<open>The state of a transfer in progress: the partial file is what was hashed, and it is counted.\<close>

definition in_step :: "fileSlot \<Rightarrow> bytes \<Rightarrow> int \<Rightarrow> fs \<Rightarrow> bool" where
  "in_step slot hashed got fs \<longleftrightarrow> fs (sl_tmp slot) = Some (FFile hashed) \<and> got = wrap64 (int (length hashed))"

lemma recv_step_in_step:
  "in_step slot h g fs \<Longrightarrow> recv_step env meta slot h g fs c = Inr (h', g', fs', c') \<Longrightarrow> in_step slot h' g' fs'"
  by (auto simp: in_step_def recv_step_def recv_chunk_def Let_def os_append_def content_def wrap64_add min_def
      split: prod.splits sum.splits if_splits)

definition placed :: "file_meta \<Rightarrow> fileSlot \<Rightarrow> fs \<Rightarrow> bool" where
  "placed meta slot fs \<longleftrightarrow> (\<exists>b. fs (sl_dest slot) = Some (FFile b) \<and> wrap64 (int (length b)) = fm_Size meta
     \<and> equal_fold (sha256_hex b) (fm_SHA256 meta))"

lemma recv_step_placed:
  assumes "slot_wf slot" "in_step slot h g fs" "recv_step env meta slot h g fs c = Inl (Inr path, fs', c')"
  shows "path = sl_dest slot \<and> placed meta slot fs' \<and> fs' (sl_tmp slot) = None"
  using assms
  by (auto simp: recv_step_def recv_chunk_def recv_end_def Let_def in_step_def placed_def os_frame sha256_hex_def
      split: prod.splits sum.splits if_splits)

lemma recv_body_placed:
  assumes "slot_wf slot" "in_step slot h g fs" "recv_body env meta slot h g fs c = (Inr path, fs', c')"
  shows "path = sl_dest slot \<and> placed meta slot fs' \<and> fs' (sl_tmp slot) = None"
  using assms(3,2)
proof (rule recv_body_last [where I = "\<lambda>h g f _. in_step slot h g f"])
  fix h g f c
  assume "in_step slot h g f" "recv_step env meta slot h g f c = Inl (Inr path, fs', c')"
  then show ?thesis by (rule recv_step_placed [OF assms(1)])
qed (rule recv_step_in_step)

text \<open>
  What the caller of \<^verbatim>\<open>receiveOneFile\<close> passes: an offset that is 0 or the size of the partial file.
\<close>

definition offset_ok :: "os_env \<Rightarrow> fileSlot \<Rightarrow> int \<Rightarrow> fs \<Rightarrow> bool" where
  "offset_ok env slot off fs \<longleftrightarrow> off \<le> 0 \<or> (\<forall>b. fs (sl_tmp slot) = Some (FFile b) \<longrightarrow>
     off = wrap64 (int (length b)) \<and> e_read env (sl_tmp slot))"

lemma receiveOneFile_placed:
  assumes "slot_wf slot" "offset_ok env slot off fs" "receiveOneFile env meta slot off fs c = (Inr path, fs', c')"
  shows "path = sl_dest slot \<and> placed meta slot fs' \<and> fs' (sl_tmp slot) = None"
proof (cases "0 < off")
  case True
  then obtain b where b: "fs (sl_tmp slot) = Some (FFile b)"
      "recv_body env meta slot b off (writePartMeta env (sl_tmp slot) meta fs) c = (Inr path, fs', c')"
    using assms(2,3) by (auto simp: receiveOneFile_def Let_def os_read_file_def offset_ok_def
        split: option.splits node.splits if_splits)
  then have "in_step slot b off (writePartMeta env (sl_tmp slot) meta fs)"
    using True assms(2) by (simp add: in_step_def part_frame offset_ok_def)
  with assms(1) b(2) show ?thesis using recv_body_placed by blast
next
  case False
  then have b: "recv_body env meta slot [] 0 (writePartMeta env (sl_tmp slot) meta (fs(sl_tmp slot \<mapsto> FFile []))) c = (Inr path, fs', c')"
    using assms(3) by (auto simp: receiveOneFile_def Let_def split: if_splits)
  have "in_step slot [] 0 (writePartMeta env (sl_tmp slot) meta (fs(sl_tmp slot \<mapsto> FFile [])))"
    by (simp add: in_step_def part_frame int64_def)
  with assms(1) b show ?thesis using recv_body_placed by blast
qed

section \<open>Reserving a slot\<close>

text \<open>
  A change of the file system that leaves every path outside \<^term>\<open>S\<close> alone, except that new
  directories may appear inside the download directory.
\<close>

definition inside :: "string \<Rightarrow> string \<Rightarrow> bool" where
  "inside dir p \<longleftrightarrow> (\<exists>n. plain_rel n \<and> p = Join dir n)"

definition touches :: "string \<Rightarrow> string set \<Rightarrow> fs \<Rightarrow> fs \<Rightarrow> bool" where
  "touches dir S fs fs' \<longleftrightarrow> (\<forall>p. p \<notin> S \<longrightarrow> fs' p = fs p \<or> (fs p = None \<and> fs' p = Some FDir \<and> inside dir p))"

lemma touches_refl [simp]: "touches dir S fs fs"
  by (simp add: touches_def)

lemma touches_trans: "touches dir S a b \<Longrightarrow> touches dir T b c \<Longrightarrow> touches dir (S \<union> T) a c"
  by (simp add: touches_def) metis

lemma touches_mono: "touches dir S a b \<Longrightarrow> S \<subseteq> T \<Longrightarrow> touches dir T a b"
  by (auto simp: touches_def)

lemma touches_kept: "touches dir S fs fs' \<Longrightarrow> p \<notin> S \<Longrightarrow> fs p = Some n \<Longrightarrow> fs' p = Some n"
  by (auto simp: touches_def)

lemma touches_same: "(\<And>p. p \<notin> S \<Longrightarrow> fs' p = fs p) \<Longrightarrow> touches dir S fs fs'"
  by (simp add: touches_def)

lemma mkdirs_touches:
  assumes "mkdirs env dir cur parts fs = (e, fs')" "cur = [] \<or> plain_rel cur" "list_all plain_comp parts"
  shows "touches dir {} fs fs'"
  using assms
proof (induction env dir cur parts fs arbitrary: e fs' rule: mkdirs.induct)
  case (2 env dir cur part parts fs)
  have plain: "plain_rel (Join cur part)"
    using "2.prems"(2,3) by (intro Join_plain_rel plain_comp_rel) auto
  let ?p = "Join dir (Join cur part)"
  let ?fs = "if fs ?p = None then fs(?p \<mapsto> FDir) else fs"
  have t: "touches dir {} fs ?fs" using plain by (auto simp: touches_def inside_def)
  show ?case
  proof (cases "(fs ?p = None \<and> \<not> e_mkdir env ?p) \<or> ?fs ?p \<noteq> Some FDir")
    case True
    with "2.prems"(1) t show ?thesis by (auto simp: Let_def split: if_splits)
  next
    case False
    with "2.prems"(1) have "mkdirs env dir (Join cur part) parts ?fs = (e, fs')" by (auto simp: Let_def split: if_splits)
    with False have "touches dir {} ?fs fs'" using plain "2.prems"(3) by (intro "2.IH" [OF refl refl _ refl]) auto
    with t touches_trans show ?thesis by fastforce
  qed
qed simp

lemma createDirectory_touches: "createDirectory env dir rel fs = (e, fs') \<Longrightarrow> touches dir {} fs fs'"
  using validRelPath_plain [of rel]
  by (auto simp: createDirectory_def plain_rel_def intro: mkdirs_touches split: if_splits)

text \<open>The name under which a file is received.\<close>

definition slot_name :: "file_meta \<Rightarrow> string" where
  "slot_name meta = (if fm_RelPath meta \<noteq> [] then fm_RelPath meta else sanitizeName (fm_Name meta))"

lemma reserveSlot_ok:
  assumes "reserveSlot env dir meta fs claimed = (Inr slot, fs', claimed')"
  obtains n where "sl_dest slot = Join dir n" "variant (slot_name meta) n" "plain_rel n" "slot_wf slot"
    "fs (sl_dest slot) = None" "sl_tmp slot \<notin> set claimed" "set claimed' = insert (sl_tmp slot) (set claimed)"
    "touches dir {} fs fs'"
proof -
  have valid: "fm_RelPath meta = [] \<or> validRelPath (fm_RelPath meta)"
    using assms by (auto simp: reserveSlot_def split: if_splits)
  then have plain: "plain_rel (slot_name meta)"
    by (auto simp: slot_name_def validRelPath_plain plain_comp_rel sanitizeName_plain)
  obtain dest where dest: "uniquePathExcept (\<lambda>p. fs p \<noteq> None) dir (slot_name meta) (\<lambda>c. c @ partSuffix \<in> set claimed) = Some dest"
    using assms valid by (auto simp: reserveSlot_def slot_name_def Let_def split: if_splits option.splits)
  from assms valid dest have r: "sl_dest slot = dest" "sl_tmp slot = dest @ partSuffix"
      "set claimed' = insert (dest @ partSuffix) (set claimed)"
      "(fs' = fs \<or> createDirectory env dir (Dir (slot_name meta)) fs = (None, fs'))"
    by (auto simp: reserveSlot_def slot_name_def Let_def split: if_splits option.splits prod.splits)
  from dest obtain n where n: "dest = Join dir n" "variant (slot_name meta) n" "fs dest = None" "dest @ partSuffix \<notin> set claimed"
    by (elim unique_path_sound) auto
  with r plain createDirectory_touches show thesis
    by (intro that [of n]) (auto simp: slot_wf_def intro: variant_plain)
qed

lemma reserveSlot_err: "reserveSlot env dir meta fs claimed = (Inl e, fs', claimed') \<Longrightarrow> touches dir {} fs fs' \<and> claimed' = claimed"
  by (auto simp: reserveSlot_def Let_def dest!: createDirectory_touches split: if_splits option.splits prod.splits)

lemma removePart_touches: "touches dir (slot_paths slot) fs (removePart env (sl_tmp slot) fs)"
  by (simp add: touches_def slot_paths_def part_frame)

lemma partialBytes_touches: "partialBytes env slot meta fs = (n, fs') \<Longrightarrow> touches dir (slot_paths slot) fs fs'"
  by (auto simp: partialBytes_def Let_def removePart_touches split: option.splits if_splits)

lemma partialBytes_offset:
  assumes "partialBytes env slot meta fs = (n, fs')" "\<forall>p. e_read env p" "int64 (fm_Size meta)"
  shows "offset_ok env slot n fs'"
proof (cases "n = 0")
  case False
  with assms(1) have "fs' = fs" "\<exists>x. fs (sl_tmp slot) = Some x \<and> n = stat_size env x" "n < fm_Size meta"
    by (auto simp: partialBytes_def Let_def split: option.splits if_splits)
  with assms(2,3) show ?thesis by (auto simp: offset_ok_def stat_size_def int64_def intro!: wrap64_id [symmetric])
qed (simp add: offset_ok_def)

lemma receiveOneFile_touches:
  assumes "receiveOneFile env meta slot off fs c = (x, fs', c')"
  shows "touches dir (insert (sl_dest slot) (slot_paths slot)) fs fs'" "x = Inl e \<Longrightarrow> touches dir (slot_paths slot) fs fs'"
  using receiveOneFile_frame [OF _ assms] by (auto intro!: touches_same)

end
