(* ===== verification/Session_Laws.thy ===== *)
theory Session_Laws
  imports Receive_Laws
begin

text \<open>
  Sessions of files: the invariant of the session loop, and what holds when it ends.
\<close>

section \<open>Names of partial files\<close>

definition part_name :: "string \<Rightarrow> bool" where
  "part_name p \<longleftrightarrow> suffix partSuffix p \<or> suffix (partMetaPath partSuffix) p"

lemma slot_paths_part: "slot_wf slot \<Longrightarrow> p \<in> slot_paths slot \<Longrightarrow> part_name p"
  by (auto simp: slot_wf_def slot_paths_def part_name_def partMetaPath_def suffix_def)

lemma part_name_dest:
  assumes "variant name n" "plain_rel n" "\<not> part_name name"
  shows "\<not> part_name (Join dir n)"
proof
  have c: "slash \<notin> set partSuffix" "CHR '')'' \<notin> set partSuffix"
      "slash \<notin> set (partMetaPath partSuffix)" "CHR '')'' \<notin> set (partMetaPath partSuffix)"
    by (simp_all add: partSuffix_def partMetaPath_def)
  assume "part_name (Join dir n)"
  then show False
    using assms Join_suffix [OF assms(2)] variant_suffix [OF assms(1)] c unfolding part_name_def by metis
qed

section \<open>The invariant\<close>

definition slot_ok :: "fs \<Rightarrow> string \<Rightarrow> file_meta list \<Rightarrow> string list \<Rightarrow> int \<times> fileSlot \<Rightarrow> bool" where
  "slot_ok fs0 dir manifest claimed = (\<lambda>(i, slot).
     in_range manifest i \<and> slot_wf slot \<and> sl_tmp slot \<in> set claimed
     \<and> (\<exists>n. sl_dest slot = Join dir n \<and> plain_rel n \<and> variant (slot_name (manifest ! nat i)) n)
     \<and> (fs0 (sl_dest slot) = None \<or> part_name (sl_dest slot)))"

text \<open>
  Files that were there keep their content, unless they are named like partial files, and whatever
  changed is inside the download directory.
\<close>

definition keeps :: "string \<Rightarrow> fs \<Rightarrow> fs \<Rightarrow> bool" where
  "keeps dir fs0 fs \<longleftrightarrow> (\<forall>p n. fs0 p = Some n \<longrightarrow> \<not> part_name p \<longrightarrow> fs p = Some n) \<and>
     (\<forall>p. fs p \<noteq> fs0 p \<longrightarrow> inside dir p)"

definition session_inv :: "fs \<Rightarrow> string \<Rightarrow> file_meta list \<Rightarrow> session \<Rightarrow> bool" where
  "session_inv fs0 dir manifest s \<longleftrightarrow> keeps dir fs0 (s_fs s) \<and>
     list_all (slot_ok fs0 dir manifest (s_claimed s)) (s_slots s) \<and>
     distinct (map (sl_tmp \<circ> snd) (s_slots s)) \<and> distinct (map fst (s_slots s))"

lemma keeps_touches:
  "keeps dir fs0 fs \<Longrightarrow> touches dir S fs fs' \<Longrightarrow> (\<And>p. p \<in> S \<Longrightarrow> (part_name p \<or> fs0 p = None) \<and> inside dir p) \<Longrightarrow> keeps dir fs0 fs'"
  unfolding keeps_def by (metis option.distinct(1) touches_kept touches_def)

lemma slot_paths_inside:
  assumes "slot_ok fs0 dir m cl (i, slot)" "p \<in> insert (sl_dest slot) (slot_paths slot)"
  shows "inside dir p"
proof -
  from assms(1) obtain n where n: "sl_dest slot = Join dir n" "plain_rel n" "sl_tmp slot = sl_dest slot @ partSuffix"
    by (auto simp: slot_ok_def slot_wf_def)
  have c: "slash \<notin> set partSuffix" "2 < length partSuffix" "slash \<notin> set ''.meta''" "2 < length ''.meta''"
    by (simp_all add: partSuffix_def)
  have t: "sl_tmp slot = Join dir (n @ partSuffix)" "plain_rel (n @ partSuffix)"
    using Join_append_tail [OF n(2) c(1,2)] n by simp_all
  moreover have "partMetaPath (sl_tmp slot) = Join dir ((n @ partSuffix) @ ''.meta'')" "plain_rel ((n @ partSuffix) @ ''.meta'')"
    using Join_append_tail [OF t(2) c(3,4)] t(1) by (simp_all add: partMetaPath_def)
  ultimately show ?thesis using assms(2) n by (auto simp: slot_paths_def inside_def)
qed

lemma session_inv_simps [simp]:
  "session_inv fs0 dir m (reply h s) = session_inv fs0 dir m s"
  "session_inv fs0 dir m (emit ev s) = session_inv fs0 dir m s"
  "session_inv fs0 dir m (snd (emitErr env p k e s)) = session_inv fs0 dir m s"
  "session_inv fs0 dir m (s\<lparr>s_in := r\<rparr>) = session_inv fs0 dir m s"
  "session_inv fs0 dir m (s\<lparr>s_completed := c\<rparr>) = session_inv fs0 dir m s"
  "session_inv fs0 dir m (s\<lparr>s_saved := sv\<rparr>) = session_inv fs0 dir m s"
  by (simp_all add: session_inv_def reply_def emit_def emitErr_def)

lemma session_inv_fs:
  "session_inv fs0 dir m s \<Longrightarrow> keeps dir fs0 fs' \<Longrightarrow> session_inv fs0 dir m (s\<lparr>s_fs := fs'\<rparr>)"
  by (simp add: session_inv_def)

lemma session_inv_slot:
  assumes "session_inv fs0 dir m s" "(i, slot) \<in> set (s_slots s)"
  shows "slot_ok fs0 dir m (s_claimed s) (i, slot)"
  using assms by (auto simp: session_inv_def list_all_iff)

lemma slotFor_inv:
  assumes "session_inv fs0 dir m s" "in_range m i" "slotFor env dir m i s = (x, s')"
  shows "session_inv fs0 dir m s' \<and> touches dir {} (s_fs s) (s_fs s') \<and> (\<forall>slot. x = Inr slot \<longrightarrow> map_of (s_slots s') i = Some slot)
    \<and> (\<forall>j slot. map_of (s_slots s) j = Some slot \<longrightarrow> map_of (s_slots s') j = Some slot)
    \<and> s_completed s' = s_completed s \<and> s_in s' = s_in s"
proof (cases "map_of (s_slots s) i")
  case (Some slot)
  with assms show ?thesis by (auto simp: slotFor_def)
next
  case None
  obtain y fs' cl where r: "reserveSlot env dir (m ! nat i) (s_fs s) (s_claimed s) = (y, fs', cl)" by (cases "reserveSlot env dir (m ! nat i) (s_fs s) (s_claimed s)") auto
  show ?thesis
  proof (cases y)
    case (Inl e)
    with r None assms(3) have s': "s' = s\<lparr>s_fs := fs', s_claimed := cl\<rparr>" "x = Inl e" by (auto simp: slotFor_def)
    have "touches dir {} (s_fs s) fs'" "cl = s_claimed s" using reserveSlot_err r Inl by blast+
    with assms(1) s' show ?thesis using keeps_touches [of dir fs0 "s_fs s" "{}" fs'] by (auto simp: session_inv_def)
  next
    case (Inr slot)
    with r None assms(3) have s': "s' = s\<lparr>s_fs := fs', s_claimed := cl, s_slots := (i, slot) # s_slots s\<rparr>" "x = Inr slot"
      by (auto simp: slotFor_def)
    from r Inr obtain n where n: "sl_dest slot = Join dir n" "variant (slot_name (m ! nat i)) n" "plain_rel n" "slot_wf slot"
      "s_fs s (sl_dest slot) = None" "sl_tmp slot \<notin> set (s_claimed s)" "set cl = insert (sl_tmp slot) (set (s_claimed s))"
      "touches dir {} (s_fs s) fs'" by (metis reserveSlot_ok)
    have free: "fs0 (sl_dest slot) = None \<or> part_name (sl_dest slot)"
      using assms(1) n(5) unfolding session_inv_def keeps_def by (metis not_None_eq option.distinct(1))
    have "sl_tmp slot \<notin> (sl_tmp \<circ> snd) ` set (s_slots s)"
      using assms(1) n(6) by (fastforce simp: session_inv_def list_all_iff slot_ok_def)
    moreover have "i \<notin> fst ` set (s_slots s)" using None by (simp add: map_of_eq_None_iff)
    moreover have "list_all (slot_ok fs0 dir m cl) (s_slots s)"
      using assms(1) n(7) by (fastforce simp: session_inv_def list_all_iff slot_ok_def)
    moreover have "keeps dir fs0 fs'" using assms(1) n(8) keeps_touches [of dir fs0 "s_fs s" "{}" fs'] by (simp add: session_inv_def)
    ultimately show ?thesis
      using s' n free assms(1,2) None by (auto simp: session_inv_def slot_ok_def)
  qed
qed

text \<open>A change inside the paths of one slot, and of its destination, keeps the invariant.\<close>

lemma session_inv_touches:
  assumes "session_inv fs0 dir m s" "map_of (s_slots s) i = Some slot"
    "touches dir (insert (sl_dest slot) (slot_paths slot)) (s_fs s) fs'"
  shows "session_inv fs0 dir m (s\<lparr>s_fs := fs'\<rparr>)"
proof (rule session_inv_fs [OF assms(1)])
  have ok: "slot_ok fs0 dir m (s_claimed s) (i, slot)"
    by (rule session_inv_slot [OF assms(1)]) (rule map_of_SomeD [OF assms(2)])
  show "keeps dir fs0 fs'"
  proof (rule keeps_touches [OF _ assms(3)])
    show "keeps dir fs0 (s_fs s)" using assms(1) by (simp add: session_inv_def)
    show "(part_name p \<or> fs0 p = None) \<and> inside dir p" if "p \<in> insert (sl_dest slot) (slot_paths slot)" for p
      using that ok slot_paths_part slot_paths_inside [OF ok that] by (auto simp: slot_ok_def)
  qed
qed

lemma on_resume_query_inv:
  assumes "session_inv fs0 dir m s"
  shows "session_inv fs0 dir m (on_resume_query env dir m resume hdr s)"
proof (cases "resume \<and> in_range m (h_FileIndex hdr) \<and> \<not> fm_IsDir (m ! nat (h_FileIndex hdr))")
  case True
  let ?i = "h_FileIndex hdr"
  obtain x s1 where x: "slotFor env dir m ?i s = (x, s1)" by force
  with assms True have s1: "session_inv fs0 dir m s1" "\<And>slot. x = Inr slot \<Longrightarrow> map_of (s_slots s1) ?i = Some slot"
    using slotFor_inv [OF assms _ x] by auto
  show ?thesis
  proof (cases x)
    case (Inr slot)
    obtain n fs1 where p: "partialBytes env slot (m ! nat ?i) (s_fs s1) = (n, fs1)" by force
    then have "touches dir (insert (sl_dest slot) (slot_paths slot)) (s_fs s1) fs1"
      using partialBytes_touches touches_mono by blast
    from session_inv_touches [OF s1(1) s1(2) [OF Inr] this] True x Inr p show ?thesis
      by (simp add: on_resume_query_def)
  qed (use True x s1 in \<open>simp add: on_resume_query_def\<close>)
qed (use assms in \<open>auto simp: on_resume_query_def Let_def\<close>)

lemma on_directory_inv:
  assumes "session_inv fs0 dir m s" "on_directory env dir peer k i meta s = (e, s')"
  shows "session_inv fs0 dir m s'"
proof -
  have mk: "session_inv fs0 dir m (s\<lparr>s_fs := fs'\<rparr>)" if "createDirectory env dir (fm_RelPath meta) (s_fs s) = (x, fs')" for x fs'
    using assms(1) that createDirectory_touches keeps_touches [of dir fs0 "s_fs s" "{}" fs']
    by (intro session_inv_fs) (auto simp: session_inv_def)
  have comm: "s\<lparr>s_in := r, s_fs := f\<rparr> = s\<lparr>s_fs := f\<rparr>\<lparr>s_in := r\<rparr>" for r f by simp
  show ?thesis
    using assms mk
    by (auto simp: on_directory_def Let_def emitErr_def comm simp del: session.update_convs
        split: prod.splits sum.splits if_splits option.splits)
qed

lemma on_file_inv:
  assumes "session_inv fs0 dir m s" "in_range m i" "on_file env dir peer m resume i s = (e, s')"
  shows "session_inv fs0 dir m s'"
proof -
  obtain x s1 where x: "slotFor env dir m i s = (x, s1)" by force
  with assms have s1: "session_inv fs0 dir m s1" "\<And>slot. x = Inr slot \<Longrightarrow> map_of (s_slots s1) i = Some slot"
    using slotFor_inv [OF assms(1,2) x] by auto
  show ?thesis
  proof (cases x)
    case (Inl err)
    with assms(3) x s1 show ?thesis by (auto simp: on_file_def emitErr_def Let_def)
  next
    case (Inr slot)
    obtain off fs1 where p: "(if resume then partialBytes env slot (m ! nat i) (s_fs s1) else (0, s_fs s1)) = (off, fs1)" by force
    then have t1: "touches dir (slot_paths slot) (s_fs s1) fs1"
      by (auto dest: partialBytes_touches split: if_splits)
    obtain y fs2 r where y: "receiveOneFile env (m ! nat i) slot off fs1 (s_in s1) = (y, fs2, r)"
      by (cases "receiveOneFile env (m ! nat i) slot off fs1 (s_in s1)") auto
    have "touches dir (insert (sl_dest slot) (slot_paths slot)) (s_fs s1) fs2"
      using touches_trans [OF t1 receiveOneFile_touches(1) [OF y]] by (simp add: insert_absorb Un_commute)
    then have inv: "session_inv fs0 dir m (s1\<lparr>s_fs := fs2\<rparr>)"
      by (rule session_inv_touches [OF s1(1) s1(2) [OF Inr]])
    from assms(3) x Inr p y inv show ?thesis
      by (cases y) (auto simp: on_file_def Let_def emitErr_def)
  qed
qed

lemma files_step_inv:
  assumes "session_inv fs0 dir m s"
  shows "files_step env dir peer m resume s = Inr s' \<Longrightarrow> session_inv fs0 dir m s'"
    "files_step env dir peer m resume s = Inl (e, s') \<Longrightarrow> session_inv fs0 dir m s'"
proof -
  have r: "session_inv fs0 dir m (s\<lparr>s_in := r\<rparr>)" for r using assms by simp
  note pieces = on_file_inv [OF r] on_directory_inv [OF r] on_resume_query_inv [OF r]
  show "files_step env dir peer m resume s = Inr s' \<Longrightarrow> session_inv fs0 dir m s'"
    using assms by (auto simp: files_step_def Let_def on_progress_def pieces
        split: prod.splits sum.splits if_splits option.splits)
  show "files_step env dir peer m resume s = Inl (e, s') \<Longrightarrow> session_inv fs0 dir m s'"
    using assms by (auto simp: files_step_def Let_def emitErr_def pieces
        split: prod.splits sum.splits if_splits option.splits)
qed

text \<open>The last turn of the session loop, in a state where an invariant holds.\<close>

lemma files_loop_last:
  assumes "files_loop env dir peer m resume s = res" "I s"
    and "\<And>s s'. I s \<Longrightarrow> files_step env dir peer m resume s = Inr s' \<Longrightarrow> I s'"
  obtains s' where "I s'" "files_step env dir peer m resume s' = Inl res"
proof -
  have "\<exists>s'. I s' \<and> files_step env dir peer m resume s' = Inl (files_loop env dir peer m resume s)"
    using assms(2,3)
  proof (induction env dir peer m resume s rule: files_loop.induct)
    case (1 env dir peer m resume s)
    show ?case
    proof (cases "files_step env dir peer m resume s")
      case (Inl res)
      with "1.prems" show ?thesis by (auto simp: files_loop.simps [of env dir peer m resume s])
    next
      case (Inr s1)
      with "1.IH" [OF Inr] "1.prems" have "\<exists>s'. I s' \<and> files_step env dir peer m resume s' =
          Inl (files_loop env dir peer m resume s1)" by metis
      with Inr show ?thesis by (auto simp: files_loop.simps [of env dir peer m resume s])
    qed
  qed
  with assms(1) that show thesis by blast
qed

definition fresh_session :: "session \<Rightarrow> session" where
  "fresh_session s = s\<lparr>s_slots := [], s_completed := [], s_saved := []\<rparr>"

lemma session_inv_fresh: "session_inv (s_fs s) dir m (fresh_session s)"
  by (simp add: session_inv_def keeps_def fresh_session_def)

lemma files_loop_inv:
  assumes "files_loop env dir peer m resume s = (e, s')" "session_inv fs0 dir m s"
  shows "session_inv fs0 dir m s'"
  using assms files_step_inv by (elim files_loop_last [where I = "session_inv fs0 dir m"]) blast+

lemma receiveFiles_loop:
  assumes "receiveFilesWithProgress env dir peer m resume s = (e, s')" "m \<noteq> []"
  obtains s1 where
    "files_loop env dir peer m resume (emit (Event0\<lparr>ev_Kind := ''recv-start'', ev_Peer := peer, ev_Count := int (length m)\<rparr>)
        (fresh_session s)) = (e, s1)"
    "s_fs s' = s_fs s1" "s_slots s' = s_slots s1" "s_saved s' = s_saved s1" "s_completed s' = s_completed s1"
  using assms by (auto simp: receiveFilesWithProgress_def fresh_session_def Let_def release_all_def reply_def emit_def
      split: prod.splits option.splits)

section \<open>Files received\<close>

text \<open>The destination of a file may be the temporary path, or the sidecar, of another file of the session.\<close>

definition overrun :: "(int \<times> fileSlot) list \<Rightarrow> int \<Rightarrow> string \<Rightarrow> bool" where
  "overrun slots i p \<longleftrightarrow> (\<exists>j other. j \<noteq> i \<and> map_of slots j = Some other \<and> p \<in> slot_paths other)"

definition completed_ok :: "file_meta list \<Rightarrow> session \<Rightarrow> bool" where
  "completed_ok m s \<longleftrightarrow> (\<forall>i\<in>set (s_completed s). in_range m i \<and>
     (\<not> fm_IsDir (m ! nat i) \<longrightarrow> (\<exists>slot. map_of (s_slots s) i = Some slot \<and>
        (placed (m ! nat i) slot (s_fs s) \<or> overrun (s_slots s) i (sl_dest slot)))))"

definition sizes_ok :: "file_meta list \<Rightarrow> bool" where
  "sizes_ok m \<longleftrightarrow> (\<forall>f\<in>set m. int64 (fm_Size f))"

definition names_ok :: "file_meta list \<Rightarrow> bool" where
  "names_ok m \<longleftrightarrow> (\<forall>f\<in>set m. \<not> part_name (slot_name f) \<and> int64 (fm_Size f))"

lemma slot_facts:
  assumes "session_inv fs0 dir m s" "map_of (s_slots s) i = Some slot"
  shows "slot_ok fs0 dir m (s_claimed s) (i, slot)" "in_range m i" "slot_wf slot" "sl_dest slot \<notin> slot_paths slot"
proof -
  show ok: "slot_ok fs0 dir m (s_claimed s) (i, slot)"
    by (rule session_inv_slot [OF assms(1)]) (rule map_of_SomeD [OF assms(2)])
  then show "in_range m i" "slot_wf slot" by (auto simp: slot_ok_def)
  then show "sl_dest slot \<notin> slot_paths slot" by (auto simp: slot_wf_def slot_paths_def partMetaPath_def partSuffix_def)
qed

lemma slot_dest_ok:
  assumes "session_inv fs0 dir m s" "names_ok m" "map_of (s_slots s) i = Some slot"
  shows "\<not> part_name (sl_dest slot)" "in_range m i" "slot_wf slot"
proof -
  have ok: "slot_ok fs0 dir m (s_claimed s) (i, slot)"
    by (rule session_inv_slot [OF assms(1)]) (rule map_of_SomeD [OF assms(3)])
  then show "in_range m i" "slot_wf slot" by (auto simp: slot_ok_def)
  then have "m ! nat i \<in> set m" by (auto simp: in_range_def)
  with ok assms(2) part_name_dest show "\<not> part_name (sl_dest slot)"
    by (fastforce simp: slot_ok_def names_ok_def)
qed

lemma slot_dests_differ:
  assumes "session_inv fs0 dir m s" "map_of (s_slots s) i = Some a" "map_of (s_slots s) j = Some b" "i \<noteq> j"
  shows "sl_dest a \<noteq> sl_dest b"
proof
  assume eq: "sl_dest a = sl_dest b"
  have m: "(i, a) \<in> set (s_slots s)" "(j, b) \<in> set (s_slots s)" using assms(2,3) by (auto dest: map_of_SomeD)
  then have "sl_tmp a = sl_tmp b"
    using session_inv_slot [OF assms(1)] eq by (fastforce simp: slot_ok_def slot_wf_def)
  then show False
    using m assms(1,4) by (fastforce simp: session_inv_def distinct_map inj_on_def)
qed

lemma placed_touches:
  "placed meta slot fs \<Longrightarrow> touches dir S fs fs' \<Longrightarrow> sl_dest slot \<notin> S \<Longrightarrow> placed meta slot fs'"
  unfolding placed_def using touches_kept by metis

text \<open>A step that adds slots and touches no finished destination, unless another file has it as a partial path.\<close>

lemma overrun_mono:
  "overrun slots i p \<Longrightarrow> (\<And>j slot. map_of slots j = Some slot \<Longrightarrow> map_of slots' j = Some slot) \<Longrightarrow> overrun slots' i p"
  unfolding overrun_def by blast

lemma completed_ok_step:
  assumes "completed_ok m s" "touches dir S (s_fs s) (s_fs s')" "s_completed s' = s_completed s"
    "\<And>j slot. map_of (s_slots s) j = Some slot \<Longrightarrow> map_of (s_slots s') j = Some slot"
    "\<And>j slot. j \<in> set (s_completed s) \<Longrightarrow> map_of (s_slots s) j = Some slot \<Longrightarrow> sl_dest slot \<in> S \<Longrightarrow>
       overrun (s_slots s') j (sl_dest slot)"
  shows "completed_ok m s'"
  unfolding completed_ok_def
proof (intro ballI conjI impI)
  fix j
  assume "j \<in> set (s_completed s')"
  then have j: "j \<in> set (s_completed s)" by (simp add: assms(3))
  then show "in_range m j" using assms(1) by (simp add: completed_ok_def)
  assume "\<not> fm_IsDir (m ! nat j)"
  with j assms(1) obtain slot where slot: "map_of (s_slots s) j = Some slot"
      "placed (m ! nat j) slot (s_fs s) \<or> overrun (s_slots s) j (sl_dest slot)"
    by (auto simp: completed_ok_def)
  then have "placed (m ! nat j) slot (s_fs s') \<or> overrun (s_slots s') j (sl_dest slot)"
    using placed_touches [OF _ assms(2)] overrun_mono [OF _ assms(4)] assms(5) [OF j] by blast
  with slot(1) assms(4) show "\<exists>slot. map_of (s_slots s') j = Some slot \<and>
      (placed (m ! nat j) slot (s_fs s') \<or> overrun (s_slots s') j (sl_dest slot))" by blast
qed

lemma completed_ok_fresh [simp]: "completed_ok m (fresh_session s)"
  by (simp add: completed_ok_def fresh_session_def)

lemma completed_ok_simps [simp]:
  "completed_ok m (reply h s) = completed_ok m s"
  "completed_ok m (emit ev s) = completed_ok m s"
  "completed_ok m (s\<lparr>s_in := r\<rparr>) = completed_ok m s"
  "completed_ok m (s\<lparr>s_saved := sv\<rparr>) = completed_ok m s"
  by (simp_all add: completed_ok_def reply_def emit_def)

lemma slotFor_completed:
  assumes "session_inv fs0 dir m s" "in_range m i" "slotFor env dir m i s = (x, s')" "completed_ok m s"
  shows "completed_ok m s'"
  by (rule completed_ok_step [OF assms(4), of dir "{}"]) (use slotFor_inv [OF assms(1-3)] in blast)+

lemma on_resume_query_completed:
  assumes "session_inv fs0 dir m s" "completed_ok m s"
  shows "completed_ok m (on_resume_query env dir m resume hdr s)"
proof (cases "resume \<and> in_range m (h_FileIndex hdr) \<and> \<not> fm_IsDir (m ! nat (h_FileIndex hdr))")
  case True
  let ?i = "h_FileIndex hdr"
  obtain x s1 where x: "slotFor env dir m ?i s = (x, s1)" by force
  with assms True have s1: "session_inv fs0 dir m s1" "\<And>slot. x = Inr slot \<Longrightarrow> map_of (s_slots s1) ?i = Some slot"
      and c1: "completed_ok m s1"
    using slotFor_inv [OF assms(1) _ x] slotFor_completed [OF assms(1) _ x] by auto
  show ?thesis
  proof (cases x)
    case (Inr slot)
    obtain n fs1 where p: "partialBytes env slot (m ! nat ?i) (s_fs s1) = (n, fs1)" by force
    have "completed_ok m (s1\<lparr>s_fs := fs1\<rparr>)"
    proof (rule completed_ok_step [OF c1])
      show "touches dir (slot_paths slot) (s_fs s1) (s_fs (s1\<lparr>s_fs := fs1\<rparr>))" using partialBytes_touches [OF p] by simp
      show "overrun (s_slots (s1\<lparr>s_fs := fs1\<rparr>)) j (sl_dest b)"
        if "map_of (s_slots s1) j = Some b" "sl_dest b \<in> slot_paths slot" for j b
      proof -
        have "?i \<noteq> j" using that s1(2) [OF Inr] slot_facts(4) [OF s1(1) s1(2) [OF Inr]] by auto
        with that s1(2) [OF Inr] show ?thesis unfolding overrun_def by auto
      qed
    qed auto
    with True x Inr p show ?thesis by (simp add: on_resume_query_def)
  qed (use True x c1 in \<open>simp add: on_resume_query_def\<close>)
qed (use assms in \<open>auto simp: on_resume_query_def Let_def\<close>)

lemma on_directory_completed:
  assumes "completed_ok m s" "in_range m i" "fm_IsDir (m ! nat i)" "on_directory env dir peer k i meta s = (None, s')"
  shows "completed_ok m s'"
proof -
  obtain r f where s': "s' = reply (ack_ok i) (s\<lparr>s_in := r, s_fs := f, s_completed := i # s_completed s,
      s_saved := s_saved s @ [fm_RelPath meta]\<rparr>)"
      and t: "createDirectory env dir (fm_RelPath meta) (s_fs s) = (None, f)"
    using assms(4) by (auto simp: on_directory_def Let_def emitErr_def split: prod.splits sum.splits if_splits option.splits)
  have "completed_ok m (s\<lparr>s_fs := f\<rparr>)"
    using createDirectory_touches [OF t] by (intro completed_ok_step [OF assms(1), of dir "{}"]) auto
  with assms(2,3) show ?thesis by (auto simp: s' completed_ok_def reply_def)
qed

lemma on_file_completed:
  assumes "session_inv fs0 dir m s" "sizes_ok m" "completed_ok m s" "in_range m i" "i \<notin> set (s_completed s)"
    "\<forall>p. e_read env p" "on_file env dir peer m resume i s = (None, s')"
  shows "completed_ok m s'"
proof -
  let ?meta = "m ! nat i"
  obtain x s1 where x: "slotFor env dir m i s = (x, s1)" by force
  with assms(7) obtain slot where Inr: "x = Inr slot" by (cases x) (auto simp: on_file_def emitErr_def Let_def)
  with assms x have s1: "session_inv fs0 dir m s1" "map_of (s_slots s1) i = Some slot"
      and c1: "completed_ok m s1" "s_completed s1 = s_completed s"
    using slotFor_inv [OF assms(1,4) x] slotFor_completed [OF assms(1,4) x assms(3)] by auto
  note slot = slot_facts [OF s1]
  have size: "int64 (fm_Size ?meta)" using assms(2,4) by (auto simp: sizes_ok_def in_range_def)
  obtain off fs1 where p: "(if resume then partialBytes env slot ?meta (s_fs s1) else (0, s_fs s1)) = (off, fs1)" by force
  then have t1: "touches dir (slot_paths slot) (s_fs s1) fs1" and off: "offset_ok env slot off fs1"
    using partialBytes_offset [OF _ assms(6) size]
    by (auto simp: offset_ok_def dest: partialBytes_touches split: if_splits)
  from assms(7) x Inr p obtain path fs2 r where y: "receiveOneFile env ?meta slot off fs1 (s_in s1) = (Inr path, fs2, r)"
      and s': "s_fs s' = fs2" "s_completed s' = i # s_completed s1" "s_slots s' = s_slots s1"
    by (auto simp: on_file_def Let_def emitErr_def emit_def reply_def split: prod.splits sum.splits)
  have "touches dir (insert (sl_dest slot) (slot_paths slot)) (s_fs s1) fs2"
    using touches_trans [OF t1 receiveOneFile_touches(1) [OF y]] by (simp add: insert_absorb Un_commute)
  then have "completed_ok m (s1\<lparr>s_fs := fs2\<rparr>)"
  proof (intro completed_ok_step [OF c1(1)])
    show "overrun (s_slots (s1\<lparr>s_fs := fs2\<rparr>)) j (sl_dest b)"
      if "j \<in> set (s_completed s1)" "map_of (s_slots s1) j = Some b" "sl_dest b \<in> insert (sl_dest slot) (slot_paths slot)" for j b
    proof -
      have "i \<noteq> j" using that(1) assms(5) c1(2) by auto
      with that slot_dests_differ [OF s1(1) that(2) s1(2)] s1(2) show ?thesis unfolding overrun_def by auto
    qed
  qed auto
  moreover have "placed ?meta slot fs2" using receiveOneFile_placed [OF slot(3) off y] by blast
  ultimately show ?thesis using s' s1(2) assms(4) by (auto simp: completed_ok_def)
qed

lemma files_step_completed:
  assumes "session_inv fs0 dir m s" "sizes_ok m" "completed_ok m s" "\<forall>p. e_read env p"
    "files_step env dir peer m resume s = Inr s'"
  shows "completed_ok m s'"
proof -
  have r: "session_inv fs0 dir m (s\<lparr>s_in := r\<rparr>)" "completed_ok m (s\<lparr>s_in := r\<rparr>)" for r using assms by simp_all
  note pieces = on_file_completed [OF r(1) assms(2) r(2) _ _ assms(4)] on_directory_completed [OF r(2)]
    on_resume_query_completed [OF r]
  show ?thesis
    using assms(3,5) by (auto simp: files_step_def Let_def on_progress_def pieces
        split: prod.splits sum.splits if_splits option.splits)
qed

lemma all_completed:
  assumes "completed_ok m s" "length (remdups (s_completed s)) = length m" "in_range m i"
  shows "i \<in> set (s_completed s)"
proof -
  have "set (s_completed s) \<subseteq> {0..<int (length m)}"
    using assms(1) by (auto simp: completed_ok_def in_range_def)
  moreover have "card (set (s_completed s)) = card {0..<int (length m)}"
    using assms(2) by (simp add: length_remdups_card_conv)
  ultimately have "set (s_completed s) = {0..<int (length m)}" by (intro card_subset_eq) auto
  with assms(3) show ?thesis by (simp add: in_range_def)
qed

lemma files_step_done:
  "files_step env dir peer m resume s = Inl (None, s') \<Longrightarrow>
   length (remdups (s_completed s)) = length m \<and> s_completed s' = s_completed s \<and> s_slots s' = s_slots s \<and> s_fs s' = s_fs s"
  by (auto simp: files_step_def emitErr_def Let_def split: prod.splits sum.splits if_splits option.splits)

section \<open>Properties of a session\<close>

text \<open>
  Property C1. Integrity of a session: when \<^verbatim>\<open>receiveFilesWithProgress\<close> ends without error, every entry of
  the manifest that is not a directory has a path of its own in the download directory, its name or a
  numbered variant of it, and a file there with the declared size and the declared SHA-256; there was no
  file at that path before, unless the name ends like a partial file's (\<^verbatim>\<open>.adrop-part\<close>, with or without
  \<^verbatim>\<open>.meta\<close>). There is one exception, for a file with such a name only: its path may be the temporary path or
  the sidecar of another file of the same manifest, and then that other file may have replaced or removed
  it. This holds for every manifest (its sizes are int64 in the program), every stream of bytes a peer may
  send and every behaviour of the disk (writes may stop short, opens, closes and renames may fail, partial
  files may be resumed), as long as partial files can be opened for reading.
\<close>

theorem session_integrity:
  assumes "receiveFilesWithProgress env dir peer m resume s = (None, s')"
    and "sizes_ok m" and "\<forall>p. e_read env p" and "in_range m i" and "\<not> fm_IsDir (m ! nat i)"
  shows "\<exists>n slot. map_of (s_slots s') i = Some slot \<and> sl_dest slot = Join dir n \<and> plain_rel n \<and> variant (slot_name (m ! nat i)) n \<and>
    (\<forall>j other. j \<noteq> i \<longrightarrow> map_of (s_slots s') j = Some other \<longrightarrow> sl_dest other \<noteq> Join dir n) \<and>
    (s_fs s (Join dir n) = None \<or> part_name (slot_name (m ! nat i))) \<and>
    ((\<exists>b. s_fs s' (Join dir n) = Some (FFile b) \<and> wrap64 (int (length b)) = fm_Size (m ! nat i) \<and>
        equal_fold (sha256_hex b) (fm_SHA256 (m ! nat i))) \<or>
     part_name (slot_name (m ! nat i)) \<and>
       (\<exists>j other. j \<noteq> i \<and> map_of (s_slots s') j = Some other \<and> Join dir n \<in> {sl_tmp other, partMetaPath (sl_tmp other)}))"
proof -
  have "m \<noteq> []" using assms(4) by (auto simp: in_range_def)
  from assms(1) this obtain s1 where s1: "s_fs s' = s_fs s1" "s_slots s' = s_slots s1"
      and loop: "files_loop env dir peer m resume (emit (Event0\<lparr>ev_Kind := ''recv-start'', ev_Peer := peer,
        ev_Count := int (length m)\<rparr>) (fresh_session s)) = (None, s1)"
    by (rule receiveFiles_loop)
  let ?I = "\<lambda>t. session_inv (s_fs s) dir m t \<and> completed_ok m t"
  obtain s2 where s2: "session_inv (s_fs s) dir m s2" "completed_ok m s2" "files_step env dir peer m resume s2 = Inl (None, s1)"
  proof (rule files_loop_last [OF loop, where I = ?I])
    show "?I (emit (Event0\<lparr>ev_Kind := ''recv-start'', ev_Peer := peer, ev_Count := int (length m)\<rparr>) (fresh_session s))"
      using session_inv_fresh by simp
  qed (use files_step_inv(1) files_step_completed [OF _ assms(2) _ assms(3)] in blast)+
  note fin = files_step_done [OF s2(3)]
  have "i \<in> set (s_completed s2)" using all_completed [OF s2(2) _ assms(4)] fin by simp
  with s2(2) assms(5) obtain slot where slot: "map_of (s_slots s2) i = Some slot"
      "placed (m ! nat i) slot (s_fs s2) \<or> overrun (s_slots s2) i (sl_dest slot)"
    by (auto simp: completed_ok_def)
  note facts = slot_facts [OF s2(1)]
  obtain n where n: "sl_dest slot = Join dir n" "plain_rel n" "variant (slot_name (m ! nat i)) n"
      "s_fs s (Join dir n) = None \<or> part_name (Join dir n)"
    using facts(1) [OF slot(1)] by (auto simp: slot_ok_def)
  have named: "part_name (Join dir n) \<Longrightarrow> part_name (slot_name (m ! nat i))" using part_name_dest [OF n(3,2)] by blast
  have "part_name (Join dir n)" if "overrun (s_slots s2) i (Join dir n)"
    using that facts(3) slot_paths_part unfolding overrun_def by blast
  with named slot(2) n(1) have placed: "(\<exists>b. s_fs s2 (Join dir n) = Some (FFile b) \<and> wrap64 (int (length b)) = fm_Size (m ! nat i) \<and>
        equal_fold (sha256_hex b) (fm_SHA256 (m ! nat i))) \<or>
     part_name (slot_name (m ! nat i)) \<and>
       (\<exists>j other. j \<noteq> i \<and> map_of (s_slots s2) j = Some other \<and> Join dir n \<in> {sl_tmp other, partMetaPath (sl_tmp other)})"
    unfolding placed_def overrun_def slot_paths_def by metis
  have others: "\<forall>j other. j \<noteq> i \<longrightarrow> map_of (s_slots s2) j = Some other \<longrightarrow> sl_dest other \<noteq> Join dir n"
    using slot_dests_differ [OF s2(1) slot(1)] n(1) by metis
  have eq: "s_fs s' = s_fs s2" "s_slots s' = s_slots s2" using fin s1 by simp_all
  show ?thesis unfolding eq using slot(1) n named others placed by blast
qed

text \<open>
  The exception happens. A free name is chosen whatever lies at its temporary path: \<^verbatim>\<open>x\<close> gets the path of a
  finished \<^verbatim>\<open>x.adrop-part\<close> as its temporary one. Once a file is received its temporary path is free again, so
  the finished file whose path that was is gone.
\<close>

lemma partial_name_reserved:
  assumes "fm_RelPath meta = []" "dest = Join dir (sanitizeName (fm_Name meta))" "fs dest = None" "dest @ partSuffix \<notin> set claimed"
  shows "fst (reserveSlot env dir meta fs claimed) = Inr \<lparr>sl_dest = dest, sl_tmp = dest @ partSuffix\<rparr>"
  using assms by (simp add: reserveSlot_def uniquePathExcept_def Let_def)

lemma partial_name_lost:
  assumes "slot_wf slot" "offset_ok env slot off fs" "receiveOneFile env meta slot off fs c = (Inr path, fs', c')"
    and "sl_dest other = sl_tmp slot"
  shows "\<not> placed meta' other fs'"
  using receiveOneFile_placed [OF assms(1-3)] assms(4) by (simp add: placed_def)

lemma receiveFiles_keeps:
  assumes "receiveFilesWithProgress env dir peer m resume s = (err, s')"
  shows "keeps dir (s_fs s) (s_fs s')"
proof (cases "m = []")
  case True
  with assms show ?thesis by (auto simp: receiveFilesWithProgress_def keeps_def)
next
  case False
  from assms False obtain s1 where s1: "s_fs s' = s_fs s1"
      and loop: "files_loop env dir peer m resume (emit (Event0\<lparr>ev_Kind := ''recv-start'', ev_Peer := peer,
        ev_Count := int (length m)\<rparr>) (fresh_session s)) = (err, s1)"
    by (rule receiveFiles_loop)
  have "session_inv (s_fs s) dir m s1"
    using files_loop_inv [OF loop] session_inv_fresh by simp
  then have "keeps dir (s_fs s) (s_fs s1)" by (simp add: session_inv_def)
  with s1 show ?thesis by simp
qed

text \<open>
  Property C2. A session never damages what is there and never writes outside the download
  directory: for every stream a peer may send and every behaviour of the disk, whatever the outcome,
  each file or directory that existed before and is not named like a partial file is unchanged, and
  every path that changed is a path of ordinary components below the download directory, so no
  name or relative path in the manifest escapes it.
\<close>

theorem session_confined:
  assumes "receiveFilesWithProgress env dir peer m resume s = (err, s')"
  shows "(s_fs s p = Some n \<longrightarrow> \<not> part_name p \<longrightarrow> s_fs s' p = Some n) \<and>
    (s_fs s' p \<noteq> s_fs s p \<longrightarrow> (\<exists>q. plain_rel q \<and> p = Join dir q))"
  using receiveFiles_keeps [OF assms] by (simp add: keeps_def inside_def)

theorem session_confined_witness:
  "s_fs (snd (receiveFilesWithProgress env_ok ''/d'' ''bob'' [FileMeta0] False
     \<lparr>s_fs = [''/home'' \<mapsto> FDir], s_claimed = [], s_slots = [], s_completed = [], s_saved = [],
      s_in = [], s_out = [], s_events = []\<rparr>)) ''/home'' = Some FDir"
proof -
  have "\<not> part_name ''/home''" by (simp add: part_name_def partSuffix_def partMetaPath_def suffix_def append_eq_Cons_conv)
  moreover have "receiveFilesWithProgress env_ok ''/d'' ''bob'' [FileMeta0] False
      \<lparr>s_fs = [''/home'' \<mapsto> FDir], s_claimed = [], s_slots = [], s_completed = [], s_saved = [],
       s_in = [], s_out = [], s_events = []\<rparr> =
      (fst (receiveFilesWithProgress env_ok ''/d'' ''bob'' [FileMeta0] False
      \<lparr>s_fs = [''/home'' \<mapsto> FDir], s_claimed = [], s_slots = [], s_completed = [], s_saved = [],
       s_in = [], s_out = [], s_events = []\<rparr>), snd (receiveFilesWithProgress env_ok ''/d'' ''bob'' [FileMeta0] False
      \<lparr>s_fs = [''/home'' \<mapsto> FDir], s_claimed = [], s_slots = [], s_completed = [], s_saved = [],
       s_in = [], s_out = [], s_events = []\<rparr>))" by simp
  ultimately show ?thesis using session_confined [where p = "''/home''" and n = FDir] by fastforce
qed

end
