(* ===== verification/Folders.thy ===== *)
theory Folders
  imports Session_Laws
begin

text \<open>
  Directories on the receiving side: which ones \<^verbatim>\<open>createDirectory\<close> of \<^verbatim>\<open>internal/daemon/receive.go\<close> makes for a
  relative path, and that it succeeds when no file is in the way.
\<close>

section \<open>The parent of a path\<close>

lemma Clean_plain: "plain_rel a \<Longrightarrow> Clean (a @ ''/'') = a"
proof -
  assume a: "plain_rel a"
  have "fold (clean_step r) (go_split slash a @ [[]]) [] = rev (go_split slash a)" for r
    using clean_step_plain [of "go_split slash a" r "[]"] a by (simp add: plain_rel_def clean_step_def)
  moreover have "go_split slash (a @ ''/'') = go_split slash a @ [[]]" using go_split_slash [of slash a "[]"] by simp
  moreover have "is_rooted (a @ ''/'') = is_rooted a" "a \<noteq> []" "\<not> is_rooted a"
    using plain_rel_start [OF a] by (cases a; simp add: is_rooted_def)+
  ultimately show ?thesis by (simp add: Clean_def clean_comps_def go_join_split)
qed

lemma Dir_cases:
  assumes "validRelPath p"
  obtains "Dir p = ''.''" | a b where "p = a @ slash # b" "slash \<notin> set b" "Dir p = a" "validRelPath a"
proof (cases "slash \<in> set p")
  case False
  then have none: "dropWhile (\<lambda>c. c \<noteq> slash) (rev p) = []" by (auto simp: dropWhile_eq_Nil_conv)
  have "Dir p = ''.''" unfolding Dir_def none by (simp add: Clean_def clean_comps_def clean_step_def is_rooted_def)
  then show thesis by (rule that(1))
next
  case True
  then obtain a b where p: "p = a @ slash # b" "slash \<notin> set b" by (meson split_list_last)
  have "dropWhile (\<lambda>c. c \<noteq> slash) (rev p) = slash # rev a"
    using p(2) dropWhile_append3 [of "\<lambda>c. c \<noteq> slash" slash "rev b" "rev a"] by (subst p(1)) (auto simp: dropWhile_append)
  then have d: "Dir p = Clean (a @ ''/'')" by (simp add: Dir_def)
  have split: "go_split slash p = go_split slash a @ go_split slash b" unfolding p(1) by (rule go_split_slash)
  have "a \<noteq> []" using assms by (auto simp: validRelPath_def split)
  then have "validRelPath a" using assms by (auto simp: validRelPath_def split) (simp_all add: p(1))
  with d Clean_plain [OF validRelPath_plain] p show thesis by (intro that(2)) auto
qed

section \<open>The directories of a path\<close>

fun dir_chain :: "string \<Rightarrow> string \<Rightarrow> string list \<Rightarrow> string set" where
  "dir_chain dir cur [] = {}"
| "dir_chain dir cur (p # ps) = insert (Join dir (Join cur p)) (dir_chain dir (Join cur p) ps)"

definition dirs_for :: "string \<Rightarrow> string \<Rightarrow> string set" where
  "dirs_for dir rel = dir_chain dir [] (go_split slash rel)"

lemma finite_dirs [simp]: "finite (dirs_for dir rel)"
proof -
  have "finite (dir_chain dir cur ps)" for cur ps by (induction ps arbitrary: cur) simp_all
  then show ?thesis by (simp add: dirs_for_def)
qed

lemma dir_chain_last:
  assumes "list_all plain_comp (cs @ ps)" "ps \<noteq> []"
  shows "Join dir (go_join ''/'' (cs @ ps)) \<in> dir_chain dir (go_join ''/'' cs) ps"
  using assms
proof (induction ps arbitrary: cs)
  case (Cons p ps)
  have plain: "plain_rel p" using Cons.prems(1) by (simp add: plain_comp_rel)
  have "Join (go_join ''/'' cs) p = go_join ''/'' (cs @ [p])"
  proof (cases "cs = []")
    case True
    then show ?thesis using plain Cons.prems(1) by (simp add: Join_plain dir_comps_def is_rooted_def plain_rel_def go_split_no_sep plain_comp_def)
  next
    case False
    have "go_split slash (go_join ''/'' cs) = cs"
      using Cons.prems(1) False by (intro go_split_join) (auto simp: list_all_iff plain_comp_def)
    then have rel: "plain_rel (go_join ''/'' cs)" using Cons.prems(1) by (simp add: plain_rel_def)
    then have "dir_comps (go_join ''/'' cs) = cs" "\<not> is_rooted (go_join ''/'' cs)"
      using \<open>go_split slash (go_join ''/'' cs) = cs\<close> plain_rel_start by (simp_all add: dir_comps_plain)
    moreover have "go_split slash p = [p]" using Cons.prems(1) by (simp add: plain_comp_def go_split_no_sep)
    ultimately show ?thesis using plain by (simp add: Join_plain)
  qed
  then show ?case using Cons.IH [of "cs @ [p]"] Cons.prems(1) by (cases "ps = []") auto
qed simp

lemma dirs_for_self: "validRelPath rel \<Longrightarrow> Join dir rel \<in> dirs_for dir rel"
  using dir_chain_last [of "[]" "go_split slash rel" dir] validRelPath_plain [of rel]
  by (simp add: dirs_for_def plain_rel_def go_join_split)

section \<open>Making them\<close>

definition with_dirs :: "string set \<Rightarrow> fs \<Rightarrow> fs" where
  "with_dirs D fs = (\<lambda>p. if p \<in> D \<and> fs p = None then Some FDir else fs p)"

text \<open>No file is where a directory should be.\<close>

definition clear_for :: "string set \<Rightarrow> fs \<Rightarrow> bool" where
  "clear_for D fs \<longleftrightarrow> (\<forall>p\<in>D. fs p = None \<or> fs p = Some FDir)"

lemma with_dirs_simps [simp]:
  "with_dirs {} fs = fs" "with_dirs A (with_dirs B fs) = with_dirs (A \<union> B) fs"
  "fs p = Some x \<Longrightarrow> with_dirs D fs p = Some x" "p \<notin> D \<Longrightarrow> with_dirs D fs p = fs p"
  by (auto simp: with_dirs_def)

lemma with_dirs_made: "clear_for D fs \<Longrightarrow> p \<in> D \<Longrightarrow> with_dirs D fs p = Some FDir"
  by (auto simp: with_dirs_def clear_for_def)

lemma clear_with_dirs: "clear_for D fs \<Longrightarrow> clear_for D (with_dirs E fs)"
  by (auto simp: with_dirs_def clear_for_def)

lemma finite_with_dirs: "finite D \<Longrightarrow> finite (dom fs) \<Longrightarrow> finite (dom (with_dirs D fs))"
  by (rule finite_subset [of _ "dom fs \<union> D"]) (auto simp: with_dirs_def split: if_splits)

lemma mkdirs_ok:
  assumes "\<And>p. e_mkdir env p" "clear_for (dir_chain dir cur parts) fs"
  shows "mkdirs env dir cur parts fs = (None, with_dirs (dir_chain dir cur parts) fs)"
  using assms(2)
proof (induction parts arbitrary: cur fs)
  case (Cons part parts)
  let ?p = "Join dir (Join cur part)"
  have one: "(if fs ?p = None then fs(?p \<mapsto> FDir) else fs) = with_dirs {?p} fs" by (auto simp: with_dirs_def fun_eq_iff)
  have "with_dirs {?p} fs ?p = Some FDir" using Cons.prems by (auto simp: with_dirs_def clear_for_def)
  moreover have "clear_for (dir_chain dir (Join cur part) parts) (with_dirs {?p} fs)"
    using Cons.prems by (intro clear_with_dirs) (auto simp: clear_for_def)
  ultimately show ?case using assms(1) Cons.IH by (simp add: one Let_def insert_is_Un [symmetric] Un_commute)
qed simp

lemma createDirectory_ok:
  assumes "e_root env" "\<And>p. e_mkdir env p" "validRelPath rel" "clear_for (dirs_for dir rel) fs"
  shows "createDirectory env dir rel fs = (None, with_dirs (dirs_for dir rel) fs)"
  using assms mkdirs_ok by (simp add: createDirectory_def dirs_for_def)

section \<open>The directories of a manifest\<close>

definition entry_dirs :: "string \<Rightarrow> file_meta \<Rightarrow> string set" where
  "entry_dirs dir m = (if fm_IsDir m then dirs_for dir (fm_RelPath m)
     else if fm_RelPath m \<noteq> [] \<and> Dir (fm_RelPath m) \<noteq> ''.'' then dirs_for dir (Dir (fm_RelPath m)) else {})"

definition all_dirs :: "string \<Rightarrow> file_meta list \<Rightarrow> string set" where
  "all_dirs dir ms = (\<Union>m\<in>set ms. entry_dirs dir m)"

lemma finite_entry_dirs [simp]: "finite (entry_dirs dir m)"
  by (simp add: entry_dirs_def)

text \<open>No directory is named like a partial file, and no file can take the place of one.\<close>

definition dirs_apart :: "string \<Rightarrow> file_meta list \<Rightarrow> bool" where
  "dirs_apart dir ms \<longleftrightarrow> (\<forall>p\<in>all_dirs dir ms. \<not> part_name p) \<and>
     (\<forall>m\<in>set ms. \<not> fm_IsDir m \<longrightarrow> (\<forall>n. variant (slot_name m) n \<longrightarrow> Join dir n \<notin> all_dirs dir ms))"

lemma reserve_entry:
  assumes "e_root env" "\<And>p. e_mkdir env p" "\<not> fm_IsDir m" "fm_RelPath m = [] \<or> validRelPath (fm_RelPath m)"
    "finite (dom fs)" "clear_for (entry_dirs dir m) fs"
  obtains slot where "reserveSlot env dir m fs cl = (Inr slot, with_dirs (entry_dirs dir m) fs, List.insert (sl_tmp slot) cl)"
proof -
  have plain: "plain_rel (slot_name m)"
    using assms(4) by (auto simp: slot_name_def validRelPath_plain plain_comp_rel sanitizeName_plain)
  have "inj_on (\<lambda>c. c @ partSuffix) {c. c @ partSuffix \<in> set cl}" by (simp add: inj_on_def)
  moreover have "(\<lambda>c. c @ partSuffix) ` {c. c @ partSuffix \<in> set cl} \<subseteq> set cl" by auto
  ultimately have "finite {c. c @ partSuffix \<in> set cl}" using finite_imageD finite_subset by blast
  moreover have "finite {p. fs p \<noteq> None}" using assms(5) by (simp add: dom_def)
  ultimately obtain n where u:
    "uniquePathExcept (\<lambda>p. fs p \<noteq> None) dir (slot_name m) (\<lambda>c. c @ partSuffix \<in> set cl) = Some (Join dir n)"
    using unique_path [OF plain] by metis
  have "validRelPath (Dir (fm_RelPath m))" if "fm_RelPath m \<noteq> []" "Dir (fm_RelPath m) \<noteq> ''.''"
    using assms(4) that by (elim disjE) (auto elim: Dir_cases)
  then have made: "(if fm_RelPath m \<noteq> [] \<and> Dir (slot_name m) \<noteq> ''.'' then createDirectory env dir (Dir (slot_name m)) fs else (None, fs)) =
      (None, with_dirs (entry_dirs dir m) fs)"
    using assms(1-3,6) createDirectory_ok [of env "Dir (fm_RelPath m)" dir fs]
    by (cases "fm_RelPath m \<noteq> [] \<and> Dir (fm_RelPath m) \<noteq> ''.''") (auto simp: entry_dirs_def slot_name_def)
  with u assms(4) that [of "\<lparr>sl_dest = Join dir n, sl_tmp = Join dir n @ partSuffix\<rparr>"] show thesis
    by (auto simp: reserveSlot_def slot_name_def Let_def split: if_splits)
qed

end
