(* ===== verification/Header_Size.thy ===== *)
theory Header_Size
  imports Proto
begin

text \<open>
  How long an encoded header can be: every header without a manifest and with strings of moderate
  length fits a frame, so control messages never meet the size limit.
\<close>

lemma length_json_esc: "length (json_esc c) \<le> 6"
  by (simp add: json_esc_def)

lemma length_json_body: "length (json_body s) \<le> 6 * length s"
proof (induction s rule: json_body.induct)
  case (1 s)
  show ?case
  proof (cases s)
    case (Cons c t)
    have three: "length s = 3 + length (drop 3 s)" if "take 3 s = [a, b, d]" for a b d
      using arg_cong [OF that, of length] by simp
    have n: "rune_len s \<le> length s" by (rule rune_len_le)
    note IH = "1.IH" [OF Cons]
    consider (ascii) "cv c < 128" | (bad) "\<not> cv c < 128" "rune_len s = 0"
      | (ls) "\<not> cv c < 128" "rune_len s \<noteq> 0" "take 3 s = [CHR 0xE2, CHR 0x80, CHR 0xA8]"
      | (ps) "\<not> cv c < 128" "rune_len s \<noteq> 0" "take 3 s \<noteq> [CHR 0xE2, CHR 0x80, CHR 0xA8]"
          "take 3 s = [CHR 0xE2, CHR 0x80, CHR 0xA9]"
      | (other) "\<not> cv c < 128" "rune_len s \<noteq> 0" "take 3 s \<noteq> [CHR 0xE2, CHR 0x80, CHR 0xA8]"
          "take 3 s \<noteq> [CHR 0xE2, CHR 0x80, CHR 0xA9]" by blast
    then show ?thesis
    proof cases
      case ascii
      with IH(1) length_json_esc [of c] Cons show ?thesis unfolding json_body.simps [of s] by simp
    next
      case bad
      with IH(2) Cons show ?thesis unfolding json_body.simps [of s] by simp
    next
      case ls
      with IH(3) three [OF ls(3)] Cons show ?thesis unfolding json_body.simps [of s] by simp
    next
      case ps
      with IH(4) three [OF ps(4)] Cons show ?thesis unfolding json_body.simps [of s] by simp
    next
      case other
      then have "json_body s = take (rune_len s) s @ json_body (drop (rune_len s) s)"
        using json_body_multi [of c t, folded Cons] by simp
      then have "length (json_body s) = rune_len s + length (json_body (drop (rune_len s) s))"
        using n by simp
      with IH(5) [OF other] n show ?thesis by simp
    qed
  qed (simp add: json_body.simps [of "[]"])
qed

lemma length_json_quote: "length (json_quote s) \<le> 6 * length s + 2"
  using length_json_body [of s] by (simp add: json_quote_def)

lemma length_show_nat: "n < 10 ^ Suc k \<Longrightarrow> length (show_nat n) \<le> Suc k"
proof (induction k arbitrary: n)
  case (Suc k)
  then have "n div 10 < 10 ^ Suc k" by (simp add: less_mult_imp_div_less)
  from Suc.IH [OF this] show ?case by (simp add: show_nat.simps [of n])
qed (simp add: show_nat.simps)

lemma length_show_int: "int64 i \<Longrightarrow> length (show_int i) \<le> 20"
proof -
  assume i: "int64 i"
  have "nat (- i) < 10 ^ Suc 18" "nat i < 10 ^ Suc 18" using i by (auto simp: int64_def)
  with length_show_nat [of "nat (- i)" 18] length_show_nat [of "nat i" 18] show ?thesis
    by (auto simp: show_int_def)
qed

text \<open>An upper bound that adds up over the members.\<close>

definition members_size :: "(string \<times> json) list \<Rightarrow> nat" where
  "members_size ms = sum_list (map (\<lambda>(k, v). 6 * length k + 4 + length (json_print v)) ms)"

lemma members_size_simps:
  "members_size [] = 0" "members_size (ms @ ns) = members_size ms + members_size ns"
  "members_size ((k, v) # ms) = 6 * length k + 4 + length (json_print v) + members_size ms"
  by (simp_all add: members_size_def)

lemma length_json_obj: "length (json_print (JObj ms)) \<le> members_size ms + 2"
proof -
  have join: "length (go_join '','' xs) \<le> sum_list (map (\<lambda>x. length x + 1) xs)" for xs
    by (induction "'',''" xs rule: go_join.induct) auto
  have "sum_list (map (\<lambda>x. length x + 1) (map (\<lambda>(k, v). json_quote k @ '':'' @ json_print v) ms)) \<le> members_size ms"
  proof (induction ms)
    case (Cons kv ms)
    then show ?case using length_json_quote [of "fst kv"] by (cases kv) (simp add: members_size_simps)
  qed (simp add: members_size_simps)
  with join [of "map (\<lambda>(k, v). json_quote k @ '':'' @ json_print v) ms"] show ?thesis by simp
qed

lemma members_size_opts:
  "members_size (opt_str k s) \<le> 6 * length k + 6 * length s + 6"
  "members_size (opt_bool k b) \<le> 6 * length k + 8"
  "int64 i \<Longrightarrow> members_size (opt_int k i) \<le> 6 * length k + 24"
  using length_json_quote [of s] length_show_int [of i]
  by (simp_all add: opt_str_def opt_bool_def opt_int_def members_size_simps)

definition strings_size :: "header \<Rightarrow> nat" where
  "strings_size h = length (h_Type h) + length (h_Fingerprint h) + length (h_Name h) + length (h_Addr h)
     + length (h_FcmToken h) + length (h_RNS h) + length (h_Kind h) + length (h_SHA256 h) + length (h_MIME h)
     + length (h_Error h)"

lemma marshal_size:
  assumes "list_all int64 [h_Version h, h_FileIndex h, h_Length h, h_BytesDone h, h_TotalBytes h]"
  shows "length (marshal_header h) \<le> 6 * strings_size h + 2000 + members_size (opt_files ''files'' (h_Files h))"
proof -
  have "length (marshal_header h) \<le> members_size (case header_json h of JObj ms \<Rightarrow> ms | _ \<Rightarrow> []) + 2"
    using length_json_obj [of "case header_json h of JObj ms \<Rightarrow> ms | _ \<Rightarrow> []"]
    by (simp add: marshal_header_def header_json_def del: json_print.simps)
  also have "\<dots> \<le> 6 * strings_size h + 2000 + members_size (opt_files ''files'' (h_Files h))"
    using assms length_json_quote [of "h_Type h"]
      members_size_opts(1) [of "''fingerprint''" "h_Fingerprint h"] members_size_opts(1) [of "''name''" "h_Name h"]
      members_size_opts(1) [of "''addr''" "h_Addr h"] members_size_opts(1) [of "''fcm_token''" "h_FcmToken h"]
      members_size_opts(1) [of "''rns''" "h_RNS h"] members_size_opts(1) [of "''kind''" "h_Kind h"]
      members_size_opts(1) [of "''sha256''" "h_SHA256 h"] members_size_opts(1) [of "''mime''" "h_MIME h"]
      members_size_opts(1) [of "''error''" "h_Error h"]
      members_size_opts(2) [of "''folders''" "h_Folders h"] members_size_opts(2) [of "''resume''" "h_Resume h"]
      members_size_opts(2) [of "''ok''" "h_OK h"]
      members_size_opts(3) [of "h_Version h" "''version''"] members_size_opts(3) [of "h_FileIndex h" "''file_index''"]
      members_size_opts(3) [of "h_Length h" "''length''"] members_size_opts(3) [of "h_BytesDone h" "''bytes_done''"]
      members_size_opts(3) [of "h_TotalBytes h" "''total_bytes''"]
    by (simp add: header_json_def members_size_simps strings_size_def)
  finally show ?thesis .
qed

lemma small_header:
  assumes "header_ok h" "h_Files h = []" "strings_size h \<le> 100000"
  shows "sendable_header h"
  using marshal_size [of h] assms
  by (simp add: sendable_header_def header_ok_def MaxHeaderSize_def opt_files_def members_size_simps)

lemma ReadHeader_sent: "sendable_header h \<Longrightarrow> ReadHeader (frame h p @ r) = (Inr h, p @ r)"
  by (simp add: sendable_header_def ReadHeader_frame)

lemma WriteControl_sent:
  "sendable_header h \<Longrightarrow> h_Length h = 0 \<Longrightarrow> WriteControl h = (frame h [], None)"
  using WriteControl_frame [of h] by (cases h) (simp add: sendable_header_def)

lemma WriteMessage_sent:
  "sendable_header h \<Longrightarrow> h_Length h = int (length p) \<Longrightarrow> WriteMessage h (Some p) = (frame h p, None)"
  using WriteMessage_frame [of h p] by (simp add: sendable_header_def)

section \<open>The words of the protocol\<close>

lemmas header_defs = Header0_def header_ok_def strings_size_def

lemma utf8_types [simp]:
  "utf8_valid TypeChunk" "utf8_valid TypeProgress" "utf8_valid TypeFileHeader" "utf8_valid TypeFileEnd"
  "utf8_valid TypeResumeQuery" "utf8_valid TypeResumeOffer" "utf8_valid TypeSessionEnd" "utf8_valid TypeAck"
  "utf8_valid TypeSessionStart" "utf8_valid KindFiles" "utf8_valid KindClipboard" "utf8_valid TypeClipboardData"
  "utf8_valid TypeHello" "utf8_valid TypePairRequest" "utf8_valid TypePairConfirm"
  by (rule utf8_valid_ascii, simp add: go_simps)+

lemma length_types:
  "length TypeChunk \<le> 20" "length TypeProgress \<le> 20" "length TypeFileHeader \<le> 20" "length TypeFileEnd \<le> 20"
  "length TypeResumeQuery \<le> 20" "length TypeResumeOffer \<le> 20" "length TypeSessionEnd \<le> 20" "length TypeAck \<le> 20"
  "length TypeSessionStart \<le> 20" "length KindFiles \<le> 20" "length KindClipboard \<le> 20" "length TypeClipboardData \<le> 20"
  "length TypeHello \<le> 20" "length TypePairRequest \<le> 20" "length TypePairConfirm \<le> 20"
  by (simp_all add: go_simps)

text \<open>Hexadecimal text is ASCII.\<close>

lemma utf8_hex: "utf8_valid (hex_encode b)"
proof -
  have digit: "cv (hex_digit d) < 128" if "d < 16" for d using that by (simp add: hex_digit_def)
  have "cv c < 128" if "c \<in> set (hex_encode b)" for c b
    using that
  proof (induction b)
    case (Cons a b)
    have "cv a < 256" by simp
    then have "cv a div 16 < 16" by linarith
    with Cons digit show ?case by auto
  qed simp
  then show ?thesis by (intro utf8_valid_ascii) auto
qed

section \<open>A header cut short\<close>

lemma frame_split: "frame h p = frame h [] @ p"
  by (simp add: frame_def)

lemma ReadFull_short: "length s < n \<Longrightarrow> \<exists>e. ReadFull n s = (Inl e, [])"
  by (auto simp: ReadFull_def)

lemma ReadHeader_cut:
  assumes "strict_prefix c (frame h [])" "length (marshal_header h) \<le> MaxHeaderSize"
  shows "\<exists>e. ReadHeader c = (Inl e, [])"
proof -
  let ?raw = "marshal_header h"
  obtain d where d: "frame h [] = c @ d" "d \<noteq> []" using assms(1) by (auto simp: strict_prefix_def prefix_def)
  show ?thesis
  proof (cases "length c < 4")
    case True
    from ReadFull_short [OF this] show ?thesis by (auto simp: ReadHeader_def)
  next
    case False
    then have t1: "take 4 (c @ d) = take 4 c" by simp
    have t2: "take 4 (frame h []) = be_put 4 (length ?raw)" by (simp add: frame_def)
    have t: "take 4 c = be_put 4 (length ?raw)" by (rule trans [OF t1 [symmetric] t2 [unfolded d(1)]])
    have n: "be_get (be_put 4 (length ?raw)) = length ?raw"
      using assms(2) by (intro be_get_put) (simp add: MaxHeaderSize_def)
    have "length (drop 4 c) < length ?raw"
      using arg_cong [OF d(1), of length] d(2) False by (cases d) (auto simp: frame_def)
    from ReadFull_short [OF this] obtain e where "ReadFull (length ?raw) (drop 4 c) = (Inl e, [])" by blast
    with False t n assms(2) show ?thesis by (auto simp: ReadHeader_def ReadFull_def [of 4])
  qed
qed

end
