(* ===== verification/File_Transfer.thy ===== *)
theory File_Transfer
  imports Send Folders Header_Size
begin

text \<open>
  Sender and receiver together: what the sender writes for a file is received as that file, from any
  resume offset the receiver offers, and a whole session of both sides ends with every file and folder in
  place.
\<close>

section \<open>A working disk\<close>

definition env_good :: "os_env \<Rightarrow> bool" where
  "env_good env \<longleftrightarrow> (\<forall>p. e_open env p \<and> e_read env p \<and> e_close env p \<and> e_rename env p \<and> e_remove env p \<and> e_mkdir env p)
     \<and> e_root env \<and> (\<forall>p c b. length b \<le> e_write env p c b)"

lemma env_good_ok: "env_good env_ok"
  by (simp add: env_good_def env_ok_def)

lemma env_goodD:
  "env_good env \<Longrightarrow> e_open env p" "env_good env \<Longrightarrow> e_read env p" "env_good env \<Longrightarrow> e_close env p"
  "env_good env \<Longrightarrow> e_rename env p" "env_good env \<Longrightarrow> e_remove env p" "env_good env \<Longrightarrow> e_mkdir env p"
  "env_good env \<Longrightarrow> e_root env" "env_good env \<Longrightarrow> length b \<le> e_write env p c b"
  by (simp_all add: env_good_def)

section \<open>The headers of a transfer\<close>

definition file_header_hdr :: "int \<Rightarrow> header" where
  "file_header_hdr i = Header0\<lparr>h_Type := TypeFileHeader, h_FileIndex := i\<rparr>"

definition file_end_hdr :: "int \<Rightarrow> header" where
  "file_end_hdr i = Header0\<lparr>h_Type := TypeFileEnd, h_FileIndex := i\<rparr>"

definition query_hdr :: "int \<Rightarrow> string \<Rightarrow> header" where
  "query_hdr i sha = Header0\<lparr>h_Type := TypeResumeQuery, h_FileIndex := i, h_SHA256 := sha\<rparr>"

definition offer_hdr :: "int \<Rightarrow> int \<Rightarrow> header" where
  "offer_hdr i n = Header0\<lparr>h_Type := TypeResumeOffer, h_FileIndex := i, h_BytesDone := n\<rparr>"

lemmas transfer_hdrs = file_header_hdr_def file_end_hdr_def query_hdr_def offer_hdr_def chunk_hdr_def progress_hdr_def ack_ok_def

lemma sendable_hdrs:
  "int64 i \<Longrightarrow> sendable_header (file_header_hdr i)" "int64 i \<Longrightarrow> sendable_header (file_end_hdr i)"
  "int64 i \<Longrightarrow> utf8_valid sha \<Longrightarrow> length sha \<le> 90000 \<Longrightarrow> sendable_header (query_hdr i sha)"
  "int64 i \<Longrightarrow> int64 n \<Longrightarrow> sendable_header (offer_hdr i n)"
  "int64 i \<Longrightarrow> int64 (int (length c)) \<Longrightarrow> sendable_header (chunk_hdr i c)"
  "int64 i \<Longrightarrow> int64 n \<Longrightarrow> int64 k \<Longrightarrow> sendable_header (progress_hdr i n k)"
  "int64 i \<Longrightarrow> sendable_header (ack_ok i)"
  "sendable_header (Header0\<lparr>h_Type := TypeSessionEnd\<rparr>)" "sendable_header (Header0\<lparr>h_Type := TypeAck, h_OK := True\<rparr>)"
  using length_types by (intro small_header; simp add: transfer_hdrs header_defs int64_def)+

lemma hdr_fields [simp]:
  "h_Type (file_header_hdr i) = TypeFileHeader" "h_FileIndex (file_header_hdr i) = i" "h_Length (file_header_hdr i) = 0"
  "h_Type (file_end_hdr i) = TypeFileEnd" "h_FileIndex (file_end_hdr i) = i" "h_Length (file_end_hdr i) = 0"
  "h_Type (query_hdr i sha) = TypeResumeQuery" "h_FileIndex (query_hdr i sha) = i" "h_Length (query_hdr i sha) = 0"
  "h_Type (offer_hdr i n) = TypeResumeOffer" "h_BytesDone (offer_hdr i n) = n" "h_Length (offer_hdr i n) = 0"
  "h_Type (chunk_hdr i c) = TypeChunk" "h_Length (chunk_hdr i c) = int (length c)"
  "h_Type (progress_hdr i n k) = TypeProgress" "h_Length (progress_hdr i n k) = 0"
  "h_Type (ack_ok i) = TypeAck" "h_OK (ack_ok i)" "h_Length (ack_ok i) = 0"
  by (simp_all add: transfer_hdrs Header0_def)

lemma types_differ [simp]:
  "TypeProgress \<noteq> TypeChunk" "TypeFileEnd \<noteq> TypeChunk" "TypeFileEnd \<noteq> TypeProgress"
  "TypeResumeQuery \<noteq> TypeSessionEnd" "TypeResumeQuery \<noteq> TypeProgress" "TypeFileHeader \<noteq> TypeSessionEnd"
  "TypeFileHeader \<noteq> TypeProgress" "TypeFileHeader \<noteq> TypeResumeQuery" "KindFiles \<noteq> KindClipboard"
  by (simp_all add: go_simps)

section \<open>The chunks of a file\<close>

lemma recv_body_progress:
  assumes "sendable_header (progress_hdr i n k)"
  shows "recv_body env meta slot h g fs (frame (progress_hdr i n k) [] @ c) = recv_body env meta slot h g fs c"
  using ReadHeader_sent [OF assms, of "[]" c]
  by (subst recv_body.simps) (simp add: recv_step_def)

lemma recv_body_chunk:
  assumes "sendable_header (chunk_hdr i b)" "env_good env" "fs (sl_tmp slot) = Some (FFile h)" "g = int (length h)"
    "int (length h + length b) \<le> fm_Size meta" "int64 (fm_Size meta)"
  shows "recv_body env meta slot h g fs (frame (chunk_hdr i b) b @ c) =
    recv_body env meta slot (h @ b) (g + int (length b)) (fs(sl_tmp slot \<mapsto> FFile (h @ b))) c"
proof -
  have w: "wrap64 (g + int (length b)) = g + int (length b)"
    using assms(4-6) by (intro wrap64_id) (simp add: int64_def)
  have full: "min (e_write env (sl_tmp slot) x b) (length b) = length b" for x
    using env_goodD(8) [OF assms(2)] by (simp add: min_absorb2)
  have "recv_step env meta slot h g fs (frame (chunk_hdr i b) b @ c) =
      Inr (h @ b, g + int (length b), fs(sl_tmp slot \<mapsto> FFile (h @ b)), c)"
    using ReadHeader_sent [OF assms(1), of b c] assms(3-5) w full
    by (simp add: recv_step_def recv_chunk_def Let_def os_append_def content_def)
  then show ?thesis by (subst recv_body.simps) simp
qed

text \<open>The receiver's loop on everything \<^verbatim>\<open>send_chunks\<close> writes.\<close>

lemma recv_body_chunks:
  assumes "int64 i" "env_good env" "int64 (fm_Size meta)"
    and "fs (sl_tmp slot) = Some (FFile h)" "int (length h + length data) = fm_Size meta"
  shows "fst (send_chunks i (fm_Size meta) (int (length h)) data) = None \<and>
    recv_body env meta slot h (int (length h)) fs (snd (send_chunks i (fm_Size meta) (int (length h)) data) @ c) =
    recv_body env meta slot (h @ data) (fm_Size meta) (fs(sl_tmp slot \<mapsto> FFile (h @ data))) c"
  using assms(4,5)
proof (induction data arbitrary: h fs rule: length_induct)
  case (1 data)
  show ?case
  proof (cases "data = []")
    case True
    with "1.prems" show ?thesis by (simp add: send_chunks.simps [of _ _ _ "[]"] fun_upd_idem)
  next
    case False
    let ?b = "take (nat ChunkSize) data" and ?r = "drop (nat ChunkSize) data"
    let ?fs = "fs(sl_tmp slot \<mapsto> FFile (h @ ?b))"
    have split: "?b @ ?r = data" by simp
    have len: "length h + length ?b + length ?r = length h + length data"
      using arg_cong [OF split, of length] by simp
    have bound: "int (length h + length ?b) \<le> fm_Size meta" using "1.prems"(2) len by simp
    have b64: "int64 (int (length ?b))" "int64 (int (length h + length ?b))"
      using bound assms(3) by (auto simp: int64_def)
    have shorter: "length ?r < length data" using False by (simp add: ChunkSize_def)
    have hb: "int (length (h @ ?b)) = int (length h) + int (length ?b)" by simp
    have IH: "fst (send_chunks i (fm_Size meta) (int (length h) + int (length ?b)) ?r) = None \<and>
        recv_body env meta slot (h @ ?b) (int (length h) + int (length ?b)) ?fs
          (snd (send_chunks i (fm_Size meta) (int (length h) + int (length ?b)) ?r) @ c) =
        recv_body env meta slot (h @ data) (fm_Size meta) (fs(sl_tmp slot \<mapsto> FFile (h @ data))) c"
      using "1.IH" [rule_format, OF shorter, of ?fs "h @ ?b"] "1.prems"(2) len
      unfolding hb append_assoc split fun_upd_upd by simp
    have chunk: "sendable_header (chunk_hdr i ?b)" by (intro sendable_hdrs assms(1) b64)
    have prog: "sendable_header (progress_hdr i (int (length h) + int (length ?b)) (fm_Size meta))"
      using b64(2) by (intro sendable_hdrs assms(1,3)) simp
    obtain e out where rest: "send_chunks i (fm_Size meta) (int (length h) + int (length ?b)) ?r = (e, out)" by force
    have "send_chunks i (fm_Size meta) (int (length h)) data =
        (e, frame (chunk_hdr i ?b) ?b @ frame (progress_hdr i (int (length h) + int (length ?b)) (fm_Size meta)) [] @ out)"
      using False rest WriteMessage_sent [OF chunk, of ?b] WriteControl_sent [OF prog]
      by (subst send_chunks.simps) (simp add: Let_def)
    then show ?thesis
      using IH rest recv_body_chunk [where fs = fs and slot = slot, OF chunk assms(2) "1.prems"(1) refl bound assms(3)]
        recv_body_progress [OF prog] by (simp add: fun_upd_def)
  qed
qed

section \<open>One file, from an offset\<close>

text \<open>
  A receiver whose partial file holds the first \<^term>\<open>off\<close> bytes completes the file when the sender
  continues from there.
\<close>

definition resumable :: "fs \<Rightarrow> fileSlot \<Rightarrow> bytes \<Rightarrow> int \<Rightarrow> bool" where
  "resumable fs slot data off \<longleftrightarrow> (off = 0 \<and> fs (sl_tmp slot) \<noteq> Some FDir) \<or>
     (0 < off \<and> off < int (length data) \<and> fs (sl_tmp slot) = Some (FFile (take (nat off) data)))"

lemma receiveOneFile_complete:
  assumes "int64 i" "env_good env" "slot_wf slot" "fs (sl_dest slot) \<noteq> Some FDir" "resumable fs slot data off"
    "fm_Size m = int (length data)" "fm_SHA256 m = sha256_hex data" "int64 (int (length data))"
  obtains fs' where
    "\<And>c. receiveOneFile env m slot off fs
       (snd (send_chunks i (fm_Size m) off (drop (nat off) data)) @ frame (file_end_hdr i) [] @ c) = (Inr (sl_dest slot), fs', c)"
    "fst (send_chunks i (fm_Size m) off (drop (nat off) data)) = None"
    "fs' (sl_dest slot) = Some (FFile data)" "fs' (sl_tmp slot) = None" "fs' (partMetaPath (sl_tmp slot)) = None"
proof -
  let ?tmp = "sl_tmp slot"
  let ?h = "take (nat off) data" and ?d = "drop (nat off) data"
  let ?fs0 = "writePartMeta env ?tmp m (if off = 0 then fs(?tmp \<mapsto> FFile []) else fs)"
  let ?fs1 = "?fs0(?tmp \<mapsto> FFile data)"
  let ?fs2 = "os_remove env (partMetaPath ?tmp) ((?fs1(?tmp := None))(sl_dest slot := ?fs1 ?tmp))"
  have off: "0 \<le> off" "int (length ?h) = off" "int (length ?h + length ?d) = fm_Size m"
    using assms(5,6) by (auto simp: resumable_def)
  have tmp: "?fs0 ?tmp = Some (FFile ?h)"
    using assms(5) by (auto simp: resumable_def part_frame)
  have size: "int64 (fm_Size m)" using assms(6,8) by simp
  note chunks = recv_body_chunks [where fs = ?fs0 and slot = slot, OF assms(1,2) size tmp off(3), unfolded off(2)]
  have "receiveOneFile env m slot off fs (snd (send_chunks i (fm_Size m) off ?d) @ frame (file_end_hdr i) [] @ c) =
      (Inr (sl_dest slot), ?fs2, c)" for c
  proof -
    let ?c = "snd (send_chunks i (fm_Size m) off ?d) @ frame (file_end_hdr i) [] @ c"
    have "receiveOneFile env m slot off fs ?c = recv_body env m slot ?h off ?fs0 ?c"
      using assms(2,5) env_goodD(1,2) [OF assms(2)]
      by (auto simp: resumable_def receiveOneFile_def os_read_file_def Let_def)
    also have "\<dots> = recv_body env m slot data (fm_Size m) ?fs1 (frame (file_end_hdr i) [] @ c)"
      using chunks [of "frame (file_end_hdr i) [] @ c"] by simp
    also have "\<dots> = recv_end env m slot data (fm_Size m) ?fs1 c"
      using ReadHeader_sent [OF sendable_hdrs(2) [OF assms(1)], of "[]" c]
      by (subst recv_body.simps) (simp add: recv_step_def)
    also have "\<dots> = (Inr (sl_dest slot), ?fs2, c)"
    proof -
      have "?fs1 (sl_dest slot) \<noteq> Some FDir"
        using assms(3,4) by (simp add: part_frame)
      then show ?thesis
        using env_goodD(3,4) [OF assms(2)] assms(7) by (simp add: recv_end_def sha256_hex_def Let_def)
    qed
    finally show ?thesis .
  qed
  moreover have "fst (send_chunks i (fm_Size m) off ?d) = None" using chunks by simp
  moreover have "?fs2 (sl_dest slot) = Some (FFile data)" "?fs2 ?tmp = None" "?fs2 (partMetaPath ?tmp) = None"
    using assms(3) env_goodD(5) [OF assms(2)] by (simp_all add: os_remove_def)
  ultimately show thesis by (intro that [of ?fs2])
qed

section \<open>Partial files left by earlier transfers\<close>

text \<open>
  No partial file is a directory, and a partial file whose sidecar names one of the files \<^term>\<open>D\<close>
  holds a beginning of that file.
\<close>

definition honest :: "bytes set \<Rightarrow> fs \<Rightarrow> bool" where
  "honest D fs \<longleftrightarrow> (\<forall>p. part_name p \<longrightarrow> fs p \<noteq> Some FDir) \<and>
     (\<forall>t b c d. suffix partSuffix t \<longrightarrow> fs t = Some (FFile b) \<longrightarrow> fs (partMetaPath t) = Some (FFile c) \<longrightarrow> d \<in> D \<longrightarrow>
        equal_fold (trim_space c) (sha256_hex d) \<longrightarrow> length b < length d \<longrightarrow> prefix b d)"

lemma honest_remove: "honest D fs \<Longrightarrow> honest D (fs(p := None))"
  by (auto simp: honest_def)

lemma honest_removePart: "honest D fs \<Longrightarrow> honest D (removePart env t fs)"
  by (auto simp: removePart_def os_remove_def honest_remove)

text \<open>What the receiver offers can be resumed, and it offers the same again.\<close>

lemma partial_resumable:
  assumes "env_good env" "honest D fs" "data \<in> D" "slot_wf slot" "fm_Size m = int (length data)"
    "fm_SHA256 m = sha256_hex data" "partialBytes env slot m fs = (n, fs')"
  shows "resumable fs' slot data n" "honest D fs'" "partialBytes env slot m fs' = (n, fs')"
proof -
  let ?t = "sl_tmp slot"
  have t: "suffix partSuffix ?t" "part_name ?t" using assms(4) by (auto simp: slot_wf_def part_name_def suffix_def)
  have nodir: "fs ?t \<noteq> Some FDir" using assms(2) t by (simp add: honest_def)
  have removed: "removePart env ?t fs ?t = None" for fs
    using env_goodD(5) [OF assms(1)] by (simp add: removePart_def os_remove_def)
  have cases: "(n = 0 \<and> (fs' = fs \<or> fs' = removePart env ?t fs)) \<or>
      (\<exists>b c. fs ?t = Some (FFile b) \<and> n = int (length b) \<and> b \<noteq> [] \<and> length b < length data \<and> fs' = fs \<and>
        fs (partMetaPath ?t) = Some (FFile c) \<and> equal_fold (trim_space c) (sha256_hex data))"
    using assms(5-7) nodir
    by (auto simp: partialBytes_def stat_size_def os_read_file_def Let_def split: option.splits node.splits if_splits)
  show "honest D fs'" using cases assms(2) honest_removePart by auto
  show "partialBytes env slot m fs' = (n, fs')"
  proof (cases "fs' = fs")
    case False
    with cases have "n = 0" "fs' = removePart env ?t fs" by auto
    then show ?thesis using removed by (simp add: partialBytes_def)
  qed (use assms(7) in simp)
  show "resumable fs' slot data n"
  proof (cases "n = 0")
    case True
    with cases nodir removed [of fs] show ?thesis by (auto simp: resumable_def)
  next
    case False
    with cases obtain b c where b: "fs ?t = Some (FFile b)" "n = int (length b)" "b \<noteq> []" "length b < length data" "fs' = fs"
        "fs (partMetaPath ?t) = Some (FFile c)" "equal_fold (trim_space c) (sha256_hex data)" by blast
    then have "prefix b data" using assms(2,3) t unfolding honest_def by blast
    then have "take (nat n) data = b" using b(2) by (auto simp: prefix_def)
    with b show ?thesis by (auto simp: resumable_def)
  qed
qed

section \<open>A session of files and folders\<close>

text \<open>
  An entry of the manifest as \<^verbatim>\<open>buildManifest\<close> makes it, and what it stands for: the bytes of a regular file,
  or a directory.
\<close>

definition entry_ok :: "(string \<Rightarrow> bytes option) \<Rightarrow> file_meta \<times> string \<Rightarrow> bytes option \<Rightarrow> bool" where
  "entry_ok src e c \<longleftrightarrow> (case e of (m, path) \<Rightarrow> \<not> part_name (slot_name m) \<and>
     (case c of
        None \<Rightarrow> fm_IsDir m \<and> validRelPath (fm_RelPath m) \<and> fm_Size m = 0 \<and> fm_SHA256 m = []
      | Some data \<Rightarrow> \<not> fm_IsDir m \<and> (fm_RelPath m = [] \<or> validRelPath (fm_RelPath m)) \<and> src path = Some data \<and>
          fm_Size m = int (length data) \<and> fm_SHA256 m = sha256_hex data \<and> int64 (int (length data))))"

definition contents :: "bytes option list \<Rightarrow> bytes set" where
  "contents cs = {d. Some d \<in> set cs}"

definition entries_ok :: "(string \<Rightarrow> bytes option) \<Rightarrow> string \<Rightarrow> (file_meta \<times> string) list \<Rightarrow> bytes option list \<Rightarrow> bool" where
  "entries_ok src dir ms cs \<longleftrightarrow> list_all2 (entry_ok src) ms cs \<and> int64 (int (length ms)) \<and> dirs_apart dir (map fst ms)"

text \<open>What the receiver has of a finished entry.\<close>

definition entry_in :: "string \<Rightarrow> session \<Rightarrow> nat \<Rightarrow> file_meta \<Rightarrow> bytes option \<Rightarrow> bool" where
  "entry_in dir s j m c \<longleftrightarrow> (case c of
     None \<Rightarrow> s_fs s (Join dir (fm_RelPath m)) = Some FDir
   | Some data \<Rightarrow> \<exists>slot. map_of (s_slots s) (int j) = Some slot \<and> s_fs s (sl_dest slot) = Some (FFile data))"

text \<open>The state of the receiver before entry \<^term>\<open>i\<close>.\<close>

definition before ::
  "(file_meta \<times> string) list \<Rightarrow> bytes option list \<Rightarrow> string \<Rightarrow> fs \<Rightarrow> nat \<Rightarrow> session \<Rightarrow> bool" where
  "before ms cs dir fs0 i s \<longleftrightarrow>
     session_inv fs0 dir (map fst ms) s \<and> finite (dom (s_fs s)) \<and> honest (contents cs) (s_fs s) \<and>
     clear_for (all_dirs dir (map fst ms)) (s_fs s) \<and>
     s_completed s = rev (map int [0..<i]) \<and> (\<forall>j. map_of (s_slots s) j \<noteq> None \<longrightarrow> 0 \<le> j \<and> j < int i) \<and>
     (\<forall>j<i. entry_in dir s j (fst (ms ! j)) (cs ! j))"

lemma entry_name: "entry_ok src e c \<Longrightarrow> \<not> part_name (slot_name (fst e)) \<and> int64 (fm_Size (fst e))"
  by (auto simp: entry_ok_def int64_def split: prod.splits option.splits)

lemma entry_facts:
  assumes "entries_ok src dir ms cs" "i < length ms"
  shows "entry_ok src (ms ! i) (cs ! i)" "cs ! i = Some d \<Longrightarrow> d \<in> contents cs" "map fst ms ! i = fst (ms ! i)"
    "in_range (map fst ms) (int i)" "int64 (int i)" "names_ok (map fst ms)" "dirs_apart dir (map fst ms)"
proof -
  have l: "length cs = length ms" using assms(1) by (auto simp: entries_ok_def list_all2_lengthD)
  show "entry_ok src (ms ! i) (cs ! i)" using assms by (auto simp: entries_ok_def list_all2_nthD)
  show "d \<in> contents cs" if "cs ! i = Some d" using l assms(2) that by (metis contents_def mem_Collect_eq nth_mem)
  show "map fst ms ! i = fst (ms ! i)" using assms(2) by simp
  show "in_range (map fst ms) (int i)" using assms(2) by (simp add: in_range_def)
  show "int64 (int i)" using assms by (auto simp: entries_ok_def int64_def)
  have "list_all2 (entry_ok src) ms cs" using assms(1) by (simp add: entries_ok_def)
  then show "names_ok (map fst ms)"
    by (induction rule: list_all2_induct) (use entry_name in \<open>fastforce simp: names_ok_def\<close>)+
  show "dirs_apart dir (map fst ms)" using assms(1) by (simp add: entries_ok_def)
qed

lemma dirs_of_entry: "m \<in> set ms \<Longrightarrow> entry_dirs dir m \<subseteq> all_dirs dir ms"
  by (auto simp: all_dirs_def)

lemma dir_entry_path: "m \<in> set ms \<Longrightarrow> fm_IsDir m \<Longrightarrow> validRelPath (fm_RelPath m) \<Longrightarrow> Join dir (fm_RelPath m) \<in> all_dirs dir ms"
  using dirs_for_self by (fastforce simp: all_dirs_def entry_dirs_def)

text \<open>The paths of a slot are not directories of the manifest.\<close>

lemma slot_apart:
  assumes "dirs_apart dir ms" "m \<in> set ms" "\<not> fm_IsDir m" "variant (slot_name m) n" "sl_dest slot = Join dir n" "slot_wf slot"
    "p \<in> all_dirs dir ms"
  shows "p \<notin> insert (sl_dest slot) (slot_paths slot)"
  using assms slot_paths_part [of slot p] by (auto simp: dirs_apart_def)

lemma honest_with_dirs: "honest D fs \<Longrightarrow> \<forall>p\<in>E. \<not> part_name p \<Longrightarrow> honest D (with_dirs E fs)"
proof -
  assume h: "honest D fs" and E: "\<forall>p\<in>E. \<not> part_name p"
  have same: "with_dirs E fs p = fs p" if "part_name p" for p using E that by (auto simp: with_dirs_def)
  have names: "part_name t \<and> part_name (partMetaPath t)" if "suffix partSuffix t" for t
    using that by (auto simp: part_name_def partMetaPath_def suffix_def)
  show ?thesis using h same names unfolding honest_def by metis
qed

lemma honest_placed:
  assumes "honest D fs" "\<And>p. p \<notin> insert (sl_dest slot) (slot_paths slot) \<Longrightarrow> fs' p = fs p"
    "fs' (sl_tmp slot) = None" "fs' (partMetaPath (sl_tmp slot)) = None" "\<not> part_name (sl_dest slot)"
  shows "honest D fs'"
proof -
  have same: "fs' p = fs p" if "part_name p" "fs' p \<noteq> None" for p
  proof (cases "p \<in> insert (sl_dest slot) (slot_paths slot)")
    case True
    then show ?thesis using assms(3-5) that by (auto simp: slot_paths_def)
  qed (rule assms(2))
  have names: "part_name t \<and> part_name (partMetaPath t)" if "suffix partSuffix t" for t
    using that by (auto simp: part_name_def partMetaPath_def suffix_def)
  show ?thesis
    unfolding honest_def
  proof (intro conjI allI impI)
    fix p
    assume "part_name p"
    then show "fs' p \<noteq> Some FDir" using same [of p] assms(1) by (auto simp: honest_def)
  next
    fix t b c d
    assume a: "suffix partSuffix t" "fs' t = Some (FFile b)" "fs' (partMetaPath t) = Some (FFile c)" "d \<in> D"
      "equal_fold (trim_space c) (sha256_hex d)" "length b < length d"
    then have "fs t = Some (FFile b)" "fs (partMetaPath t) = Some (FFile c)"
      using same [of t] same [of "partMetaPath t"] names by auto
    with a assms(1) show "prefix b d" unfolding honest_def by blast
  qed
qed

lemma utf8_sha: "utf8_valid (sha256_hex d)"
  by (simp add: sha256_hex_def utf8_hex)

text \<open>The receiver's two turns for one file: the resume query, then the file.\<close>

lemma query_turn:
  assumes "sendable_header (query_hdr i sha)" "in_range m i" "\<not> fm_IsDir (m ! nat i)" "map_of (s_slots s) i = None"
    "reserveSlot env dir (m ! nat i) (s_fs s) (s_claimed s) = (Inr slot, fs0, cl)"
    "partialBytes env slot (m ! nat i) fs0 = (n, fs1)"
  shows "files_step env dir peer m True (s\<lparr>s_in := frame (query_hdr i sha) [] @ c\<rparr>) =
    Inr (reply (offer_hdr i n) (s\<lparr>s_in := c, s_claimed := cl, s_slots := (i, slot) # s_slots s, s_fs := fs1\<rparr>))"
  using ReadHeader_sent [OF assms(1), of "[]" c] assms(2-6)
  by (simp add: files_step_def on_resume_query_def slotFor_def offer_hdr_def)

lemma file_turn:
  assumes "sendable_header (file_header_hdr i)" "in_range m i" "\<not> fm_IsDir (m ! nat i)" "map_of (s_slots s) i = Some slot"
    "i \<notin> set (s_completed s)" "partialBytes env slot (m ! nat i) (s_fs s) = (n, fs1)"
    "receiveOneFile env (m ! nat i) slot n fs1 c = (Inr path, fs2, r)"
  shows "files_step env dir peer m True (s\<lparr>s_in := frame (file_header_hdr i) [] @ c\<rparr>) =
    Inr (emit (Event0\<lparr>ev_Kind := ''recv-file-done'', ev_Peer := peer, ev_File := Base path, ev_Path := path,
        ev_Index := i, ev_Count := int (length m), ev_BytesDone := fm_Size (m ! nat i), ev_Total := fm_Size (m ! nat i)\<rparr>)
      (reply (ack_ok i) (s\<lparr>s_fs := fs2, s_in := r, s_completed := i # s_completed s, s_saved := s_saved s @ [path]\<rparr>)))"
  using ReadHeader_sent [OF assms(1), of "[]" c] assms(2-7)
  by (simp add: files_step_def on_file_def slotFor_def Let_def)

lemma file_frames_sent:
  assumes "int64 i"
  shows "WriteControl (Header0\<lparr>h_Type := TypeFileHeader, h_FileIndex := i\<rparr>) = (frame (file_header_hdr i) [], None)"
    "WriteControl (Header0\<lparr>h_Type := TypeFileEnd, h_FileIndex := i\<rparr>) = (frame (file_end_hdr i) [], None)"
  using WriteControl_sent [OF sendable_hdrs(1) [OF assms]] WriteControl_sent [OF sendable_hdrs(2) [OF assms]]
  by (simp_all add: file_header_hdr_def file_end_hdr_def Header0_def)

lemma sendOneFile_dir:
  assumes "fm_IsDir m" "int64 i"
  shows "sendOneFile src i path m n = (None, frame (file_header_hdr i) [] @ frame (file_end_hdr i) [])"
  using assms(1) file_frames_sent [OF assms(2)] by (simp add: sendOneFile_def)

lemma sendOneFile_file:
  assumes "entry_ok src (m, path) (Some data)" "int64 i" "0 \<le> n" "n = 0 \<or> n < int (length data)"
    "fst (send_chunks i (fm_Size m) n (drop (nat n) data)) = None"
  shows "sendOneFile src i path m n =
    (None, frame (file_header_hdr i) [] @ snd (send_chunks i (fm_Size m) n (drop (nat n) data)) @ frame (file_end_hdr i) [])"
proof -
  obtain out where "send_chunks i (fm_Size m) n (drop (nat n) data) = (None, out)" using assms(5) by (metis prod.collapse)
  moreover have "(if 0 < n \<and> n < fm_Size m then n else 0) = n" using assms(1,3,4) by (auto simp: entry_ok_def)
  ultimately show ?thesis using assms(1) file_frames_sent [OF assms(2)] by (simp add: sendOneFile_def entry_ok_def)
qed

lemma files_loop_step:
  "files_step env dir peer m resume s = Inr s' \<Longrightarrow>
   files_loop env dir peer m resume s = files_loop env dir peer m resume s'"
  by (subst files_loop.simps) simp

lemma partialBytes_frame: "partialBytes env slot m fs = (n, fs') \<Longrightarrow> p \<notin> slot_paths slot \<Longrightarrow> fs' p = fs p"
proof -
  assume p: "p \<notin> slot_paths slot"
  then have "removePart env (sl_tmp slot) fs p = fs p" by (simp add: slot_paths_def part_frame)
  then show "partialBytes env slot m fs = (n, fs') \<Longrightarrow> fs' p = fs p"
    by (auto simp: partialBytes_def Let_def split: option.splits if_splits)
qed

text \<open>The receiver's two turns for a directory.\<close>

lemma dir_query_turn:
  assumes "sendable_header (query_hdr i sha)" "in_range m i" "fm_IsDir (m ! nat i)"
  shows "files_step env dir peer m True (s\<lparr>s_in := frame (query_hdr i sha) [] @ c\<rparr>) = Inr (reply (offer_hdr i 0) (s\<lparr>s_in := c\<rparr>))"
  using ReadHeader_sent [OF assms(1), of "[]" c] assms(2,3)
  by (simp add: files_step_def on_resume_query_def offer_hdr_def)

lemma dir_turn:
  assumes "int64 i" "in_range m i" "fm_IsDir (m ! nat i)" "i \<notin> set (s_completed s)" "fm_Size (m ! nat i) = 0"
    "fm_SHA256 (m ! nat i) = []" "createDirectory env dir (fm_RelPath (m ! nat i)) (s_fs s) = (None, fs')"
  shows "files_step env dir peer m True (s\<lparr>s_in := frame (file_header_hdr i) [] @ frame (file_end_hdr i) [] @ c\<rparr>) =
    Inr (reply (ack_ok i) (s\<lparr>s_in := c, s_fs := fs', s_completed := i # s_completed s,
      s_saved := s_saved s @ [fm_RelPath (m ! nat i)]\<rparr>))"
  using ReadHeader_sent [OF sendable_hdrs(1) [OF assms(1)], of "[]" "frame (file_end_hdr i) [] @ c"]
    ReadHeader_sent [OF sendable_hdrs(2) [OF assms(1)], of "[]" c] assms(2-7)
  by (simp add: files_step_def on_directory_def)

text \<open>One entry done.\<close>

lemma entry_in_kept:
  assumes "entry_in dir s j m c" "c = None \<Longrightarrow> s_fs s (Join dir (fm_RelPath m)) = Some FDir \<Longrightarrow> s_fs s' (Join dir (fm_RelPath m)) = Some FDir"
    "\<And>slot d. c = Some d \<Longrightarrow> map_of (s_slots s) (int j) = Some slot \<Longrightarrow> s_fs s (sl_dest slot) = Some (FFile d) \<Longrightarrow>
       map_of (s_slots s') (int j) = Some slot \<and> s_fs s' (sl_dest slot) = Some (FFile d)"
  shows "entry_in dir s' j m c"
  using assms by (fastforce simp: entry_in_def split: option.splits)

lemma before_entry: "before ms cs dir fs0 i s \<Longrightarrow> j < i \<Longrightarrow> entry_in dir s j (fst (ms ! j)) (cs ! j)"
  by (simp add: before_def)

lemma before_next:
  assumes "before ms cs dir fs0 i s" "session_inv fs0 dir (map fst ms) s'" "finite (dom (s_fs s'))"
    "honest (contents cs) (s_fs s')" "clear_for (all_dirs dir (map fst ms)) (s_fs s')" "s_completed s' = int i # s_completed s"
    "\<And>j. map_of (s_slots s') j \<noteq> None \<Longrightarrow> j = int i \<or> map_of (s_slots s) j \<noteq> None"
    "\<And>j. j < i \<Longrightarrow> entry_in dir s' j (fst (ms ! j)) (cs ! j)" "entry_in dir s' i (fst (ms ! i)) (cs ! i)"
  shows "before ms cs dir fs0 (Suc i) s'"
  unfolding before_def
proof (intro conjI allI impI)
  fix j
  assume "j < Suc i"
  then show "entry_in dir s' j (fst (ms ! j)) (cs ! j)" using assms(8,9) by (cases "j = i") auto
next
  fix j
  assume "map_of (s_slots s') j \<noteq> None"
  then have "j = int i \<or> map_of (s_slots s) j \<noteq> None" by (rule assms(7))
  then show "0 \<le> j" "j < int (Suc i)" using assms(1) unfolding before_def by fastforce+
qed (use assms in \<open>simp_all add: before_def\<close>)

lemma one_dir:
  assumes good: "env_good env" and ok: "entries_ok src dir ms cs" and i: "i < length ms"
    and before: "before ms cs dir fs0 i s" and c: "cs ! i = None"
  obtains n out s' where
    "sendOneFile src (int i) (snd (ms ! i)) (fst (ms ! i)) n = (None, out)" "int64 n"
    "\<And>tail. files_loop env dir peer (map fst ms) True
        (s\<lparr>s_in := frame (query_hdr (int i) (fm_SHA256 (fst (ms ! i)))) [] @ out @ tail\<rparr>) =
      files_loop env dir peer (map fst ms) True (s'\<lparr>s_in := tail\<rparr>)"
    "s_out s' = s_out s @ frame (offer_hdr (int i) n) [] @ frame (ack_ok (int i)) []" "before ms cs dir fs0 (Suc i) s'"
proof -
  obtain m path where mp: "ms ! i = (m, path)" by force
  let ?M = "map fst ms" and ?i = "int i"
  note facts = entry_facts [OF ok i]
  have m: "?M ! nat ?i = m" "fm_IsDir m" "validRelPath (fm_RelPath m)" "fm_Size m = 0" "fm_SHA256 m = []"
    using facts(1,3) mp c by (auto simp: entry_ok_def)
  have mem: "m \<in> set ?M" using i mp by (metis fst_conv image_set imageI nth_mem)
  have inv: "session_inv fs0 dir ?M s" and fin: "finite (dom (s_fs s))" and hon: "honest (contents cs) (s_fs s)"
    and clear: "clear_for (all_dirs dir ?M) (s_fs s)" and ncomp: "?i \<notin> set (s_completed s)"
    using before by (auto simp: before_def)
  let ?D = "entry_dirs dir m"
  let ?fs = "with_dirs ?D (s_fs s)"
  let ?s = "reply (ack_ok ?i) (reply (offer_hdr ?i 0) (s\<lparr>s_fs := ?fs, s_completed := ?i # s_completed s, s_saved := s_saved s @ [fm_RelPath m]\<rparr>))"
  have D: "?D \<subseteq> all_dirs dir ?M" by (rule dirs_of_entry [OF mem])
  have "clear_for (dirs_for dir (fm_RelPath m)) (s_fs s)" using clear D m(2) by (auto simp: clear_for_def entry_dirs_def)
  from createDirectory_ok [OF _ _ m(3) this] have mk: "createDirectory env dir (fm_RelPath m) (s_fs s) = (None, ?fs)"
    using env_goodD(6,7) [OF good] m(2) by (simp add: entry_dirs_def)
  have q: "sendable_header (query_hdr ?i (fm_SHA256 m))" using sendable_hdrs(3) [OF facts(5), of "[]"] m(5) by (simp add: utf8_valid_ascii)
  have step1: "files_step env dir peer ?M True (s\<lparr>s_in := frame (query_hdr ?i (fm_SHA256 m)) [] @ c\<rparr>) =
      Inr ((reply (offer_hdr ?i 0) s)\<lparr>s_in := c\<rparr>)" for c
    using dir_query_turn [OF q facts(4), where env = env and dir = dir and peer = peer and s = s and c = c] m(1,2) by (simp add: reply_def)
  have step2: "files_step env dir peer ?M True
      ((reply (offer_hdr ?i 0) s)\<lparr>s_in := frame (file_header_hdr ?i) [] @ frame (file_end_hdr ?i) [] @ c\<rparr>) = Inr (?s\<lparr>s_in := c\<rparr>)" for c
    using dir_turn [OF facts(5,4), where s = "reply (offer_hdr ?i 0) s" and env = env and dir = dir and fs' = ?fs and peer = peer and c = c] m(1,2,4,5) ncomp mk by (simp add: reply_def)
  have "session_inv fs0 dir ?M (?s\<lparr>s_in := []\<rparr>)"
    using files_step_inv(1) [OF _ step2] files_step_inv(1) [OF _ step1] inv by simp
  then have inv': "session_inv fs0 dir ?M ?s" by simp
  have fs': "s_fs ?s = ?fs" and slots': "s_slots ?s = s_slots s" by (simp_all add: reply_def)
  have next': "before ms cs dir fs0 (Suc i) ?s"
  proof (rule before_next [OF before inv'])
    show "entry_in dir ?s j (fst (ms ! j)) (cs ! j)" if "j < i" for j
      by (rule entry_in_kept [OF before_entry [OF before that]]) (simp_all only: fs' slots' with_dirs_simps)
    have "Join dir (fm_RelPath m) \<in> ?D" using dirs_for_self [OF m(3)] m(2) by (simp add: entry_dirs_def)
    then show "entry_in dir ?s i (fst (ms ! i)) (cs ! i)"
      using with_dirs_made [of ?D "s_fs s"] clear D c mp by (auto simp: entry_in_def fs' clear_for_def)
    show "honest (contents cs) (s_fs ?s)" unfolding fs'
      using facts(7) D by (intro honest_with_dirs [OF hon]) (auto simp: dirs_apart_def)
  qed (use fin clear in \<open>simp_all add: fs' slots' finite_with_dirs clear_with_dirs reply_def\<close>)
  have w: "WriteControl (offer_hdr ?i 0) = (frame (offer_hdr ?i 0) [], None)" "WriteControl (ack_ok ?i) = (frame (ack_ok ?i) [], None)"
    using WriteControl_sent [OF sendable_hdrs(4) [OF facts(5)]] WriteControl_sent [OF sendable_hdrs(7) [OF facts(5)]]
    by (simp_all add: int64_def)
  show thesis
    by (rule that [OF _ _ _ _ next', of 0 "frame (file_header_hdr ?i) [] @ frame (file_end_hdr ?i) []"])
      (use step1 step2 files_loop_step mp m(2) sendOneFile_dir facts(5) w in \<open>auto simp: reply_def int64_def\<close>)
qed

lemma one_file:
  assumes good: "env_good env" and ok: "entries_ok src dir ms cs" and i: "i < length ms"
    and before: "before ms cs dir fs0 i s" and c: "cs ! i = Some data"
  obtains n out s' where
    "sendOneFile src (int i) (snd (ms ! i)) (fst (ms ! i)) n = (None, out)" "int64 n"
    "\<And>tail. files_loop env dir peer (map fst ms) True
        (s\<lparr>s_in := frame (query_hdr (int i) (fm_SHA256 (fst (ms ! i)))) [] @ out @ tail\<rparr>) =
      files_loop env dir peer (map fst ms) True (s'\<lparr>s_in := tail\<rparr>)"
    "s_out s' = s_out s @ frame (offer_hdr (int i) n) [] @ frame (ack_ok (int i)) []" "before ms cs dir fs0 (Suc i) s'"
proof -
  obtain m path where mp: "ms ! i = (m, path)" by force
  let ?M = "map fst ms" and ?i = "int i"
  note facts = entry_facts [OF ok i]
  have e: "entry_ok src (m, path) (Some data)" using facts(1) mp c by simp
  have m: "?M ! nat ?i = m" "\<not> fm_IsDir (?M ! nat ?i)" "fm_RelPath m = [] \<or> validRelPath (fm_RelPath m)" "fm_Size m = int (length data)"
      "fm_SHA256 m = sha256_hex data" "int64 (int (length data))"
    using e facts(3) mp by (auto simp: entry_ok_def)
  have mem: "m \<in> set ?M" using i mp by (metis fst_conv image_set imageI nth_mem)
  have inv: "session_inv fs0 dir ?M s" and fin: "finite (dom (s_fs s))" and hon: "honest (contents cs) (s_fs s)"
    and clear: "clear_for (all_dirs dir ?M) (s_fs s)" and new: "map_of (s_slots s) ?i = None" and ncomp: "?i \<notin> set (s_completed s)"
    using before by (auto simp: before_def)
  let ?D = "entry_dirs dir m"
  let ?fsD = "with_dirs ?D (s_fs s)"
  have D: "?D \<subseteq> all_dirs dir ?M" by (rule dirs_of_entry [OF mem])
  have "clear_for ?D (s_fs s)" using clear D by (auto simp: clear_for_def)
  from reserve_entry [OF env_goodD(7) [OF good] env_goodD(6) [OF good] _ m(3) fin this, of "s_claimed s"] m(1,2) obtain slot where
    r: "reserveSlot env dir m (s_fs s) (s_claimed s) = (Inr slot, ?fsD, List.insert (sl_tmp slot) (s_claimed s))" by metis
  from r obtain v where v: "sl_dest slot = Join dir v" "variant (slot_name m) v" and wf: "slot_wf slot" and free: "s_fs s (sl_dest slot) = None"
    by (rule reserveSlot_ok)
  let ?P = "insert (sl_dest slot) (slot_paths slot)"
  have apart: "p \<notin> ?P" if "p \<in> all_dirs dir ?M" for p
    by (rule slot_apart [OF facts(7) mem _ v(2,1) wf that]) (use m(1,2) in simp)
  have honD: "honest (contents cs) ?fsD" using facts(7) D by (intro honest_with_dirs [OF hon]) (auto simp: dirs_apart_def)
  obtain n fs1 where p: "partialBytes env slot m ?fsD = (n, fs1)" by force
  note part = partial_resumable [OF good honD facts(2) [OF c] wf m(4,5) p]
  have "sl_dest slot \<notin> ?D" using apart [of "sl_dest slot"] D by auto
  then have free1: "fs1 (sl_dest slot) \<noteq> Some FDir"
    using free p wf by (auto simp: partialBytes_def Let_def part_frame split: option.splits if_splits)
  have n: "0 \<le> n" "n = 0 \<or> n < int (length data)" "int64 n"
    using part(1) m(6) by (auto simp: resumable_def int64_def)
  let ?ch = "send_chunks ?i (fm_Size m) n (drop (nat n) data)"
  obtain fs2 where rec: "\<And>c. receiveOneFile env m slot n fs1 (snd ?ch @ frame (file_end_hdr ?i) [] @ c) = (Inr (sl_dest slot), fs2, c)"
      and ch: "fst ?ch = None" and fs2: "fs2 (sl_dest slot) = Some (FFile data)" "fs2 (sl_tmp slot) = None"
        "fs2 (partMetaPath (sl_tmp slot)) = None"
    using receiveOneFile_complete [OF facts(5) good wf free1 part(1) m(4-6)] by metis
  have frame: "fs2 p = ?fsD p" if "p \<notin> ?P" for p
    using that receiveOneFile_frame [OF _ rec, of p] partialBytes_frame [OF p, of p] by simp
  let ?cl = "List.insert (sl_tmp slot) (s_claimed s)"
  let ?s1 = "reply (offer_hdr ?i n) (s\<lparr>s_claimed := ?cl, s_slots := (?i, slot) # s_slots s, s_fs := fs1\<rparr>)"
  let ?s = "emit (Event0\<lparr>ev_Kind := ''recv-file-done'', ev_Peer := peer, ev_File := Base (sl_dest slot),
          ev_Path := sl_dest slot, ev_Index := ?i, ev_Count := int (length ms), ev_BytesDone := fm_Size m, ev_Total := fm_Size m\<rparr>)
        (reply (ack_ok ?i) (?s1\<lparr>s_fs := fs2, s_completed := ?i # s_completed s, s_saved := s_saved s @ [sl_dest slot]\<rparr>))"
  have sha: "utf8_valid (fm_SHA256 m)" "length (fm_SHA256 m) \<le> 90000" using m(5) utf8_sha by simp_all
  note query = sendable_hdrs(3) [OF facts(5) sha] and fh = sendable_hdrs(1) [OF facts(5)]
  have step1: "files_step env dir peer ?M True (s\<lparr>s_in := frame (query_hdr ?i (fm_SHA256 m)) [] @ c\<rparr>) = Inr (?s1\<lparr>s_in := c\<rparr>)" for c
    using query_turn [OF query facts(4) m(2) new, of env dir slot ?fsD _ n fs1 peer c] r p m(1)
    by (simp add: reply_def)
  have step2: "files_step env dir peer ?M True (?s1\<lparr>s_in := frame (file_header_hdr ?i) [] @ snd ?ch @ frame (file_end_hdr ?i) [] @ c\<rparr>) =
      Inr (?s\<lparr>s_in := c\<rparr>)" for c
    using file_turn [OF fh facts(4) m(2), of ?s1 slot env n fs1 _ "sl_dest slot" fs2 c dir peer] rec [of c] part(3) ncomp m(1)
    by (simp add: reply_def emit_def)
  have "session_inv fs0 dir ?M (?s\<lparr>s_in := []\<rparr>)"
    using files_step_inv(1) [OF _ step2] files_step_inv(1) [OF _ step1] inv by simp
  then have inv': "session_inv fs0 dir ?M ?s" by simp
  have fs': "s_fs ?s = fs2" and slots': "s_slots ?s = (?i, slot) # s_slots s" by (simp_all add: reply_def emit_def)
  have slot: "map_of (s_slots ?s) ?i = Some slot" by (simp only: slots' map_of.simps fst_conv snd_conv fun_upd_same)
  have next': "before ms cs dir fs0 (Suc i) ?s"
  proof (rule before_next [OF before inv'])
    show "entry_in dir ?s j (fst (ms ! j)) (cs ! j)" if "j < i" for j
      using before_entry [OF before that]
    proof (rule entry_in_kept)
      have j: "j < length ms" using that i by simp
      assume "cs ! j = None" and there: "s_fs s (Join dir (fm_RelPath (fst (ms ! j)))) = Some FDir"
      then have "fm_IsDir (fst (ms ! j))" "validRelPath (fm_RelPath (fst (ms ! j)))"
        using entry_facts(1) [OF ok j] by (auto simp: entry_ok_def split: prod.splits)
      then have "Join dir (fm_RelPath (fst (ms ! j))) \<in> all_dirs dir ?M" by (intro dir_entry_path) (use j in simp_all)
      then show "s_fs ?s (Join dir (fm_RelPath (fst (ms ! j)))) = Some FDir"
        unfolding fs' using frame apart there by simp
    next
      fix a d
      assume a: "map_of (s_slots s) (int j) = Some a" "s_fs s (sl_dest a) = Some (FFile d)"
      then have a': "map_of (s_slots ?s) (int j) = Some a" unfolding slots' using that by simp
      have "sl_dest a \<noteq> sl_dest slot" using slot_dests_differ [OF inv' a' slot] that by simp
      moreover have "sl_dest a \<notin> slot_paths slot"
        using slot_dest_ok [OF inv' facts(6) a'] wf slot_paths_part by blast
      ultimately show "map_of (s_slots ?s) (int j) = Some a \<and> s_fs ?s (sl_dest a) = Some (FFile d)"
        using a a' frame [of "sl_dest a"] unfolding fs' by simp
    qed
    show "entry_in dir ?s i (fst (ms ! i)) (cs ! i)" using slot fs2(1) fs' c by (simp add: entry_in_def)
    have "\<not> part_name (sl_dest slot)" by (rule slot_dest_ok(1) [OF inv' facts(6) slot])
    then show "honest (contents cs) (s_fs ?s)" unfolding fs' using honest_placed [OF honD, of slot fs2] frame fs2(2,3) by blast
    from frame have "dom fs2 \<subseteq> dom ?fsD \<union> ?P" by (auto simp: dom_def)
    then show "finite (dom (s_fs ?s))" unfolding fs' by (rule finite_subset) (simp add: slot_paths_def fin finite_with_dirs)
    show "clear_for (all_dirs dir ?M) (s_fs ?s)"
      using clear_with_dirs [OF clear, of ?D] frame apart unfolding fs' clear_for_def by metis
    show "j = ?i \<or> map_of (s_slots s) j \<noteq> None" if "map_of (s_slots ?s) j \<noteq> None" for j
      using that unfolding slots' by (simp split: if_splits)
  qed (simp add: reply_def emit_def)
  have w: "WriteControl (offer_hdr ?i n) = (frame (offer_hdr ?i n) [], None)" "WriteControl (ack_ok ?i) = (frame (ack_ok ?i) [], None)"
    using WriteControl_sent [OF sendable_hdrs(4) [OF facts(5) n(3)]] WriteControl_sent [OF sendable_hdrs(7) [OF facts(5)]] by simp_all
  show thesis
  proof (rule that [OF _ n(3) _ _ next'])
    show "sendOneFile src ?i (snd (ms ! i)) (fst (ms ! i)) n = (None, frame (file_header_hdr ?i) [] @ snd ?ch @ frame (file_end_hdr ?i) [])"
      using sendOneFile_file [OF e facts(5) n(1,2) ch] mp by simp
  qed (use step1 step2 files_loop_step mp w in \<open>auto simp: reply_def emit_def\<close>)
qed

lemma send_entry:
  assumes "int64 (int i)" "int64 n" "entry_ok src (m, path) c" "sendOneFile src (int i) path m n = (None, out)"
    "send_entries src (int i + 1) rest R = (err, out', R')"
  shows "send_entries src (int i) ((m, path) # rest) (frame (offer_hdr (int i) n) [] @ frame (ack_ok (int i)) [] @ R) =
    (err, frame (query_hdr (int i) (fm_SHA256 m)) [] @ out @ out', R')"
proof -
  have sha: "utf8_valid (fm_SHA256 m)" "length (fm_SHA256 m) \<le> 90000"
    using assms(3) utf8_sha by (auto simp: entry_ok_def utf8_valid_ascii split: option.splits)
  have "WriteControl (Header0\<lparr>h_Type := TypeResumeQuery, h_FileIndex := int i, h_SHA256 := fm_SHA256 m\<rparr>) =
      (frame (query_hdr (int i) (fm_SHA256 m)) [], None)"
    using WriteControl_sent [OF sendable_hdrs(3) [OF assms(1) sha]] by (simp add: query_hdr_def Header0_def)
  moreover have "ReadHeader (frame (offer_hdr (int i) n) [] @ c) = (Inr (offer_hdr (int i) n), c)"
      "ReadHeader (frame (ack_ok (int i)) [] @ c) = (Inr (ack_ok (int i)), c)" for c
    using ReadHeader_sent [OF sendable_hdrs(4) [OF assms(1,2)], of "[]" c]
      ReadHeader_sent [OF sendable_hdrs(7) [OF assms(1)], of "[]" c] by simp_all
  ultimately show ?thesis using assms(4,5) by simp
qed

lemma transfer_entries:
  assumes "env_good env" "entries_ok src dir ms cs" "before ms cs dir fs0 i s" "i \<le> length ms"
  obtains r out s' where "\<And>R. send_entries src (int i) (drop i ms) (r @ R) = (None, out, R)"
    "\<And>tail. files_loop env dir peer (map fst ms) True (s\<lparr>s_in := out @ tail\<rparr>) =
       files_loop env dir peer (map fst ms) True (s'\<lparr>s_in := tail\<rparr>)"
    "s_out s' = s_out s @ r" "before ms cs dir fs0 (length ms) s'"
  using assms(3,4)
proof (induction "length ms - i" arbitrary: i s thesis)
  case 0
  then show ?case by (intro "0.prems"(1) [where s' = s and out = "[]" and r = "[]"]) auto
next
  case (Suc k)
  then have i: "i < length ms" by simp
  obtain n out s1 where e: "sendOneFile src (int i) (snd (ms ! i)) (fst (ms ! i)) n = (None, out)" "int64 n"
    "\<And>tail. files_loop env dir peer (map fst ms) True
        (s\<lparr>s_in := frame (query_hdr (int i) (fm_SHA256 (fst (ms ! i)))) [] @ out @ tail\<rparr>) =
      files_loop env dir peer (map fst ms) True (s1\<lparr>s_in := tail\<rparr>)"
    "s_out s1 = s_out s @ frame (offer_hdr (int i) n) [] @ frame (ack_ok (int i)) []" "before ms cs dir fs0 (Suc i) s1"
    by (cases "cs ! i")
      (metis (no_types) one_dir [OF assms(1,2) i Suc.prems(2), where peer = peer],
       metis (no_types) one_file [OF assms(1,2) i Suc.prems(2), where peer = peer])
  from Suc.hyps(2) have "k = length ms - Suc i" by simp
  from Suc.hyps(1) [OF this _ e(5)] i obtain r out' s' where IH:
    "\<And>R. send_entries src (int i + 1) (drop (Suc i) ms) (r @ R) = (None, out', R)"
    "\<And>tail. files_loop env dir peer (map fst ms) True (s1\<lparr>s_in := out' @ tail\<rparr>) =
       files_loop env dir peer (map fst ms) True (s'\<lparr>s_in := tail\<rparr>)"
    "s_out s' = s_out s1 @ r" "before ms cs dir fs0 (length ms) s'"
    by (auto simp: add.commute)
  have mp: "drop i ms = (fst (ms ! i), snd (ms ! i)) # drop (Suc i) ms" using i by (simp add: Cons_nth_drop_Suc)
  have ok: "entry_ok src (fst (ms ! i), snd (ms ! i)) (cs ! i)" using entry_facts(1) [OF assms(2) i] by simp
  show ?case
  proof (rule Suc.prems(1))
    show "send_entries src (int i) (drop i ms) ((frame (offer_hdr (int i) n) [] @ frame (ack_ok (int i)) [] @ r) @ R) =
        (None, frame (query_hdr (int i) (fm_SHA256 (fst (ms ! i)))) [] @ out @ out', R)" for R
      using send_entry [OF entry_facts(5) [OF assms(2) i] e(2) ok e(1) IH(1) [of R]] unfolding mp by simp
  qed (use e(3,4) IH in simp_all)
qed

lemma before_start:
  assumes "finite (dom (s_fs s))" "honest (contents cs) (s_fs s)" "clear_for (all_dirs dir (map fst ms)) (s_fs s)"
  shows "before ms cs dir (s_fs s) 0 (emit ev (fresh_session s))"
  using assms session_inv_fresh [of s] by (simp add: before_def emit_def fresh_session_def session_inv_def)

text \<open>
  What became of an entry: a directory is there; a file is there, byte for byte, under its name or a
  numbered variant, at a path that was free before.
\<close>

definition arrived :: "string \<Rightarrow> fs \<Rightarrow> fs \<Rightarrow> file_meta \<Rightarrow> bytes option \<Rightarrow> bool" where
  "arrived dir fs fs' m c \<longleftrightarrow> (case c of
     None \<Rightarrow> fs' (Join dir (fm_RelPath m)) = Some FDir
   | Some data \<Rightarrow> \<exists>n. variant (slot_name m) n \<and> plain_rel n \<and> fs (Join dir n) = None \<and> fs' (Join dir n) = Some (FFile data))"

lemma before_arrived:
  assumes "before ms cs dir fs0 k s" "names_ok (map fst ms)" "j < k" "j < length ms"
  shows "arrived dir fs0 (s_fs s) (fst (ms ! j)) (cs ! j)"
proof (cases "cs ! j")
  case None
  then show ?thesis using before_entry [OF assms(1,3)] by (simp add: arrived_def entry_in_def)
next
  case (Some data)
  with before_entry [OF assms(1,3)] obtain a where a: "map_of (s_slots s) (int j) = Some a" "s_fs s (sl_dest a) = Some (FFile data)"
    by (auto simp: entry_in_def)
  have inv: "session_inv fs0 dir (map fst ms) s" using assms(1) by (simp add: before_def)
  have "slot_ok fs0 dir (map fst ms) (s_claimed s) (int j, a)"
    by (rule session_inv_slot [OF inv]) (rule map_of_SomeD [OF a(1)])
  with slot_dest_ok(1) [OF inv assms(2) a(1)] a(2) assms(4) Some show ?thesis by (auto simp: slot_ok_def arrived_def)
qed

text \<open>The receiver's part of a session on what the sender writes after its first header.\<close>

lemma files_run:
  assumes "env_good env" "entries_ok src dir ms cs" "ms \<noteq> []" "finite (dom (s_fs s))" "honest (contents cs) (s_fs s)"
    "clear_for (all_dirs dir (map fst ms)) (s_fs s)"
  obtains r out s' where
    "\<And>R. send_entries src 0 ms (r @ R) = (None, out, R)"
    "receiveFilesWithProgress env dir peer (map fst ms) True (s\<lparr>s_in := out @ frame (Header0\<lparr>h_Type := TypeSessionEnd\<rparr>) []\<rparr>) = (None, s')"
    "s_out s' = s_out s @ r @ frame (Header0\<lparr>h_Type := TypeAck, h_OK := True\<rparr>) []"
    "\<forall>j<length ms. arrived dir (s_fs s) (s_fs s') (fst (ms ! j)) (cs ! j)"
proof -
  let ?M = "map fst ms" and ?se = "Header0\<lparr>h_Type := TypeSessionEnd\<rparr>" and ?ok = "Header0\<lparr>h_Type := TypeAck, h_OK := True\<rparr>"
  let ?ev = "Event0\<lparr>ev_Kind := ''recv-start'', ev_Peer := peer, ev_Count := int (length ?M)\<rparr>"
  let ?s0 = "emit ?ev (fresh_session s)"
  have names: "names_ok ?M" using entry_facts(6) [OF assms(2), of 0] assms(3) by simp
  obtain r out s1 where t0:
    "\<And>R. send_entries src (int 0) (drop 0 ms) (r @ R) = (None, out, R)"
    "\<And>tail. files_loop env dir peer ?M True (?s0\<lparr>s_in := out @ tail\<rparr>) = files_loop env dir peer ?M True (s1\<lparr>s_in := tail\<rparr>)"
    "s_out s1 = s_out ?s0 @ r" "before ms cs dir (s_fs s) (length ms) s1"
    by (rule transfer_entries [OF assms(1,2) before_start [OF assms(4-6), where ev = ?ev],
          where peer = peer]) (use zero_le in blast)+
  note t = t0(1) [unfolded of_nat_0 drop0] t0(2-4)
  have w: "WriteControl ?ok = (frame ?ok [], None)"
    using WriteControl_sent [OF sendable_hdrs(9)] by (simp add: Header0_def)
  have rd: "ReadHeader (frame ?se []) = (Inr ?se, [])" using ReadHeader_sent [OF sendable_hdrs(8), of "[]" "[]"] by simp
  have "length (remdups (s_completed s1)) = length ?M"
    using t(4) by (simp add: before_def distinct_map distinct_remdups_id)
  then have last: "files_loop env dir peer ?M True (s1\<lparr>s_in := frame ?se []\<rparr>) = (None, s1\<lparr>s_in := []\<rparr>)"
    using rd by (subst files_loop.simps) (simp add: files_step_def Header0_def)
  have fresh: "emit ?ev ((s\<lparr>s_in := out @ frame ?se []\<rparr>)\<lparr>s_slots := [], s_completed := [], s_saved := []\<rparr>) =
      ?s0\<lparr>s_in := out @ frame ?se []\<rparr>" by (simp add: emit_def fresh_session_def)
  obtain s' where s': "receiveFilesWithProgress env dir peer ?M True (s\<lparr>s_in := out @ frame ?se []\<rparr>) = (None, s')"
      "s_out s' = s_out s1 @ frame ?ok []" "s_fs s' = s_fs s1"
    using t(2) [of "frame ?se []"] last w assms(3) fresh
    by (simp add: receiveFilesWithProgress_def release_all_def Let_def) (simp add: emit_def reply_def)
  have "\<forall>j<length ms. arrived dir (s_fs s) (s_fs s') (fst (ms ! j)) (cs ! j)"
    using before_arrived [OF t(4) names] s'(3) by metis
  with t(1,3) s' show thesis by (intro that [of r out s']) (simp_all add: emit_def fresh_session_def)
qed

text \<open>
  A transfer works end to end: for any manifest of regular files and folders that fits a header, and a
  receiver whose disk accepts writes, the two programs agree on a run. There are reply bytes for which the
  sender finishes without error, and the receiver, reading what the sender wrote, finishes without error,
  writes exactly those replies and has every entry in its download directory. Partial files of earlier
  attempts may be there: each file is then continued from the offset the receiver offers, provided a
  partial file whose sidecar names the file is a beginning of it. No file may be where a folder goes.
\<close>

lemma files_transfer:
  assumes "env_good env" "entries_ok src dir ms cs" "ms \<noteq> []" "sendable_header (session_start_hdr (map fst ms))"
    "finite (dom (s_fs s))" "honest (contents cs) (s_fs s)" "clear_for (all_dirs dir (map fst ms)) (s_fs s)"
  shows "\<exists>replies out rv. send_session src ms replies = (None, out, []) \<and>
    receiveSession env clip_set dir peer (s\<lparr>s_in := out\<rparr>) = (None, rv) \<and>
    s_out (rv_session rv) = s_out s @ replies \<and> rv_clip rv = None \<and>
    (\<forall>j<length ms. arrived dir (s_fs s) (s_fs (rv_session rv)) (fst (ms ! j)) (cs ! j))"
proof -
  let ?M = "map fst ms" and ?st = "session_start_hdr (map fst ms)" and ?se = "Header0\<lparr>h_Type := TypeSessionEnd\<rparr>"
  let ?ok = "Header0\<lparr>h_Type := TypeAck, h_OK := True\<rparr>"
  have st: "h_Type ?st = TypeSessionStart" "h_Kind ?st = KindFiles" "h_Files ?st = ?M" "h_Resume ?st" "h_Length ?st = 0"
    by (simp_all add: session_start_hdr_def Header0_def)
  obtain r out s' where t: "\<And>R. send_entries src 0 ms (r @ R) = (None, out, R)"
    "receiveFilesWithProgress env dir peer ?M True (s\<lparr>s_in := out @ frame ?se []\<rparr>) = (None, s')"
    "s_out s' = s_out s @ r @ frame ?ok []"
    "\<forall>j<length ms. arrived dir (s_fs s) (s_fs s') (fst (ms ! j)) (cs ! j)"
    by (rule files_run [OF assms(1-3,5-7), where peer = peer]) blast
  have w: "WriteControl ?st = (frame ?st [], None)" "WriteControl ?se = (frame ?se [], None)"
    using WriteControl_sent [OF assms(4)] WriteControl_sent [OF sendable_hdrs(8)] st(5) by (simp_all add: Header0_def)
  have rd: "ReadHeader (frame ?st [] @ c) = (Inr ?st, c)" "ReadHeader (frame ?ok []) = (Inr ?ok, [])" for c
    using ReadHeader_sent [OF assms(4), of "[]" c] ReadHeader_sent [OF sendable_hdrs(9), of "[]" "[]"] by simp_all
  have "send_session src ms (r @ frame ?ok []) = (None, frame ?st [] @ out @ frame ?se [], [])"
    using t(1) [of "frame ?ok []"] w rd(2) by (simp add: send_session_def Header0_def)
  moreover have "receiveSession env clip_set dir peer (s\<lparr>s_in := frame ?st [] @ out @ frame ?se []\<rparr>) =
      (None, \<lparr>rv_session = s', rv_clip = None\<rparr>)"
    using rd(1) st t(2) by (simp add: receiveSession_def)
  ultimately show ?thesis using t(3,4)
    by (intro exI [of _ "r @ frame ?ok []"] exI [of _ "frame ?st [] @ out @ frame ?se []"]
        exI [of _ "\<lparr>rv_session = s', rv_clip = None\<rparr>"]) simp
qed

text \<open>A manifest of moderate size fits a header.\<close>

definition meta_size :: "file_meta \<Rightarrow> nat" where
  "meta_size m = length (fm_Name m) + length (fm_SHA256 m) + length (fm_RelPath m) + 50"

lemma file_meta_size:
  assumes "int64 (fm_Size m)"
  shows "length (json_print (file_meta_json m)) \<le> 6 * meta_size m"
  using length_json_obj [of "case file_meta_json m of JObj ms \<Rightarrow> ms | _ \<Rightarrow> []"] length_json_quote [of "fm_Name m"]
    length_json_quote [of "fm_SHA256 m"] length_show_int [OF assms] members_size_opts(1) [of "''rel_path''" "fm_RelPath m"]
    members_size_opts(2) [of "''is_dir''" "fm_IsDir m"]
  by (simp add: file_meta_json_def members_size_simps meta_size_def del: json_print.simps(6))

lemma manifest_fits:
  assumes "list_all file_meta_ok ms" "sum_list (map meta_size ms) \<le> 100000"
  shows "sendable_header (session_start_hdr ms)"
proof -
  have "length (go_join '','' (map (json_print \<circ> file_meta_json) ms)) \<le> 7 * sum_list (map meta_size ms)"
    using assms(1)
  proof (induction ms)
    case (Cons m ms)
    then have "length (json_print (file_meta_json m)) \<le> 6 * meta_size m" by (simp add: file_meta_size file_meta_ok_def)
    moreover have "1 \<le> meta_size m" by (simp add: meta_size_def)
    ultimately show ?case using Cons by (cases ms) simp_all
  qed simp
  then have "members_size (opt_files ''files'' ms) \<le> 700100"
    using assms(2) by (simp add: opt_files_def members_size_simps)
  moreover have "header_ok (session_start_hdr ms)" "h_Files (session_start_hdr ms) = ms" "strings_size (session_start_hdr ms) \<le> 100"
    using assms(1) by (simp_all add: header_ok_def session_start_hdr_def Header0_def int64_def utf8_valid_ascii strings_size_def go_simps)
  ultimately show ?thesis
    using marshal_size [of "session_start_hdr ms"] by (simp add: sendable_header_def header_ok_def MaxHeaderSize_def)
qed

definition demo_entry :: "file_meta \<times> string" where
  "demo_entry = (FileMeta0\<lparr>fm_Name := ''a.txt'', fm_Size := 3, fm_SHA256 := sha256_hex ''abc''\<rparr>, ''/home/a.txt'')"

definition demo_session :: session where
  "demo_session = \<lparr>s_fs = [''/dl'' \<mapsto> FDir], s_claimed = [], s_slots = [], s_completed = [], s_saved = [],
     s_in = [], s_out = [], s_events = []\<rparr>"

lemma demo_flat: "dirs_apart dir (map fst [demo_entry])" "clear_for (all_dirs dir (map fst [demo_entry])) fs"
  by (simp_all add: dirs_apart_def all_dirs_def entry_dirs_def FileMeta0_def demo_entry_def clear_for_def)

lemma demo_ok:
  "entries_ok [''/home/a.txt'' \<mapsto> ''abc''] dir [demo_entry] [Some ''abc'']" "finite (dom (s_fs demo_session))"
  "honest (contents [Some ''abc'']) (s_fs demo_session)"
proof -
  have name: "sanitizeName ''a.txt'' = ''a.txt''" by code_simp
  have part: "\<not> part_name ''a.txt''" "\<not> part_name ''/dl''"
    by (simp_all add: part_name_def partSuffix_def partMetaPath_def suffix_def append_eq_Cons_conv)
  show "entries_ok [''/home/a.txt'' \<mapsto> ''abc''] dir [demo_entry] [Some ''abc'']"
    using part(1) name by (simp add: entries_ok_def demo_flat del: list.map) (simp add: entry_ok_def demo_entry_def FileMeta0_def slot_name_def int64_def)
  show "finite (dom (s_fs demo_session))" by (simp add: demo_session_def)
  show "honest (contents [Some ''abc'']) (s_fs demo_session)" using part(2) by (auto simp: honest_def demo_session_def)
qed

theorem session_integrity_witness:
  "\<exists>s s' n b. receiveFilesWithProgress env_ok ''/dl'' ''bob'' [fst demo_entry] True s = (None, s') \<and>
    s_fs s (Join ''/dl'' n) = None \<and> s_fs s' (Join ''/dl'' n) = Some (FFile b) \<and>
    equal_fold (sha256_hex b) (sha256_hex ''abc'')"
proof -
  have ne: "[demo_entry] \<noteq> []" by simp
  obtain r out s' where run: "receiveFilesWithProgress env_ok ''/dl'' ''bob'' (map fst [demo_entry]) True
      (demo_session\<lparr>s_in := out @ frame (Header0\<lparr>h_Type := TypeSessionEnd\<rparr>) []\<rparr>) = (None, s')"
    by (rule files_run [OF env_good_ok demo_ok(1) ne demo_ok(2,3), where dir = "''/dl''" and peer = "''bob''"]) (rule demo_flat)
  have "names_ok (map fst [demo_entry])" using entry_facts(6) [OF demo_ok(1), of 0] by simp
  then have names: "sizes_ok (map fst [demo_entry])" "\<not> part_name (slot_name (map fst [demo_entry] ! nat 0))"
    by (simp_all add: names_ok_def sizes_ok_def)
  have "\<forall>p. e_read env_ok p" "in_range (map fst [demo_entry]) 0" "\<not> fm_IsDir (map fst [demo_entry] ! nat 0)"
    by (simp_all add: env_ok_def in_range_def demo_entry_def FileMeta0_def)
  from session_integrity [OF run names(1) this] names(2)
  have "\<exists>n b. s_fs (demo_session\<lparr>s_in := out @ frame (Header0\<lparr>h_Type := TypeSessionEnd\<rparr>) []\<rparr>) (Join ''/dl'' n) = None \<and>
      s_fs s' (Join ''/dl'' n) = Some (FFile b) \<and> equal_fold (sha256_hex b) (fm_SHA256 (map fst [demo_entry] ! nat 0))" by blast
  then have "\<exists>n b. s_fs (demo_session\<lparr>s_in := out @ frame (Header0\<lparr>h_Type := TypeSessionEnd\<rparr>) []\<rparr>) (Join ''/dl'' n) = None \<and>
      s_fs s' (Join ''/dl'' n) = Some (FFile b) \<and> equal_fold (sha256_hex b) (sha256_hex ''abc'')"
    by (simp add: demo_entry_def)
  with run show ?thesis unfolding list.map by blast
qed

end
