(* ===== verification/Resume.thy ===== *)
theory Resume
  imports File_Transfer
begin

text \<open>
  Interrupted transfers: what a receiver keeps when the connection is cut at any byte, and that the
  next attempt continues from there.
\<close>

section \<open>A message cut short\<close>






section \<open>A file cut short\<close>


section \<open>The sidecar\<close>

lemma hex_not_white:
  assumes "c \<in> set (hex_encode b)"
  shows "w \<in> set white_runes \<Longrightarrow> hd w \<noteq> c" "w \<in> set white_runes \<Longrightarrow> last w \<noteq> c"
proof -
  have "c \<in> hex_digit ` {0..<16}"
    using assms
  proof (induction b)
    case (Cons a b)
    have "cv a < 256" by simp
    then have "cv a div 16 < 16" by linarith
    with Cons show ?case by auto
  qed simp
  then obtain d where "d < 16" "c = hex_digit d" by auto
  then have "48 \<le> cv c \<and> cv c \<le> 57 \<or> 97 \<le> cv c \<and> cv c \<le> 102" by (auto simp: hex_digit_def)
  then show "w \<in> set white_runes \<Longrightarrow> hd w \<noteq> c" "w \<in> set white_runes \<Longrightarrow> last w \<noteq> c"
    by (auto simp: white_runes_def)
qed

lemma trim_space_hex [simp]: "trim_space (hex_encode b) = hex_encode b"
proof -
  have "strip_runes white_runes (hex_encode b) = hex_encode b"
  proof (intro strip_runes_id ballI impI notI)
    fix w
    assume w: "w \<in> set white_runes" "w \<noteq> []" "prefix w (hex_encode b)"
    then have "hd w \<in> set (hex_encode b)" by (auto simp: prefix_def)
    with hex_not_white(1) w(1) show False by blast
  qed
  moreover have "strip_runes (map rev white_runes) (rev (hex_encode b)) = rev (hex_encode b)"
  proof (intro strip_runes_id ballI impI notI)
    fix w
    assume w: "w \<in> set (map rev white_runes)" "w \<noteq> []" "prefix w (rev (hex_encode b))"
    then obtain v where v: "v \<in> set white_runes" "w = rev v" by auto
    then have "suffix v (hex_encode b)" using w(3) by (simp add: suffix_to_prefix)
    then have "last v \<in> set (hex_encode b)" using w(2) v(2) by (auto simp: suffix_def)
    with hex_not_white(2) v(1) show False by blast
  qed
  ultimately show ?thesis by (simp add: trim_space_def)
qed

section \<open>Resuming\<close>





end
