(* ===== verification/Base64.thy ===== *)
theory Base64
  imports Go_Strings
begin

text \<open>
  Go's \<^verbatim>\<open>encoding/base64\<close>: \<^verbatim>\<open>RawURLEncoding\<close> (URL alphabet, no padding; the pairing URI and
  JWTs) and \<^verbatim>\<open>StdEncoding\<close> (standard alphabet, padded; clipboard parts). Decoding skips CR and LF
  and ignores the unused bits of a last partial group, as Go's non-strict decoders do.
\<close>

record b64_enc =
  b64_62 :: char   \<comment> \<open>the alphabet's characters 62 and 63\<close>
  b64_63 :: char
  b64_pad :: bool  \<comment> \<open>pad with \<^verbatim>\<open>=\<close>\<close>

definition RawURLEncoding :: b64_enc where
  "RawURLEncoding = \<lparr>b64_62 = CHR ''-'', b64_63 = CHR ''_'', b64_pad = False\<rparr>"

definition StdEncoding :: b64_enc where
  "StdEncoding = \<lparr>b64_62 = CHR ''+'', b64_63 = CHR ''/'', b64_pad = True\<rparr>"

definition b64_char :: "b64_enc \<Rightarrow> nat \<Rightarrow> char" where
  "b64_char e d =
     (if d < 26 then char_of (65 + d)
      else if d < 52 then char_of (71 + d)
      else if d < 62 then char_of (d - 4)
      else if d = 62 then b64_62 e else b64_63 e)"

definition is_upper :: "char \<Rightarrow> bool" where
  "is_upper c \<longleftrightarrow> 65 \<le> (of_char c :: nat) \<and> (of_char c :: nat) \<le> 90"

definition is_lower :: "char \<Rightarrow> bool" where
  "is_lower c \<longleftrightarrow> 97 \<le> (of_char c :: nat) \<and> (of_char c :: nat) \<le> 122"

definition b64_val :: "b64_enc \<Rightarrow> char \<Rightarrow> nat option" where
  "b64_val e c =
     (if is_upper c then Some (of_char c - 65)
      else if is_lower c then Some (of_char c - 71)
      else if is_digit c then Some (of_char c + 4)
      else if c = b64_62 e then Some 62
      else if c = b64_63 e then Some 63
      else None)"

text \<open>An alphabet is usable when its two extra characters are no letters, digits or padding.\<close>

definition b64_extra :: "char \<Rightarrow> bool" where
  "b64_extra c \<longleftrightarrow> \<not> is_upper c \<and> \<not> is_lower c \<and> \<not> is_digit c \<and> c \<notin> {CHR ''='', CHR 0x0A, CHR 0x0D}"

definition b64_ok :: "b64_enc \<Rightarrow> bool" where
  "b64_ok e \<longleftrightarrow> b64_62 e \<noteq> b64_63 e \<and> b64_extra (b64_62 e) \<and> b64_extra (b64_63 e)"

fun b64_encode :: "b64_enc \<Rightarrow> bytes \<Rightarrow> string" where
  "b64_encode e (x # y # z # s) = (let a = of_char x; b = of_char y; c = of_char z in
     [b64_char e (a div 4), b64_char e ((a mod 4) * 16 + b div 16),
      b64_char e ((b mod 16) * 4 + c div 64), b64_char e (c mod 64)] @ b64_encode e s)"
| "b64_encode e [x, y] = (let a = of_char x; b = of_char y in
     [b64_char e (a div 4), b64_char e ((a mod 4) * 16 + b div 16), b64_char e ((b mod 16) * 4)]
     @ (if b64_pad e then ''='' else []))"
| "b64_encode e [x] = (let a = of_char x in
     [b64_char e (a div 4), b64_char e ((a mod 4) * 16)] @ (if b64_pad e then ''=='' else []))"
| "b64_encode e [] = []"

definition b64_two :: "b64_enc \<Rightarrow> char \<Rightarrow> char \<Rightarrow> bytes option" where
  "b64_two e p q = (case (b64_val e p, b64_val e q) of
     (Some a, Some b) \<Rightarrow> Some [char_of (a * 4 + b div 16)] | _ \<Rightarrow> None)"

definition b64_three :: "b64_enc \<Rightarrow> char \<Rightarrow> char \<Rightarrow> char \<Rightarrow> bytes option" where
  "b64_three e p q r = (case (b64_val e p, b64_val e q, b64_val e r) of
     (Some a, Some b, Some c) \<Rightarrow>
       Some [char_of (a * 4 + b div 16), char_of ((b mod 16) * 16 + c div 4)]
   | _ \<Rightarrow> None)"

definition b64_four :: "b64_enc \<Rightarrow> char \<Rightarrow> char \<Rightarrow> char \<Rightarrow> char \<Rightarrow> bytes option" where
  "b64_four e p q r t = (case (b64_val e p, b64_val e q, b64_val e r, b64_val e t) of
     (Some a, Some b, Some c, Some d) \<Rightarrow>
       Some [char_of (a * 4 + b div 16), char_of ((b mod 16) * 16 + c div 4),
             char_of ((c mod 4) * 64 + d)]
   | _ \<Rightarrow> None)"

fun b64_groups :: "b64_enc \<Rightarrow> string \<Rightarrow> bytes option" where
  "b64_groups e [] = Some []"
| "b64_groups e (p # q # r # t # s) =
     (if b64_pad e \<and> s = [] \<and> r = CHR ''='' \<and> t = CHR ''='' then b64_two e p q
      else if b64_pad e \<and> s = [] \<and> t = CHR ''='' then b64_three e p q r
      else (case (b64_four e p q r t, b64_groups e s) of
              (Some u, Some v) \<Rightarrow> Some (u @ v) | _ \<Rightarrow> None))"
| "b64_groups e [p, q, r] = (if b64_pad e then None else b64_three e p q r)"
| "b64_groups e [p, q] = (if b64_pad e then None else b64_two e p q)"
| "b64_groups e [p] = None"

definition b64_decode :: "b64_enc \<Rightarrow> string \<Rightarrow> bytes option" where
  "b64_decode e s = b64_groups e (filter (\<lambda>c. c \<noteq> CHR 0x0A \<and> c \<noteq> CHR 0x0D) s)"

lemmas char_class_defs = is_upper_def is_lower_def is_digit_def

lemma b64_ok_encodings [simp]: "b64_ok RawURLEncoding" "b64_ok StdEncoding"
  by (simp_all add: b64_ok_def b64_extra_def char_class_defs RawURLEncoding_def StdEncoding_def)

lemma b64_val_char [simp]: "b64_ok e \<Longrightarrow> d < 64 \<Longrightarrow> b64_val e (b64_char e d) = Some d"
proof -
  assume ok: "b64_ok e" and d: "d < 64"
  consider "d < 26" | "26 \<le> d" "d < 52" | "52 \<le> d" "d < 62" | "d = 62" | "d = 63"
    using d by linarith
  then show ?thesis
  proof cases
    case 4
    with ok show ?thesis by (simp add: b64_val_def b64_char_def b64_ok_def b64_extra_def)
  next
    case 5
    with ok show ?thesis by (auto simp: b64_val_def b64_char_def b64_ok_def b64_extra_def)
  next
    case 3
    then obtain k where k: "d = 52 + k" "k < 10" using le_Suc_ex by force
    then have "b64_char e d = char_of (48 + k)" by (simp add: b64_char_def)
    with k show ?thesis by (simp add: b64_val_def char_class_defs)
  qed (simp_all add: b64_val_def b64_char_def char_class_defs)
qed

lemma b64_char_plain:
  assumes "b64_ok e" "d < 64"
  shows "b64_char e d \<noteq> CHR ''=''" "b64_char e d \<noteq> CHR 0x0A" "b64_char e d \<noteq> CHR 0x0D"
proof -
  have "\<forall>c\<in>{CHR ''='', CHR 0x0A, CHR 0x0D}. b64_char e d \<noteq> c"
  proof
    fix c assume c: "c \<in> {CHR ''='', CHR 0x0A, CHR 0x0D}"
    then have "\<not> is_upper c" "\<not> is_lower c" "\<not> is_digit c"
      by (auto simp: char_class_defs)
    with c have "b64_val e c = None" using assms(1)
      by (auto simp: b64_val_def b64_ok_def b64_extra_def)
    then show "b64_char e d \<noteq> c" using b64_val_char [OF assms] by auto
  qed
  then show "b64_char e d \<noteq> CHR ''=''" "b64_char e d \<noteq> CHR 0x0A" "b64_char e d \<noteq> CHR 0x0D"
    by simp_all
qed

lemma b64_split_bounds:
  fixes a b c :: nat
  assumes "a < 256" "b < 256" "c < 256"
  shows "a div 4 < 64" "(a mod 4) * 16 + b div 16 < 64" "(b mod 16) * 4 + c div 64 < 64"
    "c mod 64 < 64" "(a mod 4) * 16 < 64" "(b mod 16) * 4 < 64"
proof -
  have m: "a mod 4 < 4" "b mod 16 < 16" "c mod 64 < 64" by simp_all
  have d: "a div 4 < 64" "b div 16 < 16" "c div 64 < 4"
    using assms by (simp_all add: less_mult_imp_div_less)
  show "a div 4 < 64" "(a mod 4) * 16 + b div 16 < 64" "(b mod 16) * 4 + c div 64 < 64"
    "c mod 64 < 64" "(a mod 4) * 16 < 64" "(b mod 16) * 4 < 64"
    using m d by linarith+
qed

lemma b64_join:
  fixes a b c :: nat
  assumes "b < 256" "c < 256"
  shows "a div 4 * 4 + ((a mod 4) * 16 + b div 16) div 16 = a"
    "((a mod 4) * 16 + b div 16) mod 16 * 16 + ((b mod 16) * 4 + c div 64) div 4 = b"
    "((b mod 16) * 4 + c div 64) mod 4 * 64 + c mod 64 = c"
    "a div 4 * 4 + ((a mod 4) * 16) div 16 = a"
    "((a mod 4) * 16 + b div 16) mod 16 * 16 + ((b mod 16) * 4) div 4 = b"
proof -
  have d: "b div 16 < 16" "c div 64 < 4" using assms by (simp_all add: less_mult_imp_div_less)
  from d show "a div 4 * 4 + ((a mod 4) * 16 + b div 16) div 16 = a" by simp
  from d show "((a mod 4) * 16 + b div 16) mod 16 * 16 + ((b mod 16) * 4 + c div 64) div 4 = b"
    by simp
  from d show "((b mod 16) * 4 + c div 64) mod 4 * 64 + c mod 64 = c" by simp
  show "a div 4 * 4 + ((a mod 4) * 16) div 16 = a" by simp
  from d show "((a mod 4) * 16 + b div 16) mod 16 * 16 + ((b mod 16) * 4) div 4 = b" by simp
qed

lemma of_char_lt: "(of_char c :: nat) < 256"
  by simp

lemma b64_groups_encode: "b64_ok e \<Longrightarrow> b64_groups e (b64_encode e s) = Some s"
proof (induction e s rule: b64_encode.induct)
  case (1 e x y z s)
  note bounds = b64_split_bounds [OF of_char_lt [of x] of_char_lt [of y] of_char_lt [of z]]
  note plain = b64_char_plain(1) [OF \<open>b64_ok e\<close> bounds(4)]
  have "b64_four e (b64_char e (of_char x div 4)) (b64_char e ((of_char x mod 4) * 16 + of_char y div 16))
      (b64_char e ((of_char y mod 16) * 4 + of_char z div 64)) (b64_char e (of_char z mod 64))
      = Some [x, y, z]"
    using \<open>b64_ok e\<close> bounds b64_join(1,2) [OF of_char_lt [of y] of_char_lt [of z], where a = "of_char x"]
      b64_join(3) [OF of_char_lt [of y] of_char_lt [of z]]
    by (simp only: b64_four_def b64_val_char option.case prod.case char_of_char)
  with 1 plain show ?case by (simp add: Let_def)
next
  case (2 e x y)
  note bounds = b64_split_bounds [OF of_char_lt [of x] of_char_lt [of y] of_char_lt]
  note plain = b64_char_plain(1) [OF \<open>b64_ok e\<close> bounds(6)]
  have "b64_three e (b64_char e (of_char x div 4)) (b64_char e ((of_char x mod 4) * 16 + of_char y div 16))
      (b64_char e ((of_char y mod 16) * 4)) = Some [x, y]"
    using \<open>b64_ok e\<close> bounds b64_join(1,5) [OF of_char_lt [of y] of_char_lt, where a = "of_char x"]
    by (simp only: b64_three_def b64_val_char option.case prod.case char_of_char)
  with plain show ?case by (simp add: Let_def)
next
  case (3 e x)
  note bounds = b64_split_bounds [OF of_char_lt [of x] of_char_lt of_char_lt]
  have "b64_two e (b64_char e (of_char x div 4)) (b64_char e ((of_char x mod 4) * 16)) = Some [x]"
    using \<open>b64_ok e\<close> bounds b64_join(4) [OF of_char_lt of_char_lt, where a = "of_char x"]
    by (simp only: b64_two_def b64_val_char option.case prod.case char_of_char)
  then show ?case by (simp add: Let_def)
qed simp

lemma b64_encode_no_newline:
  "b64_ok e \<Longrightarrow> filter (\<lambda>c. c \<noteq> CHR 0x0A \<and> c \<noteq> CHR 0x0D) (b64_encode e s) = b64_encode e s"
proof (induction e s rule: b64_encode.induct)
  case (1 e x y z s)
  with b64_split_bounds [OF of_char_lt [of x] of_char_lt [of y] of_char_lt [of z]] show ?case
    by (simp add: Let_def b64_char_plain)
next
  case (2 e x y)
  with b64_split_bounds [OF of_char_lt [of x] of_char_lt [of y] of_char_lt] show ?case
    by (simp add: Let_def b64_char_plain)
next
  case (3 e x)
  with b64_split_bounds [OF of_char_lt [of x] of_char_lt of_char_lt] show ?case
    by (simp add: Let_def b64_char_plain)
qed simp

lemma b64_decode_encode [wire_simps]: "b64_ok e \<Longrightarrow> b64_decode e (b64_encode e s) = Some s"
  by (simp add: b64_decode_def b64_encode_no_newline b64_groups_encode)

text \<open>The length of the padded encoding: four characters for every three bytes begun.\<close>

lemma length_b64_std: "length (b64_encode StdEncoding s) = 4 * ((length s + 2) div 3)"
proof (induction StdEncoding s rule: b64_encode.induct)
  case (1 x y z s)
  moreover have "(length (x # y # z # s) + 2) div 3 = Suc ((length s + 2) div 3)" by simp
  ultimately show ?case by (simp add: Let_def)
qed (simp_all add: Let_def StdEncoding_def)

text \<open>The alphabet of an encoded text.\<close>

lemma b64_val_class: "b64_val e c = Some d \<Longrightarrow> is_upper c \<or> is_lower c \<or> is_digit c \<or> c \<in> {b64_62 e, b64_63 e}"
  by (auto simp: b64_val_def split: if_splits)

definition b64_class :: "b64_enc \<Rightarrow> char \<Rightarrow> bool" where
  "b64_class e c \<longleftrightarrow> is_upper c \<or> is_lower c \<or> is_digit c \<or> c \<in> {b64_62 e, b64_63 e} \<or> c = CHR ''=''"

lemma b64_char_class: "b64_ok e \<Longrightarrow> d < 64 \<Longrightarrow> b64_class e (b64_char e d)"
  using b64_val_class [OF b64_val_char, of e d] by (auto simp: b64_class_def)

lemma b64_alphabet: "b64_ok e \<Longrightarrow> list_all (b64_class e) (b64_encode e s)"
proof (induction e s rule: b64_encode.induct)
  case (1 e x y z s)
  with b64_split_bounds [OF of_char_lt [of x] of_char_lt [of y] of_char_lt [of z]] show ?case
    by (simp add: Let_def b64_char_class)
next
  case (2 e x y)
  with b64_split_bounds [OF of_char_lt [of x] of_char_lt [of y] of_char_lt] show ?case
    by (auto simp: Let_def b64_char_class b64_class_def [of _ "CHR ''=''"])
next
  case (3 e x)
  with b64_split_bounds [OF of_char_lt [of x] of_char_lt of_char_lt] show ?case
    by (auto simp: Let_def b64_char_class b64_class_def [of _ "CHR ''=''"])
qed simp

end
