(* ===== verification/Pem.thy ===== *)
theory Pem
  imports Base64
begin

text \<open>
  Go's \<^verbatim>\<open>encoding/pem\<close>: \<^verbatim>\<open>EncodeToMemory\<close> of a block without headers, and \<^verbatim>\<open>Decode\<close>,
  which looks for the first END line, the last BEGIN line before it, and goes on behind the END line
  when the two do not enclose a block.
\<close>

section \<open>Searching bytes\<close>

text \<open>\<^verbatim>\<open>bytes.Index\<close> and \<^verbatim>\<open>bytes.LastIndex\<close>.\<close>

fun find_sub :: "string \<Rightarrow> string \<Rightarrow> nat option" where
  "find_sub p [] = (if p = [] then Some 0 else None)"
| "find_sub p (c # s) = (if prefix p (c # s) then Some 0 else map_option Suc (find_sub p s))"

fun last_sub :: "string \<Rightarrow> string \<Rightarrow> nat option" where
  "last_sub p [] = (if p = [] then Some 0 else None)"
| "last_sub p (c # s) = (case last_sub p s of
     Some i \<Rightarrow> Some (Suc i)
   | None \<Rightarrow> if prefix p (c # s) then Some 0 else None)"

abbreviation newline :: char where
  "newline \<equiv> CHR 0x0A"

abbreviation dash :: char where
  "dash \<equiv> CHR ''-''"

definition blank_char :: "char \<Rightarrow> bool" where
  "blank_char c \<longleftrightarrow> c = CHR '' '' \<or> c = CHR 0x09"

definition drop_cr :: "string \<Rightarrow> string" where
  "drop_cr s = (if s \<noteq> [] \<and> last s = CHR 0x0D then butlast s else s)"

text \<open>A line without its end and trailing blanks, and what follows it.\<close>

definition getLine :: "string \<Rightarrow> string \<times> string" where
  "getLine s =
     (let l = takeWhile (\<lambda>c. c \<noteq> newline) s;
          line = (if length l < length s then drop_cr l else l) in
      (rev (dropWhile blank_char (rev line)), drop (Suc (length l)) s))"

lemma getLine_shorter: "s \<noteq> [] \<Longrightarrow> length (snd (getLine s)) < length s"
  by (cases s) (auto simp: getLine_def Let_def)

section \<open>Encoding\<close>

function pem_lines :: "string \<Rightarrow> string" where
  "pem_lines s = (if s = [] then [] else take 64 s @ [newline] @ pem_lines (drop 64 s))"
  by pat_completeness auto
termination
  by (relation "measure length") auto

declare pem_lines.simps [simp del]

definition pemEnd :: string where
  "pemEnd = newline # ''-----END ''"

definition EncodeToMemory :: "string \<Rightarrow> bytes \<Rightarrow> bytes" where
  "EncodeToMemory type data =
     ''-----BEGIN '' @ type @ ''-----'' @ [newline] @ pem_lines (b64_encode StdEncoding data)
     @ ''-----END '' @ type @ ''-----'' @ [newline]"

section \<open>Decoding\<close>

text \<open>The header lines (those with a colon): how many, and the rest; nothing when the input ends.\<close>

function pem_headers :: "string \<Rightarrow> (nat \<times> string) option" where
  "pem_headers s =
     (if s = [] then None
      else
        (let (line, next) = getLine s in
         if CHR '':'' \<in> set line then map_option (\<lambda>(n, r). (Suc n, r)) (pem_headers next) else Some (0, s)))"
  by pat_completeness auto
termination
  by (relation "measure length") (simp, metis getLine_shorter in_measure snd_conv)

declare pem_headers.simps [simp del]

text \<open>
  The block that begins with \<^term>\<open>r\<close>, the text behind \<^verbatim>\<open>-----BEGIN\<close>; \<^term>\<open>post\<close> is the text
  behind the next \<^verbatim>\<open>-----END\<close>.
\<close>

datatype pem_try = Block string bytes string | Again | Stop

definition pem_block :: "string \<Rightarrow> string \<Rightarrow> pem_try" where
  "pem_block r post =
     (let (typeLine, r1) = getLine r in
      if \<not> suffix ''-----'' typeLine then Again
      else case pem_headers r1 of
        None \<Rightarrow> Stop
      | Some (n, r2) \<Rightarrow>
          (let type = take (length typeLine - 5) typeLine;
               endIndex = int (length r2) - int (length post) - int (length pemEnd);
               tl = length type + 5;
               trailer = take tl post in
           if 0 < n \<and> endIndex < 0 then (if length r2 < length post then Stop else Again)
           else if length post < tl then Again
           else if \<not> prefix type trailer \<or> \<not> suffix ''-----'' trailer then Again
           else if fst (getLine (drop tl post)) \<noteq> [] then Again
           else
             (let data = (if 0 < endIndex
                          then b64_decode StdEncoding (filter (\<lambda>c. \<not> blank_char c) (take (nat endIndex) r2))
                          else Some []) in
              case data of
                None \<Rightarrow> Again
              | Some b \<Rightarrow> Block type b (snd (getLine (drop (nat (endIndex + int (length pemEnd) - 1)) r2))))))"

lemma find_sub_bound: "find_sub p s = Some i \<Longrightarrow> i + length p \<le> length s"
  by (induction p s arbitrary: i rule: find_sub.induct) (auto split: if_splits dest: prefix_length_le)

function pem_Decode :: "string \<Rightarrow> ((string \<times> bytes) \<times> string) option" where
  "pem_Decode s =
     (case find_sub pemEnd s of
        None \<Rightarrow> None
      | Some e \<Rightarrow>
          (let post = drop (e + length pemEnd) s in
           case last_sub ''-----BEGIN '' (take e s) of
             None \<Rightarrow> pem_Decode post
           | Some b \<Rightarrow>
               if 0 < b \<and> s ! (b - 1) \<noteq> newline then pem_Decode post
               else case pem_block (drop (b + length ''-----BEGIN '') s) post of
                 Block type data rest \<Rightarrow> Some ((type, data), rest)
               | Again \<Rightarrow> pem_Decode post
               | Stop \<Rightarrow> None))"
  by pat_completeness auto
termination
  by (relation "measure length") (auto simp: pemEnd_def dest!: find_sub_bound)

declare pem_Decode.simps [simp del]

section \<open>Round trip\<close>

lemma find_sub_pemEnd: "dash \<notin> set b \<Longrightarrow> find_sub pemEnd (b @ pemEnd @ t) = Some (length b)"
proof (induction b)
  case (Cons c b)
  have "hd (b @ pemEnd @ t) \<noteq> dash" using Cons.prems by (cases b) (auto simp: pemEnd_def)
  then have "\<not> prefix pemEnd (c # b @ pemEnd @ t)"
    by (cases b) (auto simp: pemEnd_def)
  with Cons show ?case by simp
qed (simp add: pemEnd_def)

lemma last_sub_none: "hd p \<notin> set s \<Longrightarrow> p \<noteq> [] \<Longrightarrow> last_sub p s = None"
proof (induction s)
  case (Cons c s)
  then show ?case by (cases p) auto
qed simp

text \<open>The alphabet of the body.\<close>

definition b64_text :: "char \<Rightarrow> bool" where
  "b64_text c \<longleftrightarrow> is_upper c \<or> is_lower c \<or> is_digit c \<or> c \<in> {CHR ''+'', CHR ''/'', CHR ''=''}"

lemma b64_char_text: "b64_text (b64_char StdEncoding d)"
proof -
  consider "d < 26" | "26 \<le> d" "d < 52" | "52 \<le> d" "d < 62" | "62 \<le> d" by linarith
  then show ?thesis
    by cases (auto simp: b64_text_def b64_char_def char_class_defs StdEncoding_def)
qed

lemma b64_encode_text: "\<forall>c\<in>set (b64_encode StdEncoding s). b64_text c"
  by (induction StdEncoding s rule: b64_encode.induct)
    (auto simp: Let_def b64_char_text, auto simp: b64_text_def)

lemma b64_text_not: "\<not> b64_text dash" "\<not> b64_text (CHR '':'')" "\<not> b64_text newline" "\<not> b64_text (CHR 0x0D)"
  "b64_text c \<Longrightarrow> \<not> blank_char c"
  by (auto simp: b64_text_def char_class_defs blank_char_def)

lemma pem_lines_set: "set (pem_lines s) \<subseteq> insert newline (set s)"
proof (induction s rule: pem_lines.induct)
  case (1 s)
  then show ?case by (subst pem_lines.simps) (auto dest: in_set_takeD in_set_dropD)
qed

lemma pem_lines_filter: "\<not> P newline \<Longrightarrow> filter P (pem_lines s) = filter P s"
proof (induction s rule: pem_lines.induct)
  case (1 s)
  have "filter P (take 64 s) @ filter P (drop 64 s) = filter P s" by (metis append_take_drop_id filter_append)
  with "1" show ?case by (subst pem_lines.simps) auto
qed

lemma pem_lines_last: "s \<noteq> [] \<Longrightarrow> \<exists>m. pem_lines s = m @ [newline] \<and> m \<noteq> []"
proof (induction s rule: pem_lines.induct)
  case (1 s)
  show ?case
  proof (cases "drop 64 s = []")
    case True
    with "1.prems" show ?thesis by (subst pem_lines.simps) (auto simp: pem_lines.simps [of "[]"])
  next
    case False
    with "1" obtain m where "pem_lines (drop 64 s) = m @ [newline]" by blast
    with "1.prems" show ?thesis
      by (subst pem_lines.simps) (auto intro!: exI [of _ "take 64 s @ newline # m"])
  qed
qed

lemma find_sub_skip: "newline \<notin> set a \<Longrightarrow> find_sub pemEnd (a @ s) = map_option ((+) (length a)) (find_sub pemEnd s)"
proof (induction a)
  case Nil
  then show ?case by (cases "find_sub pemEnd s") auto
next
  case (Cons c a)
  then show ?case by (auto simp: pemEnd_def option.map_comp comp_def)
qed

lemma first_line: "newline \<notin> set l \<Longrightarrow> takeWhile (\<lambda>c. c \<noteq> newline) (l @ newline # r) = l"
  by (induction l) auto

lemma getLine_rest: "newline \<notin> set l \<Longrightarrow> snd (getLine (l @ newline # r)) = r"
  by (simp add: getLine_def Let_def first_line)

lemma getLine_line:
  assumes "newline \<notin> set l" "l \<noteq> []" "last l \<noteq> CHR 0x0D" "\<not> blank_char (last l)"
  shows "getLine (l @ newline # r) = (l, r)"
proof -
  obtain k c where "l = k @ [c]" using assms(2) by (metis rev_exhaust)
  with assms show ?thesis unfolding getLine_def Let_def first_line [OF assms(1)] by (simp add: drop_cr_def)
qed

lemma getLine_set: "set (fst (getLine s)) \<subseteq> set (takeWhile (\<lambda>c. c \<noteq> newline) s)"
  by (auto simp: getLine_def Let_def drop_cr_def dest!: set_dropWhileD dest: in_set_butlastD split: if_splits)

lemma pem_headers_none:
  assumes "m \<noteq> []" "CHR '':'' \<notin> set m"
  shows "pem_headers (m @ newline # r) = Some (0, m @ newline # r)"
proof -
  have "set (takeWhile (\<lambda>c. c \<noteq> newline) (m @ newline # r)) \<subseteq> set m"
    by (cases "newline \<in> set m") (auto dest: set_takeWhileD simp: takeWhile_append)
  with getLine_set [of "m @ newline # r"] assms(2) have "CHR '':'' \<notin> set (fst (getLine (m @ newline # r)))" by blast
  then show ?thesis by (subst pem_headers.simps) (auto split: prod.splits)
qed

lemma pem_body:
  assumes "m \<noteq> []" "\<forall>c\<in>set m. b64_text c \<or> c = newline" "b64_decode StdEncoding m = Some data" "newline \<notin> set ty"
  defines "t \<equiv> ty @ ''-----'' @ [newline]"
  shows "pem_block (ty @ ''-----'' @ newline # m @ pemEnd @ t) t = Block ty data []"
proof -
  have typeline: "getLine ((ty @ ''-----'') @ newline # r) = (ty @ ''-----'', r)" for r
    using assms(4) by (intro getLine_line) (auto simp: blank_char_def)
  have hdrs: "pem_headers (m @ pemEnd @ t) = Some (0, m @ pemEnd @ t)"
    using assms(2) b64_text_not(2) pem_headers_none [OF assms(1)] by (auto simp: pemEnd_def)
  have "\<forall>c\<in>set m. \<not> blank_char c" using assms(2) b64_text_not(5) by (auto simp: blank_char_def)
  then have plain: "filter (\<lambda>c. \<not> blank_char c) m = m" by (simp add: filter_id_conv)
  have idx: "int (length (m @ pemEnd @ t)) - int (length t) - int (length pemEnd) = int (length m)" by simp
  have "drop (length m + 9) (m @ pemEnd @ t) = (CHR '' '' # ty @ ''-----'') @ [newline]"
    by (simp add: pemEnd_def t_def)
  then have "getLine (drop (nat (int (length m) + int (length pemEnd) - 1)) (m @ pemEnd @ t)) = getLine ((CHR '' '' # ty @ ''-----'') @ [newline])"
    by (simp add: pemEnd_def nat_add_distrib)
  then have rest: "snd (getLine (drop (nat (int (length m) + int (length pemEnd) - 1)) (m @ pemEnd @ t))) = []"
    using getLine_rest [of "CHR '' '' # ty @ ''-----''" "[]"] assms(4) by simp
  have trailer: "drop (length ty + 5) t = [newline]" "take (length ty + 5) t = ty @ ''-----''" "length t = length ty + 6"
    by (simp_all add: t_def)
  have last: "fst (getLine [newline]) = []" by (simp add: getLine_def drop_cr_def)
  have type: "take (length (ty @ ''-----'') - 5) (ty @ ''-----'') = ty" by simp
  have "pem_block ((ty @ ''-----'') @ newline # m @ pemEnd @ t) t = Block ty data []"
    unfolding pem_block_def typeline prod.case hdrs option.case Let_def idx type length_append [of ty] list.size
    using assms(1,3) plain trailer last rest by (simp add: suffix_def)
  then show ?thesis by simp
qed

lemma last_sub_head:
  assumes "dash \<notin> set m"
  shows "last_sub ''-----BEGIN '' (''-----BEGIN CERTIFICATE-----'' @ newline # m) = Some 0"
proof -
  have "last_sub ''-----BEGIN '' (newline # m) = None" using assms by (intro last_sub_none) auto
  then show ?thesis by simp
qed

lemma pem_Decode_encode:
  assumes "data \<noteq> []"
  shows "pem_Decode (EncodeToMemory ''CERTIFICATE'' data) = Some ((''CERTIFICATE'', data), [])"
proof -
  let ?e = "b64_encode StdEncoding data" and ?h = "''-----BEGIN CERTIFICATE-----''"
  let ?t = "''CERTIFICATE-----'' @ [newline]"
  have "?e \<noteq> []" using assms by (cases "(StdEncoding, data)" rule: b64_encode.cases) (auto simp: Let_def)
  then obtain m where m: "pem_lines ?e = m @ [newline]" "m \<noteq> []" using pem_lines_last by blast
  have chars: "\<forall>c\<in>set m. b64_text c \<or> c = newline"
    using pem_lines_set [of ?e] b64_encode_text [of data] unfolding m(1) by auto
  have "filter (\<lambda>c. c \<noteq> newline \<and> c \<noteq> CHR 0x0D) m = filter (\<lambda>c. c \<noteq> newline \<and> c \<noteq> CHR 0x0D) ?e"
    using pem_lines_filter [of "\<lambda>c. c \<noteq> newline \<and> c \<noteq> CHR 0x0D" ?e] unfolding m(1) by simp
  then have dec: "b64_decode StdEncoding m = Some data"
    using b64_decode_encode [of StdEncoding data] by (simp add: b64_decode_def)
  have dash: "dash \<notin> set m" using chars b64_text_not(1) by auto
  have txt0: "EncodeToMemory ''CERTIFICATE'' data = (?h @ newline # m) @ pemEnd @ ?t"
    by (simp add: EncodeToMemory_def m(1) pemEnd_def)
  have find: "find_sub pemEnd ((?h @ newline # m) @ pemEnd @ ?t) = Some (length (?h @ newline # m))"
    using find_sub_skip [of ?h "newline # m @ pemEnd @ ?t"] find_sub_pemEnd [of "newline # m" ?t] dash by simp
  have drops: "drop (length s + length pemEnd) (s @ pemEnd @ ?t) = ?t" "take (length s) (s @ pemEnd @ ?t) = s" for s
    by simp_all
  have start: "drop (0 + length ''-----BEGIN '') ((?h @ newline # m) @ pemEnd @ ?t) =
      ''CERTIFICATE-----'' @ newline # m @ pemEnd @ ?t" by simp
  have body: "pem_block (''CERTIFICATE-----'' @ newline # m @ pemEnd @ ?t) ?t = Block ''CERTIFICATE'' data []"
    using pem_body [OF m(2) chars dec, of "''CERTIFICATE''"] by simp
  show ?thesis
    unfolding txt0
    by (subst pem_Decode.simps)
      (simp only: find option.case Let_def drops last_sub_head [OF dash] start body pem_try.case
        less_irrefl simp_thms if_False)
qed

end
