(* ===== verification/Config.thy ===== *)
theory Config
  imports Json_Struct Sha256
begin

text \<open>
  The device store, \<^verbatim>\<open>internal/config/config.go\<close>: this device's identity, the paired devices and
  the last send target, with the file \<^verbatim>\<open>devices.json\<close>. Every operation of the store holds its
  mutex, so it is one step on \<^verbatim>\<open>store\<close>. Operations that save take \<^term>\<open>wok\<close>: whether writing
  and renaming the temporary file succeeds. A time is its RFC 3339 text. An empty list is saved as
  \<^verbatim>\<open>[]\<close> (Go writes \<^verbatim>\<open>null\<close> for a nil slice; both load as no devices).
\<close>

section \<open>Data\<close>

record device =
  d_Name :: string
  d_Fingerprint :: string
  d_Addr :: string
  d_PairedAt :: string
  d_FcmToken :: string
  d_RNS :: string

record store =
  st_certDER :: bytes
  st_devices :: "device list"
  st_lastPeer :: string
  st_disk :: "bytes option"

datatype store_error = SaveFailed | NameEmpty | NoMatch string | NameTaken string
  | ReadFailed | ParseFailed | BadIdentity | MkdirFailed | IdentityFailed

definition time_zero :: string where
  "time_zero = ''0001-01-01T00:00:00Z''"

definition Device0 :: device where
  "Device0 = \<lparr>d_Name = [], d_Fingerprint = [], d_Addr = [], d_PairedAt = time_zero, d_FcmToken = [], d_RNS = []\<rparr>"

section \<open>Times\<close>

text \<open>\<^verbatim>\<open>Time.UnmarshalJSON\<close> accepts strict RFC 3339.\<close>

definition digits_in :: "string \<Rightarrow> nat \<Rightarrow> nat \<Rightarrow> bool" where
  "digits_in s lo hi \<longleftrightarrow> list_all is_digit s \<and> lo \<le> nat_of_digits s \<and> nat_of_digits s \<le> hi"

definition days_in :: "nat \<Rightarrow> nat \<Rightarrow> nat" where
  "days_in y m = (if m = 2 then (if y mod 4 = 0 \<and> (y mod 100 \<noteq> 0 \<or> y mod 400 = 0) then 29 else 28)
     else if m \<in> {4, 6, 9, 11} then 30 else 31)"

definition zone_ok :: "string \<Rightarrow> bool" where
  "zone_ok z \<longleftrightarrow> z = ''Z'' \<or>
     (length z = 6 \<and> z ! 0 \<in> {CHR ''+'', CHR ''-''} \<and> z ! 3 = CHR '':'' \<and>
      digits_in (take 2 (drop 1 z)) 0 23 \<and> digits_in (drop 4 z) 0 59)"

definition frac_zone_ok :: "string \<Rightarrow> bool" where
  "frac_zone_ok z \<longleftrightarrow> (case z of
     c # d # t \<Rightarrow> if c = CHR ''.'' \<and> is_digit d then zone_ok (dropWhile is_digit t) else zone_ok z
   | _ \<Rightarrow> zone_ok z)"

definition rfc3339_ok :: "string \<Rightarrow> bool" where
  "rfc3339_ok s \<longleftrightarrow> 20 \<le> length s \<and>
     s ! 4 = CHR ''-'' \<and> s ! 7 = CHR ''-'' \<and> s ! 10 = CHR ''T'' \<and> s ! 13 = CHR '':'' \<and> s ! 16 = CHR '':'' \<and>
     digits_in (take 4 s) 0 9999 \<and> digits_in (take 2 (drop 5 s)) 1 12 \<and>
     digits_in (take 2 (drop 8 s)) 1
       (days_in (nat_of_digits (take 4 s)) (nat_of_digits (take 2 (drop 5 s)))) \<and>
     digits_in (take 2 (drop 11 s)) 0 23 \<and> digits_in (take 2 (drop 14 s)) 0 59 \<and>
     digits_in (take 2 (drop 17 s)) 0 59 \<and> frac_zone_ok (drop 19 s)"

definition set_time :: "(string \<Rightarrow> 'a \<Rightarrow> 'a) \<Rightarrow> json \<Rightarrow> 'a \<Rightarrow> 'a option" where
  "set_time upd v x = (case v of JNull \<Rightarrow> Some x
     | JStr s \<Rightarrow> if rfc3339_ok s then Some (upd s x) else None
     | _ \<Rightarrow> None)"

section \<open>devices.json\<close>

definition device_json :: "device \<Rightarrow> json" where
  "device_json d = JObj
     ([(''name'', JStr (d_Name d)), (''fingerprint'', JStr (d_Fingerprint d)),
       (''addr'', JStr (d_Addr d)), (''paired_at'', JStr (d_PairedAt d))]
      @ opt_str ''fcm_token'' (d_FcmToken d)
      @ opt_str ''rns'' (d_RNS d))"

definition device_fields :: "device fields" where
  "device_fields =
     [(''name'', set_str (\<lambda>s d. d\<lparr>d_Name := s\<rparr>)),
      (''fingerprint'', set_str (\<lambda>s d. d\<lparr>d_Fingerprint := s\<rparr>)),
      (''addr'', set_str (\<lambda>s d. d\<lparr>d_Addr := s\<rparr>)),
      (''paired_at'', set_time (\<lambda>s d. d\<lparr>d_PairedAt := s\<rparr>)),
      (''fcm_token'', set_str (\<lambda>s d. d\<lparr>d_FcmToken := s\<rparr>)),
      (''rns'', set_str (\<lambda>s d. d\<lparr>d_RNS := s\<rparr>))]"

record devicesFile =
  df_Devices :: "device list"
  df_LastPeer :: string

definition devicesFile_json :: "devicesFile \<Rightarrow> json" where
  "devicesFile_json f = JObj
     ((''devices'', JArr (map device_json (df_Devices f))) # opt_str ''last_peer'' (df_LastPeer f))"

definition decode_devices :: "json \<Rightarrow> device list \<Rightarrow> device list option" where
  "decode_devices v old = (case v of
     JNull \<Rightarrow> Some []
   | JArr vs \<Rightarrow> decode_list device_fields Device0 vs old
   | _ \<Rightarrow> None)"

definition devicesFile_fields :: "devicesFile fields" where
  "devicesFile_fields =
     [(''devices'', \<lambda>v f. map_option (\<lambda>ds. f\<lparr>df_Devices := ds\<rparr>) (decode_devices v (df_Devices f))),
      (''last_peer'', set_str (\<lambda>s f. f\<lparr>df_LastPeer := s\<rparr>))]"

definition loadDevices :: "store \<Rightarrow> store_error + store" where
  "loadDevices s = (case st_disk s of
     None \<Rightarrow> Inr (s\<lparr>st_devices := []\<rparr>)
   | Some data \<Rightarrow>
       (let trimmed = take 1 (dropWhile (\<lambda>b. b \<in> {CHR '' '', CHR 0x09, CHR 0x0D, CHR 0x0A}) data) in
        if trimmed = ''['' then
          (case Option.bind (json_unmarshal data) (\<lambda>v. decode_devices v (st_devices s)) of
             None \<Rightarrow> Inl ParseFailed
           | Some ds \<Rightarrow> Inr (s\<lparr>st_devices := ds\<rparr>))
        else
          (case Option.bind (json_unmarshal data)
                  (\<lambda>v. decode_struct devicesFile_fields v \<lparr>df_Devices = [], df_LastPeer = []\<rparr>) of
             None \<Rightarrow> Inl ParseFailed
           | Some f \<Rightarrow>
               Inr (s\<lparr>st_devices := df_Devices f,
                      st_lastPeer := (if \<exists>d\<in>set (df_Devices f). d_Fingerprint d = df_LastPeer f
                                      then df_LastPeer f else st_lastPeer s)\<rparr>))))"

definition saveDevicesLocked :: "bool \<Rightarrow> store \<Rightarrow> store_error option \<times> store" where
  "saveDevicesLocked wok s =
     (let data = MarshalIndent (devicesFile_json \<lparr>df_Devices = st_devices s, df_LastPeer = st_lastPeer s\<rparr>) in
      if wok then (None, s\<lparr>st_disk := Some data\<rparr>) else (Some SaveFailed, s))"

section \<open>Operations\<close>

definition Fingerprint :: "bytes \<Rightarrow> string" where
  "Fingerprint der = hex_encode (sha256 der)"

definition Store_Fingerprint :: "store \<Rightarrow> string" where
  "Store_Fingerprint s = Fingerprint (st_certDER s)"

definition hasPrefix :: "string \<Rightarrow> string \<Rightarrow> bool" where
  "hasPrefix s p \<longleftrightarrow> 8 \<le> length p \<and> length p \<le> length s \<and> take (length p) s = p"

definition matches :: "string \<Rightarrow> device \<Rightarrow> bool" where
  "matches q d \<longleftrightarrow> d_Name d = q \<or> hasPrefix (d_Fingerprint d) q"

definition AddDevice :: "bool \<Rightarrow> string \<Rightarrow> device \<Rightarrow> store \<Rightarrow> store_error option \<times> store" where
  "AddDevice wok now d s =
     (let d = (if d_PairedAt d = time_zero then d\<lparr>d_PairedAt := now\<rparr> else d) in
      if \<exists>x\<in>set (st_devices s). d_Fingerprint x = d_Fingerprint d
      then saveDevicesLocked wok
        (s\<lparr>st_devices := update_first (\<lambda>x. d_Fingerprint x = d_Fingerprint d) (\<lambda>_. d) (st_devices s)\<rparr>)
      else saveDevicesLocked wok (s\<lparr>st_devices := st_devices s @ [d]\<rparr>))"

definition UpdateAddr :: "bool \<Rightarrow> string \<Rightarrow> string \<Rightarrow> store \<Rightarrow> bool \<times> store" where
  "UpdateAddr wok fingerprint addr s =
     (case find (\<lambda>d. d_Fingerprint d = fingerprint) (st_devices s) of
        None \<Rightarrow> (False, s)
      | Some d \<Rightarrow>
          if d_Addr d = addr then (False, s)
          else (True, snd (saveDevicesLocked wok
            (s\<lparr>st_devices := update_first (\<lambda>d. d_Fingerprint d = fingerprint) (\<lambda>d. d\<lparr>d_Addr := addr\<rparr>)
                 (st_devices s)\<rparr>))))"

definition UpdateFcmToken :: "bool \<Rightarrow> string \<Rightarrow> string \<Rightarrow> store \<Rightarrow> store" where
  "UpdateFcmToken wok fingerprint token s =
     (if token = [] then s
      else case find (\<lambda>d. d_Fingerprint d = fingerprint) (st_devices s) of
        None \<Rightarrow> s
      | Some d \<Rightarrow>
          if d_FcmToken d = token then s
          else snd (saveDevicesLocked wok
            (s\<lparr>st_devices := update_first (\<lambda>d. d_Fingerprint d = fingerprint) (\<lambda>d. d\<lparr>d_FcmToken := token\<rparr>)
                 (st_devices s)\<rparr>)))"

definition UpdateRNS :: "bool \<Rightarrow> string \<Rightarrow> string \<Rightarrow> store \<Rightarrow> store" where
  "UpdateRNS wok fingerprint rns s =
     (if rns = [] then s
      else case find (\<lambda>d. d_Fingerprint d = fingerprint) (st_devices s) of
        None \<Rightarrow> s
      | Some d \<Rightarrow>
          if d_RNS d = rns then s
          else snd (saveDevicesLocked wok
            (s\<lparr>st_devices := update_first (\<lambda>d. d_Fingerprint d = fingerprint) (\<lambda>d. d\<lparr>d_RNS := rns\<rparr>)
                 (st_devices s)\<rparr>)))"

definition RemoveDevice :: "bool \<Rightarrow> string \<Rightarrow> store \<Rightarrow> (nat \<times> store_error option) \<times> store" where
  "RemoveDevice wok nameOrFp s =
     (let gone = filter (matches nameOrFp) (st_devices s);
          kept = filter (\<lambda>d. \<not> matches nameOrFp d) (st_devices s);
          removed = length gone;
          s1 = (if \<exists>d\<in>set gone. d_Fingerprint d = st_lastPeer s then s\<lparr>st_lastPeer := []\<rparr> else s) in
      if 0 < removed then
        (let (err, s2) = saveDevicesLocked wok (s1\<lparr>st_devices := kept\<rparr>) in ((removed, err), s2))
      else ((removed, None), s1))"

definition RenameDevice :: "bool \<Rightarrow> string \<Rightarrow> string \<Rightarrow> store \<Rightarrow> store_error option \<times> store" where
  "RenameDevice wok nameOrFp newName s =
     (let newName = trim_space newName in
      if newName = [] then (Some NameEmpty, s)
      else
        (let idx = length (takeWhile (\<lambda>d. \<not> matches nameOrFp d) (st_devices s)) in
         if length (st_devices s) \<le> idx then (Some (NoMatch nameOrFp), s)
         else if \<exists>i<length (st_devices s). i \<noteq> idx \<and> d_Name (st_devices s ! i) = newName
         then (Some (NameTaken newName), s)
         else
           (let d = st_devices s ! idx; old = d_Name d in
            if old = newName then (None, s)
            else
              (case saveDevicesLocked wok (s\<lparr>st_devices := (st_devices s)[idx := d\<lparr>d_Name := newName\<rparr>]\<rparr>) of
                 (Some e, s') \<Rightarrow> (Some e, s'\<lparr>st_devices := (st_devices s')[idx := (st_devices s' ! idx)\<lparr>d_Name := old\<rparr>]\<rparr>)
               | (None, s') \<Rightarrow> (None, s')))))"

definition TrustedFingerprints :: "store \<Rightarrow> string \<rightharpoonup> string" where
  "TrustedFingerprints s = foldl (\<lambda>m d. m(d_Fingerprint d \<mapsto> d_Name d)) Map.empty (st_devices s)"

definition IsTrusted :: "store \<Rightarrow> string \<Rightarrow> string option" where
  "IsTrusted s fingerprint = map_option d_Name (find (\<lambda>d. d_Fingerprint d = fingerprint) (st_devices s))"

definition Lookup :: "store \<Rightarrow> string \<Rightarrow> device option" where
  "Lookup s nameOrFp = find (matches nameOrFp) (st_devices s)"

definition SetLastPeer :: "bool \<Rightarrow> string \<Rightarrow> store \<Rightarrow> store" where
  "SetLastPeer wok fingerprint s =
     (if st_lastPeer s = fingerprint then s
      else snd (saveDevicesLocked wok (s\<lparr>st_lastPeer := fingerprint\<rparr>)))"

section \<open>Opening the store\<close>

text \<open>
  Reading a file, and the identity. \<^term>\<open>pair\<close> is \<^verbatim>\<open>tls.X509KeyPair\<close> (the certificate's DER
  bytes), \<^term>\<open>gen\<close> what \<^verbatim>\<open>createIdentity\<close> ends with: its key and certificate come from the
  crypto library.
\<close>

datatype read_result = RData bytes | RNotExist | RErr

definition loadOrCreateIdentity ::
  "(bytes \<Rightarrow> bytes \<Rightarrow> bytes option) \<Rightarrow> bytes option \<Rightarrow> read_result \<Rightarrow> read_result \<Rightarrow> store_error + bytes" where
  "loadOrCreateIdentity pair gen keyPEM crtPEM =
     (let create = (case gen of None \<Rightarrow> Inl IdentityFailed | Some der \<Rightarrow> Inr der) in
      case (keyPEM, crtPEM) of
        (RData k, RData c) \<Rightarrow> (case pair c k of None \<Rightarrow> Inl BadIdentity | Some der \<Rightarrow> Inr der)
      | (RErr, _) \<Rightarrow> Inl ReadFailed
      | _ \<Rightarrow> create)"

definition Open ::
  "bool \<Rightarrow> (bytes \<Rightarrow> bytes \<Rightarrow> bytes option) \<Rightarrow> bytes option \<Rightarrow> read_result \<Rightarrow> read_result \<Rightarrow> read_result
   \<Rightarrow> store_error + store" where
  "Open mkdir_ok pair gen keyPEM crtPEM devs =
     (if \<not> mkdir_ok then Inl MkdirFailed
      else case loadOrCreateIdentity pair gen keyPEM crtPEM of
        Inl e \<Rightarrow> Inl e
      | Inr der \<Rightarrow>
          (let s = \<lparr>st_certDER = der, st_devices = [], st_lastPeer = [], st_disk = None\<rparr> in
           case devs of
             RNotExist \<Rightarrow> loadDevices s
           | RErr \<Rightarrow> Inl ReadFailed
           | RData data \<Rightarrow> loadDevices (s\<lparr>st_disk := Some data\<rparr>)))"

section \<open>The store as a sequence of operations\<close>

datatype store_op =
    OpAdd device
  | OpAddr string string
  | OpFcm string string
  | OpRNS string string
  | OpRemove string
  | OpRename string string
  | OpLast string

text \<open>One call, with the time and whether the disk accepts the write.\<close>

fun run_op :: "bool \<times> string \<times> store_op \<Rightarrow> store \<Rightarrow> store" where
  "run_op (wok, now, OpAdd d) s = snd (AddDevice wok now d s)"
| "run_op (wok, now, OpAddr fp a) s = snd (UpdateAddr wok fp a s)"
| "run_op (wok, now, OpFcm fp t) s = UpdateFcmToken wok fp t s"
| "run_op (wok, now, OpRNS fp r) s = UpdateRNS wok fp r s"
| "run_op (wok, now, OpRemove q) s = snd (RemoveDevice wok q s)"
| "run_op (wok, now, OpRename q n) s = snd (RenameDevice wok q n s)"
| "run_op (wok, now, OpLast fp) s = SetLastPeer wok fp s"

definition run_ops :: "(bool \<times> string \<times> store_op) list \<Rightarrow> store \<Rightarrow> store" where
  "run_ops ops s = fold run_op ops s"

abbreviation fingerprints :: "store \<Rightarrow> string list" where
  "fingerprints s \<equiv> map d_Fingerprint (st_devices s)"

abbreviation trusted :: "store \<Rightarrow> string set" where
  "trusted s \<equiv> set (fingerprints s)"

definition fps_distinct :: "store \<Rightarrow> bool" where
  "fps_distinct s \<longleftrightarrow> distinct (fingerprints s)"

lemma IsTrusted_iff: "IsTrusted s fp \<noteq> None \<longleftrightarrow> fp \<in> trusted s"
  by (auto simp: IsTrusted_def find_None_iff)

lemma save_simps [simp]:
  "st_devices (snd (saveDevicesLocked wok s)) = st_devices s"
  "st_lastPeer (snd (saveDevicesLocked wok s)) = st_lastPeer s"
  "st_certDER (snd (saveDevicesLocked wok s)) = st_certDER s"
  "fst (saveDevicesLocked wok s) = (if wok then None else Some SaveFailed)"
  by (simp_all add: saveDevicesLocked_def Let_def)

lemma fps_update_first [simp]:
  "map d_Fingerprint (update_first P (\<lambda>d. d\<lparr>d_Addr := a\<rparr>) ds) = map d_Fingerprint ds"
  "map d_Fingerprint (update_first P (\<lambda>d. d\<lparr>d_FcmToken := a\<rparr>) ds) = map d_Fingerprint ds"
  "map d_Fingerprint (update_first P (\<lambda>d. d\<lparr>d_RNS := a\<rparr>) ds) = map d_Fingerprint ds"
  "map d_Fingerprint (update_first (\<lambda>x. d_Fingerprint x = d_Fingerprint d) (\<lambda>_. d) ds) = map d_Fingerprint ds"
  by (rule map_update_first, simp)+

text \<open>What each operation does to the list of fingerprints.\<close>

lemma fps_AddDevice:
  "fingerprints (snd (AddDevice wok now d s)) =
   (if d_Fingerprint d \<in> trusted s then fingerprints s else fingerprints s @ [d_Fingerprint d])"
proof -
  let ?d = "if d_PairedAt d = time_zero then d\<lparr>d_PairedAt := now\<rparr> else d"
  have "d_Fingerprint ?d = d_Fingerprint d" by simp
  then show ?thesis
    unfolding AddDevice_def Let_def using fps_update_first(4) [of ?d "st_devices s"]
    by (auto simp: image_iff) metis
qed

lemma fps_updates:
  "fingerprints (snd (UpdateAddr wok fp a s)) = fingerprints s"
  "fingerprints (UpdateFcmToken wok fp a s) = fingerprints s"
  "fingerprints (UpdateRNS wok fp a s) = fingerprints s"
  "fingerprints (SetLastPeer wok fp s) = fingerprints s"
  by (simp_all add: UpdateAddr_def UpdateFcmToken_def UpdateRNS_def SetLastPeer_def split: option.splits)

lemma RemoveDevice_snd:
  "snd (RemoveDevice wok q s) =
   (if filter (matches q) (st_devices s) = [] then s
    else snd (saveDevicesLocked wok
      (s\<lparr>st_lastPeer := (if \<exists>d\<in>set (st_devices s). matches q d \<and> d_Fingerprint d = st_lastPeer s then []
                         else st_lastPeer s),
         st_devices := filter (\<lambda>d. \<not> matches q d) (st_devices s)\<rparr>)))"
proof -
  have "s = s\<lparr>st_lastPeer := st_lastPeer s\<rparr>" by simp
  then show ?thesis
    by (cases "\<exists>d\<in>set (st_devices s). matches q d \<and> d_Fingerprint d = st_lastPeer s")
      (auto simp: RemoveDevice_def Let_def filter_empty_conv split: prod.splits)
qed

lemma RemoveDevice_devices:
  "st_devices (snd (RemoveDevice wok q s)) = filter (\<lambda>d. \<not> matches q d) (st_devices s)"
  by (simp add: RemoveDevice_snd filter_empty_conv)

lemma RenameDevice_cases:
  obtains (same) e where "RenameDevice wok q n s = (e, s)"
  | (renamed) i s' where "i < length (st_devices s)" "matches q (st_devices s ! i)"
      "trim_space n \<noteq> []" "\<forall>j<length (st_devices s). j \<noteq> i \<longrightarrow> d_Name (st_devices s ! j) \<noteq> trim_space n"
      "s' = s\<lparr>st_devices := (st_devices s)[i := (st_devices s ! i)\<lparr>d_Name := trim_space n\<rparr>]\<rparr>"
      "wok" "RenameDevice wok q n s = saveDevicesLocked wok s'"
proof -
  let ?n = "trim_space n" and ?i = "length (takeWhile (\<lambda>d. \<not> matches q d) (st_devices s))"
  let ?d = "st_devices s ! ?i"
  let ?s = "s\<lparr>st_devices := (st_devices s)[?i := ?d\<lparr>d_Name := ?n\<rparr>]\<rparr>"
  consider (early) "?n = [] \<or> length (st_devices s) \<le> ?i \<or>
      (\<exists>j<length (st_devices s). j \<noteq> ?i \<and> d_Name (st_devices s ! j) = ?n) \<or> d_Name ?d = ?n"
    | (full) "?n \<noteq> []" "?i < length (st_devices s)"
      "\<forall>j<length (st_devices s). j \<noteq> ?i \<longrightarrow> d_Name (st_devices s ! j) \<noteq> ?n" "d_Name ?d \<noteq> ?n"
    by force
  then show thesis
  proof cases
    case early
    then have "snd (RenameDevice wok q n s) = s" by (auto simp: RenameDevice_def Let_def)
    then show thesis by (metis same prod.collapse)
  next
    case full
    have m: "matches q ?d" using full(2) nth_length_takeWhile [of "\<lambda>d. \<not> matches q d"] by simp
    have eq: "RenameDevice wok q n s = (case saveDevicesLocked wok ?s of
        (Some e, s') \<Rightarrow> (Some e, s'\<lparr>st_devices := (st_devices s')[?i := (st_devices s' ! ?i)\<lparr>d_Name := d_Name ?d\<rparr>]\<rparr>)
      | (None, s') \<Rightarrow> (None, s'))"
      unfolding RenameDevice_def Let_def using full by (simp add: not_le) blast
    show thesis
    proof (cases wok)
      case True
      with eq have "RenameDevice wok q n s = saveDevicesLocked wok ?s"
        by (simp add: saveDevicesLocked_def Let_def)
      with full m True show thesis by (intro renamed [of ?i ?s] refl)
    next
      case False
      have "(st_devices s)[?i := ?d\<lparr>d_Name := d_Name ?d\<rparr>] = st_devices s"
        by (simp add: list_update_id)
      with False eq full(2) show thesis
        by (intro same [of "Some SaveFailed"]) (simp add: saveDevicesLocked_def)
    qed
  qed
qed

lemma fps_RenameDevice: "fingerprints (snd (RenameDevice wok q n s)) = fingerprints s"
proof (cases rule: RenameDevice_cases [of wok q n s])
  case (renamed i s')
  then show ?thesis by (simp add: map_update) (metis length_map list_update_id nth_map)
qed auto

lemmas fps_simps = fps_AddDevice fps_updates RemoveDevice_devices fps_RenameDevice

lemma fps_distinct_step: "fps_distinct s \<Longrightarrow> fps_distinct (run_op op s)"
  by (cases "(op, s)" rule: run_op.cases) (auto simp: fps_distinct_def fps_simps distinct_map_filter)

section \<open>Trust\<close>

text \<open>
  The contract of a list of trusted peers, as the TLS layer relies on it: an operation makes a peer
  trusted only when it grants it, and one that revokes it makes it untrusted.
\<close>

locale trust_list =
  fixes step :: "'op \<Rightarrow> 's \<Rightarrow> 's"
    and trusts :: "'s \<Rightarrow> 'p \<Rightarrow> bool"
    and grants :: "'op \<Rightarrow> 'p \<Rightarrow> bool"
    and revokes :: "'op \<Rightarrow> 's \<Rightarrow> 'p \<Rightarrow> bool"
    and inv :: "'s \<Rightarrow> bool"
  assumes inv_step: "inv s \<Longrightarrow> inv (step op s)"
    and granted: "inv s \<Longrightarrow> trusts (step op s) p \<Longrightarrow> \<not> trusts s p \<Longrightarrow> grants op p"
    and revoked: "inv s \<Longrightarrow> revokes op s p \<Longrightarrow> \<not> trusts (step op s) p"
    and kept: "inv s \<Longrightarrow> trusts s p \<Longrightarrow> \<not> revokes op s p \<Longrightarrow> trusts (step op s) p"
begin

lemma inv_fold: "inv s \<Longrightarrow> inv (fold step ops s)"
  by (induction ops arbitrary: s) (auto simp: inv_step)

lemma never_granted:
  "inv s \<Longrightarrow> \<not> trusts s p \<Longrightarrow> \<forall>op\<in>set ops. \<not> grants op p \<Longrightarrow> \<not> trusts (fold step ops s) p"
proof (induction ops arbitrary: s)
  case (Cons op ops)
  then have "\<not> trusts (step op s) p" using granted by auto
  with Cons show ?case by (simp add: inv_step)
qed simp

lemma revoked_until_granted:
  "inv s \<Longrightarrow> revokes op s p \<Longrightarrow> \<forall>op\<in>set ops. \<not> grants op p \<Longrightarrow> \<not> trusts (fold step (op # ops) s) p"
  using never_granted [of "step op s" p ops] revoked inv_step by simp

end

fun op_grants :: "bool \<times> string \<times> store_op \<Rightarrow> string \<Rightarrow> bool" where
  "op_grants (_, _, OpAdd d) fp \<longleftrightarrow> d_Fingerprint d = fp"
| "op_grants _ fp \<longleftrightarrow> False"

fun op_revokes :: "bool \<times> string \<times> store_op \<Rightarrow> store \<Rightarrow> string \<Rightarrow> bool" where
  "op_revokes (_, _, OpRemove q) s fp \<longleftrightarrow> (\<exists>d\<in>set (st_devices s). d_Fingerprint d = fp \<and> matches q d)"
| "op_revokes _ s fp \<longleftrightarrow> False"

lemma distinct_fp_eq:
  "fps_distinct s \<Longrightarrow> d \<in> set (st_devices s) \<Longrightarrow> e \<in> set (st_devices s) \<Longrightarrow> d_Fingerprint d = d_Fingerprint e \<Longrightarrow> d = e"
  by (auto simp: fps_distinct_def distinct_map dest: inj_onD)

lemma removed_trust:
  assumes "fps_distinct s"
  shows "fp \<in> trusted (snd (RemoveDevice wok q s)) \<longleftrightarrow>
    fp \<in> trusted s \<and> \<not> (\<exists>d\<in>set (st_devices s). d_Fingerprint d = fp \<and> matches q d)"
  using distinct_fp_eq [OF assms] by (auto simp: RemoveDevice_devices image_iff)

lemma trusted_run_op:
  assumes "fps_distinct s"
  shows "fp \<in> trusted (run_op op s) \<longleftrightarrow> fp \<in> trusted s \<and> \<not> op_revokes op s fp \<or> op_grants op fp"
proof -
  obtain wok now c where op: "op = (wok, now, c)" by (cases op)
  show ?thesis unfolding op
    by (cases c) (simp_all only: run_op.simps op_revokes.simps op_grants.simps removed_trust [OF assms]
        fps_AddDevice fps_updates fps_RenameDevice, auto)
qed

lemma granted_not_revoked: "op_revokes op s fp \<Longrightarrow> \<not> op_grants op fp"
  by (cases "(op, s)" rule: run_op.cases) auto

interpretation devices: trust_list run_op "\<lambda>s fp. IsTrusted s fp \<noteq> None" op_grants op_revokes fps_distinct
  unfolding IsTrusted_iff
  by unfold_locales (auto simp only: trusted_run_op granted_not_revoked fps_distinct_step)

text \<open>
  Property C17. Fingerprints stay unique and trust comes only from pairing: whatever sequence of
  store operations runs, with any of its saves failing, no two devices share a fingerprint, and a
  fingerprint that was not trusted becomes trusted only if the sequence adds a device with it.
\<close>

theorem trust_only_by_pairing:
  assumes "fps_distinct s"
  shows "fps_distinct (run_ops ops s) \<and>
    (IsTrusted s fp = None \<longrightarrow> IsTrusted (run_ops ops s) fp \<noteq> None \<longrightarrow> (\<exists>op\<in>set ops. op_grants op fp))"
  using devices.inv_fold [OF assms] devices.never_granted [OF assms] unfolding run_ops_def by blast

theorem trust_only_by_pairing_witness:
  "fps_distinct (run_ops [(True, ''t'', OpAdd (Device0\<lparr>d_Fingerprint := ''aa''\<rparr>)), (True, ''t'', OpRename ''aa'' ''bob'')]
     \<lparr>st_certDER = [], st_devices = [], st_lastPeer = [], st_disk = None\<rparr>)"
  using trust_only_by_pairing [of "\<lparr>st_certDER = [], st_devices = [], st_lastPeer = [], st_disk = None\<rparr>"]
  by (simp add: fps_distinct_def)

text \<open>
  Property C7. Revocation is effective and lasts: after \<^verbatim>\<open>RemoveDevice\<close> is called with a device's
  name or a prefix of its fingerprint of at least eight characters, the device's fingerprint is not
  trusted, and it stays so through every later sequence of operations that does not pair it again.
  The call reports how many devices it removed, keeps all others in order, and the last send target
  is not one of the removed devices.
\<close>

theorem revocation_lasts:
  assumes "fps_distinct s" "d \<in> set (st_devices s)" "matches q d"
    "\<forall>op\<in>set ops. \<not> op_grants op (d_Fingerprint d)"
  shows "IsTrusted (run_ops ops (snd (RemoveDevice wok q s))) (d_Fingerprint d) = None \<and>
    fst (fst (RemoveDevice wok q s)) = length (filter (matches q) (st_devices s)) \<and>
    st_devices (snd (RemoveDevice wok q s)) = filter (\<lambda>d. \<not> matches q d) (st_devices s) \<and>
    (d_Fingerprint d \<noteq> [] \<longrightarrow> st_lastPeer (snd (RemoveDevice wok q s)) \<noteq> d_Fingerprint d)"
proof (intro conjI impI)
  have "op_revokes (wok, [], OpRemove q) s (d_Fingerprint d)" using assms(2,3) by auto
  from devices.revoked_until_granted [OF assms(1) this assms(4)]
  show "IsTrusted (run_ops ops (snd (RemoveDevice wok q s))) (d_Fingerprint d) = None"
    by (simp add: run_ops_def)
next
  show "fst (fst (RemoveDevice wok q s)) = length (filter (matches q) (st_devices s))"
    by (simp add: RemoveDevice_def Let_def split: prod.splits)
next
  assume fp: "d_Fingerprint d \<noteq> []"
  with assms(2,3) show "st_lastPeer (snd (RemoveDevice wok q s)) \<noteq> d_Fingerprint d"
    by (auto simp: RemoveDevice_snd filter_empty_conv)
qed (rule RemoveDevice_devices)

theorem revocation_lasts_witness:
  "IsTrusted (run_ops [(False, ''t'', OpRename ''ann'' ''eve'')] (snd (RemoveDevice True ''bob''
     \<lparr>st_certDER = [], st_devices = [Device0\<lparr>d_Name := ''ann'', d_Fingerprint := ''aa''\<rparr>,
        Device0\<lparr>d_Name := ''bob'', d_Fingerprint := ''bb''\<rparr>], st_lastPeer = ''bb'', st_disk = None\<rparr>))) ''bb'' = None"
proof -
  let ?b = "Device0\<lparr>d_Name := ''bob'', d_Fingerprint := ''bb''\<rparr>"
  let ?s = "\<lparr>st_certDER = [], st_devices = [Device0\<lparr>d_Name := ''ann'', d_Fingerprint := ''aa''\<rparr>, ?b],
      st_lastPeer = ''bb'', st_disk = None\<rparr>"
  have "fps_distinct ?s" "?b \<in> set (st_devices ?s)" "matches ''bob'' ?b"
    by (simp_all add: fps_distinct_def matches_def)
  from revocation_lasts [OF this, of "[(False, ''t'', OpRename ''ann'' ''eve'')]" True] show ?thesis by simp
qed

section \<open>Persistence\<close>

definition device_ok :: "device \<Rightarrow> bool" where
  "device_ok d \<longleftrightarrow> list_all utf8_valid [d_Name d, d_Fingerprint d, d_Addr d, d_PairedAt d, d_FcmToken d, d_RNS d]
     \<and> rfc3339_ok (d_PairedAt d)"

definition store_ok :: "store \<Rightarrow> bool" where
  "store_ok s \<longleftrightarrow> list_all device_ok (st_devices s) \<and> utf8_valid (st_lastPeer s)"

text \<open>The file holds what the memory holds.\<close>

definition synced :: "store \<Rightarrow> bool" where
  "synced s \<longleftrightarrow> st_disk s =
     Some (MarshalIndent (devicesFile_json \<lparr>df_Devices = st_devices s, df_LastPeer = st_lastPeer s\<rparr>))"

lemma device_lookup:
  "map_of device_fields (fold_key ''name'') = Some (set_str (\<lambda>s d. d\<lparr>d_Name := s\<rparr>))"
  "map_of device_fields (fold_key ''fingerprint'') = Some (set_str (\<lambda>s d. d\<lparr>d_Fingerprint := s\<rparr>))"
  "map_of device_fields (fold_key ''addr'') = Some (set_str (\<lambda>s d. d\<lparr>d_Addr := s\<rparr>))"
  "map_of device_fields (fold_key ''paired_at'') = Some (set_time (\<lambda>s d. d\<lparr>d_PairedAt := s\<rparr>))"
  "map_of device_fields (fold_key ''fcm_token'') = Some (set_str (\<lambda>s d. d\<lparr>d_FcmToken := s\<rparr>))"
  "map_of device_fields (fold_key ''rns'') = Some (set_str (\<lambda>s d. d\<lparr>d_RNS := s\<rparr>))"
  by (simp_all add: device_fields_def key_lookup)

lemma decode_device: "device_ok d \<Longrightarrow> decode_struct device_fields (device_json d) Device0 = Some d"
  by (simp add: device_ok_def decode_struct_def device_json_def Device0_def device_lookup member_defs set_time_def
      decode_steps decode_opt_str [where ms = "[]", simplified])

lemma json_ok_device: "device_ok d \<Longrightarrow> json_ok (device_json d)"
  by (simp add: device_ok_def device_json_def members_ok_simps members_ok_opts utf8_valid_ascii del: json_ok.simps(4))

lemma devicesFile_lookup:
  "map_of devicesFile_fields (fold_key ''devices'') =
     Some (\<lambda>v f. map_option (\<lambda>ds. f\<lparr>df_Devices := ds\<rparr>) (decode_devices v (df_Devices f)))"
  "map_of devicesFile_fields (fold_key ''last_peer'') = Some (set_str (\<lambda>s f. f\<lparr>df_LastPeer := s\<rparr>))"
  by (simp_all add: devicesFile_fields_def key_lookup)

lemma devicesFile_unmarshal:
  assumes "list_all device_ok ds" "utf8_valid lp"
  shows "json_unmarshal (MarshalIndent (devicesFile_json \<lparr>df_Devices = ds, df_LastPeer = lp\<rparr>)) =
      Some (devicesFile_json \<lparr>df_Devices = ds, df_LastPeer = lp\<rparr>)"
    "decode_struct devicesFile_fields (devicesFile_json \<lparr>df_Devices = ds, df_LastPeer = lp\<rparr>)
       \<lparr>df_Devices = [], df_LastPeer = []\<rparr> = Some \<lparr>df_Devices = ds, df_LastPeer = lp\<rparr>"
proof -
  have "json_ok (devicesFile_json \<lparr>df_Devices = ds, df_LastPeer = lp\<rparr>)"
    using assms by (auto simp: devicesFile_json_def members_ok_simps members_ok_opts utf8_valid_ascii list_all_iff
        json_ok_device simp del: json_ok.simps(4))
  then show "json_unmarshal (MarshalIndent (devicesFile_json \<lparr>df_Devices = ds, df_LastPeer = lp\<rparr>)) =
      Some (devicesFile_json \<lparr>df_Devices = ds, df_LastPeer = lp\<rparr>)" by (rule json_unmarshal_indent)
  have "decode_list device_fields Device0 (map device_json ds) [] = Some ds"
    using assms(1) by (intro decode_list_map decode_device) (auto simp: list_all_iff)
  then show "decode_struct devicesFile_fields (devicesFile_json \<lparr>df_Devices = ds, df_LastPeer = lp\<rparr>)
       \<lparr>df_Devices = [], df_LastPeer = []\<rparr> = Some \<lparr>df_Devices = ds, df_LastPeer = lp\<rparr>"
    by (simp add: decode_struct_def devicesFile_json_def devicesFile_lookup decode_devices_def
        decode_opt_str [where ms = "[]", simplified])
qed

lemma load_synced:
  assumes "synced s" "store_ok s"
  shows "loadDevices \<lparr>st_certDER = der, st_devices = [], st_lastPeer = [], st_disk = st_disk s\<rparr> =
    Inr \<lparr>st_certDER = der, st_devices = st_devices s,
         st_lastPeer = (if st_lastPeer s \<in> trusted s then st_lastPeer s else []), st_disk = st_disk s\<rparr>"
proof -
  let ?f = "\<lparr>df_Devices = st_devices s, df_LastPeer = st_lastPeer s\<rparr>"
  have brace: "take 1 (dropWhile (\<lambda>b. b \<in> {CHR '' '', CHR 0x09, CHR 0x0D, CHR 0x0A}) (MarshalIndent (devicesFile_json ?f)))
      = [CHR 0x7B]"
    by (simp add: MarshalIndent_def devicesFile_json_def)
  have ok: "list_all device_ok (st_devices s)" "utf8_valid (st_lastPeer s)"
    using assms(2) by (simp_all add: store_ok_def)
  have disk: "st_disk s = Some (MarshalIndent (devicesFile_json ?f))" using assms(1) by (simp add: synced_def)
  show ?thesis
    unfolding loadDevices_def disk using brace
    by (auto simp: devicesFile_unmarshal [OF ok] image_iff Let_def)
qed

lemma synced_save [simp]: "synced (snd (saveDevicesLocked True s))"
  by (simp add: saveDevicesLocked_def synced_def)

fun op_ok :: "bool \<times> string \<times> store_op \<Rightarrow> bool" where
  "op_ok (_, now, OpAdd d) \<longleftrightarrow> device_ok d \<and> utf8_valid now \<and> rfc3339_ok now"
| "op_ok (_, _, OpAddr fp a) \<longleftrightarrow> utf8_valid a"
| "op_ok (_, _, OpFcm fp t) \<longleftrightarrow> utf8_valid t"
| "op_ok (_, _, OpRNS fp r) \<longleftrightarrow> utf8_valid r"
| "op_ok (_, _, OpRemove q) \<longleftrightarrow> True"
| "op_ok (_, _, OpRename q n) \<longleftrightarrow> utf8_valid (trim_space n)"
| "op_ok (_, _, OpLast fp) \<longleftrightarrow> utf8_valid fp"

lemma list_all_update_first: "list_all Q xs \<Longrightarrow> (\<And>x. Q x \<Longrightarrow> Q (f x)) \<Longrightarrow> list_all Q (update_first P f xs)"
  by (induction xs) auto

lemma store_ok_save [simp]: "store_ok (snd (saveDevicesLocked wok s)) \<longleftrightarrow> store_ok s"
  by (simp add: store_ok_def)

lemma device_ok_updates:
  "device_ok d \<Longrightarrow> utf8_valid a \<Longrightarrow> device_ok (d\<lparr>d_Addr := a\<rparr>)"
  "device_ok d \<Longrightarrow> utf8_valid a \<Longrightarrow> device_ok (d\<lparr>d_FcmToken := a\<rparr>)"
  "device_ok d \<Longrightarrow> utf8_valid a \<Longrightarrow> device_ok (d\<lparr>d_RNS := a\<rparr>)"
  "device_ok d \<Longrightarrow> utf8_valid a \<Longrightarrow> device_ok (d\<lparr>d_Name := a\<rparr>)"
  "device_ok d \<Longrightarrow> utf8_valid a \<Longrightarrow> rfc3339_ok a \<Longrightarrow> device_ok (d\<lparr>d_PairedAt := a\<rparr>)"
  by (simp_all add: device_ok_def)

lemma store_ok_step:
  assumes "store_ok s" "op_ok op"
  shows "store_ok (run_op op s)"
proof -
  obtain wok now c where op: "op = (wok, now, c)" by (cases op)
  show ?thesis
  proof (cases c)
    case (OpAdd d)
    with assms op show ?thesis
      by (auto simp: AddDevice_def Let_def store_ok_def device_ok_updates intro!: list_all_update_first)
  next
    case (OpRename q n)
    with assms op show ?thesis
      by (cases rule: RenameDevice_cases [of wok q n s])
        (auto simp: store_ok_def list_all_iff device_ok_updates dest!: set_update_subset_insert [THEN subsetD])
  qed (use assms op in \<open>auto simp: UpdateAddr_def UpdateFcmToken_def UpdateRNS_def SetLastPeer_def RemoveDevice_snd
      store_ok_def device_ok_updates list_all_update_first split: option.splits\<close>,
      auto simp: list_all_iff)
qed

section \<open>Names\<close>

abbreviation names :: "store \<Rightarrow> string list" where
  "names s \<equiv> map d_Name (st_devices s)"

lemma RenameDevice_ok:
  assumes "fst (RenameDevice wok q n s) = None"
  shows "trim_space n \<in> set (names (snd (RenameDevice wok q n s)))"
proof (cases rule: RenameDevice_cases [of wok q n s])
  case (same e)
  let ?i = "length (takeWhile (\<lambda>d. \<not> matches q d) (st_devices s))"
  from assms have i: "?i < length (st_devices s)"
    by (auto simp: RenameDevice_def Let_def split: if_splits)
  show ?thesis
  proof (cases "d_Name (st_devices s ! ?i) = trim_space n")
    case True
    with i same show ?thesis by simp (metis image_eqI nth_mem)
  next
    case False
    with assms i have "snd (RenameDevice wok q n s) =
        snd (saveDevicesLocked wok (s\<lparr>st_devices := (st_devices s)[?i := (st_devices s ! ?i)\<lparr>d_Name := trim_space n\<rparr>]\<rparr>))"
      by (auto simp: RenameDevice_def Let_def split: if_splits prod.splits option.splits)
    then have "st_devices (snd (RenameDevice wok q n s)) = (st_devices s)[?i := (st_devices s ! ?i)\<lparr>d_Name := trim_space n\<rparr>]"
      by simp
    with i show ?thesis by (simp add: map_update set_update_memI)
  qed
next
  case (renamed i s')
  then show ?thesis by (simp add: map_update set_update_memI)
qed

lemma distinct_list_update: "distinct xs \<Longrightarrow> i < length xs \<Longrightarrow> \<forall>j<length xs. j \<noteq> i \<longrightarrow> xs ! j \<noteq> y \<Longrightarrow> distinct (xs[i := y])"
  by (rule distinct_list_update) (auto simp: in_set_conv_nth nth_list_update split: if_splits)

text \<open>
  A rename never touches trust and never creates an ambiguous name: the fingerprints
  stay as they are; names that were distinct stay distinct; a refused or failed rename leaves the
  store as it was, and a successful one leaves a device with the new name, trimmed of white space.
\<close>

lemma rename_safe:
  "fingerprints (snd (RenameDevice wok q n s)) = fingerprints s \<and>
   (distinct (names s) \<longrightarrow> distinct (names (snd (RenameDevice wok q n s)))) \<and>
   (fst (RenameDevice wok q n s) \<noteq> None \<longrightarrow> snd (RenameDevice wok q n s) = s) \<and>
   (fst (RenameDevice wok q n s) = None \<longrightarrow> trim_space n \<in> set (names (snd (RenameDevice wok q n s))))"
proof (intro conjI impI)
  assume d: "distinct (names s)"
  show "distinct (names (snd (RenameDevice wok q n s)))"
  proof (cases rule: RenameDevice_cases [of wok q n s])
    case (renamed i s')
    then show ?thesis using d by (simp add: map_update distinct_list_update)
  qed (use d in simp)
next
  assume "fst (RenameDevice wok q n s) \<noteq> None"
  then show "snd (RenameDevice wok q n s) = s"
    by (cases rule: RenameDevice_cases [of wok q n s]) auto
qed (rule fps_RenameDevice, rule RenameDevice_ok)

text \<open>
  A full fingerprint names the device that has it: when fingerprints are distinct, of
  one length of at least eight, and no device is named like the fingerprint looked up, \<^verbatim>\<open>Lookup\<close>
  returns exactly the device with that fingerprint. A shorter prefix finds a device only if its
  fingerprint starts with it and the prefix has at least eight characters.
\<close>

lemma lookup_by_fingerprint:
  assumes "fps_distinct s" "d \<in> set (st_devices s)" "\<forall>e\<in>set (st_devices s). length (d_Fingerprint e) = n" "8 \<le> n"
    "\<forall>e\<in>set (st_devices s). d_Name e \<noteq> d_Fingerprint d"
  shows "Lookup s (d_Fingerprint d) = Some d \<and>
    (Lookup s q = Some e \<longrightarrow> d_Name e = q \<or> 8 \<le> length q \<and> prefix q (d_Fingerprint e))"
proof (intro conjI impI)
  have "matches (d_Fingerprint d) e \<longleftrightarrow> e = d" if "e \<in> set (st_devices s)" for e
    using assms that distinct_fp_eq [OF assms(1) that assms(2)] by (auto simp: matches_def hasPrefix_def)
  then show "Lookup s (d_Fingerprint d) = Some d"
    unfolding Lookup_def using assms(2) by (intro find_unique) auto
next
  assume "Lookup s q = Some e"
  then have "matches q e" by (auto simp: Lookup_def find_Some_iff)
  then show "d_Name e = q \<or> 8 \<le> length q \<and> prefix q (d_Fingerprint e)"
    by (auto simp: matches_def hasPrefix_def prefix_def) (metis append_take_drop_id)
qed

end
