(* ===== verification/Pairing.thy ===== *)
theory Pairing
  imports Pem Config "HOL-Library.List_Lexorder" "HOL-Library.Char_ord"
begin

text \<open>
  Pairing data, \<^verbatim>\<open>internal/pairing\<close>: the payload of a pairing QR code, its URI (\<^verbatim>\<open>Encode\<close>,
  \<^verbatim>\<open>Decode\<close>), its terminal rendering and the six-digit code of a tap pairing, together with
  \<^verbatim>\<open>CertDERFromPEM\<close> and \<^verbatim>\<open>CertPEM\<close> of \<^verbatim>\<open>internal/config\<close>. The QR encoder is a library; its
  result, a size and the colour of every module, is an argument of the rendering.
\<close>

section \<open>Certificates\<close>

lemma pem_headers_length: "pem_headers s = Some (n, r) \<Longrightarrow> length r \<le> length s"
proof (induction s arbitrary: n r rule: pem_headers.induct)
  case (1 s)
  obtain line nxt where g: "getLine s = (line, nxt)" by fastforce
  show ?case
  proof (cases "s \<noteq> [] \<and> CHR '':'' \<in> set line")
    case True
    with "1.prems" g obtain k where "pem_headers nxt = Some (k, r)" by (subst (asm) pem_headers.simps) auto
    with "1.IH" True g have "length r \<le> length nxt" by fastforce
    with getLine_shorter [of s] True g show ?thesis by simp
  next
    case False
    with "1.prems" g show ?thesis by (subst (asm) pem_headers.simps) (auto split: if_splits)
  qed
qed

lemma getLine_le: "length (snd (getLine s)) \<le> length s"
  by (simp add: getLine_def Let_def)

lemma pem_block_length: "pem_block r post = Block ty data rest \<Longrightarrow> length rest \<le> length r"
proof -
  assume b: "pem_block r post = Block ty data rest"
  obtain l r1 where g: "getLine r = (l, r1)" by fastforce
  with b obtain n r2 k where h: "pem_headers r1 = Some (n, r2)" and rest: "rest = snd (getLine (drop k r2))"
    by (auto simp: pem_block_def Let_def split: if_splits option.splits prod.splits)
  have "length rest \<le> length r2" using getLine_le [of "drop k r2"] rest by simp
  also have "\<dots> \<le> length r1" using h by (rule pem_headers_length)
  also have "\<dots> \<le> length r" using getLine_le [of r] g by simp
  finally show ?thesis .
qed

lemma pem_Decode_shorter: "pem_Decode s = Some (blk, rest) \<Longrightarrow> length rest < length s"
proof (induction s rule: length_induct)
  case (1 s)
  from "1.prems" obtain e where e: "find_sub pemEnd s = Some e" by (subst (asm) pem_Decode.simps) (auto split: option.splits)
  let ?post = "drop (e + length pemEnd) s"
  have post: "length ?post < length s" using find_sub_bound [OF e] by (simp add: pemEnd_def)
  consider (again) "pem_Decode ?post = Some (blk, rest)"
    | (found) b ty data where "pem_block (drop (b + length ''-----BEGIN '') s) ?post = Block ty data rest"
    using "1.prems" e by (subst (asm) pem_Decode.simps) (auto simp: Let_def split: option.splits if_splits pem_try.splits)
  then show ?case
  proof cases
    case again
    with "1.IH" post have "length rest < length ?post" by blast
    with post show ?thesis by simp
  next
    case found
    from pem_block_length [OF this] have "length rest \<le> length s - (b + 11)" by simp
    with post show ?thesis by simp
  qed
qed

function CertDERFromPEM :: "bytes \<Rightarrow> bytes option" where
  "CertDERFromPEM s = (case pem_Decode s of
     None \<Rightarrow> None
   | Some ((type, data), rest) \<Rightarrow> if type = ''CERTIFICATE'' then Some data else CertDERFromPEM rest)"
  by pat_completeness auto
termination
  by (relation "measure length") (auto dest: pem_Decode_shorter)

declare CertDERFromPEM.simps [simp del]

definition CertPEM :: "store \<Rightarrow> bytes" where
  "CertPEM s = EncodeToMemory ''CERTIFICATE'' (st_certDER s)"

lemma CertDERFromPEM_encode: "der \<noteq> [] \<Longrightarrow> CertDERFromPEM (EncodeToMemory ''CERTIFICATE'' der) = Some der"
  by (simp add: CertDERFromPEM.simps pem_Decode_encode)

section \<open>The payload\<close>

definition URIScheme :: string where
  "URIScheme = ''adrop://pair?d=''"

definition compactPayloadVersion :: int where
  "compactPayloadVersion = 2"

definition compactRNSVersion :: int where
  "compactRNSVersion = 3"

definition rnsKeyLen :: nat where
  "rnsKeyLen = 64"

record payload =
  p_Version :: int
  p_Name :: string
  p_Fingerprint :: string
  p_CertPEM :: string
  p_Addr :: string
  p_RNS :: string

definition Payload0 :: payload where
  "Payload0 = \<lparr>p_Version = 0, p_Name = [], p_Fingerprint = [], p_CertPEM = [], p_Addr = [], p_RNS = []\<rparr>"

definition payload_fields :: "payload fields" where
  "payload_fields =
     [(''v'', set_int (\<lambda>i p. p\<lparr>p_Version := i\<rparr>)),
      (''n'', set_str (\<lambda>s p. p\<lparr>p_Name := s\<rparr>)),
      (''fp'', set_str (\<lambda>s p. p\<lparr>p_Fingerprint := s\<rparr>)),
      (''cert'', set_str (\<lambda>s p. p\<lparr>p_CertPEM := s\<rparr>)),
      (''addr'', set_str (\<lambda>s p. p\<lparr>p_Addr := s\<rparr>)),
      (''rns'', set_str (\<lambda>s p. p\<lparr>p_RNS := s\<rparr>))]"

datatype pair_error = BadRNSKey | EncodeVersion int | BadCert | BadFingerprint | BadName | BadAddr | CertTooLarge
  | NotPairingURI | BadBase64 | BadPayload | CompactVersion | MissingRNS | BadString | MissingFp | MissingCertLen
  | BadCertLen | FpMismatch string string

text \<open>The fields after the version byte, in the order of the wire.\<close>

definition compact :: "int \<Rightarrow> string \<Rightarrow> string \<Rightarrow> bytes \<Rightarrow> bytes \<Rightarrow> bytes \<Rightarrow> bytes" where
  "compact v name addr fp der rnsKey =
     [char_of (nat v)] @ [char_of (length name)] @ name @ [char_of (length addr)] @ addr @ fp
     @ be_put 2 (length der) @ der @ rnsKey"

definition Encode :: "payload \<Rightarrow> pair_error + string" where
  "Encode p =
     (let v0 = (if p_Version p = 0 then compactPayloadVersion else p_Version p);
          rns = (if p_RNS p = [] then Some (v0, [])
                 else case hex_decode (p_RNS p) of
                   None \<Rightarrow> None
                 | Some k \<Rightarrow> if length k \<noteq> rnsKeyLen then None else Some (compactRNSVersion, k)) in
      case rns of
        None \<Rightarrow> Inl BadRNSKey
      | Some (v, rnsKey) \<Rightarrow>
          if v \<noteq> compactPayloadVersion \<and> v \<noteq> compactRNSVersion then Inl (EncodeVersion v)
          else case CertDERFromPEM (p_CertPEM p) of
            None \<Rightarrow> Inl BadCert
          | Some der \<Rightarrow>
              (case hex_decode (p_Fingerprint p) of
                 None \<Rightarrow> Inl BadFingerprint
               | Some fp \<Rightarrow>
                   if length fp \<noteq> 32 then Inl BadFingerprint
                   else if length (p_Name p) = 0 \<or> length (p_Name p) > 255 then Inl BadName
                   else if length (p_Addr p) = 0 \<or> length (p_Addr p) > 255 then Inl BadAddr
                   else if length der > 65535 then Inl CertTooLarge
                   else Inr (URIScheme @ b64_encode RawURLEncoding (compact v (p_Name p) (p_Addr p) fp der rnsKey))))"

text \<open>A length byte and a string of that length.\<close>

definition readString :: "bytes \<Rightarrow> (string \<times> bytes) option" where
  "readString s = (case s of
     [] \<Rightarrow> None
   | c # t \<Rightarrow> (let n = of_char c in if n = 0 \<or> length t < n then None else Some (take n t, drop n t)))"

definition short :: "string \<Rightarrow> string" where
  "short s = (if length s \<le> 16 then s else take 16 s)"

definition decodeFields :: "int \<Rightarrow> bytes \<Rightarrow> bytes \<Rightarrow> pair_error + payload" where
  "decodeFields version rnsKey s =
     (case readString s of
        None \<Rightarrow> Inl BadString
      | Some (name, s1) \<Rightarrow>
          (case readString s1 of
             None \<Rightarrow> Inl BadString
           | Some (addr, s2) \<Rightarrow>
               if length s2 < 32 then Inl MissingFp
               else
                 (let fp = hex_encode (take 32 s2); s3 = drop 32 s2 in
                  if length s3 < 2 then Inl MissingCertLen
                  else
                    (let certLen = be_get (take 2 s3); der = drop 2 s3 in
                     if certLen = 0 \<or> certLen \<noteq> length der then Inl BadCertLen
                     else if Fingerprint der \<noteq> fp then Inl (FpMismatch (short (Fingerprint der)) (short fp))
                     else Inr \<lparr>p_Version = version, p_Name = name, p_Fingerprint = fp,
                       p_CertPEM = EncodeToMemory ''CERTIFICATE'' der, p_Addr = addr, p_RNS = hex_encode rnsKey\<rparr>))))"

definition decodeCompact :: "bytes \<Rightarrow> pair_error + payload" where
  "decodeCompact raw =
     (if length raw < 1 \<or> (of_char (raw ! 0) \<noteq> (2 :: nat) \<and> of_char (raw ! 0) \<noteq> (3 :: nat)) then Inl CompactVersion
      else
        (let version = int (of_char (raw ! 0)) in
         if version = compactRNSVersion then
           (if length raw < 1 + rnsKeyLen then Inl MissingRNS
            else
              (let k = length raw - rnsKeyLen in
               decodeFields version (drop k raw) (drop 1 (take k raw))))
         else decodeFields version [] (drop 1 raw)))"

definition Decode :: "string \<Rightarrow> pair_error + payload" where
  "Decode uri =
     (if \<not> prefix URIScheme uri then Inl NotPairingURI
      else case b64_decode RawURLEncoding (drop (length URIScheme) uri) of
        None \<Rightarrow> Inl BadBase64
      | Some raw \<Rightarrow>
          if 0 < length raw \<and> raw ! 0 \<noteq> CHR ''{'' then decodeCompact raw
          else case Option.bind (json_unmarshal raw) (\<lambda>v. decode_struct payload_fields v Payload0) of
            None \<Rightarrow> Inl BadPayload
          | Some p \<Rightarrow>
              (case CertDERFromPEM (p_CertPEM p) of
                 None \<Rightarrow> Inl BadCert
               | Some der \<Rightarrow>
                   if Fingerprint der \<noteq> p_Fingerprint p
                   then Inl (FpMismatch (short (Fingerprint der)) (short (p_Fingerprint p)))
                   else Inr p))"

section \<open>The pairing URI\<close>

lemma to_lower_Nil [simp]: "to_lower [] = []"
  by (simp add: to_lower_def)

lemma Fingerprint_length [simp]: "length (Fingerprint der) = 64"
  by (simp add: Fingerprint_def)

lemma readString_written: "0 < length a \<Longrightarrow> length a \<le> 255 \<Longrightarrow> readString (char_of (length a) # a @ r) = Some (a, r)"
  by (simp add: readString_def Let_def)

lemma decodeFields_written:
  assumes "0 < length name" "length name \<le> 255" "0 < length addr" "length addr \<le> 255" "length fp = 32"
    "der \<noteq> []" "length der \<le> 65535"
  shows "decodeFields v k (char_of (length name) # name @ char_of (length addr) # addr @ fp @ be_put 2 (length der) @ der) =
    (if Fingerprint der = hex_encode fp
     then Inr \<lparr>p_Version = v, p_Name = name, p_Fingerprint = hex_encode fp, p_CertPEM = EncodeToMemory ''CERTIFICATE'' der,
       p_Addr = addr, p_RNS = hex_encode k\<rparr>
     else Inl (FpMismatch (short (Fingerprint der)) (short (hex_encode fp))))"
proof -
  have "be_get (be_put 2 (length der)) = length der" using assms(7) by (intro be_get_put) simp
  with assms show ?thesis by (simp add: decodeFields_def readString_written Let_def)
qed

lemma decodeCompact_split:
  "v = 2 \<and> k = [] \<or> v = 3 \<and> length k = 64 \<Longrightarrow> decodeCompact (char_of (nat v) # f @ k) = decodeFields v k f"
  by (auto simp: decodeCompact_def Let_def compactRNSVersion_def rnsKeyLen_def take_Cons' drop_Cons')

lemma decodeCompact_written:
  assumes "0 < length name" "length name \<le> 255" "0 < length addr" "length addr \<le> 255" "length fp = 32"
    "der \<noteq> []" "length der \<le> 65535" "v = 2 \<and> k = [] \<or> v = 3 \<and> length k = 64"
  shows "decodeCompact (compact v name addr fp der k) =
    (if Fingerprint der = hex_encode fp
     then Inr \<lparr>p_Version = v, p_Name = name, p_Fingerprint = hex_encode fp, p_CertPEM = EncodeToMemory ''CERTIFICATE'' der,
       p_Addr = addr, p_RNS = hex_encode k\<rparr>
     else Inl (FpMismatch (short (Fingerprint der)) (short (hex_encode fp))))"
proof -
  let ?f = "char_of (length name) # name @ char_of (length addr) # addr @ fp @ be_put 2 (length der) @ der"
  have "compact v name addr fp der k = char_of (nat v) # ?f @ k" by (simp add: compact_def)
  then show ?thesis using decodeCompact_split [OF assms(8), of ?f] decodeFields_written [OF assms(1-7)] by simp
qed

text \<open>What \<^verbatim>\<open>Encode\<close> accepts and writes.\<close>

lemma Encode_cases:
  assumes "Encode p = Inr uri" "p_Version p = compactRNSVersion \<longrightarrow> p_RNS p \<noteq> []"
  obtains v k der fp where "uri = URIScheme @ b64_encode RawURLEncoding (compact v (p_Name p) (p_Addr p) fp der k)"
    "CertDERFromPEM (p_CertPEM p) = Some der" "hex_decode (p_Fingerprint p) = Some fp" "length fp = 32"
    "0 < length (p_Name p)" "length (p_Name p) \<le> 255" "0 < length (p_Addr p)" "length (p_Addr p) \<le> 255"
    "length der \<le> 65535" "v = 2 \<and> k = [] \<or> v = 3 \<and> length k = 64" "hex_encode k = to_lower (p_RNS p)"
    "v = (if p_RNS p = [] then 2 else 3)"
  using assms hex_encode_decode
  by (fastforce simp: Encode_def Let_def compactPayloadVersion_def compactRNSVersion_def rnsKeyLen_def to_lower_def
      split: if_splits option.splits prod.splits)

lemma Decode_uri: "raw \<noteq> [] \<Longrightarrow> raw ! 0 \<noteq> CHR ''{'' \<Longrightarrow> Decode (URIScheme @ b64_encode RawURLEncoding raw) = decodeCompact raw"
  by (simp add: Decode_def b64_decode_encode)

text \<open>
  Property C28. A pairing URI carries its payload: whatever payload \<^verbatim>\<open>Encode\<close> accepts (version 3 only
  with a Reticulum key), \<^verbatim>\<open>Decode\<close> of the URI gives it back (the version that was written, hexadecimal
  in lower case, the certificate as one PEM block) if the fingerprint is that of the certificate, and
  refuses the URI otherwise.
\<close>

theorem pairing_uri_roundtrip:
  assumes "Encode p = Inr uri" "p_Version p = compactRNSVersion \<longrightarrow> p_RNS p \<noteq> []"
    "CertDERFromPEM (p_CertPEM p) = Some der" "der \<noteq> []"
  shows "Decode uri =
    (if Fingerprint der = to_lower (p_Fingerprint p)
     then Inr (p\<lparr>p_Version := (if p_RNS p = [] then 2 else 3), p_Fingerprint := Fingerprint der,
       p_CertPEM := EncodeToMemory ''CERTIFICATE'' der, p_RNS := to_lower (p_RNS p)\<rparr>)
     else Inl (FpMismatch (short (Fingerprint der)) (short (to_lower (p_Fingerprint p)))))"
proof -
  from Encode_cases [OF assms(1,2)] obtain v k der' fp where e:
    "uri = URIScheme @ b64_encode RawURLEncoding (compact v (p_Name p) (p_Addr p) fp der' k)"
    "CertDERFromPEM (p_CertPEM p) = Some der'" "hex_decode (p_Fingerprint p) = Some fp" "length fp = 32"
    "0 < length (p_Name p)" "length (p_Name p) \<le> 255" "0 < length (p_Addr p)" "length (p_Addr p) \<le> 255"
    "length der' \<le> 65535" "v = 2 \<and> k = [] \<or> v = 3 \<and> length k = 64" "hex_encode k = to_lower (p_RNS p)"
    "v = (if p_RNS p = [] then 2 else 3)" by metis
  have der: "der' = der" using e(2) assms(3) by simp
  have first: "compact v (p_Name p) (p_Addr p) fp der k ! 0 = char_of (nat v)" by (simp add: compact_def)
  have "char_of (nat v) \<noteq> CHR ''{''" using e(10) by (auto dest!: arg_cong [where f = "of_char :: char \<Rightarrow> nat"])
  then have "Decode uri = decodeCompact (compact v (p_Name p) (p_Addr p) fp der k)"
    using e(1) der first by (simp only: Decode_uri) (simp add: compact_def Decode_uri)
  then show ?thesis
    using decodeCompact_written [OF e(5,6,7,8,4) assms(4) e(9) [unfolded der] e(10)] hex_encode_decode [OF e(3)] e(11,12)
    by (cases p) auto
qed

definition demo_payload :: payload where
  "demo_payload = \<lparr>p_Version = 0, p_Name = ''pc'', p_Fingerprint = Fingerprint ''x'',
     p_CertPEM = EncodeToMemory ''CERTIFICATE'' ''x'', p_Addr = ''10.0.0.2:53127'', p_RNS = []\<rparr>"

lemma demo_encodes: "\<exists>uri. Encode demo_payload = Inr uri"
  by (simp add: Encode_def demo_payload_def CertDERFromPEM_encode Fingerprint_def hex_decode_encode
      compactPayloadVersion_def compactRNSVersion_def Let_def)

theorem pairing_uri_roundtrip_witness:
  "\<exists>uri. Encode demo_payload = Inr uri \<and> Decode uri = Inr (demo_payload\<lparr>p_Version := 2\<rparr>)"
proof -
  obtain uri where uri: "Encode demo_payload = Inr uri" using demo_encodes by blast
  have "p_Version demo_payload = compactRNSVersion \<longrightarrow> p_RNS demo_payload \<noteq> []"
      "CertDERFromPEM (p_CertPEM demo_payload) = Some ''x''"
    by (simp_all add: demo_payload_def compactRNSVersion_def CertDERFromPEM_encode)
  from pairing_uri_roundtrip [OF uri this] uri show ?thesis
    by (auto simp: demo_payload_def Fingerprint_def)
qed

text \<open>
  Property C8. A decoded pairing URI pins the certificate it carries: whatever the URI, if \<^verbatim>\<open>Decode\<close>
  accepts it, the payload's certificate can be read and its SHA-256 is the fingerprint that will be
  trusted.
\<close>

theorem decoded_uri_pins_certificate:
  assumes "Decode uri = Inr p"
  shows "\<exists>der. CertDERFromPEM (p_CertPEM p) = Some der \<and> Fingerprint der = p_Fingerprint p"
proof -
  have fields: "\<exists>der. CertDERFromPEM (p_CertPEM p) = Some der \<and> Fingerprint der = p_Fingerprint p"
    if "decodeFields v k s = Inr p" for v k s
    using that by (auto simp: decodeFields_def Let_def CertDERFromPEM_encode
        split: option.splits prod.splits if_splits)
  show ?thesis
    using assms fields by (auto simp: Decode_def decodeCompact_def Let_def split: if_splits option.splits)
qed

theorem decoded_uri_pins_certificate_witness:
  "\<exists>uri p der. Decode uri = Inr p \<and> p_Name p = ''pc'' \<and> CertDERFromPEM (p_CertPEM p) = Some der \<and> Fingerprint der = p_Fingerprint p"
proof -
  let ?raw = "compact 2 ''pc'' ''h:1'' (sha256 ''x'') ''x'' []"
  have "decodeCompact ?raw = Inr \<lparr>p_Version = 2, p_Name = ''pc'', p_Fingerprint = hex_encode (sha256 ''x''),
      p_CertPEM = EncodeToMemory ''CERTIFICATE'' ''x'', p_Addr = ''h:1'', p_RNS = []\<rparr>"
    by (subst decodeCompact_written) (simp_all add: Fingerprint_def)
  moreover have "?raw ! 0 \<noteq> CHR ''{''"
    by (auto simp: compact_def dest!: arg_cong [where f = "of_char :: char \<Rightarrow> nat"])
  moreover have "?raw \<noteq> []" by (simp add: compact_def)
  ultimately have "Decode (URIScheme @ b64_encode RawURLEncoding ?raw) = Inr \<lparr>p_Version = 2, p_Name = ''pc'',
      p_Fingerprint = hex_encode (sha256 ''x''), p_CertPEM = EncodeToMemory ''CERTIFICATE'' ''x'', p_Addr = ''h:1'', p_RNS = []\<rparr>"
    using Decode_uri [of ?raw] by metis
  from decoded_uri_pins_certificate [OF this] this show ?thesis by fastforce
qed

section \<open>The code of a tap pairing\<close>

definition pad6 :: "nat \<Rightarrow> string" where
  "pad6 n = replicate (6 - length (show_nat n)) (CHR ''0'') @ show_nat n"

definition Code :: "string \<Rightarrow> string \<Rightarrow> string" where
  "Code fpA fpB =
     (let (a, b) = (if fpB < fpA then (fpB, fpA) else (fpA, fpB));
          sum = sha256 (''adrop-pair-code'' @ [CHR 0x00] @ a @ [CHR 0x00] @ b) in
      pad6 (be_get (take 4 sum) mod 1000000))"

lemma show_nat_length: "n < 10 ^ k \<Longrightarrow> 0 < k \<Longrightarrow> length (show_nat n) \<le> k"
proof (induction k arbitrary: n)
  case (Suc k)
  show ?case
  proof (cases "n < 10")
    case False
    then have "0 < k" "n div 10 < 10 ^ k" using Suc.prems(1) by (cases k, simp, simp, simp add: less_mult_imp_div_less mult.commute)
    from Suc.IH [OF this(2,1)] False show ?thesis by (subst show_nat.simps) simp
  qed (simp add: show_nat.simps [of n])
qed simp

lemma pad6_digits: "n < 1000000 \<Longrightarrow> length (pad6 n) = 6 \<and> list_all is_digit (pad6 n)"
  using show_nat_length [of n 6] show_nat_digits [of n] by (auto simp: pad6_def list_all_iff is_digit_def)

lemma Code_commute: "Code a b = Code b a"
  by (cases a b rule: linorder_cases) (auto simp: Code_def Let_def)

text \<open>
  Both screens of a tap pairing show the same six digits: the code does not depend on
  which device computes it, and is always six decimal digits.
\<close>

lemma pairing_code_agrees: "Code a b = Code b a \<and> length (Code a b) = 6 \<and> list_all is_digit (Code a b)"
  using Code_commute [of a b] pad6_digits by (auto simp: Code_def Let_def split: prod.splits)

section \<open>Rendering in a terminal\<close>

text \<open>The module at a position of the code with its quiet zone of two modules.\<close>

definition qr_at :: "nat \<Rightarrow> (nat \<Rightarrow> nat \<Rightarrow> bool) \<Rightarrow> nat \<Rightarrow> nat \<Rightarrow> bool" where
  "qr_at sz black x y =
     (if x < 2 \<or> y < 2 \<or> x \<ge> sz + 2 \<or> y \<ge> sz + 2 then False else black (x - 2) (y - 2))"

definition qr_cell :: "bool \<Rightarrow> bool \<Rightarrow> string" where
  "qr_cell t b =
     (if t \<and> b then [CHR 0xE2, CHR 0x96, CHR 0x88]
      else if t then [CHR 0xE2, CHR 0x96, CHR 0x80]
      else if b then [CHR 0xE2, CHR 0x96, CHR 0x84]
      else '' '')"

definition qr_line :: "nat \<Rightarrow> (nat \<Rightarrow> nat \<Rightarrow> bool) \<Rightarrow> nat \<Rightarrow> string" where
  "qr_line sz black y =
     (let dim = sz + 4 in
      concat (map (\<lambda>x. qr_cell (qr_at sz black x y) (y + 1 < dim \<and> qr_at sz black x (y + 1))) [0..<dim]))"

definition RenderTerminal :: "nat \<Rightarrow> (nat \<Rightarrow> nat \<Rightarrow> bool) \<Rightarrow> string" where
  "RenderTerminal sz black =
     concat (map (\<lambda>j. qr_line sz black (2 * j) @ [newline]) [0..<(sz + 5) div 2])"

text \<open>What a reader of the screen sees: the upper and lower half of every character.\<close>

fun qr_scan :: "string \<Rightarrow> (bool \<times> bool) list" where
  "qr_scan (a # b # c # s) =
     (if a = CHR 0xE2 then (c = CHR 0x88 \<or> c = CHR 0x80, c = CHR 0x88 \<or> c = CHR 0x84) # qr_scan s
      else (False, False) # qr_scan (b # c # s))"
| "qr_scan (a # s) = (False, False) # qr_scan s"
| "qr_scan [] = []"

definition qr_shown :: "string \<Rightarrow> nat \<Rightarrow> nat \<Rightarrow> bool" where
  "qr_shown text x y = (let cell = qr_scan (go_split newline text ! (y div 2)) ! x in if even y then fst cell else snd cell)"

lemma qr_scan_cell: "qr_scan (qr_cell t b @ s) = (t, b) # qr_scan s"
  by (cases s; cases "tl s") (auto simp: qr_cell_def)

lemma qr_scan_line: "qr_scan (concat (map (\<lambda>x. qr_cell (f x) (g x)) xs)) = map (\<lambda>x. (f x, g x)) xs"
  by (induction xs) (simp_all add: qr_scan_cell)

lemma qr_line_newline: "newline \<notin> set (qr_line sz black y)"
  by (auto simp: qr_line_def qr_cell_def Let_def split: if_splits)

lemma go_split_lines:
  "(\<And>j. newline \<notin> set (l j)) \<Longrightarrow> i < length js \<Longrightarrow> go_split newline (concat (map (\<lambda>j. l j @ [newline]) js)) ! i = l (js ! i)"
proof (induction js arbitrary: i)
  case (Cons j js)
  then show ?case by (cases i) (simp_all add: go_split_append)
qed simp

text \<open>
  The pairing code on a terminal is the pairing code: every module of the QR code and of
  its quiet zone is shown, in its place and colour, by the half-block characters.
\<close>

lemma qr_render_shows:
  "x < sz + 4 \<Longrightarrow> y < sz + 4 \<Longrightarrow> qr_shown (RenderTerminal sz black) x y = qr_at sz black x y"
proof -
  assume b: "x < sz + 4" "y < sz + 4"
  then have "y div 2 < (sz + 5) div 2" by linarith
  then have line: "go_split newline (RenderTerminal sz black) ! (y div 2) = qr_line sz black (2 * (y div 2))"
    using go_split_lines [of "\<lambda>j. qr_line sz black (2 * j)" "y div 2" "[0..<(sz + 5) div 2]"] qr_line_newline
    by (simp add: RenderTerminal_def)
  have "odd y \<Longrightarrow> Suc (2 * (y div 2)) = y" "even y \<Longrightarrow> 2 * (y div 2) = y" by simp_all
  with b show ?thesis
    unfolding qr_shown_def line qr_line_def Let_def qr_scan_line by (auto simp: nth_append)
qed

end
