(* ===== verification/Net_Addr.thy ===== *)
theory Net_Addr
  imports Go_Strings
begin

text \<open>
  Go's \<^verbatim>\<open>net\<close> package as far as the program uses it: \<^verbatim>\<open>SplitHostPort\<close>, \<^verbatim>\<open>JoinHostPort\<close>,
  \<^verbatim>\<open>ParseIP\<close> (dotted IPv4 and IPv6 text, no zones, as sixteen bytes) with \<^verbatim>\<open>IsLoopback\<close> and
  \<^verbatim>\<open>IsUnspecified\<close>.
\<close>

section \<open>Host and port\<close>

abbreviation colon :: char where
  "colon \<equiv> CHR '':''"

definition before_last :: "char \<Rightarrow> string \<Rightarrow> string" where
  "before_last c s = rev (tl (dropWhile (\<lambda>x. x \<noteq> c) (rev s)))"

definition after_last :: "char \<Rightarrow> string \<Rightarrow> string" where
  "after_last c s = rev (takeWhile (\<lambda>x. x \<noteq> c) (rev s))"

definition SplitHostPort :: "string \<Rightarrow> (string \<times> string) option" where
  "SplitHostPort hp =
     (if colon \<notin> set hp then None
      else if hd hp = CHR ''['' then
        (if CHR '']'' \<notin> set hp then None
         else
           (let host = tl (takeWhile (\<lambda>c. c \<noteq> CHR '']'') hp);
                rest = tl (dropWhile (\<lambda>c. c \<noteq> CHR '']'') hp) in
            if rest = [] \<or> hd rest \<noteq> colon \<or> colon \<in> set (tl rest) then None
            else if CHR ''['' \<in> set (tl hp) \<or> CHR '']'' \<in> set rest then None
            else Some (host, tl rest)))
      else if colon \<in> set (before_last colon hp) then None
      else if CHR ''['' \<in> set hp \<or> CHR '']'' \<in> set hp then None
      else Some (before_last colon hp, after_last colon hp))"

definition JoinHostPort :: "string \<Rightarrow> string \<Rightarrow> string" where
  "JoinHostPort host port =
     (if colon \<in> set host then ''['' @ host @ '']:'' @ port else host @ '':'' @ port)"

lemma split_at:
  "c \<notin> set p \<Longrightarrow> dropWhile (\<lambda>x. x \<noteq> c) (p @ c # h) = c # h" "c \<notin> set p \<Longrightarrow> takeWhile (\<lambda>x. x \<noteq> c) (p @ c # h) = p"
  by (induction p) auto

lemma set_tl: "set (tl xs) \<subseteq> set xs"
  by (cases xs) auto

lemma last_colon: "c \<notin> set p \<Longrightarrow> before_last c (h @ c # p) = h \<and> after_last c (h @ c # p) = p"
proof -
  assume "c \<notin> set p"
  then show ?thesis using split_at [of c "rev p" "rev h"] by (simp add: before_last_def after_last_def)
qed

definition plain_host :: "string \<Rightarrow> bool" where
  "plain_host h \<longleftrightarrow> CHR ''['' \<notin> set h \<and> CHR '']'' \<notin> set h"

lemma SplitHostPort_Join:
  assumes "plain_host h" "plain_host p" "colon \<notin> set p"
  shows "SplitHostPort (JoinHostPort h p) = Some (h, p)"
proof (cases "colon \<in> set h")
  case True
  have "takeWhile (\<lambda>c. c \<noteq> CHR '']'') (h @ CHR '']'' # colon # p) = h" "dropWhile (\<lambda>c. c \<noteq> CHR '']'') (h @ CHR '']'' # colon # p) = CHR '']'' # colon # p"
    using assms(1) by (auto simp: plain_host_def takeWhile_append dropWhile_append)
  with True assms show ?thesis by (simp add: SplitHostPort_def JoinHostPort_def plain_host_def)
next
  case False
  have "hd (h @ colon # p) \<noteq> CHR ''[''" using assms(1) by (cases h) (auto simp: plain_host_def)
  with False assms last_colon [OF assms(3), of h] show ?thesis by (simp add: SplitHostPort_def JoinHostPort_def plain_host_def)
qed

text \<open>Text put together by \<^verbatim>\<open>SplitHostPort\<close> has a port without colons.\<close>

lemma SplitHostPort_port: "SplitHostPort s = Some (h, p) \<Longrightarrow> colon \<notin> set p \<and> plain_host p \<and> plain_host h"
proof -
  assume s: "SplitHostPort s = Some (h, p)"
  have "colon \<notin> set (after_last colon s)" by (auto simp: after_last_def dest: set_takeWhileD)
  moreover have "set (after_last c s) \<subseteq> set s" "set (before_last c s) \<subseteq> set s" for c
    by (auto simp: after_last_def before_last_def dest: set_takeWhileD dest!: subsetD [OF set_tl] set_dropWhileD)
  moreover have "set (tl (takeWhile (\<lambda>c. c \<noteq> CHR '']'') s)) \<subseteq> set (tl s) - {CHR '']''}"
    by (cases s) (auto dest: set_takeWhileD)
  moreover have "set (tl (dropWhile (\<lambda>c. c \<noteq> CHR '']'') s)) \<subseteq> set (tl s)"
    by (cases s) (auto dest!: subsetD [OF set_tl] dest: set_dropWhileD)
  moreover note set_tl [of "tl (dropWhile (\<lambda>c. c \<noteq> CHR '']'') s)"]
  ultimately show ?thesis
    using s unfolding SplitHostPort_def plain_host_def Let_def by (auto split: if_splits)
qed

section \<open>IP addresses\<close>

type_synonym ip = "nat list"

definition parse_octet :: "string \<Rightarrow> nat option" where
  "parse_octet s =
     (if s = [] \<or> \<not> list_all is_digit s \<or> (1 < length s \<and> hd s = CHR ''0'') \<or> 255 < nat_of_digits s then None
      else Some (nat_of_digits s))"

definition parse_v4 :: "string \<Rightarrow> nat list option" where
  "parse_v4 s = (case map parse_octet (go_split (CHR ''.'') s) of
     [Some a, Some b, Some c, Some d] \<Rightarrow> Some [a, b, c, d]
   | _ \<Rightarrow> None)"

definition is_hex :: "char \<Rightarrow> bool" where
  "is_hex c \<longleftrightarrow> hex_val c \<noteq> None"

definition hex_num :: "string \<Rightarrow> nat" where
  "hex_num s = foldl (\<lambda>n c. 16 * n + (case hex_val c of Some v \<Rightarrow> v | None \<Rightarrow> 0)) 0 s"

text \<open>
  The groups of an IPv6 address: the bytes so far, where the ellipsis was, what is left to parse.
\<close>

fun v6_groups :: "nat \<Rightarrow> nat list \<Rightarrow> nat option \<Rightarrow> string \<Rightarrow> (nat list \<times> nat option \<times> string) option" where
  "v6_groups 0 acc ell s = Some (acc, ell, s)"
| "v6_groups (Suc n) acc ell s =
     (let d = takeWhile is_hex s; r = dropWhile is_hex s; acc' = acc @ [hex_num d div 256, hex_num d mod 256] in
      if d = [] \<or> 4 < length d then None
      else if r \<noteq> [] \<and> hd r = CHR ''.'' then
        (if (ell = None \<and> length acc \<noteq> 12) \<or> 16 < length acc + 4 then None
         else map_option (\<lambda>b. (acc @ b, ell, [])) (parse_v4 s))
      else if r = [] then Some (acc', ell, [])
      else if hd r \<noteq> colon \<or> tl r = [] then None
      else if hd (tl r) = colon then
        (if ell \<noteq> None then None
         else if tl (tl r) = [] then Some (acc', Some (length acc'), [])
         else v6_groups n acc' (Some (length acc')) (tl (tl r)))
      else v6_groups n acc' ell (tl r))"

definition parse_v6 :: "string \<Rightarrow> ip option" where
  "parse_v6 s =
     (if s = ''::'' then Some (replicate 16 0)
      else case (if prefix ''::'' s then v6_groups 8 [] (Some 0) (drop 2 s) else v6_groups 8 [] None s) of
        Some (acc, ell, []) \<Rightarrow>
          (case ell of
             None \<Rightarrow> if length acc < 16 then None else Some acc
           | Some e \<Rightarrow> if length acc < 16 then Some (take e acc @ replicate (16 - length acc) 0 @ drop e acc) else None)
      | _ \<Rightarrow> None)"

definition ParseIP :: "string \<Rightarrow> ip option" where
  "ParseIP s =
     (if CHR ''%'' \<in> set s then None
      else case dropWhile (\<lambda>c. c \<noteq> CHR ''.'' \<and> c \<noteq> colon) s of
        [] \<Rightarrow> None
      | c # _ \<Rightarrow> if c = CHR ''.'' then map_option (\<lambda>b. replicate 10 0 @ [255, 255] @ b) (parse_v4 s) else parse_v6 s)"

definition v4_mapped :: "ip \<Rightarrow> bool" where
  "v4_mapped i \<longleftrightarrow> take 12 i = replicate 10 0 @ [255, 255]"

definition IsLoopback :: "ip \<Rightarrow> bool" where
  "IsLoopback i \<longleftrightarrow> (if v4_mapped i then i ! 12 = 127 else i = replicate 15 0 @ [1])"

definition IsUnspecified :: "ip \<Rightarrow> bool" where
  "IsUnspecified i \<longleftrightarrow> i = replicate 16 0 \<or> i = replicate 10 0 @ [255, 255, 0, 0, 0, 0]"

end
