(* ===== verification/Daemon.thy ===== *)
theory Daemon
  imports Pairing Net_Addr Receive "HOL-Library.AList"
begin

text \<open>
  The daemon's state and the operations on it that are not a transfer: construction and the
  advertised address (\<^verbatim>\<open>daemon.go\<close>), the devices seen on the network and event subscriptions, the
  pairing window (\<^verbatim>\<open>pairing.go\<close>). A pairing session is a pointer in the program, compared by
  identity; here it is an index into the list of all sessions opened so far. Mutex-protected blocks
  are single steps. A subscriber is known by a number; its buffered channel holds the events not yet
  read. \<^verbatim>\<open>dm_rnsKey\<close> is the public key of the Reticulum node, empty when there is no node;
  \<^verbatim>\<open>dm_queueFile\<close> is the content of \<^verbatim>\<open>queue.json\<close> if there is one, \<^verbatim>\<open>dm_pongs\<close> the identifiers whose
  answer is awaited.
\<close>

section \<open>State\<close>

record nearby_info =
  nb_Name :: string
  nb_Addr :: string
  nb_Fingerprint :: string
  nb_Paired :: bool

record pairSession =
  ps_expectFingerprint :: string
  ps_expectName :: string
  ps_done :: bool
  ps_paired :: string

text \<open>A tap pairing waiting for an answer.\<close>

record pendingPair =
  pp_info :: pair_info
  pp_rns :: string

text \<open>A clipboard text arriving through the hubs; a missing part is \<^verbatim>\<open>nil\<close> in the program.\<close>

record clipParts =
  cp_parts :: "bytes option list"
  cp_got :: int

record daemon =
  dm_store :: store
  dm_name :: string
  dm_listenIP :: string
  dm_port :: int
  dm_tcpAddr :: string
  dm_autoIP :: bool
  dm_relayAddr :: string
  dm_downloadDir :: string
  dm_tapPair :: bool
  dm_tapPairs :: "(string \<times> pendingPair) list"
  dm_rnsEnabled :: bool
  dm_queueAll :: bool
  dm_rnsKey :: string
  dm_sessions :: "pairSession list"
  dm_pairWindow :: "nat option"
  dm_nearby :: "(string \<times> nearby_info) list"
  dm_fs :: fs
  dm_slots :: "string list"
  dm_subs :: "(nat \<times> event list) list"
  dm_kicked :: bool
  dm_queueFile :: "bytes option"
  dm_clips :: "(string \<times> clipParts) list"
  dm_pongs :: "string list"

definition DefaultPort :: int where
  "DefaultPort = 53127"

record options =
  opt_Store :: "store option"
  opt_Name :: string
  opt_Port :: int
  opt_AdvertiseIP :: string
  opt_ListenIP :: string
  opt_DownloadDir :: string
  opt_RelayAddr :: string
  opt_TapPair :: bool
  opt_Reticulum :: bool
  opt_QueueUnreachable :: bool

text \<open>
  What \<^verbatim>\<open>New\<close> asks the system: host name, home directory, \<^verbatim>\<open>ADROP_RELAY\<close>, the detected LAN
  address, and the files present.
\<close>

record sys_env =
  sys_hostname :: string
  sys_home :: string
  sys_relay :: string
  sys_lanIP :: string
  sys_fs :: fs
  sys_queueFile :: "bytes option"

definition New :: "sys_env \<Rightarrow> options \<Rightarrow> daemon option" where
  "New sys opt = (case opt_Store opt of
     None \<Rightarrow> None
   | Some st \<Rightarrow>
       (let name = (if opt_Name opt \<noteq> [] then opt_Name opt
                    else if sys_hostname sys \<noteq> [] then sys_hostname sys else ''adrop-pc'');
            port = (if opt_Port opt = 0 then DefaultPort else opt_Port opt);
            dl = (if opt_DownloadDir opt = [] then sys_home sys @ ''/Downloads'' else opt_DownloadDir opt);
            ip = (if opt_AdvertiseIP opt = [] then sys_lanIP sys else opt_AdvertiseIP opt);
            relay = (if opt_RelayAddr opt = [] then sys_relay sys else opt_RelayAddr opt) in
        Some \<lparr>dm_store = st, dm_name = name, dm_listenIP = opt_ListenIP opt, dm_port = port,
          dm_tcpAddr = JoinHostPort ip (show_int port), dm_autoIP = (opt_AdvertiseIP opt = []),
          dm_relayAddr = relay, dm_downloadDir = dl, dm_tapPair = opt_TapPair opt, dm_tapPairs = [],
          dm_rnsEnabled = opt_Reticulum opt, dm_queueAll = opt_QueueUnreachable opt, dm_rnsKey = [],
          dm_sessions = [], dm_pairWindow = None, dm_nearby = [], dm_fs = sys_fs sys, dm_slots = [],
          dm_subs = [], dm_kicked = False, dm_queueFile = sys_queueFile sys, dm_clips = [], dm_pongs = []\<rparr>))"

section \<open>The advertised address\<close>

definition loopback :: string where
  "loopback = ''127.0.0.1''"

text \<open>
  \<^verbatim>\<open>detectLANIP\<close>: the local address of a UDP socket towards the internet if one opens, else the
  first IPv4 address of an interface that is not loopback.
\<close>

definition detectLANIP :: "string option \<Rightarrow> (bool \<times> string option) list \<Rightarrow> string" where
  "detectLANIP udp ifs = (case udp of
     Some ip \<Rightarrow> ip
   | None \<Rightarrow> (case [v4. (lo, Some v4) \<leftarrow> ifs, \<not> lo] of [] \<Rightarrow> loopback | v4 # _ \<Rightarrow> v4))"

definition refreshAdvertiseAddr :: "string \<Rightarrow> daemon \<Rightarrow> daemon" where
  "refreshAdvertiseAddr ip d =
     (if \<not> dm_autoIP d then d
      else if ip = loopback then d
      else d\<lparr>dm_tcpAddr := JoinHostPort ip (show_int (dm_port d))\<rparr>)"

definition advertiseAddr :: "string \<Rightarrow> daemon \<Rightarrow> string \<times> daemon" where
  "advertiseAddr ip d =
     (if dm_autoIP d \<and> (\<exists>p. SplitHostPort (dm_tcpAddr d) = Some (loopback, p))
      then (let d' = refreshAdvertiseAddr ip d in (dm_tcpAddr d', d'))
      else (dm_tcpAddr d, d))"

lemma advertiseAddr_code [code]:
  "advertiseAddr ip d =
     (case SplitHostPort (dm_tcpAddr d) of
        Some (h, p) \<Rightarrow>
          if dm_autoIP d \<and> h = loopback
          then (let d' = refreshAdvertiseAddr ip d in (dm_tcpAddr d', d')) else (dm_tcpAddr d, d)
      | None \<Rightarrow> (dm_tcpAddr d, d))"
  by (auto simp: advertiseAddr_def split: option.splits)

definition PairingURI :: "string \<Rightarrow> daemon \<Rightarrow> (pair_error + string) \<times> daemon" where
  "PairingURI ip d0 =
     (let d1 = refreshAdvertiseAddr ip d0;
          (addr, d2) = advertiseAddr ip d1 in
      (Encode \<lparr>p_Version = 2, p_Name = dm_name d2, p_Fingerprint = Store_Fingerprint (dm_store d2),
         p_CertPEM = CertPEM (dm_store d2), p_Addr = addr, p_RNS = dm_rnsKey d2\<rparr>, d2))"

section \<open>Devices on the network\<close>

definition kickQueue :: "daemon \<Rightarrow> daemon" where
  "kickQueue d = d\<lparr>dm_kicked := True\<rparr>"

definition AddNearby :: "bool \<Rightarrow> string \<Rightarrow> string \<Rightarrow> string \<Rightarrow> daemon \<Rightarrow> daemon" where
  "AddNearby wok name addr fp d =
     (if fp = Store_Fingerprint (dm_store d) then d
      else
        (let n = \<lparr>nb_Name = name, nb_Addr = addr, nb_Fingerprint = fp, nb_Paired = False\<rparr>;
             d1 = d\<lparr>dm_nearby := AList.update name n (dm_nearby d),
                    dm_store := snd (UpdateAddr wok fp addr (dm_store d))\<rparr> in
         if IsTrusted (dm_store d1) fp \<noteq> None then kickQueue d1 else d1))"

definition RemoveNearby :: "string \<Rightarrow> daemon \<Rightarrow> daemon" where
  "RemoveNearby name d = d\<lparr>dm_nearby := AList.delete name (dm_nearby d)\<rparr>"

text \<open>The callbacks of \<^verbatim>\<open>mdns.Browse\<close> in \<^verbatim>\<open>startMDNS\<close> and of \<^verbatim>\<open>refreshAddrViaMDNS\<close>.\<close>

definition mdns_found :: "bool \<Rightarrow> string \<Rightarrow> string \<Rightarrow> string \<Rightarrow> daemon \<Rightarrow> daemon" where
  "mdns_found wok name addr fp d =
     (if fp = Store_Fingerprint (dm_store d) then d
      else
        (let d1 = d\<lparr>dm_nearby := AList.update name
                      \<lparr>nb_Name = name, nb_Addr = addr, nb_Fingerprint = fp, nb_Paired = False\<rparr> (dm_nearby d)\<rparr> in
         if IsTrusted (dm_store d1) fp = None then d1
         else d1\<lparr>dm_store := snd (UpdateAddr wok fp addr (dm_store d1))\<rparr>))"

definition mdns_refresh :: "bool \<Rightarrow> string \<Rightarrow> string \<times> string \<times> string \<Rightarrow> bool \<times> daemon \<Rightarrow> bool \<times> daemon" where
  "mdns_refresh wok want rec seen_d =
     (let (name, addr, fp) = rec; (seen, d) = seen_d in
      if fp = Store_Fingerprint (dm_store d) then (seen, d)
      else if IsTrusted (dm_store d) fp = None then (seen, d)
      else (seen \<or> (want \<noteq> [] \<and> fp = want), d\<lparr>dm_store := snd (UpdateAddr wok fp addr (dm_store d))\<rparr>))"

definition refreshAddrViaMDNS :: "bool \<Rightarrow> (string \<times> string \<times> string) list \<Rightarrow> string \<Rightarrow> daemon \<Rightarrow> bool \<times> daemon" where
  "refreshAddrViaMDNS wok records want d = fold (mdns_refresh wok want) records (False, d)"

definition Nearby :: "daemon \<Rightarrow> nearby_info list" where
  "Nearby d = sort_key nb_Name
     (map (\<lambda>(_, n). n\<lparr>nb_Paired := (IsTrusted (dm_store d) (nb_Fingerprint n) \<noteq> None)\<rparr>) (dm_nearby d))"

section \<open>Events\<close>

definition sub_capacity :: nat where
  "sub_capacity = 32"

definition subscribe :: "daemon \<Rightarrow> nat \<times> daemon" where
  "subscribe d =
     (let ch = Suc (Max (set (0 # map fst (dm_subs d)))) in
      (ch, d\<lparr>dm_subs := (ch, []) # dm_subs d\<rparr>))"

definition unsubscribe :: "nat \<Rightarrow> daemon \<Rightarrow> daemon" where
  "unsubscribe ch d = d\<lparr>dm_subs := AList.delete ch (dm_subs d)\<rparr>"

definition broadcast :: "event \<Rightarrow> daemon \<Rightarrow> daemon" where
  "broadcast e d = d\<lparr>dm_subs := map (\<lambda>(ch, s).
     (ch, if length s < sub_capacity then s @ [e] else s)) (dm_subs d)\<rparr>"

section \<open>The pairing window\<close>

definition OpenPairWindow :: "string \<Rightarrow> string \<Rightarrow> daemon \<Rightarrow> nat \<times> daemon" where
  "OpenPairWindow fingerprint name d =
     (let ps = length (dm_sessions d) in
      (ps, d\<lparr>dm_sessions := dm_sessions d @ [\<lparr>ps_expectFingerprint = fingerprint, ps_expectName = name,
               ps_done = False, ps_paired = []\<rparr>],
             dm_pairWindow := Some ps\<rparr>))"

definition closePairWindow :: "nat \<Rightarrow> daemon \<Rightarrow> daemon" where
  "closePairWindow ps d =
     d\<lparr>dm_pairWindow := (if dm_pairWindow d = Some ps then None else dm_pairWindow d),
       dm_sessions := (dm_sessions d)[ps := (dm_sessions d ! ps)\<lparr>ps_done := True\<rparr>]\<rparr>"

definition pairWindowDone :: "daemon \<Rightarrow> nat option" where
  "pairWindowDone d = dm_pairWindow d"

definition expects :: "daemon \<Rightarrow> nat \<Rightarrow> string \<Rightarrow> bool" where
  "expects d ps fp \<longleftrightarrow>
     (let e = ps_expectFingerprint (dm_sessions d ! ps) in e = [] \<or> e = fp)"

definition Daemon_IsTrusted :: "daemon \<Rightarrow> string \<Rightarrow> string option" where
  "Daemon_IsTrusted d fp = (case IsTrusted (dm_store d) fp of
     Some name \<Rightarrow> Some name
   | None \<Rightarrow> (case dm_pairWindow d of
       Some ps \<Rightarrow> if expects d ps fp then Some (ps_expectName (dm_sessions d ! ps)) else None
     | None \<Rightarrow> None))"

definition resolvePeerAddr :: "daemon \<Rightarrow> string \<Rightarrow> string \<Rightarrow> string" where
  "resolvePeerAddr d advertised remote =
     (let remoteHost = (case SplitHostPort remote of Some (h, _) \<Rightarrow> h | None \<Rightarrow> []) in
      case SplitHostPort advertised of
        None \<Rightarrow> JoinHostPort remoteHost (show_int (dm_port d))
      | Some (host, port) \<Rightarrow>
          if port = [] \<or> port = ''0'' then JoinHostPort remoteHost (show_int (dm_port d))
          else
            (let src = ParseIP remoteHost; ip = ParseIP host;
                 useSrc = (case src of Some a \<Rightarrow> \<not> IsLoopback a | None \<Rightarrow> False) \<or>
                          (case ip of None \<Rightarrow> True | Some a \<Rightarrow> IsUnspecified a) in
             JoinHostPort (if useSrc then remoteHost else host) port))"

text \<open>\<^verbatim>\<open>tryCompletePairing\<close>, run without another connection's steps in between.\<close>

definition new_device :: "daemon \<Rightarrow> string \<Rightarrow> string \<Rightarrow> string \<Rightarrow> string \<Rightarrow> string \<Rightarrow> device" where
  "new_device d now fp name advertised remote =
     Device0\<lparr>d_Name := name, d_Fingerprint := fp, d_Addr := resolvePeerAddr d advertised remote, d_PairedAt := now\<rparr>"

definition tryCompletePairing ::
  "bool \<Rightarrow> string \<Rightarrow> string \<Rightarrow> string \<Rightarrow> string \<Rightarrow> string \<Rightarrow> daemon \<Rightarrow> bool \<times> daemon" where
  "tryCompletePairing wok now fp name advertised remote d =
     (case dm_pairWindow d of
        None \<Rightarrow> (False, d)
      | Some ps \<Rightarrow>
          if \<not> expects d ps fp then (False, d)
          else if IsTrusted (dm_store d) fp \<noteq> None then (False, d)
          else
            (let (err, st) = AddDevice wok now (new_device d now fp name advertised remote) (dm_store d);
                 d1 = d\<lparr>dm_store := st\<rparr> in
             if err \<noteq> None then (False, d1)
             else
               (True, closePairWindow ps
                  (d1\<lparr>dm_sessions := (dm_sessions d1)[ps := (dm_sessions d1 ! ps)\<lparr>ps_paired := name\<rparr>]\<rparr>))))"

end
