(* ===== verification/Peer.thy ===== *)
theory Peer
  imports Daemon Session_Laws Header_Size
begin

text \<open>
  Inbound connections: the pinned TLS of \<^verbatim>\<open>internal/transport\<close> (which certificate is admitted, which
  protocol a client gets), \<^verbatim>\<open>handlePeer\<close> and \<^verbatim>\<open>servePeer\<close> of \<^verbatim>\<open>receive.go\<close>. That the peer holds the
  private key of the certificate it presents is the TLS library's part; the model starts from the
  certificates presented and the protocols offered.
\<close>

section \<open>Pinned TLS\<close>

definition PairALPN :: string where
  "PairALPN = ''adrop-pair/1''"

datatype tls_error = ErrUntrustedPeer | NoClientCert

text \<open>
  \<^verbatim>\<open>VerifyPeerCertificate\<close> of \<^verbatim>\<open>pinnedTLSConfig\<close>, absent when any peer is allowed. It is part of a full
  handshake only: \<^verbatim>\<open>crypto/tls\<close> does not call it when a session is resumed.
\<close>

definition verifyPeer :: "(string \<Rightarrow> string option) \<Rightarrow> bool \<Rightarrow> bytes list \<Rightarrow> tls_error option" where
  "verifyPeer isTrusted allowAnyPeer rawCerts =
     (if allowAnyPeer then None
      else case rawCerts of
        [] \<Rightarrow> Some ErrUntrustedPeer
      | leaf # _ \<Rightarrow> if isTrusted (Fingerprint leaf) = None then Some ErrUntrustedPeer else None)"

text \<open>
  The server's handshake as \<^verbatim>\<open>Listen\<close> configures it: a client offering the pairing protocol gets the
  unpinned configuration while tap pairing is on; a certificate is always required. Session tickets are
  not disabled, and the two configurations share the ticket keys, so the client may resume any earlier
  session with this listener (\<^term>\<open>resumed\<close>): the certificates are then those of the ticket, and they are
  not verified again. The result is the negotiated protocol and the fingerprint of the leaf certificate.
  The dialling sides keep no session cache and never resume; \<^verbatim>\<open>acceptDirect\<close> makes a configuration, with
  ticket keys of its own, for every connection.
\<close>

definition server_handshake ::
  "(string \<Rightarrow> string option) \<Rightarrow> bool \<Rightarrow> bool \<Rightarrow> string list \<Rightarrow> bytes list \<Rightarrow> tls_error + (string \<times> string)" where
  "server_handshake isTrusted allowPair resumed protos rawCerts =
     (let pair = (PairALPN \<in> set protos \<and> allowPair) in
      if rawCerts = [] then Inl NoClientCert
      else case (if resumed then None else verifyPeer isTrusted pair rawCerts) of
        Some e \<Rightarrow> Inl e
      | None \<Rightarrow> Inr (if pair then PairALPN else [], Fingerprint (hd rawCerts)))"

section \<open>One connection\<close>

definition hello_header :: "daemon \<Rightarrow> string \<Rightarrow> bool \<Rightarrow> header" where
  "hello_header d addr folders = Header0\<lparr>h_Type := TypeHello, h_Folders := folders, h_Version := ProtocolVersion,
     h_RNS := dm_rnsKey d, h_Fingerprint := Store_Fingerprint (dm_store d), h_Name := dm_name d, h_Addr := addr\<rparr>"

definition start_session :: "daemon \<Rightarrow> bytes \<Rightarrow> session" where
  "start_session d conn = \<lparr>s_fs = dm_fs d, s_claimed = dm_slots d, s_slots = [], s_completed = [], s_saved = [],
     s_in = conn, s_out = [], s_events = []\<rparr>"

definition end_session :: "received \<Rightarrow> daemon \<Rightarrow> daemon" where
  "end_session rv d = fold broadcast (s_events (rv_session rv))
     (d\<lparr>dm_fs := s_fs (rv_session rv), dm_slots := s_claimed (rv_session rv)\<rparr>)"

text \<open>
  What the network and the clock contribute to a connection: the remote address, the detected LAN
  address, the time, which of the writes of \<^verbatim>\<open>devices.json\<close> succeed (by their place in the handler),
  and the clipboard.
\<close>

record conn_env =
  ce_os :: os_env
  ce_clip :: "bytes \<Rightarrow> string \<Rightarrow> bool"
  ce_remote :: string
  ce_lanIP :: string
  ce_now :: string
  ce_wok :: "nat \<Rightarrow> bool"

definition update_peer :: "conn_env \<Rightarrow> bool \<Rightarrow> string \<Rightarrow> header \<Rightarrow> daemon \<Rightarrow> daemon" where
  "update_peer ce lan fp hello d =
     (let st1 = (if lan then snd (UpdateAddr (ce_wok ce 2) fp (resolvePeerAddr d (h_Addr hello) (ce_remote ce)) (dm_store d))
                 else dm_store d);
          st2 = UpdateFcmToken (ce_wok ce 3) fp (h_FcmToken hello) st1 in
      d\<lparr>dm_store := UpdateRNS (ce_wok ce 4) fp (h_RNS hello) st2\<rparr>)"

definition servePeer :: "conn_env \<Rightarrow> string \<Rightarrow> bool \<Rightarrow> bytes \<Rightarrow> daemon \<Rightarrow> daemon \<times> bytes \<times> (bytes \<times> string) option" where
  "servePeer ce fp lan conn d =
     (case ReadHeader conn of
        (Inl e, r) \<Rightarrow> (d, [], None)
      | (Inr hello, r) \<Rightarrow>
          if h_Type hello \<noteq> TypeHello then (d, [], None)
          else
            (let (addr, d1) = advertiseAddr (ce_lanIP ce) d;
                 (out, err) = WriteControl (hello_header d1 addr True) in
             if err \<noteq> None then (d1, out, None)
             else
               (let (paired, d2) =
                  (if lan then tryCompletePairing (ce_wok ce 0) (ce_now ce) fp (h_Name hello) (h_Addr hello) (ce_remote ce) d1
                   else (False, d1)) in
                if paired then
                  (broadcast (Event0\<lparr>ev_Kind := ''paired'', ev_Peer := h_Name hello\<rparr>)
                     (d2\<lparr>dm_store := UpdateRNS (ce_wok ce 1) fp (h_RNS hello) (dm_store d2)\<rparr>), out, None)
                else case IsTrusted (dm_store d2) fp of
                  None \<Rightarrow> (d2, out, None)
                | Some peerName \<Rightarrow>
                    (let d3 = update_peer ce lan fp hello d2;
                         (err, rv) = receiveSession (ce_os ce) (ce_clip ce) (dm_downloadDir d3) peerName (start_session d3 r) in
                     (end_session rv d3, out @ s_out (rv_session rv), rv_clip rv)))))"

text \<open>
  \<^verbatim>\<open>handlePeer\<close>: a connection on the pairing protocol goes to \<^term>\<open>tap\<close>, the tap pairing of
  \<^verbatim>\<open>tappair.go\<close>; every other one that passes the handshake is served.
\<close>

definition handlePeer ::
  "(string \<Rightarrow> bytes \<Rightarrow> daemon \<Rightarrow> daemon \<times> bytes) \<Rightarrow> conn_env \<Rightarrow> bool \<Rightarrow> string list \<Rightarrow> bytes list \<Rightarrow> bytes \<Rightarrow> daemon \<Rightarrow> daemon \<times> bytes" where
  "handlePeer tap ce resumed protos rawCerts conn d =
     (case server_handshake (Daemon_IsTrusted d) (dm_tapPair d) resumed protos rawCerts of
        Inl e \<Rightarrow> (d, [])
      | Inr (proto, fp) \<Rightarrow>
          if proto = PairALPN then tap fp conn d
          else (let (d', out, clip) = servePeer ce fp True conn d in (d', out)))"

section \<open>Laws\<close>

lemma receiveSession_keeps:
  assumes "receiveSession env clip_set dir peer s = (err, rv)"
  shows "keeps dir (s_fs s) (s_fs (rv_session rv))"
  using assms by (auto simp: receiveSession_def Let_def keeps_def [of _ "s_fs s" "s_fs s"] dest!: receiveFiles_keeps
      split: prod.splits sum.splits if_splits)

lemma broadcast_frame [simp]:
  "dm_store (broadcast e d) = dm_store d" "dm_fs (broadcast e d) = dm_fs d" "dm_slots (broadcast e d) = dm_slots d"
  "dm_pairWindow (broadcast e d) = dm_pairWindow d" "dm_sessions (broadcast e d) = dm_sessions d"
  "dm_downloadDir (broadcast e d) = dm_downloadDir d" "dm_rnsKey (broadcast e d) = dm_rnsKey d"
  by (simp_all add: broadcast_def)

lemma fold_broadcast_frame [simp]:
  "dm_store (fold broadcast es d) = dm_store d" "dm_fs (fold broadcast es d) = dm_fs d"
  "dm_pairWindow (fold broadcast es d) = dm_pairWindow d" "dm_slots (fold broadcast es d) = dm_slots d"
  "dm_sessions (fold broadcast es d) = dm_sessions d"
  by (induction es arbitrary: d) simp_all

lemma end_session_frame [simp]:
  "dm_store (end_session rv d) = dm_store d" "dm_fs (end_session rv d) = s_fs (rv_session rv)"
  "dm_pairWindow (end_session rv d) = dm_pairWindow d" "dm_slots (end_session rv d) = s_claimed (rv_session rv)"
  by (simp_all add: end_session_def)

lemma advertiseAddr_frame:
  assumes "advertiseAddr ip d = (addr, d')"
  shows "dm_store d' = dm_store d" "dm_fs d' = dm_fs d" "dm_slots d' = dm_slots d" "dm_pairWindow d' = dm_pairWindow d"
    "dm_sessions d' = dm_sessions d" "dm_downloadDir d' = dm_downloadDir d" "dm_subs d' = dm_subs d" "dm_name d' = dm_name d"
    "dm_rnsKey d' = dm_rnsKey d" "dm_port d' = dm_port d"
  using assms by (auto simp: advertiseAddr_def refreshAdvertiseAddr_def Let_def split: if_splits)

lemma expects_frame: "dm_sessions d' = dm_sessions d \<Longrightarrow> expects d' ps fp = expects d ps fp"
  by (simp add: expects_def)

lemma tryCompletePairing_none:
  assumes "\<forall>ps. dm_pairWindow d = Some ps \<longrightarrow> \<not> expects d ps fp"
  shows "tryCompletePairing wok now fp name adv remote d = (False, d)"
  using assms by (auto simp: tryCompletePairing_def split: option.splits)

lemma closePairWindow_frame [simp]:
  "dm_store (closePairWindow ps d) = dm_store d" "dm_fs (closePairWindow ps d) = dm_fs d"
  "dm_downloadDir (closePairWindow ps d) = dm_downloadDir d" "dm_slots (closePairWindow ps d) = dm_slots d"
  by (simp_all add: closePairWindow_def)

lemma tryCompletePairing_frame:
  assumes "tryCompletePairing wok now fp name adv remote d = (b, d')"
  shows "dm_fs d' = dm_fs d" "dm_downloadDir d' = dm_downloadDir d" "dm_slots d' = dm_slots d"
  using assms by (auto simp: tryCompletePairing_def Let_def split: option.splits if_splits prod.splits)

lemma update_peer_frame [simp]:
  "dm_fs (update_peer ce lan fp hello d) = dm_fs d" "dm_downloadDir (update_peer ce lan fp hello d) = dm_downloadDir d"
  "dm_slots (update_peer ce lan fp hello d) = dm_slots d" "dm_pairWindow (update_peer ce lan fp hello d) = dm_pairWindow d"
  by (simp_all add: update_peer_def Let_def)

lemma start_session_simps [simp]:
  "s_fs (start_session d c) = dm_fs d" "s_claimed (start_session d c) = dm_slots d" "s_in (start_session d c) = c"
  by (simp_all add: start_session_def)

section \<open>Properties of a connection\<close>

text \<open>
  What a connection may leave behind at most: nothing, or this device's own address looked up anew and its
  greeting written.
\<close>

definition greeted_only :: "conn_env \<Rightarrow> daemon \<Rightarrow> daemon \<Rightarrow> bytes \<Rightarrow> bool" where
  "greeted_only ce d d' out \<longleftrightarrow> (d' = d \<and> out = []) \<or>
     (\<exists>addr. advertiseAddr (ce_lanIP ce) d = (addr, d') \<and> out = fst (WriteControl (hello_header d' addr True)))"

lemma greeted_only_frame:
  assumes "greeted_only ce d d' out"
  shows "dm_store d' = dm_store d" "dm_fs d' = dm_fs d" "dm_slots d' = dm_slots d" "dm_pairWindow d' = dm_pairWindow d"
    "dm_sessions d' = dm_sessions d" "dm_subs d' = dm_subs d"
  using assms by (auto simp: greeted_only_def dest: advertiseAddr_frame)

lemma servePeer_untrusted:
  assumes "IsTrusted (dm_store d) fp = None" "\<forall>ps. dm_pairWindow d = Some ps \<longrightarrow> \<not> expects d ps fp"
    and "servePeer ce fp lan conn d = (d', out, clip)"
  shows "greeted_only ce d d' out \<and> clip = None"
proof -
  have "tryCompletePairing wok now fp name adv remote d1 = (False, d1)"
    if "advertiseAddr ip d = (addr, d1)" for ip addr d1 wok now name adv remote
    using advertiseAddr_frame(4,5) [OF that] assms(2) expects_frame [of d1 d] by (intro tryCompletePairing_none) simp
  then show ?thesis
    using assms(1,3) by (auto simp: greeted_only_def servePeer_def Let_def dest: advertiseAddr_frame
        split: prod.splits sum.splits if_splits option.splits)
qed

lemma server_handshake_Inr:
  assumes "server_handshake isTrusted allowPair resumed protos rawCerts = Inr (proto, fp)"
  shows "rawCerts \<noteq> []" "fp = Fingerprint (hd rawCerts)" "proto = PairALPN \<Longrightarrow> allowPair \<and> PairALPN \<in> set protos"
proof -
  have ne: "PairALPN \<noteq> []" by (simp add: PairALPN_def)
  from assms show "rawCerts \<noteq> []" by (auto simp: server_handshake_def)
  from assms have "proto = (if PairALPN \<in> set protos \<and> allowPair then PairALPN else []) \<and> fp = Fingerprint (hd rawCerts)"
    by (auto simp only: server_handshake_def Let_def sum.inject prod.inject split: if_splits option.splits)
  with ne show "fp = Fingerprint (hd rawCerts)" "proto = PairALPN \<Longrightarrow> allowPair \<and> PairALPN \<in> set protos"
    by (auto split: if_splits)
qed

text \<open>A resumed session passes the handshake whether or not its device is trusted by now.\<close>

lemma resumed_handshake_unpinned:
  "server_handshake isTrusted allowPair True protos (leaf # rest) =
     Inr (if PairALPN \<in> set protos \<and> allowPair then PairALPN else [], Fingerprint leaf)"
  by (simp add: server_handshake_def)

text \<open>
  Property C3. An untrusted peer has no power: take a device that is not in the trusted list and that no
  open pairing window expects. Served on an established connection (the direct channel, say) it gets no
  further than the greeting: it is sent nothing or this device's hello, the daemon at most looks up its own
  address, trusted list, files, claimed names, pairing window, pairing codes and subscribers stay as they
  are and no clipboard data is taken. On the listener, unless it offers the tap-pairing protocol while tap
  pairing is on (such a connection goes to tap pairing, where both users have to confirm), a full TLS
  handshake turns it away with nothing written and nothing changed; a resumed TLS session, which skips the
  certificate check, gets as far as the greeting and no further.
\<close>

theorem untrusted_peer_powerless:
  assumes "IsTrusted (dm_store d) fp = None" "\<forall>ps. dm_pairWindow d = Some ps \<longrightarrow> \<not> expects d ps fp"
    and "servePeer ce fp lan conn d = (d', out, clip)"
    and "Fingerprint leaf = fp" "\<not> (dm_tapPair d \<and> PairALPN \<in> set protos)"
    and "handlePeer tap ce resumed protos (leaf # rest) conn d = (d2, out2)"
  shows "greeted_only ce d d' out \<and> clip = None \<and> greeted_only ce d d2 out2 \<and> (\<not> resumed \<longrightarrow> d2 = d \<and> out2 = []) \<and>
    (\<forall>x\<in>{d', d2}. dm_store x = dm_store d \<and> dm_fs x = dm_fs d \<and> dm_slots x = dm_slots d \<and>
       dm_pairWindow x = dm_pairWindow d \<and> dm_sessions x = dm_sessions d \<and> dm_subs x = dm_subs d)"
proof -
  have served: "greeted_only ce d d' out \<and> clip = None" by (rule servePeer_untrusted [OF assms(1-3)])
  have none: "Daemon_IsTrusted d fp = None" using assms(1,2) by (auto simp: Daemon_IsTrusted_def split: option.splits)
  have handled: "greeted_only ce d d2 out2 \<and> (\<not> resumed \<longrightarrow> d2 = d \<and> out2 = [])"
  proof (cases resumed)
    case True
    obtain d3 out3 clip3 where run: "servePeer ce fp True conn d = (d3, out3, clip3)" by (cases "servePeer ce fp True conn d")
    have "server_handshake (Daemon_IsTrusted d) (dm_tapPair d) resumed protos (leaf # rest) = Inr ([], fp)"
      using True assms(4,5) by (auto simp: resumed_handshake_unpinned)
    then have "d2 = d3" "out2 = out3" using assms(6) run by (simp_all add: handlePeer_def PairALPN_def)
    with servePeer_untrusted [OF assms(1,2) run] True show ?thesis by simp
  next
    case False
    with none assms(4-6) show ?thesis by (auto simp: handlePeer_def server_handshake_def verifyPeer_def greeted_only_def)
  qed
  with served greeted_only_frame [of ce d d' out] greeted_only_frame [of ce d d2 out2] show ?thesis by simp
qed

definition demo_daemon :: daemon where
  "demo_daemon = \<lparr>dm_store = \<lparr>st_certDER = ''c'', st_devices = [], st_lastPeer = [], st_disk = None\<rparr>, dm_name = ''pc'',
     dm_listenIP = [], dm_port = DefaultPort, dm_tcpAddr = ''10.0.0.2:53127'', dm_autoIP = False, dm_relayAddr = [],
     dm_downloadDir = ''/dl'', dm_tapPair = False, dm_tapPairs = [], dm_rnsEnabled = False, dm_queueAll = False, dm_rnsKey = [],
     dm_sessions = [], dm_pairWindow = None, dm_nearby = [], dm_fs = Map.empty, dm_slots = [], dm_subs = [], dm_kicked = False, dm_queueFile = None, dm_clips = [], dm_pongs = []\<rparr>"

definition demo_conn :: conn_env where
  "demo_conn = \<lparr>ce_os = env_ok, ce_clip = \<lambda>_ _. True, ce_remote = ''10.0.0.9:40000'', ce_lanIP = ''10.0.0.2'',
     ce_now = time_zero, ce_wok = \<lambda>_. True\<rparr>"

theorem untrusted_peer_powerless_witness:
  "dm_store (fst (servePeer demo_conn (Fingerprint ''evil'') False ''xyz'' demo_daemon)) = dm_store demo_daemon \<and>
   handlePeer (\<lambda>_ _ d. (d, [])) demo_conn False [] [''evil''] ''xyz'' demo_daemon = (demo_daemon, [])"
proof -
  let ?tap = "\<lambda>_ _ d. (d, [])"
  have un: "IsTrusted (dm_store demo_daemon) (Fingerprint ''evil'') = None"
      "\<forall>ps. dm_pairWindow demo_daemon = Some ps \<longrightarrow> \<not> expects demo_daemon ps (Fingerprint ''evil'')"
      "\<not> (dm_tapPair demo_daemon \<and> PairALPN \<in> set [])"
    by (simp_all add: demo_daemon_def IsTrusted_def)
  obtain d' out clip where run: "servePeer demo_conn (Fingerprint ''evil'') False ''xyz'' demo_daemon = (d', out, clip)"
    by (cases "servePeer demo_conn (Fingerprint ''evil'') False ''xyz'' demo_daemon")
  obtain d2 out2 where hd2: "handlePeer ?tap demo_conn False [] [''evil''] ''xyz'' demo_daemon = (d2, out2)"
    by (cases "handlePeer ?tap demo_conn False [] [''evil''] ''xyz'' demo_daemon")
  from untrusted_peer_powerless [OF un(1,2) run refl un(3) hd2] have "dm_store d' = dm_store demo_daemon" "d2 = demo_daemon" "out2 = []"
    by simp_all
  with run hd2 show ?thesis by simp
qed

lemma IsTrusted_map_of: "IsTrusted s fp = map_of (map (\<lambda>d. (d_Fingerprint d, d_Name d)) (st_devices s)) fp"
proof -
  have "map_option d_Name (find (\<lambda>d. d_Fingerprint d = fp) ds) = map_of (map (\<lambda>d. (d_Fingerprint d, d_Name d)) ds) fp" for ds
    by (induction ds) auto
  then show ?thesis by (simp add: IsTrusted_def)
qed

lemma IsTrusted_updates [simp]:
  "IsTrusted (snd (UpdateAddr wok fp a s)) q = IsTrusted s q"
  "IsTrusted (UpdateFcmToken wok fp a s) q = IsTrusted s q"
  "IsTrusted (UpdateRNS wok fp a s) q = IsTrusted s q"
  by (simp_all add: IsTrusted_map_of UpdateAddr_def UpdateFcmToken_def UpdateRNS_def map_update_first split: option.splits)

lemma IsTrusted_AddDevice_new:
  assumes "IsTrusted s (d_Fingerprint d) = None"
  shows "IsTrusted (snd (AddDevice wok now d s)) q = (if q = d_Fingerprint d then Some (d_Name d) else IsTrusted s q)"
    "fst (AddDevice wok now d s) = (if wok then None else Some SaveFailed)"
proof -
  have "\<not> (\<exists>x\<in>set (st_devices s). d_Fingerprint x = d_Fingerprint d)" using assms by (auto simp: IsTrusted_def find_None_iff)
  then have add: "AddDevice wok now d s = saveDevicesLocked wok (s\<lparr>st_devices := st_devices s @
      [if d_PairedAt d = time_zero then d\<lparr>d_PairedAt := now\<rparr> else d]\<rparr>)" by (auto simp: AddDevice_def Let_def)
  show "IsTrusted (snd (AddDevice wok now d s)) q = (if q = d_Fingerprint d then Some (d_Name d) else IsTrusted s q)"
    using assms unfolding add IsTrusted_map_of by (auto simp: map_add_def split: option.splits)
  show "fst (AddDevice wok now d s) = (if wok then None else Some SaveFailed)" unfolding add by simp
qed

lemma new_device_simps [simp]:
  "d_Fingerprint (new_device d now fp name adv remote) = fp" "d_Name (new_device d now fp name adv remote) = name"
  "d_Addr (new_device d now fp name adv remote) = resolvePeerAddr d adv remote"
  by (simp_all add: new_device_def)

text \<open>The outcome of \<^verbatim>\<open>tryCompletePairing\<close>: nothing, a device saved, or a device trusted but not saved.\<close>

lemma tryCompletePairing_open:
  assumes "dm_pairWindow d = Some ps" "expects d ps fp" "IsTrusted (dm_store d) fp = None"
    and "tryCompletePairing wok now fp name adv remote d = (b, d')"
  shows "b = wok" "dm_store d' = snd (AddDevice wok now (new_device d now fp name adv remote) (dm_store d))"
    "dm_pairWindow d' = (if wok then None else Some ps)"
    "dm_sessions d' = (if wok then (dm_sessions d)[ps := (dm_sessions d ! ps)\<lparr>ps_paired := name, ps_done := True\<rparr>] else dm_sessions d)"
proof -
  have upd: "(dm_sessions d)[ps := ((dm_sessions d)[ps := (dm_sessions d ! ps)\<lparr>ps_paired := name\<rparr>] ! ps)\<lparr>ps_done := True\<rparr>] =
      (dm_sessions d)[ps := (dm_sessions d ! ps)\<lparr>ps_paired := name, ps_done := True\<rparr>]"
    by (cases "ps < length (dm_sessions d)") (simp_all add: list_update_beyond)
  note IsTrusted_AddDevice_new(2) [of "dm_store d" "new_device d now fp name adv remote" wok now]
  with assms show "b = wok" "dm_store d' = snd (AddDevice wok now (new_device d now fp name adv remote) (dm_store d))"
    "dm_pairWindow d' = (if wok then None else Some ps)"
    "dm_sessions d' = (if wok then (dm_sessions d)[ps := (dm_sessions d ! ps)\<lparr>ps_paired := name, ps_done := True\<rparr>] else dm_sessions d)"
    by (auto simp: tryCompletePairing_def Let_def closePairWindow_def upd split: prod.splits if_splits)
qed

lemma tryCompletePairing_cases:
  assumes "tryCompletePairing wok now fp name adv remote d = (b, d')"
  obtains (none) "\<not> b" "d' = d"
  | (add) ps where "dm_pairWindow d = Some ps" "expects d ps fp" "IsTrusted (dm_store d) fp = None" "b = wok"
      "dm_store d' = snd (AddDevice wok now (new_device d now fp name adv remote) (dm_store d))"
proof (cases "\<exists>ps. dm_pairWindow d = Some ps \<and> expects d ps fp \<and> IsTrusted (dm_store d) fp = None")
  case True
  then obtain ps where ps: "dm_pairWindow d = Some ps" "expects d ps fp" "IsTrusted (dm_store d) fp = None" by blast
  from tryCompletePairing_open [OF ps assms] show thesis by (intro add [OF ps])
next
  case False
  with assms show thesis by (intro none) (auto simp: tryCompletePairing_def split: option.splits if_splits)
qed

definition window_for :: "daemon \<Rightarrow> string \<Rightarrow> bool" where
  "window_for d fp \<longleftrightarrow> (\<exists>ps. dm_pairWindow d = Some ps \<and> expects d ps fp)"

text \<open>The state after the greeting and the attempt to complete a pairing.\<close>

lemma greeting_outcome:
  assumes "advertiseAddr ip d = (addr, d1)"
    and "(if lan then tryCompletePairing wok now fp name adv remote d1 else (False, d1)) = (b, d2)"
  shows "dm_fs d2 = dm_fs d" "dm_downloadDir d2 = dm_downloadDir d" "dm_slots d2 = dm_slots d"
    "trusted (dm_store d2) \<subseteq> trusted (dm_store d) \<union> (if lan \<and> window_for d fp then {fp} else {})"
    "\<not> b \<Longrightarrow> fp \<in> trusted (dm_store d2) \<Longrightarrow> fp \<in> trusted (dm_store d) \<or> lan \<and> window_for d fp \<and> \<not> wok"
proof -
  note f = advertiseAddr_frame [OF assms(1)]
  have w: "window_for d1 fp = window_for d fp" using f(4) expects_frame [OF f(5)] by (simp add: window_for_def)
  show "dm_fs d2 = dm_fs d" "dm_downloadDir d2 = dm_downloadDir d" "dm_slots d2 = dm_slots d"
    using assms(2) f(2,3,6) tryCompletePairing_frame by (auto split: if_splits)
  have "trusted (dm_store d2) \<subseteq> trusted (dm_store d1) \<union> (if lan \<and> window_for d1 fp then {fp} else {}) \<and>
      (\<not> b \<longrightarrow> fp \<in> trusted (dm_store d2) \<longrightarrow> fp \<in> trusted (dm_store d1) \<or> lan \<and> window_for d1 fp \<and> \<not> wok)"
  proof (cases lan)
    case True
    with assms(2) have "tryCompletePairing wok now fp name adv remote d1 = (b, d2)" by simp
    then show ?thesis
    proof (cases rule: tryCompletePairing_cases)
      case (add ps)
      have "trusted (dm_store d2) = insert fp (trusted (dm_store d1))"
        unfolding add(5) using fps_AddDevice [of wok now "new_device d1 now fp name adv remote" "dm_store d1"]
        by (simp split: if_splits) (metis insert_absorb list.set_map set_map)
      with add True show ?thesis by (auto simp: window_for_def)
    qed simp
  qed (use assms(2) in auto)
  with w f(1) show "trusted (dm_store d2) \<subseteq> trusted (dm_store d) \<union> (if lan \<and> window_for d fp then {fp} else {})"
    "\<not> b \<Longrightarrow> fp \<in> trusted (dm_store d2) \<Longrightarrow> fp \<in> trusted (dm_store d) \<or> lan \<and> window_for d fp \<and> \<not> wok" by simp_all
qed

lemma trusted_update_peer [simp]: "trusted (dm_store (update_peer ce lan fp hello d)) = trusted (dm_store d)"
  by (simp add: update_peer_def Let_def fps_updates flip: set_map)

lemma servePeer_cases:
  assumes "servePeer ce fp lan conn d = (d', out, clip)"
  obtains (quiet) "dm_fs d' = dm_fs d" "clip = None" "dm_store d' = dm_store d" "dm_pairWindow d' = dm_pairWindow d"
  | (greeted) hello r addr d1 b d2 where "ReadHeader conn = (Inr hello, r)" "advertiseAddr (ce_lanIP ce) d = (addr, d1)"
      "(if lan then tryCompletePairing (ce_wok ce 0) (ce_now ce) fp (h_Name hello) (h_Addr hello) (ce_remote ce) d1 else (False, d1)) = (b, d2)"
      "dm_fs d' = dm_fs d2" "clip = None" "dm_pairWindow d' = dm_pairWindow d2"
      "\<And>q. IsTrusted (dm_store d') q = IsTrusted (dm_store d2) q"
  | (session) hello r addr d1 d2 rv d3 err peer where "ReadHeader conn = (Inr hello, r)" "advertiseAddr (ce_lanIP ce) d = (addr, d1)"
      "(if lan then tryCompletePairing (ce_wok ce 0) (ce_now ce) fp (h_Name hello) (h_Addr hello) (ce_remote ce) d1 else (False, d1)) = (False, d2)"
      "IsTrusted (dm_store d2) fp \<noteq> None" "dm_fs d3 = dm_fs d2" "\<And>q. IsTrusted (dm_store d') q = IsTrusted (dm_store d2) q"
      "receiveSession (ce_os ce) (ce_clip ce) (dm_downloadDir d2) peer (start_session d3 r) = (err, rv)"
      "dm_fs d' = s_fs (rv_session rv)" "dm_pairWindow d' = dm_pairWindow d2"
proof -
  obtain hres r where h: "ReadHeader conn = (hres, r)" by fastforce
  obtain addr d1 where a: "advertiseAddr (ce_lanIP ce) d = (addr, d1)" by fastforce
  obtain w werr where w: "WriteControl (hello_header d1 addr True) = (w, werr)" by fastforce
  note f = advertiseAddr_frame [OF a]
  show thesis
  proof (cases "(\<exists>e. hres = Inl e) \<or> (\<exists>hello. hres = Inr hello \<and> h_Type hello \<noteq> TypeHello) \<or> werr \<noteq> None")
    case True
    then show thesis using assms h a w f by (intro quiet) (auto simp: servePeer_def split: sum.splits if_splits)
  next
    case False
    then obtain hello where hello: "hres = Inr hello" "h_Type hello = TypeHello" "werr = None" by (cases hres) auto
    obtain b d2 where t: "(if lan then tryCompletePairing (ce_wok ce 0) (ce_now ce) fp (h_Name hello) (h_Addr hello) (ce_remote ce) d1 else (False, d1)) = (b, d2)" by fastforce
    show thesis
    proof (cases "b \<or> IsTrusted (dm_store d2) fp = None")
      case True
      then show thesis using assms h a w hello t
        by (intro greeted [OF h [unfolded hello(1)] a t]) (cases b; auto simp: servePeer_def)+
    next
      case False
      then obtain peer where peer: "\<not> b" "IsTrusted (dm_store d2) fp = Some peer" by auto
      let ?d3 = "update_peer ce lan fp hello d2"
      obtain err rv where rs: "receiveSession (ce_os ce) (ce_clip ce) (dm_downloadDir d2) peer (start_session ?d3 r) = (err, rv)" by fastforce
      have "IsTrusted (dm_store ?d3) q = IsTrusted (dm_store d2) q" for q by (simp add: update_peer_def Let_def)
      then show thesis using assms h a w hello t peer rs
        by (intro session [OF h [unfolded hello(1)] a _ _ _ _ rs]) (auto simp: servePeer_def)
    qed
  qed
qed

text \<open>
  Property C14. What one connection can do, for every peer and every stream: existing files other than partial
  files stay as they are and changes are inside the download directory; files change and clipboard data is
  taken only for a peer that was trusted, or whose pairing in an open window could not be saved; and the
  trusted list gains at most this peer, and only on the local network with a pairing window that
  expects it.
\<close>

theorem connection_confined:
  assumes "servePeer ce fp lan conn d = (d', out, clip)"
  shows "(dm_fs d p = Some n \<longrightarrow> \<not> part_name p \<longrightarrow> dm_fs d' p = Some n) \<and>
    (dm_fs d' p \<noteq> dm_fs d p \<longrightarrow> inside (dm_downloadDir d) p) \<and>
    (dm_fs d' \<noteq> dm_fs d \<or> clip \<noteq> None \<longrightarrow>
       IsTrusted (dm_store d) fp \<noteq> None \<or> (lan \<and> window_for d fp \<and> \<not> ce_wok ce 0)) \<and>
    (IsTrusted (dm_store d') q \<noteq> None \<longrightarrow> IsTrusted (dm_store d) q \<noteq> None \<or> (q = fp \<and> lan \<and> window_for d fp))"
proof -
  from assms show ?thesis
  proof (cases rule: servePeer_cases)
    case greeted
    from greeting_outcome(1,4) [OF greeted(2,3)] greeted(4,5) show ?thesis
      unfolding greeted(7) IsTrusted_iff by (auto split: if_splits)
  next
    case (session hello r addr d1 d2 rv d3 err peer)
    note g = greeting_outcome [OF session(2,3)]
    have k: "keeps (dm_downloadDir d) (dm_fs d) (dm_fs d')"
      using receiveSession_keeps [OF session(7)] session(5,8) g(1,2) by simp
    have "fp \<in> trusted (dm_store d2)" using session(4) by (simp only: IsTrusted_iff)
    with g(4,5) k show ?thesis unfolding session(6) IsTrusted_iff by (auto simp: keeps_def split: if_splits)
  qed (simp add: IsTrusted_iff)
qed

theorem connection_confined_witness:
  "\<exists>d' out clip. servePeer demo_conn (Fingerprint ''evil'') True [] demo_daemon = (d', out, clip) \<and>
     (IsTrusted (dm_store d') (Fingerprint ''evil'') \<noteq> None \<longrightarrow> window_for demo_daemon (Fingerprint ''evil'')) \<and>
     (dm_fs d' ''/etc'' \<noteq> None \<longrightarrow> inside ''/dl'' ''/etc'')"
proof -
  obtain d' out clip where run: "servePeer demo_conn (Fingerprint ''evil'') True [] demo_daemon = (d', out, clip)"
    by (cases "servePeer demo_conn (Fingerprint ''evil'') True [] demo_daemon")
  from connection_confined [OF this, where q = "Fingerprint ''evil''" and p = "''/etc''"] run show ?thesis
    by (auto simp: demo_daemon_def IsTrusted_def)
qed

text \<open>
  Property C29. A pairing window pairs: an untrusted peer that the window expects, connecting from the local
  network with a greeting, is trusted under the name it gave; the window is closed and marked with that name;
  no transfer runs on that connection; and afterwards no other device is admitted that was not trusted before.
\<close>

theorem pair_window_completes:
  assumes "dm_pairWindow d = Some ps" "ps < length (dm_sessions d)" "expects d ps fp" "IsTrusted (dm_store d) fp = None"
    and "ReadHeader conn = (Inr hello, r)" "h_Type hello = TypeHello"
    and "snd (WriteControl (hello_header d (fst (advertiseAddr (ce_lanIP ce) d)) True)) = None" "ce_wok ce 0"
    and "servePeer ce fp True conn d = (d', out, clip)"
  shows "IsTrusted (dm_store d') fp = Some (h_Name hello) \<and> dm_pairWindow d' = None \<and>
    ps_done (dm_sessions d' ! ps) \<and> ps_paired (dm_sessions d' ! ps) = h_Name hello \<and> dm_fs d' = dm_fs d \<and> clip = None \<and>
    (q \<noteq> fp \<longrightarrow> Daemon_IsTrusted d' q = IsTrusted (dm_store d) q)"
proof -
  obtain addr d1 where a: "advertiseAddr (ce_lanIP ce) d = (addr, d1)" by fastforce
  note f = advertiseAddr_frame [OF a]
  have hh: "hello_header d addr True = hello_header d1 addr True" by (simp add: hello_header_def f)
  obtain b d2 where t: "tryCompletePairing (ce_wok ce 0) (ce_now ce) fp (h_Name hello) (h_Addr hello) (ce_remote ce) d1 = (b, d2)" by fastforce
  then have d2: "b" "dm_store d2 = snd (AddDevice True (ce_now ce) (new_device d1 (ce_now ce) fp (h_Name hello) (h_Addr hello) (ce_remote ce)) (dm_store d))"
      "dm_pairWindow d2 = None" "dm_sessions d2 = (dm_sessions d)[ps := (dm_sessions d ! ps)\<lparr>ps_paired := h_Name hello, ps_done := True\<rparr>]"
    using tryCompletePairing_open [OF _ _ _ t, of ps] assms(1,3,4,8) f(1,4,5) expects_frame [OF f(5), of ps fp] by simp_all
  have d': "dm_store d' = UpdateRNS (ce_wok ce 1) fp (h_RNS hello) (dm_store d2)" "dm_pairWindow d' = None"
      "dm_sessions d' = dm_sessions d2" "dm_fs d' = dm_fs d2" "clip = None"
    using assms(5-7,9) a t d2(1,3) hh by (auto simp: servePeer_def split: prod.splits)
  have "IsTrusted (dm_store d2) x = (if x = fp then Some (h_Name hello) else IsTrusted (dm_store d) x)" for x
    unfolding d2(2) using assms(4) by (subst IsTrusted_AddDevice_new(1)) simp_all
  then show ?thesis
    using d' d2(4) assms(2) f(2) tryCompletePairing_frame(1) [OF t] by (simp add: Daemon_IsTrusted_def split: option.splits)
qed

lemma sendable_hello:
  assumes "utf8_valid (dm_name d)" "utf8_valid addr" "utf8_valid (dm_rnsKey d)"
    "length (dm_name d) \<le> 20000" "length addr \<le> 20000" "length (dm_rnsKey d) \<le> 20000"
  shows "sendable_header (hello_header d addr b)"
  using assms length_types
  by (intro small_header)
    (simp_all add: hello_header_def header_defs ProtocolVersion_def int64_def Store_Fingerprint_def Fingerprint_def utf8_hex)

definition demo_hello :: header where
  "demo_hello = Header0\<lparr>h_Type := TypeHello, h_Name := ''phone'', h_Addr := ''10.0.0.9:53127''\<rparr>"

definition demo_window :: daemon where
  "demo_window = snd (OpenPairWindow [] [] demo_daemon)"

theorem pair_window_completes_witness:
  "\<exists>d' out clip. servePeer demo_conn (Fingerprint ''phone'') True (frame demo_hello []) demo_window = (d', out, clip) \<and>
    IsTrusted (dm_store d') (Fingerprint ''phone'') = Some ''phone'' \<and> dm_pairWindow d' = None"
proof -
  obtain d' out clip where run: "servePeer demo_conn (Fingerprint ''phone'') True (frame demo_hello []) demo_window = (d', out, clip)"
    by (cases "servePeer demo_conn (Fingerprint ''phone'') True (frame demo_hello []) demo_window")
  have "sendable_header demo_hello"
    using length_types by (intro small_header) (simp_all add: demo_hello_def header_defs int64_def utf8_valid_ascii)
  then have read: "ReadHeader (frame demo_hello []) = (Inr demo_hello, [])" using ReadHeader_sent [of demo_hello "[]" "[]"] by simp
  have "sendable_header (hello_header demo_window (fst (advertiseAddr (ce_lanIP demo_conn) demo_window)) True)"
    by (rule sendable_hello) (simp_all add: demo_window_def demo_daemon_def OpenPairWindow_def Let_def advertiseAddr_def utf8_valid_ascii)
  then have wrote: "snd (WriteControl (hello_header demo_window (fst (advertiseAddr (ce_lanIP demo_conn) demo_window)) True)) = None"
    by (simp add: WriteControl_sent hello_header_def Header0_def)
  have "dm_pairWindow demo_window = Some 0" "0 < length (dm_sessions demo_window)" "expects demo_window 0 (Fingerprint ''phone'')"
      "IsTrusted (dm_store demo_window) (Fingerprint ''phone'') = None" "h_Type demo_hello = TypeHello" "ce_wok demo_conn 0"
    by (simp_all add: demo_window_def demo_daemon_def OpenPairWindow_def Let_def expects_def IsTrusted_def demo_hello_def demo_conn_def)
  from pair_window_completes [OF this(1-4) read this(5) wrote this(6) run] run show ?thesis by (simp add: demo_hello_def)
qed

text \<open>
  A pairing that could not be saved still trusts the peer: when \<^verbatim>\<open>devices.json\<close> cannot be
  written, the window stays open and pairing is reported as not completed, yet the peer is in the
  trusted list in memory, because \<^verbatim>\<open>AddDevice\<close> does not take the device back as \<^verbatim>\<open>RenameDevice\<close> does.
\<close>

lemma unsaved_pairing_trusted:
  assumes "dm_pairWindow d = Some ps" "expects d ps fp" "IsTrusted (dm_store d) fp = None"
  shows "\<exists>d'. tryCompletePairing False now fp name adv remote d = (False, d') \<and> dm_pairWindow d' = Some ps \<and>
    IsTrusted (dm_store d') fp = Some name \<and> st_disk (dm_store d') = st_disk (dm_store d)"
proof -
  obtain b d' where t: "tryCompletePairing False now fp name adv remote d = (b, d')" by fastforce
  note o = tryCompletePairing_open [OF assms t]
  have "IsTrusted (dm_store d') fp = Some name"
    unfolding o(2) using assms(3) by (subst IsTrusted_AddDevice_new(1)) simp_all
  moreover have "st_disk (snd (AddDevice False now x s)) = st_disk s" for x s
    by (simp add: AddDevice_def saveDevicesLocked_def Let_def)
  ultimately show ?thesis using t o(1-3) by simp
qed

text \<open>
  The address kept for a peer: when the peer names a usable port in its greeting, that port is
  kept, with the source address of the connection as host, unless the connection is from this machine and
  the greeting names a concrete address; without a usable port the source address and this device's own
  port are kept.
\<close>

lemma peer_addr_resolved:
  assumes "SplitHostPort remote = Some (src, sp)" "ParseIP src = Some a"
  shows "SplitHostPort (resolvePeerAddr d advertised remote) = Some
    (case SplitHostPort advertised of
       Some (host, port) \<Rightarrow>
         if port = [] \<or> port = ''0'' then (src, show_int (dm_port d))
         else (if IsLoopback a \<and> (case ParseIP host of Some b \<Rightarrow> \<not> IsUnspecified b | None \<Rightarrow> False) then host else src, port)
     | None \<Rightarrow> (src, show_int (dm_port d)))"
proof -
  have digits: "c \<in> set (show_int i) \<Longrightarrow> is_digit c \<or> c = CHR ''-''" for i c
    using show_nat_digits by (auto simp: show_int_def split: if_splits)
  have own: "SplitHostPort (JoinHostPort src (show_int i)) = Some (src, show_int i)" for i
    using SplitHostPort_port [OF assms(1)] by (intro SplitHostPort_Join) (auto simp: plain_host_def is_digit_def dest: digits)
  have adv: "SplitHostPort (JoinHostPort h port) = Some (h, port)"
    if "SplitHostPort advertised = Some (host, port)" "h = host \<or> h = src" for h host port
    using SplitHostPort_port [OF assms(1)] SplitHostPort_port [OF that(1)] that(2) by (intro SplitHostPort_Join) auto
  show ?thesis
  proof (cases "SplitHostPort advertised")
    case None
    with own assms(1) show ?thesis by (simp add: resolvePeerAddr_def)
  next
    case (Some hp)
    with own adv assms show ?thesis
      by (cases hp) (auto simp: resolvePeerAddr_def Let_def split: option.splits)
  qed
qed

end
