(* ===== verification/Pair_Window.thy ===== *)
theory Pair_Window
  imports Peer
begin

text \<open>
  The pairing window under concurrency. \<^verbatim>\<open>tryCompletePairing\<close> takes the lock only to read the window
  and again to close it; the trust check and \<^verbatim>\<open>AddDevice\<close> in between are atomic by themselves (the
  store has its own lock) but not together. Each connection is a thread at one of these points, the
  window's timer is another, and a step is a step of one of them.
\<close>

datatype point = Begin | Seen nat | Fresh nat | Added nat | End bool

record attempt =
  at_fp :: string
  at_name :: string
  at_adv :: string
  at_remote :: string
  at_wok :: bool
  at_now :: string

type_synonym threads = "(nat \<times> attempt \<times> point) list"

text \<open>One step of \<^verbatim>\<open>tryCompletePairing\<close>.\<close>

fun attempt_step :: "attempt \<Rightarrow> point \<Rightarrow> daemon \<Rightarrow> point \<times> daemon" where
  "attempt_step a Begin d = (case dm_pairWindow d of
     None \<Rightarrow> (End False, d)
   | Some ps \<Rightarrow> if expects d ps (at_fp a) then (Seen ps, d) else (End False, d))"
| "attempt_step a (Seen ps) d =
     (if IsTrusted (dm_store d) (at_fp a) \<noteq> None then (End False, d) else (Fresh ps, d))"
| "attempt_step a (Fresh ps) d =
     (let (err, st) = AddDevice (at_wok a) (at_now a)
            (new_device d (at_now a) (at_fp a) (at_name a) (at_adv a) (at_remote a)) (dm_store d) in
      (if err \<noteq> None then End False else Added ps, d\<lparr>dm_store := st\<rparr>))"
| "attempt_step a (Added ps) d =
     (End True, closePairWindow ps
        (d\<lparr>dm_sessions := (dm_sessions d)[ps := (dm_sessions d ! ps)\<lparr>ps_paired := at_name a\<rparr>]\<rparr>))"
| "attempt_step a (End b) d = (End b, d)"

inductive window_step :: "daemon \<times> threads \<Rightarrow> daemon \<times> threads \<Rightarrow> bool" where
  connect: "window_step (d, ts) (d, ts @ [(length ts, a, Begin)])"
| advance: "i < length ts \<Longrightarrow> ts ! i = (k, a, pt) \<Longrightarrow> attempt_step a pt d = (pt', d') \<Longrightarrow>
    window_step (d, ts) (d', ts[i := (k, a, pt')])"
| expire: "window_step (d, ts) (closePairWindow ps d, ts)"

inductive_cases window_stepE: "window_step c c'"

abbreviation window_steps :: "daemon \<times> threads \<Rightarrow> daemon \<times> threads \<Rightarrow> bool" where
  "window_steps \<equiv> window_step\<^sup>*\<^sup>*"

section \<open>Alone\<close>

text \<open>Undisturbed, the steps of a thread are \<^verbatim>\<open>tryCompletePairing\<close>.\<close>

fun attempt_run :: "nat \<Rightarrow> attempt \<Rightarrow> point \<Rightarrow> daemon \<Rightarrow> point \<times> daemon" where
  "attempt_run 0 a pt d = (pt, d)"
| "attempt_run (Suc n) a pt d = (let (pt', d') = attempt_step a pt d in attempt_run n a pt' d')"

text \<open>
  Without interference the four locked steps of a connection's pairing attempt together do exactly what
  \<^verbatim>\<open>tryCompletePairing\<close> does in one.
\<close>

lemma attempt_refines:
  "attempt_run 4 a Begin d =
     (let (b, d') = tryCompletePairing (at_wok a) (at_now a) (at_fp a) (at_name a) (at_adv a) (at_remote a) d in (End b, d'))"
proof -
  have f: "attempt_run n a (End b) d = (End b, d)" for n b d by (induction n) simp_all
  have four: "(4 :: nat) = Suc (Suc (Suc (Suc 0)))" by simp
  show ?thesis unfolding four
    by (auto simp: f tryCompletePairing_def Let_def simp del: attempt_run.simps(1)
        simp: attempt_run.simps(1) split: option.splits prod.splits)
qed

section \<open>Together\<close>

text \<open>The windows' expectations never change, and every thread past the first point met one.\<close>

definition window_inv :: "daemon \<Rightarrow> daemon \<times> threads \<Rightarrow> bool" where
  "window_inv d0 c \<longleftrightarrow>
     map ps_expectFingerprint (dm_sessions (fst c)) = map ps_expectFingerprint (dm_sessions d0) \<and>
     (\<forall>ps. dm_pairWindow (fst c) = Some ps \<longrightarrow> dm_pairWindow d0 = Some ps) \<and>
     (\<forall>(k, a, pt) \<in> set (snd c). \<forall>ps. pt = Seen ps \<or> pt = Fresh ps \<or> pt = Added ps \<longrightarrow>
        dm_pairWindow d0 = Some ps \<and> expects d0 ps (at_fp a)) \<and>
     (\<forall>fp. IsTrusted (dm_store (fst c)) fp \<noteq> None \<longrightarrow> IsTrusted (dm_store d0) fp \<noteq> None \<or> window_for d0 fp)"

lemma map_expect_update:
  "ps_expectFingerprint x = ps_expectFingerprint (xs ! ps) \<Longrightarrow>
   map ps_expectFingerprint (xs[ps := x]) = map ps_expectFingerprint xs"
  by (cases "ps < length xs") (simp_all add: map_update list_update_same_conv list_update_beyond)

lemma closePairWindow_window:
  "dm_pairWindow (closePairWindow ps d) = Some qs \<Longrightarrow> dm_pairWindow d = Some qs"
  "map ps_expectFingerprint (dm_sessions (closePairWindow ps d)) = map ps_expectFingerprint (dm_sessions d)"
  by (auto simp: closePairWindow_def map_expect_update split: if_splits)

lemma attempt_step_add:
  assumes "attempt_step a (Fresh ps) d = (pt', d')"
  shows "pt' = End False \<or> pt' = Added ps" "dm_pairWindow d' = dm_pairWindow d" "dm_sessions d' = dm_sessions d"
    "trusted (dm_store d') \<subseteq> insert (at_fp a) (trusted (dm_store d))"
proof -
  let ?add = "AddDevice (at_wok a) (at_now a) (new_device d (at_now a) (at_fp a) (at_name a) (at_adv a) (at_remote a)) (dm_store d)"
  have d': "d' = d\<lparr>dm_store := snd ?add\<rparr>" "pt' = End False \<or> pt' = Added ps"
    using assms by (auto simp: Let_def split: prod.splits if_splits)
  have "trusted (snd ?add) \<subseteq> insert (at_fp a) (trusted (dm_store d))"
    unfolding fps_AddDevice by (simp split: if_splits) blast
  with d' show "pt' = End False \<or> pt' = Added ps" "dm_pairWindow d' = dm_pairWindow d" "dm_sessions d' = dm_sessions d"
    "trusted (dm_store d') \<subseteq> insert (at_fp a) (trusted (dm_store d))" by simp_all
qed

lemma attempt_step_close:
  assumes "attempt_step a (Added ps) d = (pt', d')"
  shows "pt' = End True" "dm_store d' = dm_store d" "dm_pairWindow d' = Some qs \<Longrightarrow> dm_pairWindow d = Some qs"
    "map ps_expectFingerprint (dm_sessions d') = map ps_expectFingerprint (dm_sessions d)"
  using assms by (auto simp: closePairWindow_window(2) map_expect_update dest: closePairWindow_window(1))

lemma attempt_step_look:
  assumes "attempt_step a pt d = (pt', d')" "pt = Begin \<or> pt = Seen ps \<or> pt = End b"
  shows "d' = d" "pt' = Seen qs \<Longrightarrow> dm_pairWindow d = Some qs \<and> expects d qs (at_fp a)" "pt' = Fresh qs \<Longrightarrow> pt = Seen qs"
    "pt' \<noteq> Added qs"
  using assms by (auto split: option.splits if_splits)

lemma expects_cong: "map ps_expectFingerprint (dm_sessions d) = map ps_expectFingerprint (dm_sessions d0) \<Longrightarrow>
   ps < length (dm_sessions d0) \<Longrightarrow> expects d ps fp = expects d0 ps fp"
proof -
  assume a: "map ps_expectFingerprint (dm_sessions d) = map ps_expectFingerprint (dm_sessions d0)" "ps < length (dm_sessions d0)"
  then have "ps_expectFingerprint (dm_sessions d ! ps) = ps_expectFingerprint (dm_sessions d0 ! ps)"
    by (metis length_map nth_map)
  then show ?thesis by (simp add: expects_def)
qed

lemma window_inv_start: "window_inv d (d, [])"
  by (simp add: window_inv_def)

lemma window_inv_advance:
  assumes inv: "window_inv d0 (d, ts)" and i: "i < length ts" "ts ! i = (k, a, pt)" and st: "attempt_step a pt d = (pt', d')"
    and w: "\<forall>ps. dm_pairWindow d0 = Some ps \<longrightarrow> ps < length (dm_sessions d0)"
  shows "window_inv d0 (d', ts[i := (k, a, pt')])"
proof -
  have mem: "(k, a, pt) \<in> set ts" using i nth_mem by fastforce
  have old: "map ps_expectFingerprint (dm_sessions d) = map ps_expectFingerprint (dm_sessions d0)"
      "\<And>ps. dm_pairWindow d = Some ps \<Longrightarrow> dm_pairWindow d0 = Some ps"
      "\<And>k a pt ps. (k, a, pt) \<in> set ts \<Longrightarrow> pt = Seen ps \<or> pt = Fresh ps \<or> pt = Added ps \<Longrightarrow>
         dm_pairWindow d0 = Some ps \<and> expects d0 ps (at_fp a)"
      "\<And>fp. fp \<in> trusted (dm_store d) \<Longrightarrow> fp \<in> trusted (dm_store d0) \<or> window_for d0 fp"
    using inv unfolding window_inv_def IsTrusted_iff by auto
  have ex: "expects d0 ps (at_fp a)" if "dm_pairWindow d = Some ps" "expects d ps (at_fp a)" for ps
    using that expects_cong [OF old(1)] old(2) w by blast
  have new: "map ps_expectFingerprint (dm_sessions d') = map ps_expectFingerprint (dm_sessions d)"
      "\<And>ps. dm_pairWindow d' = Some ps \<Longrightarrow> dm_pairWindow d = Some ps"
      "\<And>ps. pt' = Seen ps \<or> pt' = Fresh ps \<or> pt' = Added ps \<Longrightarrow> dm_pairWindow d0 = Some ps \<and> expects d0 ps (at_fp a)"
      "\<And>fp. fp \<in> trusted (dm_store d') \<Longrightarrow> fp \<in> trusted (dm_store d0) \<or> window_for d0 fp"
  proof -
    consider (look) "pt = Begin \<or> (\<exists>ps. pt = Seen ps) \<or> (\<exists>b. pt = End b)" | (add) ps where "pt = Fresh ps" | (close) ps where "pt = Added ps"
      by (cases pt) auto
    note cases = this
    show "map ps_expectFingerprint (dm_sessions d') = map ps_expectFingerprint (dm_sessions d)"
      using cases
    proof cases
      case look
      then have "d' = d" using attempt_step_look(1) [OF st] by blast
      then show ?thesis by simp
    next
      case (add ps)
      with st attempt_step_add(3) [of a ps d pt' d'] show ?thesis by (simp only: simp_thms)
    next
      case (close ps)
      with st attempt_step_close(4) [of a ps d pt' d'] show ?thesis by (simp only: simp_thms)
    qed
    show "dm_pairWindow d = Some ps" if "dm_pairWindow d' = Some ps" for ps
      using cases
    proof cases
      case look
      then have "d' = d" using attempt_step_look(1) [OF st] by blast
      with that show ?thesis by simp
    next
      case (add qs)
      with st that attempt_step_add(2) [of a qs d pt' d'] show ?thesis by (simp only: simp_thms)
    next
      case (close qs)
      with st that attempt_step_close(3) [of a qs d pt' d' ps] show ?thesis by (simp only: simp_thms)
    qed
    show "dm_pairWindow d0 = Some ps \<and> expects d0 ps (at_fp a)" if "pt' = Seen ps \<or> pt' = Fresh ps \<or> pt' = Added ps" for ps
      using cases
    proof cases
      case look
      then have "pt' \<noteq> Added ps" "pt' = Fresh ps \<Longrightarrow> pt = Seen ps"
          "pt' = Seen ps \<Longrightarrow> dm_pairWindow d = Some ps \<and> expects d ps (at_fp a)"
        using attempt_step_look(2-4) [OF st] by blast+
      with that ex old(2) old(3) [OF mem] show ?thesis by blast
    next
      case (add qs)
      with st attempt_step_add(1) [of a qs d pt' d'] that have "qs = ps" by (auto simp del: attempt_step.simps)
      with add old(3) [OF mem] show ?thesis by blast
    next
      case (close qs)
      with st attempt_step_close(1) [of a qs d pt' d'] that show ?thesis by (auto simp del: attempt_step.simps)
    qed
    show "fp \<in> trusted (dm_store d0) \<or> window_for d0 fp" if "fp \<in> trusted (dm_store d')" for fp
      using cases
    proof cases
      case look
      then have "d' = d" using attempt_step_look(1) [OF st] by blast
      with that old(4) show ?thesis by blast
    next
      case (add ps)
      with st attempt_step_add(4) [of a ps d pt' d'] that have "fp = at_fp a \<or> fp \<in> trusted (dm_store d)" by blast
      with old(3) [OF mem] add old(4) show ?thesis by (auto simp: window_for_def)
    next
      case (close ps)
      with st attempt_step_close(2) [of a ps d pt' d'] that old(4) show ?thesis by (simp only: simp_thms)
    qed
  qed
  have "dm_pairWindow d0 = Some ps \<and> expects d0 ps (at_fp a')"
    if "(k', a', pt'') \<in> set (ts[i := (k, a, pt')])" "pt'' = Seen ps \<or> pt'' = Fresh ps \<or> pt'' = Added ps" for k' a' pt'' ps
  proof -
    have "(k', a', pt'') = (k, a, pt') \<or> (k', a', pt'') \<in> set ts"
      using that(1) set_update_subset_insert [of ts i "(k, a, pt')"] by blast
    with that(2) new(3) old(3) show ?thesis by blast
  qed
  with old(1,2) new(1,2,4) show ?thesis unfolding window_inv_def IsTrusted_iff fst_conv snd_conv by auto
qed

lemma window_inv_step:
  assumes "window_step c c'" "window_inv d0 c" "\<forall>ps. dm_pairWindow d0 = Some ps \<longrightarrow> ps < length (dm_sessions d0)"
  shows "window_inv d0 c'"
  using assms(1,2)
proof (cases rule: window_step.cases)
  case advance
  with window_inv_advance assms(2,3) show ?thesis by metis
next
  case (expire d ts ps)
  with assms(2) show ?thesis by (auto simp: window_inv_def closePairWindow_window(2) dest: closePairWindow_window(1))
qed (use assms(2) in \<open>auto simp: window_inv_def\<close>)

lemma window_inv_steps:
  assumes "window_steps (d, []) c" "\<forall>ps. dm_pairWindow d = Some ps \<longrightarrow> ps < length (dm_sessions d)"
  shows "window_inv d c"
  using assms(1) by (induction rule: rtranclp_induct) (use window_inv_start window_inv_step assms(2) in blast)+

text \<open>
  Property C23. However connections, their pairing attempts and the window's timer interleave, a device
  becomes trusted only if it was before or the window that was open expects it; so a window opened for one
  fingerprint never pairs another device.
\<close>

theorem window_pairs_expected:
  assumes "window_steps (d, []) (d', ts)" "dm_pairWindow d = Some ps" "ps < length (dm_sessions d)"
    and "IsTrusted (dm_store d') fp \<noteq> None" "IsTrusted (dm_store d) fp = None"
  shows "ps_expectFingerprint (dm_sessions d ! ps) \<in> {[], fp}"
proof -
  have "window_inv d (d', ts)" using window_inv_steps [OF assms(1)] assms(2,3) by simp
  then have "window_for d fp" using assms(4,5) by (auto simp: window_inv_def)
  with assms(2) show ?thesis by (auto simp: window_for_def expects_def Let_def)
qed

text \<open>A schedule: which thread takes the next step.\<close>

fun sched :: "nat list \<Rightarrow> daemon \<times> threads \<Rightarrow> daemon \<times> threads" where
  "sched [] c = c"
| "sched (i # is) (d, ts) =
     (let (k, a, pt) = ts ! i; (pt', d') = attempt_step a pt d in sched is (d', ts[i := (k, a, pt')]))"

lemma sched_steps: "\<forall>i\<in>set is. i < length (snd c) \<Longrightarrow> window_steps c (sched is c)"
proof (induction "is" c rule: sched.induct)
  case (2 i "is" d ts)
  obtain k a pt where t: "ts ! i = (k, a, pt)" by (cases "ts ! i")
  obtain pt' d' where st: "attempt_step a pt d = (pt', d')" by fastforce
  have i: "i < length ts" "\<forall>j\<in>set is. j < length (snd (d', ts[i := (k, a, pt')]))" using "2.prems" by simp_all
  have "window_steps (d', ts[i := (k, a, pt')]) (sched is (d', ts[i := (k, a, pt')]))"
    using "2.IH" [OF t [symmetric] refl refl st [symmetric] refl i(2)] .
  then show ?case using t st window_step.advance [OF i(1) t st] by (simp add: converse_rtranclp_into_rtranclp)
qed simp

lemma connect_two: "window_steps (d, []) (d, [(0, a, Begin), (1, b, Begin)])"
  using window_step.connect [of d "[]" a] window_step.connect [of d "[(0, a, Begin)]" b] by (auto intro: rtranclp.intros)

lemma attempt_step_new:
  assumes "IsTrusted (dm_store d) (at_fp a) = None" "at_wok a"
  shows "attempt_step a (Fresh ps) d = (Added ps, d\<lparr>dm_store := snd (AddDevice True (at_now a)
    (new_device d (at_now a) (at_fp a) (at_name a) (at_adv a) (at_remote a)) (dm_store d))\<rparr>)"
  using assms IsTrusted_AddDevice_new(2) [of "dm_store d" "new_device d (at_now a) (at_fp a) (at_name a) (at_adv a) (at_remote a)" True "at_now a"]
  by (auto simp: Let_def split: prod.splits)

text \<open>
  One window can pair two devices: when two untrusted devices that an open window expects
  connect at the same time, there is an interleaving after which both pairing attempts report success and both
  devices are trusted, although the window is documented to admit a single connection.
\<close>

lemma pair_window_race:
  assumes "dm_pairWindow d = Some ps" "expects d ps (at_fp a)" "expects d ps (at_fp b)" "at_fp a \<noteq> at_fp b"
    and "IsTrusted (dm_store d) (at_fp a) = None" "IsTrusted (dm_store d) (at_fp b) = None" "at_wok a" "at_wok b"
  shows "\<exists>d'. window_steps (d, []) (d', [(0, a, End True), (1, b, End True)]) \<and>
    IsTrusted (dm_store d') (at_fp a) = Some (at_name a) \<and> IsTrusted (dm_store d') (at_fp b) = Some (at_name b)"
proof -
  let ?dev = "\<lambda>d x. new_device d (at_now x) (at_fp x) (at_name x) (at_adv x) (at_remote x)"
  define da where "da = d\<lparr>dm_store := snd (AddDevice True (at_now a) (?dev d a) (dm_store d))\<rparr>"
  define db where "db = da\<lparr>dm_store := snd (AddDevice True (at_now b) (?dev da b) (dm_store da))\<rparr>"
  have ta: "IsTrusted (dm_store da) q = (if q = at_fp a then Some (at_name a) else IsTrusted (dm_store d) q)" for q
    using IsTrusted_AddDevice_new(1) [of "dm_store d" "?dev d a" True "at_now a" q] assms(5) by (simp add: da_def)
  have tb: "IsTrusted (dm_store db) q = (if q = at_fp b then Some (at_name b) else IsTrusted (dm_store da) q)" for q
    using IsTrusted_AddDevice_new(1) [of "dm_store da" "?dev da b" True "at_now b" q] assms(4,6) ta by (simp add: db_def)
  have steps: "attempt_step a (Fresh ps) d = (Added ps, da)" "attempt_step b (Fresh ps) da = (Added ps, db)"
    using attempt_step_new [of d a ps] attempt_step_new [of da b ps] assms(4-8) ta by (simp_all add: da_def db_def)
  obtain d1 where d1: "attempt_step a (Added ps) db = (End True, d1)" "dm_store d1 = dm_store db" by simp
  obtain d2 where d2: "attempt_step b (Added ps) d1 = (End True, d2)" "dm_store d2 = dm_store d1" by simp
  have begin_: "attempt_step x Begin d = (Seen ps, d)" "attempt_step x (Seen ps) d = (Fresh ps, d)" if "x = a \<or> x = b" for x
    using that assms(1-3,5,6) by auto
  have "sched [0, 1, 0, 1, 0, 1, 0, 1] (d, [(0, a, Begin), (1, b, Begin)]) = (d2, [(0, a, End True), (1, b, End True)])"
    by (simp add: begin_ steps d1(1) d2(1) del: attempt_step.simps)
  moreover have "window_steps (d, [(0, a, Begin), (1, b, Begin)]) (sched [0, 1, 0, 1, 0, 1, 0, 1] (d, [(0, a, Begin), (1, b, Begin)]))"
    by (rule sched_steps) simp
  ultimately have "window_steps (d, []) (d2, [(0, a, End True), (1, b, End True)])"
    using connect_two [of d a b] by simp
  moreover have "dm_store d2 = dm_store db" using d1(2) d2(2) by simp
  ultimately show ?thesis using ta tb assms(4) by auto
qed

definition demo_attempt :: "string \<Rightarrow> attempt" where
  "demo_attempt fp = \<lparr>at_fp = fp, at_name = ''n'' @ fp, at_adv = [], at_remote = ''10.0.0.9:1'', at_wok = True, at_now = time_zero\<rparr>"

lemma demo_window_facts:
  "dm_pairWindow demo_window = Some 0" "expects demo_window 0 fp" "IsTrusted (dm_store demo_window) fp = None"
  "length (dm_sessions demo_window) = 1"
  by (simp_all add: demo_window_def demo_daemon_def OpenPairWindow_def Let_def expects_def IsTrusted_def)

theorem window_pairs_expected_witness:
  "\<exists>d' ts. window_steps (demo_window, []) (d', ts) \<and> IsTrusted (dm_store d') ''aa'' = Some ''naa'' \<and>
     ps_expectFingerprint (dm_sessions demo_window ! 0) \<in> {[], ''aa''}"
proof -
  let ?a = "demo_attempt ''aa''" and ?d = demo_window
  let ?run = "sched [0, 0, 0, 0] (?d, [(0, ?a, Begin), (1, ?a, Begin)])"
  have "window_steps (?d, []) ?run"
    using connect_two [of ?d ?a ?a] sched_steps [of "[0, 0, 0, 0]" "(?d, [(0, ?a, Begin), (1, ?a, Begin)])"] by simp
  moreover have "IsTrusted (dm_store (fst ?run)) ''aa'' = Some ''naa''"
    using demo_window_facts IsTrusted_AddDevice_new(1) [of "dm_store ?d" "new_device ?d time_zero ''aa'' ''naa'' [] ''10.0.0.9:1''" True time_zero "''aa''"]
      attempt_step_new [of ?d ?a 0]
    by (simp add: demo_attempt_def del: attempt_step.simps(3))
  moreover obtain d' ts where "?run = (d', ts)" by fastforce
  ultimately show ?thesis
    using window_pairs_expected [of ?d d' ts 0 "''aa''"] demo_window_facts by auto
qed

end
