(* ===== verification/Session_End.thy ===== *)
theory Session_End
  imports Session_Laws
begin

text \<open>
  That a session of \<^verbatim>\<open>internal/daemon/receive.go\<close> ends. The loops over the connection recurse on the
  bytes left; the one loop with no bound of its own is the search for a free name of
  \<^verbatim>\<open>uniquePathExcept\<close>, whose running forever is the error \<^term>\<open>NoReturn\<close> here. On a disk with finitely
  many files it always ends, and a session keeps the disk finite.
\<close>

section \<open>Finitely many files\<close>

lemma finite_os [simp]:
  "finite (dom fs) \<Longrightarrow> finite (dom (os_remove env p fs))"
  "finite (dom fs) \<Longrightarrow> finite (dom (os_write_file env p b fs))"
  "finite (dom fs) \<Longrightarrow> finite (dom (os_append p b fs))"
  "finite (dom fs) \<Longrightarrow> finite (dom (removePart env p fs))"
  "finite (dom fs) \<Longrightarrow> finite (dom (writePartMeta env p meta fs))"
  "finite (dom fs) \<Longrightarrow> finite (dom (snd (partialBytes env slot meta fs)))"
  by (auto simp: os_remove_def os_write_file_def os_append_def removePart_def writePartMeta_def partialBytes_def Let_def
      split: option.splits)

lemma finite_mkdirs: "finite (dom fs) \<Longrightarrow> finite (dom (snd (mkdirs env dir cur parts fs)))"
  by (induction env dir cur parts fs rule: mkdirs.induct) (auto simp: Let_def)

lemma finite_createDirectory: "finite (dom fs) \<Longrightarrow> finite (dom (snd (createDirectory env dir rel fs)))"
  by (simp add: createDirectory_def finite_mkdirs)

lemma finite_rename: "finite (dom fs) \<Longrightarrow> finite (dom (fs(a := None, b := fs a)))"
  by (rule finite_subset [of _ "insert b (dom fs)"]) (auto split: if_splits)

lemma finite_recv_step:
  assumes "finite (dom fs)"
  shows "recv_step env meta slot h g fs c = Inr (h', g', fs', c') \<Longrightarrow> finite (dom fs')"
    and "recv_step env meta slot h g fs c = Inl (x, fs', c') \<Longrightarrow> finite (dom fs')"
  using assms finite_rename [OF assms]
  by (auto simp: recv_step_def recv_chunk_def recv_end_def Let_def simp del: fun_upd_apply dom_fun_upd
      split: prod.splits sum.splits if_splits)

lemma finite_recv_body: "finite (dom fs) \<Longrightarrow> finite (dom (fst (snd (recv_body env meta slot h g fs c))))"
  by (rule recv_body_rule [where I = "\<lambda>h g f c. finite (dom f)"]) (auto dest: finite_recv_step)

lemma finite_receiveOneFile: "finite (dom fs) \<Longrightarrow> finite (dom (fst (snd (receiveOneFile env meta slot off fs c))))"
  by (auto simp: receiveOneFile_def Let_def finite_recv_body split: option.splits node.splits)

section \<open>The search for a name\<close>

text \<open>An error that tells of a search that never ended.\<close>

fun hung :: "recv_error \<Rightarrow> bool" where
  "hung NoReturn \<longleftrightarrow> True"
| "hung (FileErr _ e) \<longleftrightarrow> hung e"
| "hung _ \<longleftrightarrow> False"

lemma mkdirs_not_hung: "fst (mkdirs env dir cur parts fs) = Some e \<Longrightarrow> \<not> hung e"
  by (induction env dir cur parts fs rule: mkdirs.induct) (auto simp: Let_def split: if_splits)

lemma createDirectory_not_hung: "createDirectory env dir rel fs = (Some e, fs') \<Longrightarrow> \<not> hung e"
  using mkdirs_not_hung [of env dir "[]" "go_split slash rel" fs e]
  by (auto simp: createDirectory_def split: if_splits)

lemma reserveSlot_ends:
  assumes "finite (dom fs)" "reserveSlot env dir meta fs claimed = (Inl e, fs', claimed')"
  shows "\<not> hung e"
proof (cases "fm_RelPath meta \<noteq> [] \<and> \<not> validRelPath (fm_RelPath meta)")
  case False
  then have "plain_rel (slot_name meta)"
    by (auto simp: slot_name_def validRelPath_plain plain_comp_rel sanitizeName_plain)
  moreover have "finite {c. fs c \<noteq> None}" using assms(1) by (simp add: dom_def)
  moreover have "finite {c. c @ partSuffix \<in> set claimed}"
    by (rule finite_imageD [of "\<lambda>c. c @ partSuffix"]) (auto intro: finite_subset [of _ "set claimed"] injI inj_onI)
  ultimately obtain n where
    "uniquePathExcept (\<lambda>p. fs p \<noteq> None) dir (slot_name meta) (\<lambda>c. c @ partSuffix \<in> set claimed) = Some (Join dir n)"
    by (rule unique_path)
  with False assms(2) show ?thesis
    by (auto simp: reserveSlot_def slot_name_def Let_def dest: createDirectory_not_hung
        split: if_splits prod.splits option.splits)
qed (use assms(2) in \<open>auto simp: reserveSlot_def\<close>)

lemma finite_reserveSlot: "finite (dom fs) \<Longrightarrow> finite (dom (fst (snd (reserveSlot env dir meta fs claimed))))"
  using finite_createDirectory [of fs env dir]
  by (auto simp: reserveSlot_def Let_def split: option.splits prod.splits) (metis snd_conv)+

lemma slotFor_ends:
  assumes "finite (dom (s_fs s))" "slotFor env dir m i s = (x, s')"
  shows "finite (dom (s_fs s'))" "x = Inl e \<Longrightarrow> \<not> hung e"
  using assms finite_reserveSlot [OF assms(1), of env dir "m ! nat i" "s_claimed s"]
  by (auto simp: slotFor_def dest: reserveSlot_ends split: option.splits prod.splits sum.splits)

section \<open>A session\<close>

lemma session_fs_simps [simp]:
  "s_fs (reply h s) = s_fs s" "s_fs (emit ev s) = s_fs s" "s_fs (snd (emitErr env p c e s)) = s_fs s"
  "s_fs (release_all s) = s_fs s" "s_fs (on_progress p m h s) = s_fs s"
  by (simp_all add: reply_def emit_def emitErr_def release_all_def on_progress_def)

lemma recv_step_not_hung: "recv_step env meta slot h g fs c = Inl (Inl e, r) \<Longrightarrow> \<not> hung e"
  by (auto simp: recv_step_def recv_chunk_def recv_end_def Let_def split: prod.splits sum.splits if_splits)

lemma recv_body_not_hung: "recv_body env meta slot h g fs c = (Inl e, r) \<Longrightarrow> \<not> hung e"
proof -
  have "\<forall>e. fst (recv_body env meta slot h g fs c) = Inl e \<longrightarrow> \<not> hung e"
    by (rule recv_body_rule [where I = "\<lambda>h g f c. True"]) (auto dest: recv_step_not_hung)
  then show "recv_body env meta slot h g fs c = (Inl e, r) \<Longrightarrow> \<not> hung e" by simp
qed

lemma receiveOneFile_not_hung: "receiveOneFile env meta slot off fs c = (Inl e, r) \<Longrightarrow> \<not> hung e"
  by (auto simp: receiveOneFile_def Let_def dest: recv_body_not_hung split: if_splits option.splits node.splits)

lemma finite_on_resume_query:
  "finite (dom (s_fs s)) \<Longrightarrow> finite (dom (s_fs (on_resume_query env dir m resume hdr s)))"
  by (auto simp: on_resume_query_def Let_def dest: slotFor_ends(1) finite_os(6) split: prod.splits sum.splits)
    (metis finite_os(6) slotFor_ends(1) snd_conv)

lemma on_file_ends:
  assumes "finite (dom (s_fs s))" "on_file env dir peer m resume i s = (err, s')"
  shows "finite (dom (s_fs s'))" "err = Some e \<Longrightarrow> \<not> hung e"
proof -
  obtain x s1 where x: "slotFor env dir m i s = (x, s1)" by force
  note s1 = slotFor_ends [OF assms(1) x]
  show "finite (dom (s_fs s'))"
  proof (cases x)
    case (Inl err)
    with assms(2) x s1(1) show ?thesis by (auto simp: on_file_def Let_def emitErr_def)
  next
    case (Inr slot)
    obtain off fs1 where p: "(if resume then partialBytes env slot (m ! nat i) (s_fs s1) else (0, s_fs s1)) = (off, fs1)" by force
    moreover have "finite (dom (snd (if resume then partialBytes env slot (m ! nat i) (s_fs s1) else (0, s_fs s1))))"
      using s1(1) by simp
    ultimately have "finite (dom fs1)" by simp
    then have f: "finite (dom (fst (snd (receiveOneFile env (m ! nat i) slot off fs1 (s_in s1)))))"
      by (rule finite_receiveOneFile)
    obtain y fs2 r where y: "receiveOneFile env (m ! nat i) slot off fs1 (s_in s1) = (y, fs2, r)"
      by (cases "receiveOneFile env (m ! nat i) slot off fs1 (s_in s1)") auto
    with f assms(2) x Inr p show ?thesis by (cases y) (auto simp: on_file_def Let_def emitErr_def)
  qed
  from assms(2) x s1(2) show "err = Some e \<Longrightarrow> \<not> hung e"
    by (auto simp: on_file_def Let_def emitErr_def dest: receiveOneFile_not_hung split: sum.splits prod.splits)
qed

lemma on_directory_ends:
  assumes "finite (dom (s_fs s))" "on_directory env dir peer k i meta s = (err, s')"
  shows "finite (dom (s_fs s'))" "err = Some e \<Longrightarrow> \<not> hung e"
proof -
  show "finite (dom (s_fs s'))"
    using assms finite_createDirectory [OF assms(1), of env dir "fm_RelPath meta"]
    by (auto simp: on_directory_def Let_def emitErr_def split: sum.splits prod.splits if_splits option.splits)
  from assms(2) show "err = Some e \<Longrightarrow> \<not> hung e"
    by (auto simp: on_directory_def Let_def emitErr_def dest: createDirectory_not_hung
        split: sum.splits prod.splits if_splits option.splits)
qed

lemma files_step_ends:
  assumes "finite (dom (s_fs s))"
  shows "files_step env dir peer m resume s = Inr s' \<Longrightarrow> finite (dom (s_fs s'))"
    and "files_step env dir peer m resume s = Inl (err, s') \<Longrightarrow> finite (dom (s_fs s'))"
    and "files_step env dir peer m resume s = Inl (Some e, s') \<Longrightarrow> \<not> hung e"
proof -
  have r: "finite (dom (s_fs (s\<lparr>s_in := r\<rparr>)))" for r using assms by simp
  note pieces = on_file_ends [OF r] on_directory_ends [OF r] finite_on_resume_query [OF r]
  show "files_step env dir peer m resume s = Inr s' \<Longrightarrow> finite (dom (s_fs s'))"
    "files_step env dir peer m resume s = Inl (err, s') \<Longrightarrow> finite (dom (s_fs s'))"
    "files_step env dir peer m resume s = Inl (Some e, s') \<Longrightarrow> \<not> hung e"
    using assms by (auto simp: files_step_def Let_def emitErr_def dest: pieces(1-4) intro: pieces(5)
        split: prod.splits sum.splits if_splits option.splits)
qed

text \<open>The states the session loop passes through.\<close>

definition files_next :: "os_env \<Rightarrow> string \<Rightarrow> string \<Rightarrow> file_meta list \<Rightarrow> bool \<Rightarrow> session \<Rightarrow> session \<Rightarrow> bool" where
  "files_next env dir peer m resume s s' \<longleftrightarrow> files_step env dir peer m resume s = Inr s'"

lemma files_next_finite:
  "(files_next env dir peer m resume)\<^sup>*\<^sup>* s s' \<Longrightarrow> finite (dom (s_fs s)) \<Longrightarrow> finite (dom (s_fs s'))"
  by (induction rule: rtranclp_induct) (auto simp: files_next_def dest: files_step_ends(1))

lemma files_loop_not_hung:
  assumes "files_loop env dir peer m resume s = (err, s')" "finite (dom (s_fs s))"
  shows "finite (dom (s_fs s'))" "err = Some e \<Longrightarrow> \<not> hung e"
  using assms(2) by (elim files_loop_last [OF assms(1), where I = "\<lambda>s. finite (dom (s_fs s))"],
    blast dest: files_step_ends, blast dest: files_step_ends)+

text \<open>
  Property C21. On a disk with finitely many files a session ends, whatever the peer sends and whatever
  the operating system answers: no search for a free name runs forever, neither the one that decides the
  result nor one made on the way to answer a resume query, and the disk is finite afterwards, so the next
  session ends as well.
\<close>

theorem session_ends:
  assumes "finite (dom (s_fs s))" and "receiveSession env clip_set dir peer s = (err, rv)"
  shows "finite (dom (s_fs (rv_session rv))) \<and> (\<forall>e. err = Some e \<longrightarrow> \<not> hung e) \<and>
    (\<forall>m resume s0 s1 i. s_fs s0 = s_fs s \<and> (files_next env dir peer m resume)\<^sup>*\<^sup>* s0 s1 \<longrightarrow>
       fst (slotFor env dir m i s1) \<noteq> Inl NoReturn)"
proof (intro conjI allI impI)
  have loop: "finite (dom (s_fs s2)) \<and> (\<forall>e. x = Some e \<longrightarrow> \<not> hung e)"
    if "receiveFilesWithProgress env dir peer m resume (s\<lparr>s_in := r\<rparr>) = (x, s2)" for m resume r x s2
  proof (cases "m = []")
    case False
    with that obtain s1 where "files_loop env dir peer m resume (emit (Event0\<lparr>ev_Kind := ''recv-start'', ev_Peer := peer,
        ev_Count := int (length m)\<rparr>) (fresh_session (s\<lparr>s_in := r\<rparr>))) = (x, s1)" "s_fs s2 = s_fs s1"
      by (elim receiveFiles_loop)
    with assms(1) show ?thesis using files_loop_not_hung by (fastforce simp: fresh_session_def)
  qed (use that assms(1) in \<open>auto simp: receiveFilesWithProgress_def\<close>)
  show "finite (dom (s_fs (rv_session rv)))" and "\<And>e. err = Some e \<Longrightarrow> \<not> hung e"
    using assms loop by (auto simp: receiveSession_def receiveClipboard_def Let_def split: prod.splits sum.splits if_splits)
  show "fst (slotFor env dir m i s1) \<noteq> Inl NoReturn" if "s_fs s0 = s_fs s \<and> (files_next env dir peer m resume)\<^sup>*\<^sup>* s0 s1" for m resume s0 s1 i
  proof -
    obtain x s2 where x: "slotFor env dir m i s1 = (x, s2)" by force
    have "finite (dom (s_fs s1))" using that files_next_finite assms(1) by force
    from slotFor_ends(2) [OF this x] x show ?thesis by auto
  qed
qed

theorem session_ends_witness:
  "fst (slotFor env_ok ''/d'' [FileMeta0\<lparr>fm_Name := ''a''\<rparr>] 0
     \<lparr>s_fs = [''/d/a'' \<mapsto> FFile []], s_claimed = [], s_slots = [], s_completed = [], s_saved = [], s_in = [], s_out = [],
      s_events = []\<rparr>) \<noteq> Inl NoReturn"
proof -
  let ?s = "\<lparr>s_fs = [''/d/a'' \<mapsto> FFile []], s_claimed = [], s_slots = [], s_completed = [], s_saved = [], s_in = [], s_out = [],
      s_events = []\<rparr> :: session"
  obtain err rv where r: "receiveSession env_ok (\<lambda>_ _. True) ''/d'' ''peer'' ?s = (err, rv)" by fastforce
  have "finite (dom (s_fs ?s))" by simp
  from session_ends [OF this r] show ?thesis by blast
qed

end
