(* ===== verification/Json_Typed.thy ===== *)
theory Json_Typed
  imports Json_Struct
begin

text \<open>
  What \<^verbatim>\<open>encoding/json\<close> promises of decoded values: every string is valid UTF-8, whatever bytes were
  parsed, and every integer fits its 64-bit field. The promise is carried from the parser through the
  tables of setters to whole structs.
\<close>

section \<open>Decoded strings are valid UTF-8\<close>

lemma utf8_valid_rune:
  assumes "rune_len s = length s" "s \<noteq> []"
  shows "utf8_valid (s @ t) = utf8_valid t"
proof -
  have "rune_len (take (rune_len s) s @ t) = rune_len s" using assms by (intro rune_len_take) simp
  then have "rune_len (s @ t) = length s" using assms(1) by simp
  with assms(2) show ?thesis by (simp add: utf8_valid.simps [of "s @ t"])
qed

lemma utf8_valid_take_rune: "0 < rune_len s \<Longrightarrow> utf8_valid (take (rune_len s) s @ t) = utf8_valid t"
  using rune_len_take [of s "[]"] rune_len_le [of s] by (intro utf8_valid_rune) (auto simp: min_def)

lemma utf8_valid_ascii_Cons: "cv c < 128 \<Longrightarrow> utf8_valid (c # t) = utf8_valid t"
  using utf8_valid_rune [of "[c]" t] by simp

lemma of_char_small: "n < 256 \<Longrightarrow> cv (char_of n) = n"
  by simp

lemma rune_len_encode2:
  assumes "128 \<le> r" "r < 2048"
  shows "rune_len (utf8_encode r) = length (utf8_encode r)"
proof -
  have "2 \<le> r div 64" "r div 64 \<le> 31" "r mod 64 < 64" using assms by simp_all
  with assms show ?thesis
    by (simp add: utf8_encode_def rune_len_def rune_size_def rune_ok_def cont_def)
qed

lemma split64: "(r::nat) = r div 64 * 64 + r mod 64" "r div 64 = r div 4096 * 64 + r div 64 mod 64"
  "r div 4096 = r div 262144 * 64 + r div 4096 mod 64"
  using div_mult_mod_eq [of r 64] div_mult_mod_eq [of "r div 64" 64] div_mult_mod_eq [of "r div 4096" 64]
  by (simp_all add: div_mult2_eq [symmetric])

lemma rune_encode3:
  assumes "(a::nat) \<le> 15" "(b::nat) < 64" "(c::nat) < 64" "a = 0 \<longrightarrow> 32 \<le> b" "a = 13 \<longrightarrow> b < 32"
  shows "rune_len [char_of (224 + a), char_of (128 + b), char_of (128 + c)] = 3"
  using assms by (auto simp: rune_len_def rune_size_def rune_ok_def cont_def)

lemma rune_encode4:
  assumes "(a::nat) \<le> 4" "(b::nat) < 64" "(c::nat) < 64" "(d::nat) < 64" "a = 0 \<longrightarrow> 16 \<le> b" "a = 4 \<longrightarrow> b < 16"
  shows "rune_len [char_of (240 + a), char_of (128 + b), char_of (128 + c), char_of (128 + d)] = 4"
  using assms by (auto simp: rune_len_def rune_size_def rune_ok_def cont_def)

lemma rune_len_encode3:
  assumes "2048 \<le> r" "r < 65536" "\<not> surrogate r"
  shows "rune_len (utf8_encode r) = length (utf8_encode r)"
proof -
  have c: "r mod 64 < 64" "r div 64 mod 64 < 64" "r div 4096 \<le> 15" using assms by simp_all
  have "r div 4096 = 0 \<longrightarrow> 32 \<le> r div 64 mod 64" "r div 4096 = 13 \<longrightarrow> r div 64 mod 64 < 32"
    using assms split64(1,2) [of r] c by (auto simp: surrogate_def)
  with assms rune_encode3 [OF c(3,2,1)] show ?thesis by (simp add: utf8_encode_def)
qed

lemma rune_len_encode4:
  assumes "65536 \<le> r" "r \<le> 1114111"
  shows "rune_len (utf8_encode r) = length (utf8_encode r)"
proof -
  have c: "r mod 64 < 64" "r div 64 mod 64 < 64" "r div 4096 mod 64 < 64" "r div 262144 \<le> 4" using assms by simp_all
  have "16 \<le> r div 4096" "r div 4096 \<le> 271" using assms div_le_mono [of 65536 r 4096] div_le_mono [of r 1114111 4096] by simp_all
  then have "r div 262144 = 0 \<longrightarrow> 16 \<le> r div 4096 mod 64" "r div 262144 = 4 \<longrightarrow> r div 4096 mod 64 < 16"
    using split64(3) [of r] by auto
  with assms rune_encode4 [OF c(4,3,2,1)] show ?thesis by (simp add: utf8_encode_def)
qed

lemma utf8_valid_encode:
  assumes "r \<le> 1114111" "\<not> surrogate r"
  shows "utf8_valid (utf8_encode r @ t) = utf8_valid t"
proof (rule utf8_valid_rune)
  show "rune_len (utf8_encode r) = length (utf8_encode r)"
  proof (cases "r < 128")
    case True
    then show ?thesis by (simp add: utf8_encode_def)
  next
    case False
    then show ?thesis using assms rune_len_encode2 rune_len_encode3 rune_len_encode4 by (meson not_le)
  qed
qed (simp add: utf8_encode_def)

lemma utf8_valid_error: "utf8_valid (rune_error @ t) = utf8_valid t"
  by (rule utf8_valid_rune) (simp_all add: rune_error_def rune_len_def rune_size_def rune_ok_def cont_def)

lemma hex_val_bound: "hex_val c = Some n \<Longrightarrow> n < 16"
  by (auto simp: hex_val_def Let_def split: if_splits)

lemma hex4_bound: "hex4 s = Some r \<Longrightarrow> r < 65536"
  by (fastforce simp: hex4_def dest!: hex_val_bound split: list.splits option.splits)

lemma low_pair_scalar: "low_pair r s = Some q \<Longrightarrow> 65536 \<le> q \<and> q \<le> 1114111"
  by (auto simp: low_pair_def split: list.splits if_splits option.splits)

lemma simple_escape_ascii: "simple_escape e = Some d \<Longrightarrow> cv d < 128"
  by (auto simp: simple_escape_def split: if_splits)

lemma p_chars_valid: "p_chars s = Some (k, t) \<Longrightarrow> utf8_valid k"
proof (induction "length s" arbitrary: s k t rule: less_induct)
  case less
  have IH: "p_chars u = Some (k', t') \<Longrightarrow> length u < length s \<Longrightarrow> utf8_valid k'" for u k' t' by (rule less.hyps)
  obtain c w where s: "s = c # w" using less.prems by (cases s) (auto simp: p_chars.simps [of "[]"])
  note e = less.prems [unfolded s p_chars.simps [of "c # w"]]
  consider "c = CHR ''\"''" | "c = CHR 0x5C" | "c \<noteq> CHR ''\"''" "c \<noteq> CHR 0x5C" by blast
  then show ?case
  proof cases
    case 1
    with e s show ?thesis by simp
  next
    case 2
    with e s show ?thesis
      by (auto simp: utf8_valid_error utf8_valid_encode utf8_valid_ascii_Cons surrogate_def
          dest!: hex4_bound low_pair_scalar simple_escape_ascii IH split: list.splits if_splits option.splits)
  next
    case 3
    with e s show ?thesis
      by (auto simp: utf8_valid_error utf8_valid_ascii_Cons utf8_valid_take_rune
          dest!: IH split: if_splits)
  qed
qed

text \<open>An ASCII character is never inside another rune, so a valid text can be cut there.\<close>

lemma rune_len_cont: "0 < rune_len s \<Longrightarrow> list_all cont (tl (take (rune_len s) s))"
  by (auto simp: rune_len_def Let_def rune_ok_def split: list.splits if_splits)

lemma rune_len_before:
  assumes "cv c < 128" "a \<noteq> []" "0 < rune_len (a @ c # b)"
  shows "rune_len (a @ c # b) \<le> length a"
proof (rule ccontr)
  let ?s = "a @ c # b" and ?n = "rune_len (a @ c # b)"
  assume "\<not> ?n \<le> length a"
  then have "c \<in> set (tl (take ?n ?s))" using assms(2) by (cases a) (auto simp: take_Cons' split: if_splits)
  moreover have "list_all cont (tl (take ?n ?s))" by (rule rune_len_cont [OF assms(3)])
  ultimately show False using assms(1) by (auto simp: list_all_iff cont_def)
qed

lemma utf8_valid_cut: "cv c < 128 \<Longrightarrow> utf8_valid (a @ c # b) \<longleftrightarrow> utf8_valid a \<and> utf8_valid b"
proof (induction "length a" arbitrary: a rule: less_induct)
  case less
  let ?s = "a @ c # b" and ?n = "rune_len (a @ c # b)"
  consider "a = []" | "a \<noteq> []" "?n = 0" | "a \<noteq> []" "0 < ?n" by blast
  then show ?case
  proof cases
    case 1
    then show ?thesis using less.prems by (simp add: utf8_valid_ascii_Cons)
  next
    case 2
    have "take (rune_len a) a @ (drop (rune_len a) a @ c # b) = ?s"
      using append_take_drop_id [of "rune_len a" a] by (metis append_assoc)
    then have "rune_len a = 0" using rune_len_take [of a "drop (rune_len a) a @ c # b"] 2(2) by (metis not_gr0)
    with 2 show ?thesis by (simp add: utf8_valid.simps [of ?s] utf8_valid.simps [of a])
  next
    case 3
    have n: "?n \<le> length a" using less.prems 3 by (intro rune_len_before)
    have "rune_len (take ?n ?s @ drop ?n a) = ?n" by (rule rune_len_take [OF 3(2)])
    then have a: "rune_len a = ?n" using n by simp
    have "utf8_valid (drop ?n a @ c # b) \<longleftrightarrow> utf8_valid (drop ?n a) \<and> utf8_valid b"
      using less.prems less.hyps [of "drop ?n a"] 3 n by simp
    with 3 n a show ?thesis by (simp add: utf8_valid.simps [of ?s] utf8_valid.simps [of a])
  qed
qed

section \<open>Decoded values\<close>

fun json_typed :: "json \<Rightarrow> bool" where
  "json_typed (JStr s) = utf8_valid s"
| "json_typed (JArr vs) = (\<forall>v\<in>set vs. json_typed v)"
| "json_typed (JObj kvs) = (\<forall>(k, v)\<in>set kvs. json_typed v)"
| "json_typed _ = True"

lemma p_typed:
  "p_value n s = Some (v, t) \<Longrightarrow> json_typed v"
  "p_elems n s = Some (vs, t) \<Longrightarrow> \<forall>v\<in>set vs. json_typed v"
  "p_members n s = Some (kvs, t) \<Longrightarrow> \<forall>(k, v)\<in>set kvs. json_typed v"
proof (induction n s and n s and n s arbitrary: v t and vs t and kvs t rule: p_value_p_elems_p_members.induct)
  case (2 n s)
  then show ?case
    by (auto simp: p_lit_def split: list.splits if_splits dest: p_chars_valid)
next
  case (4 n s)
  then show ?case by (auto split: list.splits if_splits option.splits)
next
  case (6 n s)
  then show ?case by (fastforce split: list.splits if_splits option.splits)
qed simp_all

lemma json_unmarshal_typed: "json_unmarshal s = Some v \<Longrightarrow> json_typed v"
  by (auto simp: json_unmarshal_def simp del: p_value.simps dest: p_typed(1) split: option.splits if_splits)

section \<open>Decoded structs\<close>

lemma int_of_lit_bound: "int_of_lit l = Some i \<Longrightarrow> int64 i"
  by (auto simp: int_of_lit_def Let_def split: prod.splits if_splits)

text \<open>A setter keeps a property of the struct when it is given a value of the promised kind.\<close>

definition setter_keeps :: "('a \<Rightarrow> bool) \<Rightarrow> (json \<Rightarrow> 'a \<Rightarrow> 'a option) \<Rightarrow> bool" where
  "setter_keeps P f \<longleftrightarrow> (\<forall>v x y. json_typed v \<and> P x \<and> f v x = Some y \<longrightarrow> P y)"

lemma setter_keepsD: "setter_keeps P f \<Longrightarrow> json_typed v \<Longrightarrow> P x \<Longrightarrow> f v x = Some y \<Longrightarrow> P y"
  unfolding setter_keeps_def by blast

lemma setter_keeps_set:
  "(\<And>s x. utf8_valid s \<Longrightarrow> P x \<Longrightarrow> P (upd s x)) \<Longrightarrow> setter_keeps P (set_str upd)"
  "(\<And>b x. P x \<Longrightarrow> P (updb b x)) \<Longrightarrow> setter_keeps P (set_bool updb)"
  "(\<And>i x. int64 i \<Longrightarrow> P x \<Longrightarrow> P (updi i x)) \<Longrightarrow> setter_keeps P (set_int updi)"
  by (auto simp: setter_keeps_def set_str_def set_bool_def set_int_def dest: int_of_lit_bound split: json.splits)

lemma decode_members_typed:
  assumes "list_all (\<lambda>(k, f). setter_keeps P f) fs"
  shows "\<forall>(k, v)\<in>set ms. json_typed v \<Longrightarrow> P x \<Longrightarrow> decode_members fs ms x = Some y \<Longrightarrow> P y"
proof (induction ms arbitrary: x)
  case (Cons m ms)
  obtain k v where m: "m = (k, v)" by (cases m)
  show ?case
  proof (cases "map_of fs (fold_key k)")
    case (Some f)
    then have "(fold_key k, f) \<in> set fs" by (rule map_of_SomeD)
    with assms have "setter_keeps P f" by (auto simp: list_all_iff)
    with Cons Some m show ?thesis by (auto dest: setter_keepsD split: option.splits)
  qed (use Cons m in auto)
qed simp

lemma decode_struct_typed:
  assumes "list_all (\<lambda>(k, f). setter_keeps P f) fs" "json_typed v" "P x" "decode_struct fs v x = Some y"
  shows "P y"
  using assms(2-4) decode_members_typed [OF assms(1)] by (auto simp: decode_struct_def split: json.splits)

lemma decode_list_typed:
  assumes "list_all (\<lambda>(k, f). setter_keeps P f) fs" "P zero"
  shows "\<forall>v\<in>set vs. json_typed v \<Longrightarrow> list_all P old \<Longrightarrow> decode_list fs zero vs old = Some ys \<Longrightarrow> list_all P ys"
proof (induction vs arbitrary: old ys)
  case (Cons v vs)
  have "P (case old of [] \<Rightarrow> zero | f # _ \<Rightarrow> f)" "list_all P (tl old)"
    using Cons.prems(2) assms(2) by (cases old; simp)+
  with Cons show ?case
    by (auto dest: decode_struct_typed [OF assms(1)] split: option.splits)
qed simp

end
