(* ===== verification/Store_Typed.thy ===== *)
theory Store_Typed
  imports Peer Json_Typed
begin

text \<open>
  The type of what the daemon keeps of its peers: every text of a stored device is valid UTF-8 and its
  pairing time is in RFC 3339, so that \<^verbatim>\<open>devices.json\<close> can always be written and read back. Whatever
  bytes are in the file or come from a peer, loading the store and serving a connection keep it so.
\<close>

section \<open>Headers\<close>

lemma FileMeta0_ok: "file_meta_ok FileMeta0"
  by (simp add: file_meta_ok_def FileMeta0_def int64_def)

lemma file_meta_setters: "list_all (\<lambda>(k, f). setter_keeps file_meta_ok f) file_meta_fields"
  by (auto simp: file_meta_fields_def file_meta_ok_def intro!: setter_keeps_set)

lemma set_files_keeps: "setter_keeps header_ok set_files"
  using decode_list_typed [OF file_meta_setters FileMeta0_ok]
  by (auto simp: setter_keeps_def set_files_def header_ok_def split: json.splits)

lemma header_setters: "list_all (\<lambda>(k, f). setter_keeps header_ok f) header_fields"
  unfolding header_fields_def list.pred_inject prod.case
  by (intro conjI setter_keeps_set set_files_keeps TrueI) (simp_all add: header_ok_def)

lemma unmarshal_header_ok: "unmarshal_header raw = Some h \<Longrightarrow> header_ok h"
proof -
  have zero: "header_ok Header0" by (simp add: header_ok_def Header0_def int64_def)
  show "unmarshal_header raw = Some h \<Longrightarrow> header_ok h"
    by (auto simp: unmarshal_header_def split: option.splits
        intro: decode_struct_typed [OF header_setters json_unmarshal_typed zero])
qed

lemma ReadHeader_ok: "ReadHeader s = (Inr h, r) \<Longrightarrow> header_ok h"
  by (erule ReadHeader_consumes) (rule unmarshal_header_ok)

section \<open>The file\<close>

lemma device_setters: "list_all (\<lambda>(k, f). setter_keeps device_ok f) device_fields"
proof -
  have "setter_keeps device_ok (set_time (\<lambda>s d. d\<lparr>d_PairedAt := s\<rparr>))"
    by (auto simp: setter_keeps_def set_time_def device_ok_def split: json.splits if_splits)
  then show ?thesis by (auto simp: device_fields_def device_ok_def intro!: setter_keeps_set)
qed

lemma Device0_ok: "device_ok Device0"
proof -
  have "rfc3339_ok time_zero" by code_simp
  moreover have "utf8_valid time_zero" by (rule utf8_valid_ascii) (simp add: time_zero_def)
  ultimately show ?thesis by (simp add: device_ok_def Device0_def)
qed

lemma decode_devices_ok:
  "json_typed v \<Longrightarrow> list_all device_ok old \<Longrightarrow> decode_devices v old = Some ds \<Longrightarrow> list_all device_ok ds"
  by (auto simp: decode_devices_def split: json.splits intro: decode_list_typed [OF device_setters Device0_ok])

lemma loadDevices_ok:
  assumes "store_ok s" "loadDevices s = Inr t"
  shows "store_ok t"
proof -
  let ?P = "\<lambda>f. list_all device_ok (df_Devices f) \<and> utf8_valid (df_LastPeer f)"
  have "setter_keeps ?P (\<lambda>v f. map_option (\<lambda>ds. f\<lparr>df_Devices := ds\<rparr>) (decode_devices v (df_Devices f)))"
    by (auto simp: setter_keeps_def dest: decode_devices_ok)
  then have fs: "list_all (\<lambda>(k, f). setter_keeps ?P f) devicesFile_fields"
    by (auto simp: devicesFile_fields_def intro!: setter_keeps_set(1) [where P = ?P])
  have parsed: "?P f" if "json_unmarshal data = Some v"
      "decode_struct devicesFile_fields v \<lparr>df_Devices = [], df_LastPeer = []\<rparr> = Some f" for data v f
    using decode_struct_typed [OF fs json_unmarshal_typed [OF that(1)] _ that(2)] by simp
  have listed: "list_all device_ok ds" if "json_unmarshal data = Some v" "decode_devices v (st_devices s) = Some ds" for data v ds
    using decode_devices_ok [OF json_unmarshal_typed [OF that(1)] _ that(2)] assms(1) by (simp add: store_ok_def)
  show ?thesis
    using assms parsed listed by (auto simp: loadDevices_def Let_def store_ok_def bind_eq_Some_conv
        split: option.splits if_splits)
qed

section \<open>Addresses\<close>

lemma around_last: "c \<in> set s \<Longrightarrow> s = before_last c s @ c # after_last c s"
proof -
  assume "c \<in> set s"
  then have "dropWhile (\<lambda>x. x \<noteq> c) (rev s) \<noteq> []" by (simp add: dropWhile_eq_Nil_conv)
  then have d: "dropWhile (\<lambda>x. x \<noteq> c) (rev s) = c # tl (dropWhile (\<lambda>x. x \<noteq> c) (rev s))"
    using hd_dropWhile [of "\<lambda>x. x \<noteq> c" "rev s"] by (metis list.collapse)
  have "rev s = takeWhile (\<lambda>x. x \<noteq> c) (rev s) @ c # tl (dropWhile (\<lambda>x. x \<noteq> c) (rev s))"
    by (subst d [symmetric]) simp
  then have "rev (rev s) = rev (takeWhile (\<lambda>x. x \<noteq> c) (rev s) @ c # tl (dropWhile (\<lambda>x. x \<noteq> c) (rev s)))" by (rule arg_cong)
  then show ?thesis by (simp add: before_last_def after_last_def)
qed

lemma SplitHostPort_parts:
  assumes "SplitHostPort s = Some (h, p)"
  shows "s = h @ colon # p \<or> s = CHR ''['' # h @ CHR '']'' # colon # p"
proof (cases "hd s = CHR ''[''")
  case False
  with assms show ?thesis using around_last [of colon s] by (auto simp: SplitHostPort_def Let_def split: if_splits)
next
  case True
  let ?n = "\<lambda>c. c \<noteq> CHR '']''"
  from True assms obtain t where s: "s = CHR ''['' # t" by (cases s) (auto simp: SplitHostPort_def)
  from True assms have r: "CHR '']'' \<in> set s" "h = tl (takeWhile ?n s)" "tl (dropWhile ?n s) = colon # p"
    by (auto simp: SplitHostPort_def Let_def split: if_splits) (metis list.collapse)
  have "dropWhile ?n s \<noteq> []" using r(1) by (simp add: dropWhile_eq_Nil_conv)
  then have "dropWhile ?n s = CHR '']'' # colon # p" using hd_dropWhile [of ?n s] r(3) by (metis list.collapse)
  then have "s = takeWhile ?n s @ CHR '']'' # colon # p" by (metis takeWhile_dropWhile_id)
  with r(2) s show ?thesis by simp
qed

lemma SplitHostPort_valid: "utf8_valid s \<Longrightarrow> SplitHostPort s = Some (h, p) \<Longrightarrow> utf8_valid h \<and> utf8_valid p"
  by (drule SplitHostPort_parts) (auto simp: utf8_valid_cut utf8_valid_ascii_Cons)

lemma JoinHostPort_valid: "utf8_valid h \<Longrightarrow> utf8_valid p \<Longrightarrow> utf8_valid (JoinHostPort h p)"
  by (simp add: JoinHostPort_def utf8_valid_cut utf8_valid_ascii_Cons)

lemma show_int_valid: "utf8_valid (show_int i)"
  using show_nat_digits [of "nat i"] show_nat_digits [of "nat (- i)"]
  by (intro utf8_valid_ascii) (auto simp: show_int_def list_all_iff is_digit_def split: if_splits)

lemma resolvePeerAddr_valid:
  assumes "utf8_valid adv" "utf8_valid remote"
  shows "utf8_valid (resolvePeerAddr d adv remote)"
proof -
  have "utf8_valid (case SplitHostPort remote of Some (h, _) \<Rightarrow> h | None \<Rightarrow> [])"
    using SplitHostPort_valid [OF assms(2)] by (auto split: option.splits)
  moreover have "utf8_valid h \<and> utf8_valid p" if "SplitHostPort adv = Some (h, p)" for h p
    using that by (rule SplitHostPort_valid [OF assms(1)])
  ultimately show ?thesis
    unfolding resolvePeerAddr_def Let_def
    by (cases "SplitHostPort adv") (auto simp: JoinHostPort_valid show_int_valid)
qed

section \<open>Connections\<close>

lemma store_ok_ops:
  "store_ok s \<Longrightarrow> utf8_valid a \<Longrightarrow> store_ok (snd (UpdateAddr wok fp a s))"
  "store_ok s \<Longrightarrow> utf8_valid a \<Longrightarrow> store_ok (UpdateFcmToken wok fp a s)"
  "store_ok s \<Longrightarrow> utf8_valid a \<Longrightarrow> store_ok (UpdateRNS wok fp a s)"
  "store_ok s \<Longrightarrow> device_ok x \<Longrightarrow> utf8_valid now \<Longrightarrow> rfc3339_ok now \<Longrightarrow> store_ok (snd (AddDevice wok now x s))"
  using store_ok_step [of s "(wok, now, OpAddr fp a)"] store_ok_step [of s "(wok, now, OpFcm fp a)"]
    store_ok_step [of s "(wok, now, OpRNS fp a)"] store_ok_step [of s "(wok, now, OpAdd x)"] by simp_all

lemma tryCompletePairing_typed:
  assumes "store_ok (dm_store d)" "list_all utf8_valid [fp, name, adv, remote, now]" "rfc3339_ok now"
  shows "store_ok (dm_store (snd (tryCompletePairing wok now fp name adv remote d)))"
proof -
  have "device_ok (new_device d now fp name adv remote)"
    using assms Device0_ok by (simp add: new_device_def device_ok_def resolvePeerAddr_valid Device0_def)
  then have "store_ok (snd (AddDevice wok now (new_device d now fp name adv remote) (dm_store d)))"
    using assms by (intro store_ok_ops(4)) simp_all
  with assms(1) show ?thesis
    by (auto simp: tryCompletePairing_def Let_def closePairWindow_def split: option.splits prod.splits)
qed

lemma update_peer_typed:
  "store_ok (dm_store d) \<Longrightarrow> header_ok hello \<Longrightarrow> utf8_valid (ce_remote ce) \<Longrightarrow> store_ok (dm_store (update_peer ce lan fp hello d))"
  by (simp add: update_peer_def Let_def header_ok_def store_ok_ops resolvePeerAddr_valid)

text \<open>
  Property C22. Nothing a peer sends and nothing in \<^verbatim>\<open>devices.json\<close> can leave the daemon with a store it
  cannot write and read back: loading the file gives devices whose texts are valid UTF-8 and whose
  times are RFC 3339, or an error; every header read from a connection is of the same kind, with its
  numbers within 64 bits; and serving a connection, whatever bytes come, keeps the store so, whether the
  peer is paired by it, updated or turned away.
\<close>

theorem store_well_typed:
  assumes "store_ok s" and "store_ok (dm_store d)"
    and "list_all utf8_valid [fp, ce_remote ce, ce_now ce]" "rfc3339_ok (ce_now ce)"
  shows "(loadDevices s = Inr t \<longrightarrow> store_ok t) \<and> (ReadHeader conn = (Inr h, r) \<longrightarrow> header_ok h) \<and>
    store_ok (dm_store (fst (servePeer ce fp lan conn d)))"
proof (intro conjI impI)
  show "loadDevices s = Inr t \<Longrightarrow> store_ok t" by (rule loadDevices_ok [OF assms(1)])
  show "ReadHeader conn = (Inr h, r) \<Longrightarrow> header_ok h" by (rule ReadHeader_ok)
  obtain x r where x: "ReadHeader conn = (x, r)" by fastforce
  obtain addr d1 where d1: "advertiseAddr (ce_lanIP ce) d = (addr, d1)" by fastforce
  then have s1: "store_ok (dm_store d1)" using assms(2) advertiseAddr_frame(1) by metis
  show "store_ok (dm_store (fst (servePeer ce fp lan conn d)))"
  proof (cases x)
    case (Inr hello)
    then have hello: "header_ok hello" using x ReadHeader_ok by blast
    obtain paired d2 where d2: "(if lan then tryCompletePairing (ce_wok ce 0) (ce_now ce) fp (h_Name hello) (h_Addr hello)
        (ce_remote ce) d1 else (False, d1)) = (paired, d2)" by fastforce
    have "store_ok (dm_store (snd (if lan then tryCompletePairing (ce_wok ce 0) (ce_now ce) fp (h_Name hello) (h_Addr hello)
        (ce_remote ce) d1 else (False, d1))))"
      using s1 assms(3,4) hello tryCompletePairing_typed [of d1 fp "h_Name hello" "h_Addr hello" "ce_remote ce" "ce_now ce"]
      by (simp add: header_ok_def)
    then have s2: "store_ok (dm_store d2)" unfolding d2 by simp
    have rns: "utf8_valid (h_RNS hello)" using hello by (simp add: header_ok_def)
    have s3: "store_ok (dm_store (update_peer ce lan fp hello d2))"
      using s2 hello assms(3) by (intro update_peer_typed) simp_all
    show ?thesis
      unfolding servePeer_def x Inr d1 Let_def using d2 assms(2) s1 s2 s3 rns
      by (auto simp: store_ok_ops split: prod.splits option.splits)
  qed (use x assms(2) in \<open>simp add: servePeer_def\<close>)
qed

theorem store_well_typed_witness:
  "store_ok (dm_store (fst (servePeer demo_conn ''ff'' True
     (frame (Header0\<lparr>h_Type := TypeHello, h_Name := ''eve''\<rparr>) []) demo_window)))"
proof -
  have "store_ok (dm_store demo_window)"
    by (simp add: demo_window_def demo_daemon_def OpenPairWindow_def Let_def store_ok_def)
  moreover have "list_all utf8_valid [''ff'', ce_remote demo_conn, ce_now demo_conn]" "rfc3339_ok (ce_now demo_conn)"
    using Device0_ok by (simp_all add: demo_conn_def device_ok_def Device0_def utf8_valid_ascii)
  ultimately show ?thesis using store_well_typed [of "dm_store demo_window" demo_window] by blast
qed

end
