(* ===== verification/Dial.thy ===== *)
theory Dial
  imports Peer Send
begin

text \<open>
  Outbound connections: the dialing half of \<^verbatim>\<open>internal/transport\<close>, \<^verbatim>\<open>dialPeer\<close> with its recovery
  attempts, \<^verbatim>\<open>SendFiles\<close>, \<^verbatim>\<open>SendClipboard\<close> and \<^verbatim>\<open>wakeViRelay\<close> of \<^verbatim>\<open>send.go\<close>, the messages of
  \<^verbatim>\<open>dialerror.go\<close>, \<^verbatim>\<open>AddPeer\<close>, \<^verbatim>\<open>helloPeer\<close> and \<^verbatim>\<open>Hello\<close> of \<^verbatim>\<open>pairing.go\<close>, and the direct channel
  once it is set up (\<^verbatim>\<open>directch.go\<close>). A dial's outcome comes from outside as an error, with its class
  and text, or as a connection: the certificates the peer proved to hold, the negotiated protocol and
  the bytes it will send.
\<close>

section \<open>Dialing\<close>

datatype errno = EHOSTUNREACH | ENETUNREACH | ECONNREFUSED | EPERM | EACCES | TimedOut | OtherErrno

type_synonym net_error = "errno \<times> string"

record tls_conn =
  tc_certs :: "bytes list"
  tc_proto :: string
  tc_in :: bytes

text \<open>What a dial to an address meets; the flag says whether the socket is bound to the LAN interface.\<close>

type_synonym net = "string \<Rightarrow> bool \<Rightarrow> net_error + tls_conn"

definition dialTLS :: "(bool \<Rightarrow> net_error + tls_conn) \<Rightarrow> bool \<Rightarrow> net_error + tls_conn" where
  "dialTLS dial lanControl = (case dial lanControl of
     Inl e \<Rightarrow>
       if lanControl \<and> fst e \<in> {ENETUNREACH, EHOSTUNREACH, EPERM, EACCES} then dial False else Inl e
   | Inr c \<Rightarrow> Inr c)"

definition untrusted_text :: string where
  "untrusted_text = ''transport: peer certificate not in trusted set''"

definition PeerFingerprint :: "tls_conn \<Rightarrow> net_error + string" where
  "PeerFingerprint c = (case tc_certs c of
     [] \<Rightarrow> Inl (OtherErrno, untrusted_text)
   | leaf # _ \<Rightarrow> Inr (Fingerprint leaf))"

text \<open>The client's handshake over an established TCP connection: the pinned check of the peer.\<close>

definition client_handshake :: "(string \<Rightarrow> string option) \<Rightarrow> bool \<Rightarrow> net_error + tls_conn \<Rightarrow> net_error + tls_conn" where
  "client_handshake isTrusted allowAnyPeer r = (case r of
     Inl e \<Rightarrow> Inl e
   | Inr c \<Rightarrow> if verifyPeer isTrusted allowAnyPeer (tc_certs c) \<noteq> None then Inl (OtherErrno, untrusted_text) else Inr c)"

definition DialTimeout :: "net \<Rightarrow> bool \<Rightarrow> (string \<Rightarrow> string option) \<Rightarrow> string \<Rightarrow> net_error + (tls_conn \<times> string)" where
  "DialTimeout net lanControl isTrusted addr =
     (case dialTLS (\<lambda>control. client_handshake isTrusted False (net addr control)) lanControl of
        Inl e \<Rightarrow> Inl e
      | Inr c \<Rightarrow> (case PeerFingerprint c of Inl e \<Rightarrow> Inl e | Inr fp \<Rightarrow> Inr (c, fp)))"

text \<open>\<^verbatim>\<open>DialPair\<close>; a peer that does not take the protocol refuses the certificate or negotiates another.\<close>

definition contains :: "string \<Rightarrow> string \<Rightarrow> bool" where
  "contains s sub \<longleftrightarrow> sublist sub s"

definition no_tap_text :: string where
  "no_tap_text = ''transport: peer does not accept tap pairing''"

definition DialPair :: "net \<Rightarrow> bool \<Rightarrow> string \<Rightarrow> net_error + (tls_conn \<times> string)" where
  "DialPair net lanControl addr =
     (case dialTLS (\<lambda>control. client_handshake (\<lambda>_. None) True (net addr control)) lanControl of
        Inl e \<Rightarrow> if contains (snd e) ''bad certificate'' then Inl (OtherErrno, no_tap_text) else Inl e
      | Inr c \<Rightarrow>
          if tc_proto c \<noteq> PairALPN then Inl (OtherErrno, no_tap_text)
          else case PeerFingerprint c of Inl e \<Rightarrow> Inl e | Inr fp \<Rightarrow> Inr (c, fp))"

section \<open>Messages about a failed dial\<close>

definition dialFailure :: "device \<Rightarrow> net_error \<Rightarrow> bool \<Rightarrow> string \<Rightarrow> string" where
  "dialFailure dev err seenOnLAN wake =
     (let host = (case SplitHostPort (d_Addr dev) of Some (h, _) \<Rightarrow> h | None \<Rightarrow> d_Addr dev);
          msg =
            (if fst err = EHOSTUNREACH \<or> fst err = ENETUNREACH then
               d_Name dev @ '' is not on this network: no route to '' @ host @ ''. Put both devices on the same Wi-Fi '' @
               [CHR 0xE2, CHR 0x80, CHR 0x94] @ '' a wake push only opens the phone's receive window, it cannot create a route.''
             else if fst err = ECONNREFUSED then
               (if seenOnLAN then
                  d_Name dev @ '' is on this network but nothing is listening on '' @ d_Addr dev @
                  '': the app's receive window is closed.''
                else
                  ''nothing is listening on '' @ d_Addr dev @ '', and '' @ d_Name dev @
                  '' is not announcing itself on this network either '' @ [CHR 0xE2, CHR 0x80, CHR 0x94] @
                  '' it is probably on another Wi-Fi or on mobile data, and '' @ host @ '' is a stale address.'')
             else if fst err = TimedOut then
               d_Name dev @ '' did not answer at '' @ d_Addr dev @
               '' in time: it may be asleep, or this network may isolate clients from each other (guest Wi-Fi often does).''
             else ''cannot reach '' @ d_Name dev @ '' at '' @ d_Addr dev @ '': '' @ snd err) in
      if wake \<noteq> [] then msg @ '' '' @ wake else msg)"

section \<open>Waking the phone\<close>

text \<open>The body of the wake request, and the answers that count as success.\<close>

definition wakeRequest :: "daemon \<Rightarrow> device \<Rightarrow> json" where
  "wakeRequest d dev = JObj [(''fingerprint'', JStr (d_Fingerprint dev)), (''sender'', JStr (dm_name d)),
     (''fcm_token'', JStr (d_FcmToken dev))]"

definition wakeViRelay :: "(string \<Rightarrow> bytes \<Rightarrow> string + (int \<times> bytes)) \<Rightarrow> device \<Rightarrow> daemon \<Rightarrow> string option" where
  "wakeViRelay post dev d = (case post (dm_relayAddr d @ ''/wake'') (json_print (wakeRequest d dev)) of
     Inl e \<Rightarrow> Some e
   | Inr (status, body) \<Rightarrow>
       if status \<noteq> 200 then Some (''relay: status '' @ show_int status @ '': '' @ body) else None)"

section \<open>Dialing a device\<close>

datatype dial_error =
    NoDevice string
  | Cancelled
  | UnreachableError device string
  | FingerprintMismatch string
  | HelloFailed proto_error
  | FoldersUnsupported

text \<open>
  One round of a polling loop: what other goroutines do to the daemon before it, what a dial meets,
  and whether the context ends in the wait. The last round of a list is the one after which the
  deadline has passed.
\<close>

record round =
  rd_others :: "daemon \<Rightarrow> daemon"
  rd_net :: net
  rd_cancelled :: bool

record dial_env =
  de_lanControl :: bool
  de_net :: net
  de_mdns :: "(string \<times> string \<times> string) list"
  de_rounds :: "round list"
  de_direct :: "string + tls_conn"
  de_post :: "string \<Rightarrow> bytes \<Rightarrow> string + (int \<times> bytes)"
  de_wakes :: "round list"
  de_lanIP :: string
  de_wok :: "nat \<Rightarrow> bool"

text \<open>The result of a polling loop: the device as last looked up, the daemon, and the dial or \<^term>\<open>None\<close> when cancelled.\<close>

type_synonym polled = "device \<times> daemon \<times> (net_error + (tls_conn \<times> string)) option"

fun recover :: "bool \<Rightarrow> string \<Rightarrow> device \<Rightarrow> net_error \<Rightarrow> daemon \<Rightarrow> round list \<Rightarrow> polled" where
  "recover lan target dev err d [] = (dev, d, Some (Inl err))"
| "recover lan target dev err d (r # rs) =
     (let d1 = rd_others r d;
          (dev1, res) = (case Lookup (dm_store d1) target of
             Some cur \<Rightarrow> if d_Addr cur \<noteq> d_Addr dev
               then (cur, DialTimeout (rd_net r) lan (Daemon_IsTrusted d1) (d_Addr cur)) else (dev, Inl err)
           | None \<Rightarrow> (dev, Inl err)) in
      case res of
        Inr c \<Rightarrow> (dev1, d1, Some (Inr c))
      | Inl err1 \<Rightarrow>
          if rs = [] then (dev1, d1, Some (Inl err1))
          else if rd_cancelled r then (dev1, d1, None)
          else recover lan target dev1 err1 d1 rs)"

fun wake_poll :: "bool \<Rightarrow> string \<Rightarrow> device \<Rightarrow> net_error \<Rightarrow> daemon \<Rightarrow> round list \<Rightarrow> polled" where
  "wake_poll lan target dev err d [] = (dev, d, Some (Inl err))"
| "wake_poll lan target dev err d (r # rs) =
     (if rd_cancelled r then (dev, d, None)
      else
        (let d1 = rd_others r d;
             dev1 = (case Lookup (dm_store d1) target of Some cur \<Rightarrow> cur | None \<Rightarrow> dev) in
         case DialTimeout (rd_net r) lan (Daemon_IsTrusted d1) (d_Addr dev1) of
           Inr c \<Rightarrow> (dev1, d1, Some (Inr c))
         | Inl err1 \<Rightarrow>
             if rs = [] then (dev1, d1, Some (Inl err1)) else wake_poll lan target dev1 err1 d1 rs))"

text \<open>\<^verbatim>\<open>dialDirect\<close> once the channel's setup has ended, in an error or in a pinned connection.\<close>

definition dialDirect :: "string + tls_conn \<Rightarrow> device \<Rightarrow> daemon \<Rightarrow> string + (tls_conn \<times> string)" where
  "dialDirect setup dev d = (case setup of
     Inl e \<Rightarrow> Inl e
   | Inr c \<Rightarrow>
       (case verifyPeer (Daemon_IsTrusted d) False (tc_certs c) of
          Some _ \<Rightarrow> Inl untrusted_text
        | None \<Rightarrow>
            (let fp = Fingerprint (hd (tc_certs c)) in
             if fp \<noteq> d_Fingerprint dev
             then Inl (''direct channel reached '' @ take 16 fp @ '' instead of '' @ d_Name dev)
             else Inr (c, fp))))"

definition canGoDirect :: "daemon \<Rightarrow> device \<Rightarrow> bool" where
  "canGoDirect d dev \<longleftrightarrow> dm_rnsKey d \<noteq> [] \<and> d_RNS dev \<noteq> []"

definition no_wake_text :: "daemon \<Rightarrow> device \<Rightarrow> string" where
  "no_wake_text d dev =
     (if d_FcmToken dev = [] then
        ''No wake was tried: '' @ d_Name dev @ '' hasn't shared an FCM token yet (it does so on its next direct connection).''
      else if dm_relayAddr d = [] then ''No wake was tried: no relay is configured (ADROP_RELAY).''
      else [])"

text \<open>The wake path of \<^verbatim>\<open>dialPeer\<close>: the outcome, and what the error message will say of it.\<close>

definition try_wake :: "dial_env \<Rightarrow> string \<Rightarrow> device \<Rightarrow> net_error \<Rightarrow> daemon \<Rightarrow> polled \<times> string" where
  "try_wake env target dev err d =
     (if d_FcmToken dev = [] \<or> dm_relayAddr d = [] then ((dev, d, Some (Inl err)), no_wake_text d dev)
      else case wakeViRelay (de_post env) dev d of
        Some e \<Rightarrow> ((dev, d, Some (Inl err)), ''The wake relay at '' @ dm_relayAddr d @ '' could not be reached: '' @ e @ ''.'')
      | None \<Rightarrow>
          (let p = wake_poll (de_lanControl env) target dev err d (de_wakes env) in
           (p, ''A wake push was delivered, but '' @ d_Name (fst p) @
               '' did not open its receive window within 15s.'')))"

text \<open>Everything up to an open, pinned connection to some trusted device.\<close>

definition reach :: "dial_env \<Rightarrow> string \<Rightarrow> device \<Rightarrow> daemon \<Rightarrow> (dial_error + (tls_conn \<times> string)) \<times> device \<times> daemon" where
  "reach env target dev d =
     (case DialTimeout (de_net env) (de_lanControl env) (Daemon_IsTrusted d) (d_Addr dev) of
        Inr c \<Rightarrow> (Inr c, dev, d)
      | Inl err \<Rightarrow>
          (let (seen, d1) = refreshAddrViaMDNS (de_wok env 0) (de_mdns env) (d_Fingerprint dev) d in
           case recover (de_lanControl env) target dev err d1 (de_rounds env) of
             (dev2, d2, None) \<Rightarrow> (Inl Cancelled, dev2, d2)
           | (dev2, d2, Some (Inr c)) \<Rightarrow> (Inr c, dev2, d2)
           | (dev2, d2, Some (Inl err2)) \<Rightarrow>
               (case (if canGoDirect d dev then dialDirect (de_direct env) dev2 d2 else Inl []) of
                  Inr c \<Rightarrow> (Inr c, dev2, d2)
                | Inl _ \<Rightarrow>
                    (case try_wake env target dev2 err2 d2 of
                       ((dev3, d3, None), _) \<Rightarrow> (Inl Cancelled, dev3, d3)
                     | ((dev3, d3, Some (Inr c)), _) \<Rightarrow> (Inr c, dev3, d3)
                     | ((dev3, d3, Some (Inl err3)), wake) \<Rightarrow>
                         (Inl (UnreachableError dev3 (dialFailure dev3 err3 seen wake)), dev3, d3)))))"

text \<open>
  \<^verbatim>\<open>dialPeer\<close>: the connection's remaining input and the device, or the error; what was written to
  the peer; the daemon.
\<close>

definition dialPeer :: "dial_env \<Rightarrow> string \<Rightarrow> bool \<Rightarrow> daemon \<Rightarrow> (dial_error + (bytes \<times> device)) \<times> bytes \<times> daemon" where
  "dialPeer env target folders d = (case Lookup (dm_store d) target of
     None \<Rightarrow> (Inl (NoDevice target), [], d)
   | Some dev0 \<Rightarrow>
       (case reach env target dev0 d of
          (Inl e, dev, d1) \<Rightarrow> (Inl e, [], d1)
        | (Inr (c, fp), dev, d1) \<Rightarrow>
            if fp \<noteq> d_Fingerprint dev then (Inl (FingerprintMismatch (d_Name dev)), [], d1)
            else
              (let (addr, d2) = advertiseAddr (de_lanIP env) d1;
                   (out, werr) = WriteControl (hello_header d2 addr False) in
               case werr of
                 Some e \<Rightarrow> (Inl (HelloFailed e), out, d2)
               | None \<Rightarrow>
                   (case ReadHeader (tc_in c) of
                      (Inl e, _) \<Rightarrow> (Inl (HelloFailed e), out, d2)
                    | (Inr hello, rest) \<Rightarrow>
                        if folders \<and> \<not> h_Folders hello then (Inl FoldersUnsupported, out, d2)
                        else
                          (Inr (rest, dev), out,
                           d2\<lparr>dm_store := UpdateRNS (de_wok env 2) fp (h_RNS hello)
                               (UpdateFcmToken (de_wok env 1) fp (h_FcmToken hello) (dm_store d2))\<rparr>)))))"

definition Hello :: "dial_env \<Rightarrow> string \<Rightarrow> daemon \<Rightarrow> (dial_error + device) \<times> daemon" where
  "Hello env target d = (case dialPeer env target False d of
     (Inl e, _, d') \<Rightarrow> (Inl e, d')
   | (Inr (_, dev), _, d') \<Rightarrow> (Inr dev, d'))"

section \<open>Sending\<close>

datatype sending_error = DialErr dial_error | TransferErr send_error

definition needsFolders :: "(file_meta \<times> string) list \<Rightarrow> bool" where
  "needsFolders ms \<longleftrightarrow> list_ex (\<lambda>(m, _). fm_RelPath m \<noteq> [] \<or> fm_IsDir m) ms"

text \<open>\<^verbatim>\<open>SendFiles\<close>: the error if any, what was written to the peer, the daemon.\<close>

definition SendFiles ::
  "dial_env \<Rightarrow> os_env \<Rightarrow> (string \<Rightarrow> bytes option) \<Rightarrow> string \<Rightarrow> (string \<times> tree option) list \<Rightarrow> daemon
   \<Rightarrow> sending_error option \<times> bytes \<times> daemon" where
  "SendFiles env os src target paths d = (case buildManifest os paths of
     Inl e \<Rightarrow> (Some (TransferErr e), [], d)
   | Inr ms \<Rightarrow>
       (case dialPeer env target (needsFolders ms) d of
          (Inl e, out, d1) \<Rightarrow> (Some (DialErr e), out, d1)
        | (Inr (replies, dev), out, d1) \<Rightarrow>
            (case send_session src ms replies of
               (Some e, out', _) \<Rightarrow> (Some (TransferErr e), out @ out', d1)
             | (None, out', _) \<Rightarrow>
                 (None, out @ out', d1\<lparr>dm_store := SetLastPeer (de_wok env 3) (d_Fingerprint dev) (dm_store d1)\<rparr>))))"

definition SendClipboard :: "dial_env \<Rightarrow> string \<Rightarrow> bytes \<Rightarrow> string \<Rightarrow> daemon \<Rightarrow> sending_error option \<times> bytes \<times> daemon" where
  "SendClipboard env target data mime d =
     (if int (length data) > MaxClipboardSize then (Some (TransferErr (ClipTooLarge (length data))), [], d)
      else
        (case dialPeer env target False d of
           (Inl e, out, d1) \<Rightarrow> (Some (DialErr e), out, d1)
         | (Inr (replies, dev), out, d1) \<Rightarrow>
             (case send_clipboard data mime replies of
                (Some e, out', _) \<Rightarrow> (Some (TransferErr e), out @ out', d1)
              | (None, out', _) \<Rightarrow>
                  (None, out @ out', d1\<lparr>dm_store := SetLastPeer (de_wok env 3) (d_Fingerprint dev) (dm_store d1)\<rparr>))))"

section \<open>Pairing from the scanning side\<close>

definition helloPeer :: "dial_env \<Rightarrow> device \<Rightarrow> daemon \<Rightarrow> bool \<times> bytes \<times> daemon" where
  "helloPeer env dev d =
     (case DialTimeout (de_net env) (de_lanControl env) (Daemon_IsTrusted d) (d_Addr dev) of
        Inl _ \<Rightarrow> (False, [], d)
      | Inr (c, fp) \<Rightarrow>
          if fp \<noteq> d_Fingerprint dev then (False, [], d)
          else
            (let (addr, d1) = advertiseAddr (de_lanIP env) d;
                 (out, werr) = WriteControl (hello_header d1 addr False) in
             if werr \<noteq> None then (False, out, d1)
             else case ReadHeader (tc_in c) of
               (Inl _, _) \<Rightarrow> (False, out, d1)
             | (Inr theirs, _) \<Rightarrow>
                 (True, out, d1\<lparr>dm_store := UpdateRNS (de_wok env 2) fp (h_RNS theirs) (dm_store d1)\<rparr>)))"

text \<open>\<^verbatim>\<open>AddPeer\<close>; the error is that of \<^verbatim>\<open>Decode\<close>, or \<^term>\<open>None\<close> when saving failed.\<close>

definition AddPeer :: "dial_env \<Rightarrow> string \<Rightarrow> string \<Rightarrow> daemon \<Rightarrow> (pair_error option + device) \<times> daemon" where
  "AddPeer env now uri d0 =
     (let d = refreshAdvertiseAddr (de_lanIP env) d0 in
      case Decode uri of
        Inl e \<Rightarrow> (Inl (Some e), d)
      | Inr p \<Rightarrow>
          (let dev = Device0\<lparr>d_Name := p_Name p, d_Fingerprint := p_Fingerprint p, d_Addr := p_Addr p,
                 d_PairedAt := now, d_RNS := p_RNS p\<rparr>;
               (err, st) = AddDevice (de_wok env 4) now dev (dm_store d);
               d1 = d\<lparr>dm_store := st\<rparr> in
           if err \<noteq> None then (Inl None, d1)
           else (Inr dev, snd (snd (helloPeer env dev d1)))))"

section \<open>The direct channel, accepting side\<close>

text \<open>\<^verbatim>\<open>acceptDirect\<close> once the channel is set up: the session is served only for the device that signalled.\<close>

definition acceptDirect :: "conn_env \<Rightarrow> string + tls_conn \<Rightarrow> device \<Rightarrow> daemon \<Rightarrow> daemon \<times> bytes" where
  "acceptDirect ce setup dev d = (case setup of
     Inl e \<Rightarrow> (d, [])
   | Inr c \<Rightarrow>
       (case verifyPeer (Daemon_IsTrusted d) False (tc_certs c) of
          Some _ \<Rightarrow> (d, [])
        | None \<Rightarrow>
            (let fp = Fingerprint (hd (tc_certs c)) in
             if fp \<noteq> d_Fingerprint dev then (d, [])
             else (let (d', out, clip) = servePeer ce fp False (tc_in c) d in (d', out)))))"

section \<open>Laws\<close>

lemma Lookup_matches: "Lookup s target = Some dev \<Longrightarrow> matches target dev"
  by (auto simp: Lookup_def find_Some_iff)

lemma DialTimeout_fp: "DialTimeout net lan tr addr = Inr (c, fp) \<Longrightarrow> tc_certs c \<noteq> [] \<and> fp = Fingerprint (hd (tc_certs c))"
  by (auto simp: DialTimeout_def PeerFingerprint_def split: sum.splits list.splits)

text \<open>What a polling loop returns is a device the target names, and a connection with its fingerprint.\<close>

definition polled_ok :: "string \<Rightarrow> polled \<Rightarrow> bool" where
  "polled_ok target p \<longleftrightarrow> matches target (fst p) \<and>
     (\<forall>c fp. snd (snd p) = Some (Inr (c, fp)) \<longrightarrow> tc_certs c \<noteq> [] \<and> fp = Fingerprint (hd (tc_certs c)))"

lemma recover_ok: "matches target dev \<Longrightarrow> polled_ok target (recover lan target dev err d rs)"
proof (induction lan target dev err d rs rule: recover.induct)
  case (2 lan target dev err d r rs)
  let ?d = "rd_others r d"
  show ?case
  proof (cases "Lookup (dm_store ?d) target")
    case None
    with "2" show ?thesis by (simp add: Let_def polled_ok_def)
  next
    case (Some cur)
    then have m: "matches target cur" by (rule Lookup_matches)
    show ?thesis
    proof (cases "d_Addr cur = d_Addr dev")
      case True
      with "2" Some show ?thesis by (simp add: Let_def polled_ok_def)
    next
      case False
      with "2" Some m show ?thesis
        by (auto simp: Let_def polled_ok_def dest!: DialTimeout_fp split: sum.splits)
    qed
  qed
qed (simp add: polled_ok_def)

lemma wake_poll_ok: "matches target dev \<Longrightarrow> polled_ok target (wake_poll lan target dev err d rs)"
proof (induction lan target dev err d rs rule: wake_poll.induct)
  case (2 lan target dev err d r rs)
  have "matches target (case Lookup (dm_store (rd_others r d)) target of Some cur \<Rightarrow> cur | None \<Rightarrow> dev)"
    using "2.prems" by (auto simp: Lookup_matches split: option.splits)
  with "2" show ?case
    by (auto simp: Let_def polled_ok_def dest!: DialTimeout_fp split: sum.splits)
qed (simp add: polled_ok_def)

lemma try_wake_ok: "matches target dev \<Longrightarrow> polled_ok target (fst (try_wake env target dev err d))"
  using wake_poll_ok by (auto simp: try_wake_def polled_ok_def Let_def split: option.splits)

lemma dialDirect_fp: "dialDirect setup dev d = Inr (c, fp) \<Longrightarrow> tc_certs c \<noteq> [] \<and> fp = Fingerprint (hd (tc_certs c))"
  by (auto simp: dialDirect_def verifyPeer_def Let_def split: sum.splits option.splits if_splits)

lemma reach_ok:
  assumes "matches target dev0" "reach env target dev0 d = (r, dev, d1)"
  shows "matches target dev \<and> (\<forall>c fp. r = Inr (c, fp) \<longrightarrow> tc_certs c \<noteq> [] \<and> fp = Fingerprint (hd (tc_certs c)))"
proof (cases "DialTimeout (de_net env) (de_lanControl env) (Daemon_IsTrusted d) (d_Addr dev0)")
  case (Inr c)
  with assms show ?thesis by (auto simp: reach_def dest: DialTimeout_fp)
next
  case (Inl err)
  obtain seen d2 where m: "refreshAddrViaMDNS (de_wok env 0) (de_mdns env) (d_Fingerprint dev0) d = (seen, d2)" by fastforce
  obtain dev2 d3 res where p: "recover (de_lanControl env) target dev0 err d2 (de_rounds env) = (dev2, d3, res)"
    by (metis prod_cases3)
  have ok: "polled_ok target (dev2, d3, res)" using recover_ok [OF assms(1)] p by metis
  then have m2: "matches target dev2" by (simp add: polled_ok_def)
  have wake: "try_wake env target dev2 e d3 = ((dev4, d4, res4), w) \<Longrightarrow> polled_ok target (dev4, d4, res4)" for e dev4 d4 res4 w
    using try_wake_ok [OF m2, of env e d3] by simp
  show ?thesis
    using assms(2) ok m2
    by (auto simp: reach_def Inl m p polled_ok_def dest!: dialDirect_fp wake split: option.splits sum.splits if_splits prod.splits)
qed

text \<open>The connection a send talks over, and the device it was opened for.\<close>

definition reached :: "dial_env \<Rightarrow> string \<Rightarrow> daemon \<Rightarrow> tls_conn \<Rightarrow> device \<Rightarrow> bool" where
  "reached env target d c dev \<longleftrightarrow>
     (\<exists>dev0 fp d1. Lookup (dm_store d) target = Some dev0 \<and> reach env target dev0 d = (Inr (c, fp), dev, d1))"

definition pinned_to :: "tls_conn \<Rightarrow> device \<Rightarrow> bool" where
  "pinned_to c dev \<longleftrightarrow> (case tc_certs c of [] \<Rightarrow> False | leaf # _ \<Rightarrow> Fingerprint leaf = d_Fingerprint dev)"

lemma dialPeer_pinned:
  assumes "dialPeer env target folders d = (r, out, d')" and "out \<noteq> [] \<or> (\<exists>x. r = Inr x)"
  shows "\<exists>c dev. reached env target d c dev \<and> pinned_to c dev \<and> matches target dev"
proof -
  obtain dev0 where l: "Lookup (dm_store d) target = Some dev0"
    using assms by (auto simp: dialPeer_def split: option.splits)
  obtain res dev d1 where re: "reach env target dev0 d = (res, dev, d1)" by (metis prod_cases3)
  note ok = reach_ok [OF Lookup_matches [OF l] re]
  obtain c fp where c: "res = Inr (c, fp)" "fp = d_Fingerprint dev"
    using assms l re by (auto simp: dialPeer_def split: sum.splits if_splits)
  have "reached env target d c dev" unfolding reached_def using l re c by blast
  moreover have "pinned_to c dev" using ok c by (cases "tc_certs c") (auto simp: pinned_to_def)
  ultimately show ?thesis using ok by blast
qed

lemma dialPeer_unreachable: "dialPeer env target folders d = (Inl (UnreachableError dev msg), out, d') \<Longrightarrow> out = []"
  by (auto simp: dialPeer_def Let_def split: option.splits prod.splits sum.splits if_splits)

lemma dialPeer_unreachable_device:
  assumes "dialPeer env target folders d = (Inl (UnreachableError dev msg), out, d')"
  shows "matches target dev"
proof -
  obtain dev0 where l: "Lookup (dm_store d) target = Some dev0"
    using assms by (auto simp: dialPeer_def split: option.splits)
  obtain res dev1 d1 where re: "reach env target dev0 d = (res, dev1, d1)" by (metis prod_cases3)
  have "res = Inl (UnreachableError dev msg)"
    using assms l re by (auto simp: dialPeer_def Let_def split: sum.splits if_splits option.splits prod.splits)
  moreover have "reach env target dev0 d = (Inl (UnreachableError dev' msg'), dev1, d1) \<Longrightarrow> dev' = dev1" for dev' msg'
    by (auto simp: reach_def Let_def split: sum.splits if_splits option.splits prod.splits)
  ultimately show ?thesis using reach_ok [OF Lookup_matches [OF l] re] re by blast
qed

text \<open>A send dials, and either fails there or goes on over the connection.\<close>

definition over_dial :: "dial_env \<Rightarrow> string \<Rightarrow> daemon \<Rightarrow> sending_error option \<Rightarrow> bytes \<Rightarrow> bool" where
  "over_dial env target d err out \<longleftrightarrow>
     (out = [] \<and> (\<exists>e. err = Some (TransferErr e))) \<or>
     (\<exists>folders r out1 d1. dialPeer env target folders d = (r, out1, d1) \<and>
       ((\<exists>e. r = Inl e \<and> err = Some (DialErr e) \<and> out = out1) \<or>
        (\<exists>x. r = Inr x \<and> (\<forall>e. err \<noteq> Some (DialErr e)))))"

lemma SendFiles_over_dial: "SendFiles env os src target paths d = (err, out, d') \<Longrightarrow> over_dial env target d err out"
proof (cases "buildManifest os paths")
  case (Inr ms)
  obtain r out1 d1 where dp: "dialPeer env target (needsFolders ms) d = (r, out1, d1)" by (metis prod_cases3)
  assume "SendFiles env os src target paths d = (err, out, d')"
  with Inr dp have "(\<exists>e. r = Inl e \<and> err = Some (DialErr e) \<and> out = out1) \<or> (\<exists>x. r = Inr x \<and> (\<forall>e. err \<noteq> Some (DialErr e)))"
    by (cases r) (auto simp: SendFiles_def split: prod.splits option.splits)
  with dp show ?thesis unfolding over_dial_def by blast
qed (auto simp: SendFiles_def over_dial_def)

lemma SendClipboard_over_dial: "SendClipboard env target data mime d = (err, out, d') \<Longrightarrow> over_dial env target d err out"
proof (cases "int (length data) > MaxClipboardSize")
  case False
  obtain r out1 d1 where dp: "dialPeer env target False d = (r, out1, d1)" by (metis prod_cases3)
  assume "SendClipboard env target data mime d = (err, out, d')"
  with False dp have "(\<exists>e. r = Inl e \<and> err = Some (DialErr e) \<and> out = out1) \<or> (\<exists>x. r = Inr x \<and> (\<forall>e. err \<noteq> Some (DialErr e)))"
    by (cases r) (auto simp: SendClipboard_def split: prod.splits option.splits)
  with dp show ?thesis unfolding over_dial_def by blast
qed (auto simp: SendClipboard_def over_dial_def)

lemma over_dial_pinned:
  assumes "over_dial env target d err out"
  shows "out \<noteq> [] \<or> err = None \<Longrightarrow> \<exists>c dev. reached env target d c dev \<and> pinned_to c dev \<and> matches target dev"
    and "err = Some (DialErr (UnreachableError dev msg)) \<Longrightarrow> out = [] \<and> matches target dev"
  using assms dialPeer_pinned dialPeer_unreachable dialPeer_unreachable_device unfolding over_dial_def by fastforce+

text \<open>
  Property C13. Whatever the network answers and other goroutines do meanwhile, nothing of a send of files
  or of the clipboard is written except to a peer whose certificate has the pinned fingerprint of a
  device the user's target names; and a send reported as unreachable wrote nothing at all, so it can
  be queued and repeated whole.
\<close>

theorem sends_only_to_target:
  assumes "(err, out, d') = SendFiles env os src target paths d \<or> (err, out, d') = SendClipboard env target data mime d"
  shows "(out \<noteq> [] \<or> err = None \<longrightarrow> (\<exists>c dev. reached env target d c dev \<and> pinned_to c dev \<and> matches target dev)) \<and>
    (err = Some (DialErr (UnreachableError dev msg)) \<longrightarrow> out = [])"
proof -
  have "over_dial env target d err out"
    using assms SendFiles_over_dial SendClipboard_over_dial by metis
  from over_dial_pinned [OF this] show ?thesis by blast
qed

section \<open>A clipboard between two daemons\<close>

lemma advertiseAddr_frame':
  assumes "advertiseAddr ip d = (addr, d')"
  shows "dm_store d' = dm_store d" "dm_name d' = dm_name d" "dm_rnsKey d' = dm_rnsKey d" "dm_pairWindow d' = dm_pairWindow d"
    "dm_sessions d' = dm_sessions d"
  using assms by (auto simp: advertiseAddr_def refreshAdvertiseAddr_def Let_def split: if_splits)

lemma hello_sent:
  assumes "sendable_header (hello_header d addr b)"
  shows "WriteControl (hello_header d addr b) = (frame (hello_header d addr b) [], None)"
  by (rule WriteControl_sent [OF assms]) (simp add: hello_header_def Header0_def)

lemma hello_fields [simp]:
  "h_Type (hello_header d addr b) = TypeHello" "h_Folders (hello_header d addr b) = b" "h_RNS (hello_header d addr b) = dm_rnsKey d"
  "h_FcmToken (hello_header d addr b) = []"
  by (simp_all add: hello_header_def Header0_def)

text \<open>The dialing side: over a first dial that reaches the device, \<^verbatim>\<open>dialPeer\<close> says hello and reads the answer.\<close>

lemma dialPeer_hello:
  assumes l: "Lookup (dm_store d) target = Some dev" and fp: "d_Fingerprint dev = Fingerprint cert"
    and net: "de_net env = (\<lambda>_ _. Inr \<lparr>tc_certs = [cert], tc_proto = [], tc_in = frame hello [] @ rest\<rparr>)"
    and a: "advertiseAddr (de_lanIP env) d = (addr, d1)"
    and s: "sendable_header (hello_header d1 addr False)" "sendable_header hello"
    and f: "folders \<longrightarrow> h_Folders hello"
  shows "dialPeer env target folders d = (Inr (rest, dev), frame (hello_header d1 addr False) [],
    d1\<lparr>dm_store := UpdateRNS (de_wok env 2) (Fingerprint cert) (h_RNS hello)
         (UpdateFcmToken (de_wok env 1) (Fingerprint cert) (h_FcmToken hello) (dm_store d1))\<rparr>)"
proof -
  have "dev \<in> set (st_devices (dm_store d))" using l by (auto simp: Lookup_def find_Some_iff)
  then have "IsTrusted (dm_store d) (Fingerprint cert) \<noteq> None"
    using fp by (auto simp: IsTrusted_def find_None_iff)
  then have "Daemon_IsTrusted d (Fingerprint cert) \<noteq> None" by (auto simp: Daemon_IsTrusted_def)
  then have dial: "DialTimeout (de_net env) (de_lanControl env) (Daemon_IsTrusted d) (d_Addr dev) =
      Inr (\<lparr>tc_certs = [cert], tc_proto = [], tc_in = frame hello [] @ rest\<rparr>, Fingerprint cert)"
    by (simp add: DialTimeout_def dialTLS_def client_handshake_def verifyPeer_def net PeerFingerprint_def)
  show ?thesis
    using ReadHeader_sent [OF s(2), of "[]" rest] f
    by (simp add: dialPeer_def l reach_def dial fp a hello_sent [OF s(1)])
qed

text \<open>The answering side, for a peer that is already trusted.\<close>

lemma servePeer_trusted:
  assumes t: "IsTrusted (dm_store d) fp = Some name" and a: "advertiseAddr (ce_lanIP ce) d = (addr, d1)"
    and s: "sendable_header hello" "h_Type hello = TypeHello" "sendable_header (hello_header d1 addr True)"
    and rs: "receiveSession (ce_os ce) (ce_clip ce) (dm_downloadDir (update_peer ce lan fp hello d1)) name
        (start_session (update_peer ce lan fp hello d1) rest) = (err, rv)"
  shows "servePeer ce fp lan (frame hello [] @ rest) d =
    (end_session rv (update_peer ce lan fp hello d1), frame (hello_header d1 addr True) [] @ s_out (rv_session rv), rv_clip rv)"
proof -
  have t1: "IsTrusted (dm_store d1) fp = Some name" using t advertiseAddr_frame'(1) [OF a] by simp
  then have "tryCompletePairing wok now fp n ad re d1 = (False, d1)" for wok now n ad re
    by (auto simp: tryCompletePairing_def split: option.splits)
  then show ?thesis
    using ReadHeader_sent [OF s(1), of "[]" rest] s(2) a t1 rs
    by (cases lan) (simp_all add: servePeer_def hello_sent [OF s(3)] Let_def)
qed

abbreviation clip_start :: header where
  "clip_start \<equiv> Header0\<lparr>h_Type := TypeSessionStart, h_Kind := KindClipboard\<rparr>"

abbreviation clip_hdr :: "bytes \<Rightarrow> string \<Rightarrow> header" where
  "clip_hdr data mime \<equiv> Header0\<lparr>h_Type := TypeClipboardData, h_MIME := mime, h_Length := int (length data)\<rparr>"

abbreviation clip_end :: header where
  "clip_end \<equiv> Header0\<lparr>h_Type := TypeSessionEnd\<rparr>"

abbreviation clip_ack :: header where
  "clip_ack \<equiv> Header0\<lparr>h_Type := TypeAck, h_OK := True\<rparr>"

definition clip_stream :: "bytes \<Rightarrow> string \<Rightarrow> bytes" where
  "clip_stream data mime = frame clip_start [] @ frame (clip_hdr data mime) data @ frame clip_end []"

lemma sendable_clip:
  assumes "utf8_valid mime" "length mime \<le> 1000" "int (length data) \<le> MaxClipboardSize"
  shows "sendable_header clip_start" "sendable_header (clip_hdr data mime)" "sendable_header clip_end" "sendable_header clip_ack"
  using assms length_types utf8_types
  by (auto intro!: small_header simp: header_defs int64_def MaxClipboardSize_def)

lemma send_clipboard_ok:
  assumes "utf8_valid mime" "length mime \<le> 1000" "mime \<noteq> []" "int (length data) \<le> MaxClipboardSize"
  shows "send_clipboard data mime (frame clip_ack []) = (None, clip_stream data mime, [])"
proof -
  note sd = sendable_clip [OF assms(1,2,4)]
  have w: "WriteControl clip_start = (frame clip_start [], None)" "WriteControl clip_end = (frame clip_end [], None)"
    using sd by (simp_all add: WriteControl_sent Header0_def)
  have "WriteMessage (clip_hdr data mime) (Some data) = (frame (clip_hdr data mime) data, None)"
    by (rule WriteMessage_sent [OF sd(2)]) simp
  then show ?thesis
    using w ReadHeader_sent [OF sd(4), of "[]" "[]"] assms(3,4) by (simp add: send_clipboard_def clip_stream_def)
qed

lemma receive_clipboard_ok:
  assumes "utf8_valid mime" "length mime \<le> 1000" "int (length data) \<le> MaxClipboardSize" and c: "clip data mime"
    and i: "s_in s = clip_stream data mime"
  shows "receiveSession os clip dir peer s =
    (None, \<lparr>rv_session = s\<lparr>s_in := [], s_out := s_out s @ frame clip_ack []\<rparr>, rv_clip = Some (data, mime)\<rparr>)"
proof -
  note sd = sendable_clip [OF assms(1-3)]
  have r1: "ReadHeader (s_in s) = (Inr clip_start, frame (clip_hdr data mime) data @ frame clip_end [])"
    using ReadHeader_sent [OF sd(1), of "[]"] by (simp add: i clip_stream_def)
  have r2: "ReadHeader (frame (clip_hdr data mime) data @ frame clip_end []) = (Inr (clip_hdr data mime), data @ frame clip_end [])"
    by (rule ReadHeader_sent [OF sd(2)])
  have r3: "ReadHeader (frame clip_end []) = (Inr clip_end, [])" using ReadHeader_sent [OF sd(3), of "[]" "[]"] by simp
  have rf: "ReadFull (length data) (data @ frame clip_end []) = (Inr data, frame clip_end [])"
    by (simp add: ReadFull_def)
  have w: "WriteControl clip_ack = (frame clip_ack [], None)" using sd by (simp add: WriteControl_sent Header0_def)
  have "receiveClipboard os clip (frame (clip_hdr data mime) data @ frame clip_end []) =
      (None, Some (data, mime), [], frame clip_ack [])"
    using c assms(3) by (simp add: receiveClipboard_def r2 rf r3 w Let_def)
  then show ?thesis by (simp add: receiveSession_def r1 Let_def)
qed

text \<open>A daemon whose greeting fits a header.\<close>

definition greets :: "string \<Rightarrow> daemon \<Rightarrow> bool" where
  "greets ip d \<longleftrightarrow> (let a = fst (advertiseAddr ip d) in
     utf8_valid (dm_name d) \<and> utf8_valid a \<and> utf8_valid (dm_rnsKey d) \<and>
     length (dm_name d) \<le> 20000 \<and> length a \<le> 20000 \<and> length (dm_rnsKey d) \<le> 20000)"

lemma greets_hello: "greets ip d \<Longrightarrow> advertiseAddr ip d = (addr, d1) \<Longrightarrow> sendable_header (hello_header d1 addr b)"
  using advertiseAddr_frame' [of ip d addr d1] by (intro sendable_hello) (simp_all add: greets_def Let_def)

text \<open>
  Property C18. Two daemons run against each other: the user of one sends the clipboard to a paired
  device, whose daemon trusts the sender and sets its clipboard. Each side's output being the
  other's input, the send ends without error, the receiver's clipboard is exactly the data with its
  type, and neither side trusts anyone new. The data is within \<^verbatim>\<open>MaxClipboardSize\<close>, its type and both greetings
  are short and valid UTF-8, and the receiver's clipboard can be set.
\<close>

theorem clipboard_end_to_end:
  fixes env :: dial_env
  assumes "Lookup (dm_store dA) target = Some dev" and "d_Fingerprint dev = Fingerprint certB"
    and "IsTrusted (dm_store dB) (Fingerprint certA) = Some nameA"
    and "greets (de_lanIP env) dA" and "greets (ce_lanIP ce) dB"
    and "utf8_valid mime" and "length mime \<le> 1000" and "int (length data) \<le> MaxClipboardSize"
    and "ce_clip ce data (if mime = [] then ''text/plain'' else mime)"
  shows "\<exists>outA outB dA' dB'.
    SendClipboard (env\<lparr>de_net := \<lambda>_ _. Inr \<lparr>tc_certs = [certB], tc_proto = [], tc_in = outB\<rparr>\<rparr>) target data mime dA
      = (None, outA, dA') \<and>
    servePeer ce (Fingerprint certA) lan outA dB = (dB', outB, Some (data, if mime = [] then ''text/plain'' else mime)) \<and>
    map d_Fingerprint (st_devices (dm_store dA')) = map d_Fingerprint (st_devices (dm_store dA)) \<and>
    map d_Fingerprint (st_devices (dm_store dB')) = map d_Fingerprint (st_devices (dm_store dB))"
proof -
  let ?mime = "if mime = [] then ''text/plain'' else mime"
  obtain addrA dA1 where aA: "advertiseAddr (de_lanIP env) dA = (addrA, dA1)" by fastforce
  obtain addrB dB1 where aB: "advertiseAddr (ce_lanIP ce) dB = (addrB, dB1)" by fastforce
  let ?helloA = "hello_header dA1 addrA False" and ?helloB = "hello_header dB1 addrB True"
  have sA: "sendable_header ?helloA" and sB: "sendable_header ?helloB"
    using greets_hello assms(4,5) aA aB by blast+
  have m: "utf8_valid ?mime" "length ?mime \<le> 1000" "?mime \<noteq> []" using assms(6,7) by (simp_all add: utf8_valid_ascii)
  define outB where "outB = frame ?helloB [] @ frame clip_ack []"
  define outA where "outA = frame ?helloA [] @ clip_stream data ?mime"
  let ?env = "env\<lparr>de_net := \<lambda>_ _. Inr \<lparr>tc_certs = [certB], tc_proto = [], tc_in = outB\<rparr>\<rparr>"
  obtain dA2 where dial: "dialPeer ?env target False dA = (Inr (frame clip_ack [], dev), frame ?helloA [], dA2)"
      and stA: "map d_Fingerprint (st_devices (dm_store dA2)) = map d_Fingerprint (st_devices (dm_store dA1))"
    using dialPeer_hello [of dA target dev certB ?env ?helloB "frame clip_ack []" addrA dA1 False] assms(1,2) aA sA sB
    by (simp add: outB_def fps_updates)
  have eq: "send_clipboard data mime r = send_clipboard data ?mime r" for r by (simp add: send_clipboard_def)
  have A: "\<exists>dA'. SendClipboard ?env target data mime dA = (None, outA, dA') \<and>
      map d_Fingerprint (st_devices (dm_store dA')) = map d_Fingerprint (st_devices (dm_store dA))"
    using dial stA assms(8) send_clipboard_ok [OF m assms(8)] advertiseAddr_frame'(1) [OF aA]
    by (simp add: SendClipboard_def outA_def eq fps_updates)
  let ?d3 = "update_peer ce lan (Fingerprint certA) ?helloA dB1"
  have rs: "receiveSession (ce_os ce) (ce_clip ce) (dm_downloadDir ?d3) nameA (start_session ?d3 (clip_stream data ?mime)) =
      (None, \<lparr>rv_session = (start_session ?d3 (clip_stream data ?mime))\<lparr>s_in := [],
         s_out := s_out (start_session ?d3 (clip_stream data ?mime)) @ frame clip_ack []\<rparr>, rv_clip = Some (data, ?mime)\<rparr>)"
    by (rule receive_clipboard_ok [where clip = "ce_clip ce", OF m(1,2) assms(8,9)]) (simp add: start_session_def)
  have "\<exists>dB'. servePeer ce (Fingerprint certA) lan outA dB = (dB', outB, Some (data, ?mime)) \<and>
      map d_Fingerprint (st_devices (dm_store dB')) = map d_Fingerprint (st_devices (dm_store dB))"
    using servePeer_trusted [OF assms(3) aB sA _ sB rs] advertiseAddr_frame'(1) [OF aB]
    by (simp add: outA_def outB_def start_session_def update_peer_def Let_def fps_updates)
  with A show ?thesis by blast
qed

definition demo_env :: dial_env where
  "demo_env = \<lparr>de_lanControl = False, de_net = (\<lambda>_ _. Inr \<lparr>tc_certs = [''cB''], tc_proto = [], tc_in = []\<rparr>), de_mdns = [],
     de_rounds = [], de_direct = Inl [], de_post = (\<lambda>_ _. Inl []), de_wakes = [], de_lanIP = ''10.0.0.2'', de_wok = \<lambda>_. True\<rparr>"

definition knows :: "string \<Rightarrow> bytes \<Rightarrow> daemon" where
  "knows name cert = demo_daemon\<lparr>dm_store := dm_store demo_daemon\<lparr>st_devices :=
     [Device0\<lparr>d_Name := name, d_Fingerprint := Fingerprint cert, d_Addr := ''10.0.0.9:53127''\<rparr>]\<rparr>\<rparr>"

lemma demo_greets: "greets ip (knows name cert)"
  by (simp add: greets_def knows_def demo_daemon_def advertiseAddr_def utf8_valid_ascii)

lemma demo_lookup: "Lookup (dm_store (knows name cert)) name = Some (Device0\<lparr>d_Name := name, d_Fingerprint := Fingerprint cert,
    d_Addr := ''10.0.0.9:53127''\<rparr>)"
  by (simp add: knows_def Lookup_def matches_def)

lemma clipboard_end_to_end_witness:
  "\<exists>outA outB dA' dB'.
    SendClipboard (demo_env\<lparr>de_net := \<lambda>_ _. Inr \<lparr>tc_certs = [''cB''], tc_proto = [], tc_in = outB\<rparr>\<rparr>) ''phone'' ''hello'' []
      (knows ''phone'' ''cB'') = (None, outA, dA') \<and>
    servePeer demo_conn (Fingerprint ''cA'') True outA (knows ''pc'' ''cA'') = (dB', outB, Some (''hello'', ''text/plain''))"
proof -
  have t: "IsTrusted (dm_store (knows ''pc'' ''cA'')) (Fingerprint ''cA'') = Some ''pc''" by (simp add: knows_def IsTrusted_def)
  have c: "ce_clip demo_conn ''hello'' (if [] = [] then ''text/plain'' else [])" by (simp add: demo_conn_def)
  from clipboard_end_to_end [OF demo_lookup [of "''phone''" "''cB''"] _ t demo_greets [of "de_lanIP demo_env"] demo_greets _ _ _ c, of "''cB''" True]
  show ?thesis by (simp add: MaxClipboardSize_def) blast
qed

lemma sends_only_to_target_witness:
  "\<exists>err out d' c dev. SendClipboard demo_env ''phone'' ''hello'' [] (knows ''phone'' ''cB'') = (err, out, d') \<and> out \<noteq> [] \<and>
     pinned_to c dev \<and> matches ''phone'' dev"
proof -
  let ?d = "knows ''phone'' ''cB''" and ?dev = "Device0\<lparr>d_Name := ''phone'', d_Fingerprint := Fingerprint ''cB'', d_Addr := ''10.0.0.9:53127''\<rparr>"
  obtain err out d' where run: "(err, out, d') = SendClipboard demo_env ''phone'' ''hello'' [] ?d" by (metis prod_cases3)
  obtain addr d1 where a: "advertiseAddr (de_lanIP demo_env) ?d = (addr, d1)" by fastforce
  have hello: "WriteControl (hello_header d1 addr False) = (frame (hello_header d1 addr False) [], None)"
    by (rule hello_sent) (rule greets_hello [OF demo_greets a])
  have "Daemon_IsTrusted ?d (Fingerprint ''cB'') \<noteq> None" by (simp add: Daemon_IsTrusted_def knows_def IsTrusted_def)
  then have "DialTimeout (de_net demo_env) (de_lanControl demo_env) (Daemon_IsTrusted ?d) (d_Addr ?dev) =
      Inr (\<lparr>tc_certs = [''cB''], tc_proto = [], tc_in = []\<rparr>, Fingerprint ''cB'')"
    by (simp add: DialTimeout_def dialTLS_def client_handshake_def verifyPeer_def demo_env_def PeerFingerprint_def)
  then have "out = frame (hello_header d1 addr False) []"
    using run hello a by (simp add: SendClipboard_def MaxClipboardSize_def dialPeer_def demo_lookup reach_def ReadHeader_def ReadFull_def)
  then have "out \<noteq> []" by (simp add: frame_def)
  with sends_only_to_target [of err out d' demo_env _ _ "''phone''" _ ?d "''hello''" "[]"] run show ?thesis by metis
qed

end
