(* ===== verification/Hdlc.thy ===== *)
theory Hdlc
  imports Go_Strings
begin

text \<open>
  One TCP connection to a Reticulum hub, \<^verbatim>\<open>internal/rns/hubconn.go\<close>: HDLC framing and the life of
  the connection. The framing bytes are constants of the Reticulum library, so they are an argument,
  and \<^verbatim>\<open>hdlc_laws\<close> says what the code needs of them. Connections are numbered in the order they
  are dialed; a write's outcome and the time of each step come from outside.
\<close>

unbundle bit_operations_syntax

section \<open>Framing\<close>

record hdlc =
  HDLCFlag :: char
  HDLCEsc :: char
  HDLCEscMask :: char

definition xor_byte :: "char \<Rightarrow> char \<Rightarrow> char" where
  "xor_byte a b = char_of (of_char a XOR of_char b :: nat)"

definition escape_byte :: "hdlc \<Rightarrow> char \<Rightarrow> bytes" where
  "escape_byte h b =
     (if b = HDLCFlag h \<or> b = HDLCEsc h then [HDLCEsc h, xor_byte b (HDLCEscMask h)] else [b])"

definition hub_frame :: "hdlc \<Rightarrow> bytes \<Rightarrow> bytes" where
  "hub_frame h data = HDLCFlag h # concat (map (escape_byte h) data) @ [HDLCFlag h]"

text \<open>The reader's variables; \<^verbatim>\<open>rl_out\<close> collects the calls of \<^verbatim>\<open>ProcessIncoming\<close>.\<close>

record read_state =
  rl_frame :: bytes
  rl_inFrame :: bool
  rl_escape :: bool
  rl_out :: "bytes list"

definition read_start :: read_state where
  "read_start = \<lparr>rl_frame = [], rl_inFrame = False, rl_escape = False, rl_out = []\<rparr>"

definition read_byte :: "hdlc \<Rightarrow> nat \<Rightarrow> char \<Rightarrow> read_state \<Rightarrow> read_state" where
  "read_byte h maxFrame b s =
     (if b = HDLCFlag h then
        s\<lparr>rl_out := (if rl_inFrame s \<and> rl_frame s \<noteq> [] then rl_out s @ [rl_frame s] else rl_out s),
          rl_frame := [], rl_inFrame := True, rl_escape := False\<rparr>
      else if \<not> rl_inFrame s then s
      else if b = HDLCEsc h then s\<lparr>rl_escape := True\<rparr>
      else
        (let b' = (if rl_escape s then xor_byte b (HDLCEscMask h) else b);
             s1 = s\<lparr>rl_escape := False\<rparr> in
         if maxFrame \<le> length (rl_frame s1) then s1\<lparr>rl_frame := [], rl_inFrame := False\<rparr>
         else s1\<lparr>rl_frame := rl_frame s1 @ [b']\<rparr>))"

text \<open>\<^verbatim>\<open>readLoop\<close> over what successive reads of the connection return, until one fails.\<close>

definition max_frame :: "nat \<Rightarrow> nat" where
  "max_frame mtu = 2 * mtu + 32"

definition readLoop :: "hdlc \<Rightarrow> nat \<Rightarrow> bytes list \<Rightarrow> read_state" where
  "readLoop h mtu reads = fold (\<lambda>buf. fold (read_byte h (max_frame mtu)) buf) reads read_start"

definition hdlc_laws :: "hdlc \<Rightarrow> bool" where
  "hdlc_laws h \<longleftrightarrow> HDLCFlag h \<noteq> HDLCEsc h \<and>
     (\<forall>b\<in>{HDLCFlag h, HDLCEsc h}. xor_byte b (HDLCEscMask h) \<notin> {HDLCFlag h, HDLCEsc h})"

lemma of_char_xor: "(of_char (xor_byte a m) :: nat) = of_char a XOR of_char m"
proof -
  have "take_bit 8 (of_char c) = (of_char c :: nat)" for c by (simp add: take_bit_eq_mod)
  then have "take_bit 8 (of_char a XOR of_char m) = (of_char a XOR of_char m :: nat)"
    by (simp add: take_bit_xor)
  then show ?thesis by (simp add: xor_byte_def take_bit_eq_mod)
qed

lemma xor_byte_twice [simp]: "xor_byte (xor_byte a m) m = a"
  by (simp add: xor_byte_def [of "xor_byte a m"] of_char_xor xor.assoc)

lemma readLoop_concat: "readLoop h mtu reads = fold (read_byte h (max_frame mtu)) (concat reads) read_start"
  unfolding readLoop_def by (induction reads arbitrary: rule: rev_induct) simp_all

lemma read_escaped:
  assumes "hdlc_laws h" "rl_inFrame s" "\<not> rl_escape s" "length (rl_frame s) < m"
  shows "fold (read_byte h m) (escape_byte h b) s = s\<lparr>rl_frame := rl_frame s @ [b]\<rparr>"
  using assms by (auto simp: escape_byte_def read_byte_def hdlc_laws_def Let_def)

lemma read_data:
  assumes "hdlc_laws h"
  shows "rl_inFrame s \<Longrightarrow> \<not> rl_escape s \<Longrightarrow> length (rl_frame s) + length data \<le> m \<Longrightarrow>
    fold (read_byte h m) (concat (map (escape_byte h) data)) s = s\<lparr>rl_frame := rl_frame s @ data\<rparr>"
proof (induction data arbitrary: s)
  case (Cons b data)
  then show ?case by (simp add: read_escaped [OF assms])
qed simp

text \<open>Between two frames the reader is inside an empty frame; whatever it held before the first flag
  is delivered as a frame of its own.\<close>

definition flushed :: "read_state \<Rightarrow> bytes list" where
  "flushed s = (if rl_inFrame s \<and> rl_frame s \<noteq> [] then rl_out s @ [rl_frame s] else rl_out s)"

lemma read_frame:
  assumes "hdlc_laws h" "data \<noteq> []" "length data \<le> m"
  shows "fold (read_byte h m) (hub_frame h data) s =
    \<lparr>rl_frame = [], rl_inFrame = True, rl_escape = False, rl_out = flushed s @ [data]\<rparr>"
proof -
  have "read_byte h m (HDLCFlag h) s = \<lparr>rl_frame = [], rl_inFrame = True, rl_escape = False, rl_out = flushed s\<rparr>"
    by (simp add: read_byte_def flushed_def)
  then show ?thesis
    using assms by (simp add: hub_frame_def read_data) (simp add: read_byte_def)
qed

lemma read_frames:
  assumes "hdlc_laws h"
  shows "\<forall>p\<in>set ps. p \<noteq> [] \<and> length p \<le> m \<Longrightarrow>
    rl_out (fold (read_byte h m) (concat (map (hub_frame h) ps)) s) = (if ps = [] then rl_out s else flushed s @ ps)"
proof (induction ps arbitrary: s)
  case (Cons p ps)
  then show ?case by (simp add: read_frame [OF assms] flushed_def)
qed simp

text \<open>No frame the reader holds or delivers is longer than the bound.\<close>

lemma read_bounded:
  "length (rl_frame s) \<le> m \<Longrightarrow> (\<forall>f\<in>set (rl_out s). f \<noteq> [] \<and> length f \<le> m) \<Longrightarrow>
   (let s' = fold (read_byte h m) bs s in
    length (rl_frame s') \<le> m \<and> (\<forall>f\<in>set (rl_out s'). f \<noteq> [] \<and> length f \<le> m))"
proof (induction bs arbitrary: s)
  case (Cons b bs)
  have "length (rl_frame (read_byte h m b s)) \<le> m \<and>
      (\<forall>f\<in>set (rl_out (read_byte h m b s)). f \<noteq> [] \<and> length f \<le> m)"
    using Cons.prems by (auto simp: read_byte_def Let_def)
  with Cons.IH show ?case by simp
qed simp

text \<open>Every frame delivered ended at a flag, and the first flag ended none.\<close>

lemma read_flags:
  "length (rl_out s) + of_bool (rl_inFrame s) \<le> k \<Longrightarrow>
   length (rl_out (fold (read_byte h m) bs s)) + of_bool (rl_inFrame (fold (read_byte h m) bs s))
     \<le> k + count_list bs (HDLCFlag h)"
proof (induction bs arbitrary: s k)
  case (Cons b bs)
  have "length (rl_out (read_byte h m b s)) + of_bool (rl_inFrame (read_byte h m b s))
      \<le> (if b = HDLCFlag h then Suc k else k)"
    using Cons.prems by (auto simp: read_byte_def Let_def)
  from Cons.IH [OF this] show ?case by (cases "b = HDLCFlag h") (auto simp: of_bool_def)
qed simp

text \<open>
  Property C12. Packets written to a hub connection as HDLC frames are read back as the same packets in
  order, however the stream is cut into reads and whatever bytes came before them (which deliver at
  most one frame for each flag among them). No delivered frame is empty or longer than twice the
  interface's MTU plus 32, whatever the hub sends.
\<close>

theorem hdlc_roundtrip:
  assumes "hdlc_laws h"
    and "\<forall>p\<in>set packets. p \<noteq> [] \<and> length p \<le> max_frame mtu"
    and "concat reads = noise @ concat (map (hub_frame h) packets)"
  shows "(\<exists>pre. rl_out (readLoop h mtu reads) = pre @ packets \<and> length pre \<le> count_list noise (HDLCFlag h)) \<and>
    (\<forall>f\<in>set (rl_out (readLoop h mtu any)). f \<noteq> [] \<and> length f \<le> max_frame mtu)"
proof
  let ?s = "fold (read_byte h (max_frame mtu)) noise read_start"
  let ?pre = "if packets = [] then rl_out ?s else flushed ?s"
  have "rl_out (readLoop h mtu reads) = ?pre @ packets"
    unfolding readLoop_concat assms(3) using read_frames [OF assms(1,2)] by simp
  moreover have "length (rl_out ?s) + of_bool (rl_inFrame ?s) \<le> count_list noise (HDLCFlag h)"
    using read_flags [of read_start 0 h "max_frame mtu" noise] by (simp add: read_start_def Let_def)
  then have "length ?pre \<le> count_list noise (HDLCFlag h)" by (auto simp: flushed_def split: if_splits)
  ultimately show "\<exists>pre. rl_out (readLoop h mtu reads) = pre @ packets \<and> length pre \<le> count_list noise (HDLCFlag h)"
    by blast
  show "\<forall>f\<in>set (rl_out (readLoop h mtu any)). f \<noteq> [] \<and> length f \<le> max_frame mtu"
    using read_bounded [of read_start "max_frame mtu" h "concat any"]
    by (simp add: readLoop_concat read_start_def Let_def)
qed

definition reticulum_hdlc :: hdlc where
  "reticulum_hdlc = \<lparr>HDLCFlag = CHR 0x7E, HDLCEsc = CHR 0x7D, HDLCEscMask = CHR 0x20\<rparr>"

lemma hdlc_roundtrip_witness:
  "\<exists>pre. rl_out (readLoop reticulum_hdlc 500 [[CHR ''x'', CHR 0x7E, CHR ''h''], [CHR 0x7D, CHR 0x5E, CHR 0x7E]])
     = pre @ [[CHR ''h'', CHR 0x7E]] \<and> length pre \<le> 0"
proof -
  have "hdlc_laws reticulum_hdlc"
    by (simp add: hdlc_laws_def reticulum_hdlc_def xor_byte_def char_of_def)
  from hdlc_roundtrip [OF this, of "[[CHR ''h'', CHR 0x7E]]" 500
      "[[CHR ''x'', CHR 0x7E, CHR ''h''], [CHR 0x7D, CHR 0x5E, CHR 0x7E]]" "''x''" "[]"]
  show ?thesis
    by (simp add: max_frame_def hub_frame_def escape_byte_def reticulum_hdlc_def xor_byte_def char_of_def bit_0)
qed

section \<open>The connection\<close>

text \<open>
  The fields of \<^verbatim>\<open>hubConn\<close> and of the embedded interface that this code reads or writes. Two more
  lists record what the program did to the outside: the connections it opened and those it closed.
\<close>

record hubConn =
  hc_addr :: string
  hc_conn :: "nat option"
  hc_Online :: bool
  hc_Detached :: bool
  hc_TxBytes :: "64 word"
  hc_TxPackets :: nat
  hc_opened :: "nat list"
  hc_closed :: "nat list"

definition newHubConn :: "string \<Rightarrow> hubConn" where
  "newHubConn addr = \<lparr>hc_addr = addr, hc_conn = None, hc_Online = False, hc_Detached = False,
     hc_TxBytes = 0, hc_TxPackets = 0, hc_opened = [], hc_closed = []\<rparr>"

text \<open>The goroutine of \<^verbatim>\<open>Start\<close> when its dial returns connection \<^term>\<open>c\<close>; a failed dial changes nothing.\<close>

definition Start :: "nat option \<Rightarrow> hubConn \<Rightarrow> hubConn" where
  "Start dialed h = (case dialed of
     None \<Rightarrow> h
   | Some c \<Rightarrow>
       (let h1 = h\<lparr>hc_opened := c # hc_opened h\<rparr> in
        if hc_Detached h1 then h1\<lparr>hc_closed := c # hc_closed h1\<rparr>
        else h1\<lparr>hc_conn := Some c, hc_Online := True\<rparr>))"

definition Stop :: "hubConn \<Rightarrow> hubConn" where
  "Stop h = h\<lparr>hc_Detached := True, hc_Online := False, hc_conn := None,
     hc_closed := (case hc_conn h of None \<Rightarrow> hc_closed h | Some c \<Rightarrow> c # hc_closed h)\<rparr>"

definition connected :: "hubConn \<Rightarrow> bool" where
  "connected h \<longleftrightarrow> hc_Online h \<and> hc_conn h \<noteq> None"

definition GetConn :: "hubConn \<Rightarrow> nat option" where
  "GetConn h = hc_conn h"

definition offline :: "nat \<Rightarrow> hubConn \<Rightarrow> hubConn" where
  "offline c h = h\<lparr>hc_Online := (if hc_conn h = Some c then False else hc_Online h), hc_closed := c # hc_closed h\<rparr>"

datatype hub_error = HubOffline | IFACFailed | HubWriteFailed

text \<open>\<^verbatim>\<open>ProcessOutgoing\<close> returns the frame written; \<^term>\<open>wok\<close> says whether the write succeeds.\<close>

definition ProcessOutgoing :: "hdlc \<Rightarrow> bool \<Rightarrow> bytes \<Rightarrow> hubConn \<Rightarrow> (hub_error + bytes) \<times> hubConn" where
  "ProcessOutgoing hx wok data h = (case GetConn h of
     None \<Rightarrow> (Inl HubOffline, h)
   | Some c \<Rightarrow>
       if \<not> connected h then (Inl HubOffline, h)
       else
         (let frame = hub_frame hx data in
          if \<not> wok then (Inl HubWriteFailed, offline c h)
          else (Inr frame, h\<lparr>hc_TxBytes := hc_TxBytes h + of_nat (length frame),
                             hc_TxPackets := Suc (hc_TxPackets h)\<rparr>)))"

text \<open>The library's \<^verbatim>\<open>ApplyIFACOutbound\<close> is a parameter.\<close>

definition hub_Send :: "(bytes \<Rightarrow> bytes option) \<Rightarrow> hdlc \<Rightarrow> bool \<Rightarrow> bytes \<Rightarrow> hubConn \<Rightarrow> (hub_error + bytes) \<times> hubConn" where
  "hub_Send applyIFAC hx wok data h = (case applyIFAC data of
     None \<Rightarrow> (Inl IFACFailed, h)
   | Some masked \<Rightarrow> ProcessOutgoing hx wok masked h)"

text \<open>
  What can happen to a connection object, in any order: its one dial returns, a packet is sent, the
  reader of a connection ends, the object is stopped.
\<close>

inductive hub_step :: "hdlc \<Rightarrow> hubConn \<Rightarrow> hubConn \<Rightarrow> bool" for hx where
  dialed: "hc_opened h = [] \<Longrightarrow> hub_step hx h (Start dial h)"
| sent: "hub_step hx h (snd (hub_Send applyIFAC hx wok data h))"
| reader_ended: "c \<in> set (hc_opened h) \<Longrightarrow> hub_step hx h (offline c h)"
| stopped: "hub_step hx h (Stop h)"

definition hub_inv :: "hubConn \<Rightarrow> bool" where
  "hub_inv h \<longleftrightarrow>
     (hc_Online h \<longrightarrow> hc_conn h \<noteq> None) \<and>
     (hc_Detached h \<longrightarrow> hc_conn h = None \<and> \<not> hc_Online h) \<and>
     (\<forall>c. hc_conn h = Some c \<longrightarrow> c \<in> set (hc_opened h)) \<and>
     (\<forall>c\<in>set (hc_opened h). c \<in> set (hc_closed h) \<or> hc_conn h = Some c)"

lemma hub_step_inv: "hub_step hx h h' \<Longrightarrow> hub_inv h \<Longrightarrow> hub_inv h'"
proof (induction rule: hub_step.induct)
  case (dialed h dial)
  then show ?case by (cases dial) (auto simp: hub_inv_def Start_def Let_def)
next
  case (sent h applyIFAC wok data)
  then show ?case
    by (auto simp: hub_inv_def hub_Send_def ProcessOutgoing_def GetConn_def offline_def Let_def
        split: option.splits)
next
  case (reader_ended c h)
  then show ?case by (auto simp: hub_inv_def offline_def)
next
  case (stopped h)
  then show ?case by (auto simp: hub_inv_def Stop_def split: option.splits)
qed

lemma hub_step_detached: "hub_step hx h h' \<Longrightarrow> hc_Detached h \<Longrightarrow> hc_Detached h'"
  by (induction rule: hub_step.induct)
    (auto simp: Start_def Stop_def offline_def hub_Send_def ProcessOutgoing_def Let_def split: option.splits)

lemma hub_reachable_inv: "(hub_step hx)\<^sup>*\<^sup>* h h' \<Longrightarrow> hub_inv h \<Longrightarrow> hub_inv h'"
  by (induction rule: rtranclp_induct) (auto intro: hub_step_inv)

lemma hub_reachable_detached: "(hub_step hx)\<^sup>*\<^sup>* h h' \<Longrightarrow> hc_Detached h \<Longrightarrow> hc_Detached h'"
  by (induction rule: rtranclp_induct) (auto intro: hub_step_detached)

text \<open>
  Property C37. Whatever happens to a hub connection, in whatever order (its dial returning late, writes
  failing, its reader ending, another \<^verbatim>\<open>Stop\<close>): once stopped it never comes online again, sends
  nothing, and every TCP connection it opened is closed.
\<close>

theorem stopped_hub_stays_closed:
  assumes "(hub_step hx)\<^sup>*\<^sup>* (newHubConn addr) h" and "(hub_step hx)\<^sup>*\<^sup>* (Stop h) h'"
  shows "\<not> connected h' \<and> set (hc_opened h') \<subseteq> set (hc_closed h') \<and>
    fst (ProcessOutgoing hx wok data h') = Inl HubOffline"
proof -
  have "hub_inv (newHubConn addr)" by (simp add: hub_inv_def newHubConn_def)
  with assms(1) have "hub_inv h" by (rule hub_reachable_inv)
  then have "hub_inv (Stop h)" using hub_step_inv hub_step.stopped by blast
  with assms(2) have "hub_inv h'" by (rule hub_reachable_inv)
  moreover have "hc_Detached h'" using hub_reachable_detached [OF assms(2)] by (simp add: Stop_def)
  ultimately show ?thesis
    by (auto simp: hub_inv_def connected_def ProcessOutgoing_def GetConn_def)
qed

lemma stopped_hub_stays_closed_witness:
  "\<not> connected (Start (Some 1) (Stop (newHubConn ''hub:4242''))) \<and>
   set (hc_opened (Start (Some 1) (Stop (newHubConn ''hub:4242'')))) = {1}"
proof -
  have "(hub_step reticulum_hdlc)\<^sup>*\<^sup>* (Stop (newHubConn ''hub:4242'')) (Start (Some 1) (Stop (newHubConn ''hub:4242'')))"
    by (rule r_into_rtranclp) (rule hub_step.dialed, simp add: Stop_def newHubConn_def)
  from stopped_hub_stays_closed [OF rtranclp.rtrancl_refl this]
  show ?thesis by (simp add: Start_def Stop_def newHubConn_def Let_def)
qed

end
