(* ===== verification/Rns_Node.thy ===== *)
theory Rns_Node
  imports Hdlc Net_Addr "HOL-Library.AList"
begin

text \<open>
  This device's Reticulum endpoint, \<^verbatim>\<open>internal/rns/rns.go\<close>: the signed envelope of a message, its
  verification on arrival, the table of hub connections and sending. Identities, signatures,
  encryption and routing are the Reticulum library's: the functions the code calls are the fields of
  \<^verbatim>\<open>rns_lib\<close>. Times are nanoseconds since 1970.
\<close>

section \<open>The library's functions\<close>

text \<open>
  \<^verbatim>\<open>key_ok\<close>: \<^verbatim>\<open>FromPublicKey\<close> accepts the key. \<^verbatim>\<open>sign\<close> and \<^verbatim>\<open>verify\<close> take the public key of the
  identity. \<^verbatim>\<open>addr_of\<close>: the hash of the destination of a key, \<^verbatim>\<open>seal\<close>: encryption to a key.
\<close>

record rns_lib =
  lib_EncryptedMDU :: int
  lib_key_ok :: "bytes \<Rightarrow> bool"
  lib_sign :: "bytes \<Rightarrow> bytes \<Rightarrow> bytes"
  lib_verify :: "bytes \<Rightarrow> bytes \<Rightarrow> bytes \<Rightarrow> bool"
  lib_addr_of :: "bytes \<Rightarrow> bytes option"
  lib_seal :: "bytes \<Rightarrow> bytes \<Rightarrow> bytes option"

section \<open>Messages\<close>

definition pubLen :: nat where "pubLen = 64"
definition sigLen :: nat where "sigLen = 64"

definition second :: int where "second = 1000000000"

definition maxAge :: int where "maxAge = 5 * 60 * second"

definition MaxMessage :: "rns_lib \<Rightarrow> int" where
  "MaxMessage lib = lib_EncryptedMDU lib - int pubLen - 8 - int sigLen"

record message =
  m_From :: bytes
  m_Body :: bytes

record node =
  nd_pub :: bytes
  nd_hubs :: "(string \<times> hubConn) list"
  nd_inbox :: "message list"

definition inbox_cap :: nat where "inbox_cap = 64"

text \<open>\<^verbatim>\<open>Time.Unix\<close>, and a signed 64-bit number as eight bytes and back.\<close>

definition unix :: "int \<Rightarrow> int" where
  "unix now = now div second"

definition put_int64 :: "int \<Rightarrow> bytes" where
  "put_int64 i = be_put 8 (nat (i mod 2 ^ 64))"

definition get_int64 :: "bytes \<Rightarrow> int" where
  "get_int64 s = wrap64 (int (be_get s))"

definition envelope :: "rns_lib \<Rightarrow> int \<Rightarrow> node \<Rightarrow> bytes \<Rightarrow> bytes" where
  "envelope lib now n body =
     (let buf = nd_pub n @ put_int64 (unix now) @ body in buf @ lib_sign lib (nd_pub n) buf)"

text \<open>
  \<^verbatim>\<open>receive\<close>. \<^verbatim>\<open>time.Since\<close> saturates at the limits of a duration, both far outside \<^verbatim>\<open>maxAge\<close>, so
  the difference is taken exactly. A nil \<^verbatim>\<open>trusted\<close> accepts every key.
\<close>

definition receive :: "rns_lib \<Rightarrow> (bytes \<Rightarrow> bool) option \<Rightarrow> int \<Rightarrow> bytes \<Rightarrow> node \<Rightarrow> node" where
  "receive lib trusted now data n =
     (if length data < pubLen + 8 + sigLen then n
      else
        (let signed = take (length data - sigLen) data;
             sig = drop (length data - sigLen) data;
             pub = take pubLen signed in
         if \<not> lib_key_ok lib pub \<or> \<not> lib_verify lib pub signed sig then n
         else
           (let d = now - get_int64 (take 8 (drop pubLen signed)) * second in
            if maxAge < d \<or> d < - maxAge then n
            else if (case trusted of None \<Rightarrow> False | Some f \<Rightarrow> \<not> f pub) then n
            else
              (let msg = \<lparr>m_From = pub, m_Body = drop (pubLen + 8) signed\<rparr> in
               if length (nd_inbox n) < inbox_cap then n\<lparr>nd_inbox := nd_inbox n @ [msg]\<rparr> else n))))"

lemma get_put_int64 [wire_simps]: "int64 i \<Longrightarrow> get_int64 (put_int64 i) = i"
proof -
  assume i: "int64 i"
  have "nat (i mod 2 ^ 64) < 256 ^ 8" by (simp add: nat_less_iff)
  then have "int (be_get (put_int64 i)) = i mod 2 ^ 64"
    unfolding put_int64_def by (subst be_get_put) simp_all
  then have "get_int64 (put_int64 i) = wrap64 (i mod 2 ^ 64)" by (simp add: get_int64_def)
  also have "\<dots> = wrap64 i" by (simp add: wrap64_def mod_add_left_eq)
  finally show ?thesis using i by simp
qed

lemma length_put_int64 [simp]: "length (put_int64 i) = 8"
  by (simp add: put_int64_def)

text \<open>What the code needs of a key and of the signatures made with it.\<close>

definition signing_laws :: "rns_lib \<Rightarrow> bytes \<Rightarrow> bool" where
  "signing_laws lib pub \<longleftrightarrow> length pub = pubLen \<and> lib_key_ok lib pub \<and>
     (\<forall>m. length (lib_sign lib pub m) = sigLen \<and> lib_verify lib pub m (lib_sign lib pub m))"

lemma receive_envelope:
  assumes "signing_laws lib (nd_pub a)" and "int64 (unix sent)"
  shows "receive lib trusted now (envelope lib sent a body) n =
    (if maxAge < now - unix sent * second \<or> now - unix sent * second < - maxAge \<or>
        (\<exists>f. trusted = Some f \<and> \<not> f (nd_pub a)) \<or> inbox_cap \<le> length (nd_inbox n)
     then n else n\<lparr>nd_inbox := nd_inbox n @ [\<lparr>m_From = nd_pub a, m_Body = body\<rparr>]\<rparr>)"
proof -
  let ?buf = "nd_pub a @ put_int64 (unix sent) @ body"
  let ?sig = "lib_sign lib (nd_pub a) ?buf"
  have l: "length (nd_pub a) = pubLen" "length ?sig = sigLen" and k: "lib_key_ok lib (nd_pub a)"
    and v: "lib_verify lib (nd_pub a) ?buf ?sig"
    using assms(1) unfolding signing_laws_def by blast+
  have e: "envelope lib sent a body = ?buf @ ?sig" by (simp add: envelope_def Let_def)
  have "length (?buf @ ?sig) - sigLen = length ?buf" using l by simp
  then have parts: "take (length (?buf @ ?sig) - sigLen) (?buf @ ?sig) = ?buf"
      "drop (length (?buf @ ?sig) - sigLen) (?buf @ ?sig) = ?sig" "take pubLen ?buf = nd_pub a"
      "take 8 (drop pubLen ?buf) = put_int64 (unix sent)" "drop (pubLen + 8) ?buf = body"
    using l(1) by simp_all
  have "\<not> length (?buf @ ?sig) < pubLen + 8 + sigLen" using l by simp
  then show ?thesis
    unfolding receive_def e Let_def parts
    using k v get_put_int64 [OF assms(2)] by (auto split: option.splits)
qed

text \<open>
  A message signed by one device is delivered once, with its body and the sender's key, to a
  device that trusts the key and receives it within five minutes of its time stamp, unless 64
  messages are waiting; outside that window, or for an untrusted key, it is dropped.
\<close>

lemma envelope_delivered:
  assumes "signing_laws lib (nd_pub a)" and "int64 (unix sent)"
  shows "nd_inbox (receive lib (Some trusted) now (envelope lib sent a body) n) =
    (if \<bar>now - unix sent * second\<bar> \<le> maxAge \<and> trusted (nd_pub a) \<and> length (nd_inbox n) < 64
     then nd_inbox n @ [\<lparr>m_From = nd_pub a, m_Body = body\<rparr>] else nd_inbox n)"
  by (auto simp: receive_envelope [OF assms] inbox_cap_def)

definition demo_lib :: rns_lib where
  "demo_lib = \<lparr>lib_EncryptedMDU = 383, lib_key_ok = (\<lambda>k. length k = 64),
     lib_sign = (\<lambda>k m. replicate 64 (CHR ''s'')), lib_verify = (\<lambda>k m s. s = replicate 64 (CHR ''s'')),
     lib_addr_of = (\<lambda>k. Some (take 16 k)), lib_seal = (\<lambda>k m. Some m)\<rparr>"

definition demo_node :: node where
  "demo_node = \<lparr>nd_pub = replicate 64 (CHR ''k''), nd_hubs = [], nd_inbox = []\<rparr>"

lemma demo_signing: "signing_laws demo_lib (nd_pub demo_node)"
  by (simp add: signing_laws_def demo_lib_def demo_node_def pubLen_def sigLen_def)

text \<open>
  Property C10. Whatever bytes arrive, a message enters the inbox only if they carry the key of a trusted
  device, a signature of that key over everything before it, and a time stamp at most five minutes
  away; the message is what was signed. The inbox never holds more than 64 messages.
\<close>

theorem received_messages_authentic:
  "(receive lib (Some trusted) now data n = n \<or>
    (\<exists>pub stamp body sig. data = pub @ stamp @ body @ sig \<and> length pub = 64 \<and> length stamp = 8 \<and>
       length sig = 64 \<and> trusted pub \<and> lib_verify lib pub (pub @ stamp @ body) sig \<and>
       \<bar>now - get_int64 stamp * second\<bar> \<le> maxAge \<and> length (nd_inbox n) < 64 \<and>
       receive lib (Some trusted) now data n = n\<lparr>nd_inbox := nd_inbox n @ [\<lparr>m_From = pub, m_Body = body\<rparr>]\<rparr>))"
proof (cases "receive lib (Some trusted) now data n = n")
  case False
  define signed where "signed = take (length data - sigLen) data"
  define sig where "sig = drop (length data - sigLen) data"
  define pub where "pub = take pubLen signed"
  define stamp where "stamp = take 8 (drop pubLen signed)"
  define body where "body = drop (pubLen + 8) signed"
  have len: "\<not> length data < pubLen + 8 + sigLen" using False by (auto simp: receive_def)
  have r: "receive lib (Some trusted) now data n =
      (if \<not> lib_key_ok lib pub \<or> \<not> lib_verify lib pub signed sig then n
       else if maxAge < now - get_int64 stamp * second \<or> now - get_int64 stamp * second < - maxAge then n
       else if \<not> trusted pub then n
       else if length (nd_inbox n) < inbox_cap then n\<lparr>nd_inbox := nd_inbox n @ [\<lparr>m_From = pub, m_Body = body\<rparr>]\<rparr> else n)"
    using len unfolding receive_def Let_def signed_def sig_def pub_def stamp_def body_def by simp
  have s: "signed = pub @ stamp @ body"
    unfolding pub_def stamp_def body_def by (metis add.commute append_take_drop_id drop_drop)
  then have d: "data = pub @ stamp @ body @ sig"
    using append_take_drop_id [of "length data - sigLen" data] unfolding signed_def [symmetric] sig_def [symmetric]
    by simp
  have l: "length pub = 64" "length stamp = 8" "length sig = 64"
    using len by (auto simp: pub_def stamp_def sig_def signed_def pubLen_def sigLen_def)
  show ?thesis using False d l s unfolding r
    by (intro disjI2 exI [of _ pub] exI [of _ stamp] exI [of _ body] exI [of _ sig])
      (auto simp: inbox_cap_def split: if_splits)
qed simp

section \<open>Hub connections\<close>

datatype rns_error = BadAddr | RegisterFailed | RnsTooLong int int | BadPublicKey | ErrNoPath
  | EncryptFailed | SendFailed | BadIdentityFile | NoIdentity | MkdirFailed | SaveFailed

text \<open>\<^verbatim>\<open>ConnectHub\<close>; \<^term>\<open>reg\<close> is the library's answer to \<^verbatim>\<open>RegisterInterface\<close>, and \<^verbatim>\<open>Start\<close> only
  begins to dial.\<close>

definition ConnectHub :: "bool \<Rightarrow> string \<Rightarrow> node \<Rightarrow> rns_error option \<times> node" where
  "ConnectHub reg addr n =
     (if SplitHostPort addr = None then (Some BadAddr, n)
      else if map_of (nd_hubs n) addr \<noteq> None then (None, n)
      else if \<not> reg then (Some RegisterFailed, n)
      else (None, n\<lparr>nd_hubs := AList.update addr (newHubConn addr) (nd_hubs n)\<rparr>))"

text \<open>\<^verbatim>\<open>DropHub\<close> also returns the interface it stopped, after stopping it.\<close>

definition DropHub :: "string \<Rightarrow> node \<Rightarrow> hubConn option \<times> node" where
  "DropHub addr n = (map_option Stop (map_of (nd_hubs n) addr), n\<lparr>nd_hubs := AList.delete addr (nd_hubs n)\<rparr>)"

definition Hubs :: "node \<Rightarrow> (string \<times> bool) list" where
  "Hubs n = map (\<lambda>(addr, iface). (addr, connected iface)) (nd_hubs n)"

text \<open>The received bytes are counted by the library, \<^term>\<open>rx\<close>.\<close>

definition HubStats :: "(string \<Rightarrow> nat) \<Rightarrow> node \<Rightarrow> string \<Rightarrow> (bool \<times> nat \<times> nat) option" where
  "HubStats rx n addr = (case map_of (nd_hubs n) addr of
     None \<Rightarrow> None
   | Some iface \<Rightarrow> Some (connected iface, rx addr, unat (hc_TxBytes iface)))"

definition Node_Close :: "node \<Rightarrow> node" where
  "Node_Close n = fold (\<lambda>(addr, _) m. snd (DropHub addr m)) (Hubs n) n"

section \<open>Sending\<close>

definition AddressOf :: "rns_lib \<Rightarrow> bytes \<Rightarrow> rns_error + bytes" where
  "AddressOf lib pub =
     (if \<not> lib_key_ok lib pub then Inl BadPublicKey
      else case lib_addr_of lib pub of None \<Rightarrow> Inl BadPublicKey | Some hash \<Rightarrow> Inr hash)"

text \<open>
  \<^verbatim>\<open>waitPath\<close> from iteration \<^term>\<open>i\<close> on: the answers of \<^verbatim>\<open>HasPath\<close> until the context ends, one every
  100 ms. It returns the hubs asked for a path and whether one was found.
\<close>

fun waitPath :: "string list \<Rightarrow> nat \<Rightarrow> bool list \<Rightarrow> string list \<times> rns_error option" where
  "waitPath hubs i [] = ([], Some ErrNoPath)"
| "waitPath hubs i (has # later) =
     (if has then ([], None)
      else
        (let asked = (if i mod 20 = 0 then hubs else []);
             (more, err) = waitPath hubs (Suc i) later in (asked @ more, err)))"

text \<open>\<^verbatim>\<open>Send\<close> returns the sealed packet and its destination; \<^term>\<open>pok\<close> is the answer of \<^verbatim>\<open>SendPacket\<close>.\<close>

definition node_Send :: "rns_lib \<Rightarrow> int \<Rightarrow> bool list \<Rightarrow> bool \<Rightarrow> bytes \<Rightarrow> bytes \<Rightarrow> node \<Rightarrow> rns_error + (bytes \<times> bytes)" where
  "node_Send lib now paths pok peer body n =
     (if MaxMessage lib < int (length body) then Inl (RnsTooLong (int (length body)) (MaxMessage lib))
      else case AddressOf lib peer of Inl e \<Rightarrow> Inl e | Inr hash \<Rightarrow>
        (case snd (waitPath (map fst (Hubs n)) 0 paths) of Some e \<Rightarrow> Inl e | None \<Rightarrow>
          (case lib_seal lib peer (envelope lib now n body) of None \<Rightarrow> Inl EncryptFailed | Some sealed \<Rightarrow>
            if pok then Inr (hash, sealed) else Inl SendFailed)))"

section \<open>The identity\<close>

text \<open>
  \<^verbatim>\<open>loadOrCreateIdentity\<close>: the identity file (if it exists), the library's parser of it, a fresh
  identity with its serialization, and whether the directory and the file can be written.
\<close>

definition node_loadOrCreateIdentity ::
  "(bytes \<Rightarrow> bytes option) \<Rightarrow> (bytes \<times> bytes) option \<Rightarrow> bool \<Rightarrow> bool \<Rightarrow> bytes option
   \<Rightarrow> (rns_error + bytes) \<times> bytes option" where
  "node_loadOrCreateIdentity fromFile fresh mkdir_ok wok file = (case file of
     Some raw \<Rightarrow> (case fromFile raw of None \<Rightarrow> (Inl BadIdentityFile, file) | Some pub \<Rightarrow> (Inr pub, file))
   | None \<Rightarrow> (case fresh of
       None \<Rightarrow> (Inl NoIdentity, file)
     | Some (pub, raw) \<Rightarrow>
         if \<not> mkdir_ok then (Inl MkdirFailed, file)
         else if \<not> wok then (Inl SaveFailed, file)
         else (Inr pub, Some raw)))"

definition node_Open ::
  "(bytes \<Rightarrow> bytes option) \<Rightarrow> (bytes \<times> bytes) option \<Rightarrow> bool \<Rightarrow> bool \<Rightarrow> bool \<Rightarrow> bytes option
   \<Rightarrow> (rns_error + node) \<times> bytes option" where
  "node_Open fromFile fresh mkdir_ok wok dest_ok file =
     (case node_loadOrCreateIdentity fromFile fresh mkdir_ok wok file of
        (Inl e, f) \<Rightarrow> (Inl e, f)
      | (Inr pub, f) \<Rightarrow>
          if dest_ok then (Inr \<lparr>nd_pub = pub, nd_hubs = [], nd_inbox = []\<rparr>, f) else (Inl RegisterFailed, f))"

text \<open>Close drops every hub.\<close>

lemma drop_hubs: "nd_hubs (fold (\<lambda>(addr, _) m. snd (DropHub addr m)) hs n) =
    filter (\<lambda>(a, _). a \<notin> fst ` set hs) (nd_hubs n)"
  by (induction hs arbitrary: n) (auto simp: DropHub_def AList.delete_eq filter_filter intro: filter_cong)

lemma Node_Close_hubs: "nd_hubs (Node_Close n) = []"
  by (force simp: Node_Close_def drop_hubs Hubs_def filter_empty_conv)

text \<open>Waiting fails exactly when no answer was yes.\<close>

lemma waitPath_none: "snd (waitPath hubs i obs) = None \<longleftrightarrow> True \<in> set obs"
  by (induction obs arbitrary: i) (simp_all add: Let_def case_prod_beta)

text \<open>
  Property C34. A body within \<^verbatim>\<open>MaxMessage\<close> sent by one device to the key of another whose path shows up
  in time is sealed in a packet of at most \<^verbatim>\<open>EncryptedMDU\<close> bytes of plain text, and what the other
  device opens is delivered to it as this device's message; a longer body is refused before anything
  is asked of the network.
\<close>

theorem message_reaches_peer:
  assumes "signing_laws lib (nd_pub a)" and "int64 (unix sent)"
    and "lib_key_ok lib peer" and "lib_addr_of lib peer = Some hash"
    and "\<And>plain. \<exists>c. lib_seal lib peer plain = Some c \<and> unseal c = plain"
    and "True \<in> set paths" and "trusted (nd_pub a)" and "\<bar>now - unix sent * second\<bar> \<le> maxAge"
    and "length (nd_inbox n) < 64"
  shows "case node_Send lib sent paths True peer body a of
      Inl e \<Rightarrow> MaxMessage lib < int (length body) \<and> e = RnsTooLong (int (length body)) (MaxMessage lib)
    | Inr (h, sealed) \<Rightarrow> int (length body) \<le> MaxMessage lib \<and> h = hash \<and>
        int (length (unseal sealed)) \<le> lib_EncryptedMDU lib \<and>
        nd_inbox (receive lib (Some trusted) now (unseal sealed) n) =
          nd_inbox n @ [\<lparr>m_From = nd_pub a, m_Body = body\<rparr>]"
proof (cases "MaxMessage lib < int (length body)")
  case False
  obtain c where c: "lib_seal lib peer (envelope lib sent a body) = Some c" "unseal c = envelope lib sent a body"
    using assms(5) by blast
  have "length (envelope lib sent a body) = length body + 136"
    using assms(1) by (auto simp: envelope_def Let_def signing_laws_def pubLen_def sigLen_def)
  moreover have "nd_inbox (receive lib (Some trusted) now (envelope lib sent a body) n) =
      nd_inbox n @ [\<lparr>m_From = nd_pub a, m_Body = body\<rparr>]"
    using assms(7,8,9) by (auto simp: receive_envelope [OF assms(1,2)] inbox_cap_def)
  moreover have "snd (waitPath (map fst (Hubs a)) 0 paths) = None" using assms(6) by (simp add: waitPath_none)
  ultimately show ?thesis
    using False assms(3,4) c by (simp add: node_Send_def AddressOf_def MaxMessage_def pubLen_def sigLen_def)
qed (simp add: node_Send_def)

lemma message_reaches_peer_witness:
  "case node_Send demo_lib second [False, True] True (replicate 64 (CHR ''p'')) ''hi'' demo_node of
      Inl e \<Rightarrow> False
    | Inr (h, sealed) \<Rightarrow> nd_inbox (receive demo_lib (Some (\<lambda>k. True)) (61 * second) sealed demo_node)
        = [\<lparr>m_From = nd_pub demo_node, m_Body = ''hi''\<rparr>]"
proof -
  have "case node_Send demo_lib second [False, True] True (replicate 64 (CHR ''p'')) ''hi'' demo_node of
      Inl e \<Rightarrow> MaxMessage demo_lib < int (length ''hi'') \<and> e = RnsTooLong (int (length ''hi'')) (MaxMessage demo_lib)
    | Inr (h, sealed) \<Rightarrow> int (length ''hi'') \<le> MaxMessage demo_lib \<and> h = replicate 16 (CHR ''p'') \<and>
        int (length (id sealed)) \<le> lib_EncryptedMDU demo_lib \<and>
        nd_inbox (receive demo_lib (Some (\<lambda>k. True)) (61 * second) (id sealed) demo_node) =
          nd_inbox demo_node @ [\<lparr>m_From = nd_pub demo_node, m_Body = ''hi''\<rparr>]"
    by (rule message_reaches_peer [OF demo_signing])
      (simp_all add: demo_lib_def demo_node_def unix_def int64_def second_def maxAge_def)
  then show ?thesis
    by (auto simp: MaxMessage_def demo_lib_def pubLen_def sigLen_def demo_node_def split: sum.splits)
qed

end
