(* ===== verification/Hub_Manager.thy ===== *)
theory Hub_Manager
  imports Rns_Node Json_Struct
begin

text \<open>
  The hub manager, \<^verbatim>\<open>internal/rns/hubs.go\<close>: which hubs to connect to, measuring and replacing them,
  and the catalog of candidates. Times and durations are nanoseconds. Go visits a map in an
  unspecified order; the visits of \<^verbatim>\<open>measure\<close> do not depend on each other, so the order of the
  association list stands for any.
\<close>

section \<open>State\<close>

record hubPolicy =
  hp_Want :: int
  hp_Check :: int
  hp_ConnectGrace :: int
  hp_Silence :: int
  hp_Backoff :: int
  hp_AnnounceEvery :: int

definition or_default :: "int \<Rightarrow> int \<Rightarrow> int" where
  "or_default v d = (if v = 0 then d else v)"

definition withDefaults :: "hubPolicy \<Rightarrow> hubPolicy" where
  "withDefaults p = \<lparr>hp_Want = or_default (hp_Want p) 3,
     hp_Check = or_default (hp_Check p) (15 * second),
     hp_ConnectGrace = or_default (hp_ConnectGrace p) (20 * second),
     hp_Silence = or_default (hp_Silence p) (90 * second),
     hp_Backoff = or_default (hp_Backoff p) (30 * 60 * second),
     hp_AnnounceEvery = or_default (hp_AnnounceEvery p) (2 * 60 * second)\<rparr>"

record hubState =
  hs_added :: int
  hs_announced :: bool
  hs_lastRx :: nat
  hs_lastData :: "int option"

record hubManager =
  hm_policy :: hubPolicy
  hm_candidates :: "string list"
  hm_state :: "(string \<times> hubState) list"
  hm_bad :: "(string \<times> int) list"

fun dedup_from :: "string list \<Rightarrow> string list \<Rightarrow> string list" where
  "dedup_from seen [] = []"
| "dedup_from seen (s # xs) =
     (if s \<noteq> [] \<and> s \<notin> set seen then s # dedup_from (s # seen) xs else dedup_from seen xs)"

definition dedup :: "string list \<Rightarrow> string list" where
  "dedup xs = dedup_from [] xs"

definition NewHubManager :: "string list \<Rightarrow> hubPolicy \<Rightarrow> hubManager" where
  "NewHubManager candidates policy = \<lparr>hm_policy = withDefaults policy, hm_candidates = dedup candidates,
     hm_state = [], hm_bad = []\<rparr>"

definition AddCandidates :: "string list \<Rightarrow> hubManager \<Rightarrow> hubManager" where
  "AddCandidates hubs m = m\<lparr>hm_candidates := dedup (hm_candidates m @ hubs)\<rparr>"

definition Working :: "hubManager \<Rightarrow> string list" where
  "Working m = [addr. (addr, st) \<leftarrow> hm_state m, hs_lastData st \<noteq> None]"

section \<open>Measuring\<close>

text \<open>What \<^verbatim>\<open>measure\<close> does with one hub; the flag says whether it announces this device.\<close>

datatype verdict = Gone | Dropped bool | Kept bool hubState

definition judge :: "hubPolicy \<Rightarrow> int \<Rightarrow> (bool \<times> nat \<times> nat) option \<Rightarrow> hubState \<Rightarrow> verdict" where
  "judge p now stats st = (case stats of
     None \<Rightarrow> Gone
   | Some (up, rx, _) \<Rightarrow>
       (let announce = (up \<and> \<not> hs_announced st);
            st1 = (if announce then st\<lparr>hs_announced := True\<rparr> else st);
            st2 = (if hs_lastRx st1 < rx then st1\<lparr>hs_lastRx := rx, hs_lastData := Some now\<rparr> else st1) in
        if (\<not> up \<and> hp_ConnectGrace p < now - hs_added st2) \<or>
           (hs_lastData st2 = None \<and> hp_Silence p < now - hs_added st2) \<or>
           (case hs_lastData st2 of None \<Rightarrow> False | Some t \<Rightarrow> hp_Silence p < now - t)
        then Dropped announce else Kept announce st2))"

definition announces :: "verdict \<Rightarrow> bool" where
  "announces v = (case v of Gone \<Rightarrow> False | Dropped a \<Rightarrow> a | Kept a _ \<Rightarrow> a)"

definition judged :: "int \<Rightarrow> (string \<Rightarrow> (bool \<times> nat \<times> nat) option) \<Rightarrow> hubManager \<Rightarrow> (string \<times> verdict) list" where
  "judged now stats m = map (\<lambda>(addr, st). (addr, judge (hm_policy m) now (stats addr) st)) (hm_state m)"

definition dropped_hubs :: "int \<Rightarrow> (string \<Rightarrow> (bool \<times> nat \<times> nat) option) \<Rightarrow> hubManager \<Rightarrow> string list" where
  "dropped_hubs now stats m = [addr. (addr, Dropped _) \<leftarrow> judged now stats m]"

fun kept_hubs :: "(string \<times> verdict) list \<Rightarrow> (string \<times> hubState) list" where
  "kept_hubs [] = []"
| "kept_hubs ((addr, v) # vs) = (case v of Kept _ st \<Rightarrow> (addr, st) # kept_hubs vs | _ \<Rightarrow> kept_hubs vs)"

text \<open>\<^verbatim>\<open>measure\<close> returns the manager, the announcements it started and the hubs it started to drop.\<close>

definition measure_hubs ::
  "int \<Rightarrow> (string \<Rightarrow> (bool \<times> nat \<times> nat) option) \<Rightarrow> hubManager \<Rightarrow> hubManager \<times> nat \<times> string list" where
  "measure_hubs now stats m =
     (let vs = judged now stats m; drops = dropped_hubs now stats m in
      (m\<lparr>hm_state := kept_hubs vs,
         hm_bad := fold (\<lambda>addr. AList.update addr now) drops (hm_bad m)\<rparr>,
       length (filter (\<lambda>(_, v). announces v) vs),
       drops))"

section \<open>Filling up\<close>

fun fill_picks :: "(string \<Rightarrow> bool) \<Rightarrow> string list \<Rightarrow> int \<Rightarrow> string list \<Rightarrow> string list" where
  "fill_picks backing_off used need [] = []"
| "fill_picks backing_off used need (addr # cs) =
     (if need \<le> 0 then []
      else if addr \<in> set used then fill_picks backing_off used need cs
      else if backing_off addr then fill_picks backing_off used need cs
      else addr # fill_picks backing_off (addr # used) (need - 1) cs)"

definition backing_off :: "int \<Rightarrow> hubManager \<Rightarrow> string \<Rightarrow> bool" where
  "backing_off now m addr = (case map_of (hm_bad m) addr of
     None \<Rightarrow> False | Some at \<Rightarrow> now - at < hp_Backoff (hm_policy m))"

definition picks :: "int \<Rightarrow> hubManager \<Rightarrow> string list" where
  "picks now m = fill_picks (backing_off now m) (map fst (hm_state m))
     (hp_Want (hm_policy m) - int (length (hm_state m))) (hm_candidates m)"

definition new_hub :: "int \<Rightarrow> hubState" where
  "new_hub now = \<lparr>hs_added = now, hs_announced = False, hs_lastRx = 0, hs_lastData = None\<rparr>"

text \<open>The second loop of \<^verbatim>\<open>fill\<close>, over the node's operation \<^term>\<open>connect\<close>.\<close>

fun connect_picks ::
  "(string \<Rightarrow> 'n \<Rightarrow> 'e option \<times> 'n) \<Rightarrow> int \<Rightarrow> string list \<Rightarrow> hubManager \<times> 'n \<Rightarrow> hubManager \<times> 'n" where
  "connect_picks connect now [] mn = mn"
| "connect_picks connect now (addr # as) (m, n) = (case connect addr n of
     (Some _, n1) \<Rightarrow> connect_picks connect now as
       (m\<lparr>hm_state := AList.delete addr (hm_state m), hm_bad := AList.update addr now (hm_bad m)\<rparr>, n1)
   | (None, n1) \<Rightarrow> connect_picks connect now as (m, n1))"

definition fill :: "(string \<Rightarrow> 'n \<Rightarrow> 'e option \<times> 'n) \<Rightarrow> int \<Rightarrow> hubManager \<times> 'n \<Rightarrow> hubManager \<times> 'n" where
  "fill connect now mn =
     (let (m, n) = mn; ps = picks now m in
      connect_picks connect now ps (m\<lparr>hm_state := hm_state m @ map (\<lambda>a. (a, new_hub now)) ps\<rparr>, n))"

text \<open>\<^verbatim>\<open>announceWhenUp\<close> once the hub is up: whether it announces.\<close>

definition announceWhenUp :: "string \<Rightarrow> hubManager \<Rightarrow> bool \<times> hubManager" where
  "announceWhenUp addr m = (case map_of (hm_state m) addr of
     None \<Rightarrow> (False, m)
   | Some st \<Rightarrow> if hs_announced st then (False, m)
       else (True, m\<lparr>hm_state := AList.update addr (st\<lparr>hs_announced := True\<rparr>) (hm_state m)\<rparr>))"

section \<open>The catalog\<close>

record catalog_entry =
  ce_Type :: string
  ce_Network :: string
  ce_Host :: string
  ce_Port :: int
  ce_Status :: string

definition catalog_entry0 :: catalog_entry where
  "catalog_entry0 = \<lparr>ce_Type = [], ce_Network = [], ce_Host = [], ce_Port = 0, ce_Status = []\<rparr>"

definition catalog_entry_fields :: "catalog_entry fields" where
  "catalog_entry_fields =
     [(''type'', set_str (\<lambda>s e. e\<lparr>ce_Type := s\<rparr>)), (''network'', set_str (\<lambda>s e. e\<lparr>ce_Network := s\<rparr>)),
      (''host'', set_str (\<lambda>s e. e\<lparr>ce_Host := s\<rparr>)), (''port'', set_int (\<lambda>i e. e\<lparr>ce_Port := i\<rparr>)),
      (''status'', set_str (\<lambda>s e. e\<lparr>ce_Status := s\<rparr>))]"

definition catalog_fields :: "catalog_entry list fields" where
  "catalog_fields = [(''data'', \<lambda>v old. case v of JNull \<Rightarrow> Some []
     | JArr vs \<Rightarrow> decode_list catalog_entry_fields catalog_entry0 vs old | _ \<Rightarrow> None)]"

definition usable :: "catalog_entry \<Rightarrow> bool" where
  "usable e \<longleftrightarrow>
     \<not> (ce_Network e \<noteq> ''clearnet'' \<or> ce_Status e \<noteq> ''online'' \<or> ce_Host e = [] \<or> ce_Port e \<le> 0) \<and>
     \<not> (ce_Type e \<noteq> ''tcp'' \<and> ce_Type e \<noteq> ''backbone'')"

definition parseCatalog :: "bytes \<Rightarrow> string list option" where
  "parseCatalog raw = (case json_unmarshal raw of
     None \<Rightarrow> None
   | Some v \<Rightarrow> map_option (\<lambda>es. map (\<lambda>e. JoinHostPort (ce_Host e) (show_int (ce_Port e))) (filter usable es))
       (decode_struct catalog_fields v []))"

text \<open>
  \<^verbatim>\<open>FetchCatalog\<close>: the result of the download, the cached copy if it can be read, whether the cache
  can be written; it returns the hubs and the cache.
\<close>

definition FetchCatalog :: "bool \<Rightarrow> bytes option \<Rightarrow> bytes option \<Rightarrow> string list option \<times> bytes option" where
  "FetchCatalog wok downloaded cached = (case downloaded of
     Some raw \<Rightarrow> (parseCatalog raw, if wok then Some raw else cached)
   | None \<Rightarrow> (case cached of None \<Rightarrow> (None, cached) | Some raw \<Rightarrow> (parseCatalog raw, cached)))"

section \<open>Laws\<close>

lemma dedup_from_props:
  "distinct (dedup_from seen xs) \<and> set (dedup_from seen xs) = set xs - insert [] (set seen)"
  by (induction seen xs rule: dedup_from.induct) auto

lemma dedup_props: "distinct (dedup xs)" "set (dedup xs) = set xs - {[]}"
  using dedup_from_props [of "[]" xs] by (simp_all add: dedup_def)

lemma fill_picks_spec:
  "distinct cs \<Longrightarrow> fill_picks off used need cs = take (nat need) (filter (\<lambda>a. a \<notin> set used \<and> \<not> off a) cs)"
proof (induction off used need cs rule: fill_picks.induct)
  case (2 off used need addr cs)
  have skip: "filter (\<lambda>a. a \<notin> set (addr # used) \<and> \<not> off a) cs = filter (\<lambda>a. a \<notin> set used \<and> \<not> off a) cs"
    using "2.prems" by (intro filter_cong) auto
  show ?case
  proof (cases "0 < need")
    case True
    then have n: "nat need = Suc (nat (need - 1))" by linarith
    show ?thesis using "2" True skip by (auto simp: n)
  qed simp
qed simp

text \<open>
  The hubs \<^verbatim>\<open>fill\<close> connects to are the first of the candidate list that are neither in use
  nor backing off, as many as are missing: a device's choice depends on nothing else, so two devices
  with the same list and history choose the same hubs.
\<close>

lemma fill_takes_first:
  assumes "distinct (hm_candidates m)"
  shows "picks now m = take (nat (hp_Want (hm_policy m) - int (length (hm_state m))))
    (filter (\<lambda>a. a \<notin> fst ` set (hm_state m) \<and> \<not> backing_off now m a) (hm_candidates m))"
  by (simp add: picks_def fill_picks_spec [OF assms])

definition demo_manager :: hubManager where
  "demo_manager = NewHubManager [''a:1'', ''b:1'', ''a:1'', ''c:1''] \<lparr>hp_Want = 2, hp_Check = 0, hp_ConnectGrace = 0,
     hp_Silence = 0, hp_Backoff = 0, hp_AnnounceEvery = 0\<rparr>"

section \<open>The manager and the node\<close>

text \<open>The invariant of the manager alone.\<close>

definition hub_keys :: "hubManager \<Rightarrow> string set" where
  "hub_keys m = fst ` set (hm_state m)"

definition manager_ok :: "hubManager \<Rightarrow> bool" where
  "manager_ok m \<longleftrightarrow> distinct (hm_candidates m) \<and> distinct (map fst (hm_state m)) \<and>
     int (length (hm_state m)) \<le> max 0 (hp_Want (hm_policy m)) \<and>
     (\<forall>(a, st)\<in>set (hm_state m). \<forall>t. map_of (hm_bad m) a = Some t \<longrightarrow> t + hp_Backoff (hm_policy m) \<le> hs_added st)"

lemma manager_okD:
  assumes "manager_ok m"
  shows "distinct (hm_candidates m)" "distinct (map fst (hm_state m))"
    "int (length (hm_state m)) \<le> max 0 (hp_Want (hm_policy m))"
    "(a, st) \<in> set (hm_state m) \<Longrightarrow> map_of (hm_bad m) a = Some t \<Longrightarrow> t + hp_Backoff (hm_policy m) \<le> hs_added st"
  using assms unfolding manager_ok_def by blast+

lemma manager_ok_delete:
  assumes "manager_ok m"
  shows "manager_ok (m\<lparr>hm_state := AList.delete a (hm_state m), hm_bad := AList.update a now (hm_bad m)\<rparr>)"
proof -
  have "int (length (filter (\<lambda>(k, _). a \<noteq> k) (hm_state m))) \<le> max 0 (hp_Want (hm_policy m))"
    using assms length_filter_le [of "\<lambda>(k, _). a \<noteq> k" "hm_state m"] unfolding manager_ok_def by linarith
  with assms show ?thesis
    by (auto simp: manager_ok_def AList.update_conv' AList.delete_eq distinct_map_filter)
qed

lemma manager_ok_connect: "manager_ok m \<Longrightarrow> manager_ok (fst (connect_picks connect now as (m, n)))"
proof (induction connect now as "(m, n)" arbitrary: m n rule: connect_picks.induct)
  case (2 connect now addr as m n)
  then show ?case by (auto simp: manager_ok_delete split: prod.splits option.splits)
qed simp

lemma manager_ok_picked:
  assumes "manager_ok m"
  shows "manager_ok (m\<lparr>hm_state := hm_state m @ map (\<lambda>a. (a, new_hub now)) (picks now m)\<rparr>)"
proof -
  let ?new = "filter (\<lambda>a. a \<notin> fst ` set (hm_state m) \<and> \<not> backing_off now m a) (hm_candidates m)"
  have d: "distinct (hm_candidates m)" using assms by (simp add: manager_ok_def)
  note p = fill_picks_spec [OF d, of "backing_off now m" "map fst (hm_state m)", folded picks_def]
  have pk: "picks now m = take (nat (hp_Want (hm_policy m) - int (length (hm_state m)))) ?new"
    by (simp add: picks_def fill_picks_spec [OF d])
  have sub: "set (picks now m) \<subseteq> set ?new" unfolding pk by (rule set_take_subset)
  have dp: "distinct (picks now m)" unfolding pk using d by (simp add: distinct_take)
  have "length (picks now m) \<le> nat (hp_Want (hm_policy m) - int (length (hm_state m)))" unfolding pk by simp
  then have "int (length (hm_state m)) + int (length (picks now m)) \<le> max 0 (hp_Want (hm_policy m))"
    using assms by (auto simp: manager_ok_def)
  moreover have "t + hp_Backoff (hm_policy m) \<le> now" if "a \<in> set (picks now m)" "map_of (hm_bad m) a = Some t" for a t
    using sub that by (force simp: backing_off_def)
  moreover have "distinct (map fst (hm_state m) @ picks now m)"
    using sub dp assms by (auto simp: manager_ok_def)
  ultimately show ?thesis using assms
    by (auto simp: manager_ok_def new_hub_def comp_def)
qed

lemma manager_ok_fill: "manager_ok m \<Longrightarrow> manager_ok (fst (fill connect now (m, n)))"
  by (simp add: fill_def Let_def manager_ok_connect manager_ok_picked)

lemma judge_kept: "judge p now stats st = Kept b st' \<Longrightarrow> hs_added st' = hs_added st \<and> stats \<noteq> None"
  by (auto simp: judge_def Let_def split: option.splits if_splits)

text \<open>The parts of \<^verbatim>\<open>measure\<close>'s result.\<close>

lemma judged_iff:
  "(a, v) \<in> set (judged now stats m) \<longleftrightarrow>
   (\<exists>st. (a, st) \<in> set (hm_state m) \<and> judge (hm_policy m) now (stats a) st = v)"
  by (force simp: judged_def)

lemma set_kept: "(a, st) \<in> set (kept_hubs vs) \<longleftrightarrow> (\<exists>b. (a, Kept b st) \<in> set vs)"
  by (induction vs rule: kept_hubs.induct) (auto split: verdict.splits)

lemma measured_state:
  "(a, st') \<in> set (hm_state (fst (measure_hubs now stats m))) \<longleftrightarrow>
   (\<exists>st b. (a, st) \<in> set (hm_state m) \<and> judge (hm_policy m) now (stats a) st = Kept b st')"
  by (auto simp: measure_hubs_def Let_def set_kept judged_iff)

lemma measured_drops:
  "a \<in> set (dropped_hubs now stats m) \<longleftrightarrow>
   (\<exists>st b. (a, st) \<in> set (hm_state m) \<and> judge (hm_policy m) now (stats a) st = Dropped b)"
proof -
  have "a \<in> set (dropped_hubs now stats m) \<longleftrightarrow> (\<exists>b. (a, Dropped b) \<in> set (judged now stats m))"
    by (force simp: dropped_hubs_def split: verdict.splits)
  then show ?thesis by (auto simp: judged_iff)
qed

lemma kept_keys:
  "distinct (map fst vs) \<Longrightarrow> distinct (map fst (kept_hubs vs)) \<and> length (kept_hubs vs) \<le> length vs"
proof (induction vs rule: kept_hubs.induct)
  case (2 a v vs)
  have "a \<notin> fst ` set (kept_hubs vs)" using "2.prems" by (force simp: set_kept)
  with "2" show ?case by (auto split: verdict.splits)
qed simp

lemma fold_update_bad: "map_of (fold (\<lambda>a. AList.update a now) as bad) b = (if b \<in> set as then Some now else map_of bad b)"
  by (induction as arbitrary: bad) (auto simp: AList.update_conv')

lemma measured_parts:
  "hm_policy (fst (measure_hubs now stats m)) = hm_policy m"
  "hm_candidates (fst (measure_hubs now stats m)) = hm_candidates m"
  "hm_state (fst (measure_hubs now stats m)) = kept_hubs (judged now stats m)"
  "hm_bad (fst (measure_hubs now stats m)) =
     fold (\<lambda>a. AList.update a now) (dropped_hubs now stats m) (hm_bad m)"
  by (simp_all add: measure_hubs_def Let_def)

lemma kept_not_dropped:
  assumes "distinct (map fst (hm_state m))" "(a, st) \<in> set (hm_state m)"
    and "judge (hm_policy m) now (stats a) st = Kept b st'"
  shows "a \<notin> set (dropped_hubs now stats m)"
proof
  assume "a \<in> set (dropped_hubs now stats m)"
  then obtain st2 b2 where "(a, st2) \<in> set (hm_state m)" "judge (hm_policy m) now (stats a) st2 = Dropped b2"
    unfolding measured_drops by blast
  then show False using assms eq_key_imp_eq_value [OF assms(1,2)] by force
qed

lemma manager_ok_measure:
  assumes "manager_ok m"
  shows "manager_ok (fst (measure_hubs now stats m))"
proof -
  note ok = manager_okD [OF assms]
  let ?m = "fst (measure_hubs now stats m)"
  have "map fst (judged now stats m) = map fst (hm_state m)" "length (judged now stats m) = length (hm_state m)"
    by (auto simp: judged_def)
  then have keys: "distinct (map fst (hm_state ?m))" "length (hm_state ?m) \<le> length (hm_state m)"
    using kept_keys [of "judged now stats m"] ok(2) by (simp_all add: measured_parts)
  have bad: "t + hp_Backoff (hm_policy m) \<le> hs_added st'"
    if st': "(a, st') \<in> set (hm_state ?m)" and t: "map_of (hm_bad ?m) a = Some t" for a st' t
  proof -
    obtain st b where st: "(a, st) \<in> set (hm_state m)" and j: "judge (hm_policy m) now (stats a) st = Kept b st'"
      using st' unfolding measured_state by blast
    then have "map_of (hm_bad m) a = Some t"
      using t kept_not_dropped [OF ok(2) st] by (simp add: measured_parts(4) fold_update_bad)
    then show ?thesis using ok(4) [OF st] judge_kept [OF j] by simp
  qed
  show ?thesis
    unfolding manager_ok_def measured_parts(1,2)
    using ok(1,3) keys bad by (auto simp only: intro!: order.trans [OF _ ok(3)])
qed

text \<open>
  What the manager needs of the node: the hubs it holds, how connecting and dropping change them, and
  that measuring tells which are held. \<^term>\<open>reg\<close> is the outcome of registering an interface.
\<close>

locale hub_links =
  fixes connect :: "bool \<Rightarrow> string \<Rightarrow> 'n \<Rightarrow> 'e option \<times> 'n"
    and drop_hub :: "string \<Rightarrow> 'n \<Rightarrow> 'n"
    and stats :: "'s \<Rightarrow> 'n \<Rightarrow> string \<Rightarrow> (bool \<times> nat \<times> nat) option"
    and held :: "'n \<Rightarrow> string set"
    and wf :: "'n \<Rightarrow> bool"
  assumes connect_wf: "wf n \<Longrightarrow> wf (snd (connect reg a n))"
    and connect_ok: "fst (connect reg a n) = None \<Longrightarrow> held (snd (connect reg a n)) = insert a (held n)"
    and connect_err: "wf n \<Longrightarrow> fst (connect reg a n) = Some e \<Longrightarrow> a \<notin> held n \<and> held (snd (connect reg a n)) = held n"
    and drop_wf: "wf n \<Longrightarrow> wf (drop_hub a n)"
    and drop_held: "held (drop_hub a n) = held n - {a}"
    and stats_held: "stats s n a = None \<longleftrightarrow> a \<notin> held n"
begin

text \<open>Every hub the node holds is managed or about to be dropped.\<close>

definition covered :: "string set \<Rightarrow> hubManager \<times> 'n \<Rightarrow> bool" where
  "covered pending mn \<longleftrightarrow> wf (snd mn) \<and> held (snd mn) \<subseteq> hub_keys (fst mn) \<union> pending"

lemma covered_drop: "covered pending (m, n) \<Longrightarrow> covered (pending - {a}) (m, drop_hub a n)"
  by (auto simp: covered_def drop_held drop_wf)

lemma covered_measure:
  assumes "covered pending (m, n)"
  shows "covered (pending \<union> set (dropped_hubs now (stats s n) m)) (fst (measure_hubs now (stats s n) m), n)"
proof -
  have "a \<in> hub_keys (fst (measure_hubs now (stats s n) m)) \<or> a \<in> set (dropped_hubs now (stats s n) m)"
    if h: "a \<in> held n" and k: "a \<in> hub_keys m" for a
  proof -
    obtain st where st: "(a, st) \<in> set (hm_state m)" using k by (auto simp: hub_keys_def)
    have "judge (hm_policy m) now (stats s n a) st \<noteq> Gone"
      using h stats_held [of s n a] by (auto simp: judge_def Let_def split: option.splits if_splits)
    then show ?thesis
      using st by (cases "judge (hm_policy m) now (stats s n a) st")
        (force simp: measured_drops hub_keys_def image_iff measured_state Bex_def)+
  qed
  then show ?thesis using assms by (auto simp: covered_def)
qed

lemma covered_connect:
  "covered pending (m, n) \<Longrightarrow> set as \<subseteq> hub_keys m \<Longrightarrow> distinct as \<Longrightarrow>
   covered pending (connect_picks (\<lambda>a. connect (reg a) a) now as (m, n))"
proof (induction as arbitrary: m n)
  case (Cons a as)
  obtain r n1 where c: "connect (reg a) a n = (r, n1)" by fastforce
  show ?case
  proof (cases r)
    case None
    then have "covered pending (m, n1)"
      using Cons.prems connect_ok [of "reg a" a n] connect_wf [of n "reg a" a] c by (auto simp: covered_def)
    with Cons None c show ?thesis by simp
  next
    case (Some e)
    let ?m = "m\<lparr>hm_state := AList.delete a (hm_state m), hm_bad := AList.update a now (hm_bad m)\<rparr>"
    have keys: "hub_keys ?m = hub_keys m - {a}" by (auto simp: hub_keys_def AList.delete_eq)
    then have "covered pending (?m, n1)"
      using Cons.prems(1) Some connect_err [of n "reg a" a e] connect_wf [of n "reg a" a] c by (auto simp: covered_def)
    then show ?thesis using Cons Some c keys by auto
  qed
qed simp

lemma covered_fill:
  assumes "covered pending (m, n)" "distinct (hm_candidates m)"
  shows "covered pending (fill (\<lambda>a. connect (reg a) a) now (m, n))"
proof -
  let ?m = "m\<lparr>hm_state := hm_state m @ map (\<lambda>a. (a, new_hub now)) (picks now m)\<rparr>"
  have "hub_keys ?m = hub_keys m \<union> set (picks now m)" by (auto simp: hub_keys_def image_Un image_image)
  moreover have "distinct (picks now m)" using assms(2) by (simp add: picks_def fill_picks_spec distinct_take)
  ultimately show ?thesis
    using assms(1) covered_connect [of pending ?m n "picks now m" reg now] by (auto simp: fill_def Let_def covered_def)
qed

end

text \<open>The node provides it.\<close>

definition node_hubs :: "node \<Rightarrow> string set" where
  "node_hubs n = fst ` set (nd_hubs n)"

definition node_wf :: "node \<Rightarrow> bool" where
  "node_wf n \<longleftrightarrow> (\<forall>a\<in>node_hubs n. SplitHostPort a \<noteq> None)"

lemma map_of_held: "map_of (nd_hubs n) a = None \<longleftrightarrow> a \<notin> node_hubs n"
  by (simp add: node_hubs_def map_of_eq_None_iff)

lemma held_Some: "map_of (nd_hubs n) a = Some h \<Longrightarrow> a \<in> node_hubs n"
  using map_of_held [of n a] by auto

lemma node_hubs_update [simp]: "node_hubs (n\<lparr>nd_hubs := AList.update a h (nd_hubs n)\<rparr>) = insert a (node_hubs n)"
  using dom_update [of a h "nd_hubs n"] by (simp add: node_hubs_def)

lemma node_hubs_delete [simp]: "node_hubs (n\<lparr>nd_hubs := AList.delete a (nd_hubs n)\<rparr>) = node_hubs n - {a}"
  by (auto simp: node_hubs_def AList.delete_eq)

interpretation node_links: hub_links ConnectHub "\<lambda>a n. snd (DropHub a n)" HubStats node_hubs node_wf
  by unfold_locales
    (auto simp: ConnectHub_def DropHub_def HubStats_def map_of_held node_wf_def held_Some split: if_splits option.splits)

text \<open>
  The manager, the node and the drops that \<^verbatim>\<open>measure\<close> started and that have not run yet, under every
  interleaving of the goroutines: the checks of \<^verbatim>\<open>Run\<close>, the asynchronous drops, new candidates from
  the catalog, announcements, and whatever the connections themselves do.
\<close>

type_synonym hub_system = "hubManager \<times> node \<times> string set"

inductive system_step :: "hub_system \<Rightarrow> hub_system \<Rightarrow> bool" where
  measured: "measure_hubs now (HubStats rx n) m = (m', k, drops) \<Longrightarrow>
    system_step (m, n, pending) (m', n, pending \<union> set drops)"
| filled: "fill (\<lambda>a. ConnectHub (reg a) a) now (m, n) = (m', n') \<Longrightarrow>
    system_step (m, n, pending) (m', n', pending)"
| dropped: "a \<in> pending \<Longrightarrow> system_step (m, n, pending) (m, snd (DropHub a n), pending - {a})"
| candidates: "system_step (m, n, pending) (AddCandidates hubs m, n, pending)"
| announced: "system_step (m, n, pending) (snd (announceWhenUp a m), n, pending)"
| traffic: "map fst (nd_hubs n') = map fst (nd_hubs n) \<Longrightarrow> system_step (m, n, pending) (m, n', pending)"

inductive_cases system_stepE: "system_step s s'"

definition system_inv :: "hub_system \<Rightarrow> bool" where
  "system_inv s \<longleftrightarrow> (case s of (m, n, pending) \<Rightarrow> manager_ok m \<and> node_links.covered pending (m, n))"

lemma AddCandidates_ok: "manager_ok m \<Longrightarrow> manager_ok (AddCandidates hubs m)"
  by (simp add: manager_ok_def AddCandidates_def dedup_props)

lemma announceWhenUp_keys: "map fst (hm_state (snd (announceWhenUp a m))) = map fst (hm_state m)"
proof (cases "map_of (hm_state m) a")
  case (Some st)
  then have "a \<in> fst ` set (hm_state m)" by (metis map_of_eq_None_iff option.distinct(1))
  then show ?thesis using Some by (simp add: announceWhenUp_def update_keys)
qed (simp add: announceWhenUp_def)

lemma announceWhenUp_added:
  assumes "(b, st') \<in> set (hm_state (snd (announceWhenUp a m)))" "distinct (map fst (hm_state m))"
  shows "\<exists>st. (b, st) \<in> set (hm_state m) \<and> hs_added st = hs_added st'"
proof -
  have "map_of (hm_state (snd (announceWhenUp a m))) b = Some st'"
    using assms announceWhenUp_keys [of a m] by (simp add: map_of_eq_Some_iff)
  then show ?thesis
    using assms(1)
    by (auto simp: announceWhenUp_def AList.update_conv' split: option.splits if_splits dest!: map_of_SomeD)
qed

lemma announceWhenUp_ok:
  assumes "manager_ok m"
  shows "manager_ok (snd (announceWhenUp a m))"
proof -
  note ok = manager_okD [OF assms]
  have same: "hm_policy (snd (announceWhenUp a m)) = hm_policy m" "hm_bad (snd (announceWhenUp a m)) = hm_bad m"
      "hm_candidates (snd (announceWhenUp a m)) = hm_candidates m"
    by (auto simp: announceWhenUp_def split: option.splits)
  have len: "length (hm_state (snd (announceWhenUp a m))) = length (hm_state m)"
    using arg_cong [OF announceWhenUp_keys, of length a m] by simp
  have "t + hp_Backoff (hm_policy m) \<le> hs_added st'"
    if "(b, st') \<in> set (hm_state (snd (announceWhenUp a m)))" "map_of (hm_bad m) b = Some t" for b st' t
    using announceWhenUp_added [OF that(1) ok(2)] that(2) ok(4) by metis
  then show ?thesis
    unfolding manager_ok_def same announceWhenUp_keys len using ok(1,2,3) by blast
qed

lemma system_step_inv: "system_step s s' \<Longrightarrow> system_inv s \<Longrightarrow> system_inv s'"
proof (induction rule: system_step.induct)
  case (measured now rx n m m' k drops pending)
  then have "m' = fst (measure_hubs now (HubStats rx n) m)" "drops = dropped_hubs now (HubStats rx n) m"
    by (auto simp: measure_hubs_def Let_def)
  then show ?case using measured.prems
    by (simp add: system_inv_def manager_ok_measure node_links.covered_measure)
next
  case (filled reg now m n m' n' pending)
  then show ?case
    using manager_ok_fill [of m "\<lambda>a. ConnectHub (reg a) a" now n] node_links.covered_fill [of pending m n reg now]
    by (simp add: system_inv_def manager_okD(1))
next
  case (dropped a pending m n)
  then show ?case by (simp add: system_inv_def node_links.covered_drop)
next
  case (candidates m n pending hubs)
  then show ?case
    by (simp add: system_inv_def AddCandidates_ok) (simp add: node_links.covered_def hub_keys_def AddCandidates_def)
next
  case (announced m n pending a)
  then show ?case
    using arg_cong [OF announceWhenUp_keys, of set a m]
    by (simp add: system_inv_def announceWhenUp_ok node_links.covered_def hub_keys_def)
next
  case (traffic n' n m pending)
  have "node_hubs n' = node_hubs n" using arg_cong [OF traffic.hyps, of set] by (simp add: node_hubs_def)
  then show ?case using traffic.prems by (simp add: system_inv_def node_links.covered_def node_wf_def)
qed

lemma system_reachable_inv: "system_step\<^sup>*\<^sup>* s s' \<Longrightarrow> system_inv s \<Longrightarrow> system_inv s'"
  by (induction rule: rtranclp_induct) (auto intro: system_step_inv)

text \<open>
  From a new manager and a node without hubs, under every interleaving: at most \<^verbatim>\<open>Want\<close>
  hubs are managed, none twice, none within \<^verbatim>\<open>Backoff\<close> of being found bad; and no hub connection
  leaks: every hub the node holds is managed or has its drop under way.
\<close>

lemma hubs_managed:
  assumes "system_step\<^sup>*\<^sup>* (NewHubManager cs policy, n0, {}) (m, n, pending)" and "nd_hubs n0 = []"
  shows "int (length (hm_state m)) \<le> max 0 (hp_Want (hm_policy m)) \<and> distinct (map fst (hm_state m)) \<and>
    (\<forall>a st t. (a, st) \<in> set (hm_state m) \<and> map_of (hm_bad m) a = Some t \<longrightarrow>
      t + hp_Backoff (hm_policy m) \<le> hs_added st) \<and>
    fst ` set (nd_hubs n) \<subseteq> fst ` set (hm_state m) \<union> pending"
proof -
  have "system_inv (NewHubManager cs policy, n0, {})"
    using assms(2) by (simp add: system_inv_def manager_ok_def NewHubManager_def dedup_props
        node_links.covered_def node_wf_def node_hubs_def)
  with assms(1) have "system_inv (m, n, pending)" by (rule system_reachable_inv)
  then have ok: "manager_ok m" and cov: "node_links.covered pending (m, n)" by (simp_all add: system_inv_def)
  show ?thesis using manager_okD [OF ok] cov unfolding node_links.covered_def node_hubs_def hub_keys_def by auto
qed

lemma demo_fill: "map fst (nd_hubs (snd (fill (\<lambda>a. ConnectHub True a) 0 (demo_manager, demo_node)))) = [''a:1'', ''b:1'']"
  by code_simp

section \<open>Measuring over time\<close>

definition run_checks ::
  "(int \<times> (string \<Rightarrow> (bool \<times> nat \<times> nat) option)) list \<Rightarrow> hubManager \<Rightarrow> hubManager" where
  "run_checks ticks m = fold (\<lambda>(now, stats) m. fst (measure_hubs now stats m)) ticks m"

lemma map_of_kept:
  "distinct (map fst vs) \<Longrightarrow> map_of (kept_hubs vs) a =
   (case map_of vs a of Some (Kept _ st) \<Rightarrow> Some st | _ \<Rightarrow> None)"
proof (induction vs rule: kept_hubs.induct)
  case (2 b v vs)
  then have "b \<notin> fst ` set vs" by simp
  then have "map_of vs b = None" by (simp add: map_of_eq_None_iff)
  with "2" show ?case by (auto split: verdict.splits)
qed simp

lemma map_of_judge: "map_of (map (\<lambda>(addr, st). (addr, f addr st)) xs) a = map_option (f a) (map_of xs a)"
  by (induction xs) auto

lemma measured_hub:
  assumes "distinct (map fst (hm_state m))"
  shows "map_of (hm_state (fst (measure_hubs now stats m))) a = (case map_of (hm_state m) a of
     None \<Rightarrow> None | Some st \<Rightarrow> (case judge (hm_policy m) now (stats a) st of Kept _ st' \<Rightarrow> Some st' | _ \<Rightarrow> None))"
proof -
  have "map_of (judged now stats m) a =
      map_option (\<lambda>st. judge (hm_policy m) now (stats a) st) (map_of (hm_state m) a)"
    unfolding judged_def by (rule map_of_judge)
  moreover have "map fst (judged now stats m) = map fst (hm_state m)" by (auto simp: judged_def)
  ultimately show ?thesis
    using assms by (auto simp: measured_parts map_of_kept split: option.splits)
qed

lemma measured_distinct: "distinct (map fst (hm_state m)) \<Longrightarrow> distinct (map fst (hm_state (fst (measure_hubs now stats m))))"
proof -
  assume d: "distinct (map fst (hm_state m))"
  have "map fst (judged now stats m) = map fst (hm_state m)" by (auto simp: judged_def)
  then show ?thesis using kept_keys [of "judged now stats m"] d by (simp add: measured_parts)
qed

lemma measured_kept:
  assumes "distinct (map fst (hm_state m))" "map_of (hm_state m) a = Some st"
    and "map_of (hm_state (fst (measure_hubs now stats m))) a = Some st'"
  shows "\<exists>b. judge (hm_policy m) now (stats a) st = Kept b st'"
proof -
  have "(case judge (hm_policy m) now (stats a) st of Kept _ st' \<Rightarrow> Some st' | _ \<Rightarrow> None) = Some st'"
    using measured_hub [OF assms(1), of now stats a] assms(2,3) by simp
  then show ?thesis by (cases "judge (hm_policy m) now (stats a) st") simp_all
qed

text \<open>A hub gone from the table does not come back by measuring.\<close>

lemma run_checks_gone: "map_of (hm_state m) a = None \<Longrightarrow> distinct (map fst (hm_state m)) \<Longrightarrow>
    map_of (hm_state (run_checks ticks m)) a = None"
  unfolding run_checks_def
  by (induction ticks arbitrary: m) (auto simp: measured_hub measured_distinct)

lemma run_checks_Cons: "run_checks ((now, stats) # ticks) m = run_checks ticks (fst (measure_hubs now stats m))"
  by (simp add: run_checks_def)

lemma judge_silent:
  assumes "judge p now (Some (up, r, tx)) st = Kept b st'" "r \<le> hs_lastRx st" "\<forall>l. hs_lastData st = Some l \<longrightarrow> l \<le> t0" "hs_added st \<le> t0"
  shows "now - t0 \<le> hp_Silence p \<and> r \<le> hs_lastRx st' \<and> (\<forall>l. hs_lastData st' = Some l \<longrightarrow> l \<le> t0) \<and> hs_added st' \<le> t0"
  using assms by (auto simp: judge_def Let_def split: if_splits option.splits)

lemma silent_run:
  "map_of (hm_state m) a = Some st \<Longrightarrow> distinct (map fst (hm_state m)) \<Longrightarrow>
   \<forall>(t, stats)\<in>set ticks. \<exists>up tx. stats a = Some (up, r, tx) \<Longrightarrow>
   r \<le> hs_lastRx st \<Longrightarrow> \<forall>l. hs_lastData st = Some l \<longrightarrow> l \<le> t0 \<Longrightarrow> hs_added st \<le> t0 \<Longrightarrow>
   map_of (hm_state (run_checks ticks m)) a \<noteq> None \<Longrightarrow> \<forall>(t, stats)\<in>set ticks. t - t0 \<le> hp_Silence (hm_policy m)"
proof (induction ticks arbitrary: m st)
  case (Cons tick ticks)
  obtain now stats where tick: "tick = (now, stats)" by (cases tick)
  let ?m = "fst (measure_hubs now stats m)"
  have run: "map_of (hm_state (run_checks ticks ?m)) a \<noteq> None" using Cons.prems(7) unfolding tick run_checks_Cons .
  have d: "distinct (map fst (hm_state ?m))" by (rule measured_distinct [OF Cons.prems(2)])
  have "map_of (hm_state ?m) a \<noteq> None" using run run_checks_gone [OF _ d] by metis
  then obtain st' where st': "map_of (hm_state ?m) a = Some st'" unfolding not_None_eq by (elim exE)
  then obtain b where j: "judge (hm_policy m) now (stats a) st = Kept b st'"
    using measured_kept [OF Cons.prems(2,1)] by blast
  have now: "\<exists>up tx. stats a = Some (up, r, tx)" and later: "\<forall>(t, stats)\<in>set ticks. \<exists>up tx. stats a = Some (up, r, tx)"
    using Cons.prems(3) unfolding tick by (simp_all only: list.set ball_simps prod.case) (elim conjE)
  then obtain up tx where "stats a = Some (up, r, tx)" by blast
  note s = judge_silent [OF j [unfolded this] Cons.prems(4-6)]
  have "\<forall>(t, stats)\<in>set ticks. t - t0 \<le> hp_Silence (hm_policy ?m)"
    by (rule Cons.IH [OF st' d later _ _ _ run]) (use s in blast)+
  then show ?case unfolding measured_parts(1) tick using s by (simp only: list.set ball_simps prod.case)
qed simp

text \<open>The counts a healthy hub reports: connected, with more received at every check.\<close>

fun healthy :: "string \<Rightarrow> nat \<Rightarrow> (int \<times> (string \<Rightarrow> (bool \<times> nat \<times> nat) option)) list \<Rightarrow> bool" where
  "healthy a r [] = True"
| "healthy a r ((now, stats) # ticks) =
     (case stats a of Some (True, rx, tx) \<Rightarrow> r < rx \<and> healthy a rx ticks | _ \<Rightarrow> False)"

lemma judge_growing:
  assumes "hs_lastRx st < rx" "0 \<le> hp_Silence p"
  shows "\<exists>b st'. judge p now (Some (True, rx, tx)) st = Kept b st' \<and> hs_lastRx st' = rx"
  using assms by (cases "hs_announced st") (auto simp: judge_def Let_def)

lemma healthy_run:
  "map_of (hm_state m) a = Some st \<Longrightarrow> distinct (map fst (hm_state m)) \<Longrightarrow> 0 \<le> hp_Silence (hm_policy m) \<Longrightarrow>
   healthy a (hs_lastRx st) ticks \<Longrightarrow> map_of (hm_state (run_checks ticks m)) a \<noteq> None"
proof (induction ticks arbitrary: m st)
  case (Cons tick ticks)
  obtain now stats where tick: "tick = (now, stats)" by fastforce
  from Cons.prems(4) obtain rx tx where s: "stats a = Some (True, rx, tx)" "hs_lastRx st < rx" "healthy a rx ticks"
    by (auto simp: tick split: option.splits prod.splits bool.splits)
  let ?m = "fst (measure_hubs now stats m)"
  obtain b st' where "judge (hm_policy m) now (stats a) st = Kept b st'" and r: "hs_lastRx st' = rx"
    using judge_growing [OF s(2) Cons.prems(3)] s(1) by metis
  then have "map_of (hm_state ?m) a = Some st'"
    using Cons.prems(1) by (simp add: measured_hub [OF Cons.prems(2)])
  from Cons.IH [OF this measured_distinct [OF Cons.prems(2)]] Cons.prems(3) s(3) r
  show ?case by (simp add: tick run_checks_Cons measured_parts(1))
qed (simp add: run_checks_def)

text \<open>
  Property C35. Over any sequence of checks, a hub that stays connected and has received more at every
  check is never dropped, and a hub that receives nothing is dropped by the first check more than
  \<^verbatim>\<open>Silence\<close> after its last data (or, without any, after it was added), even if it stays connected.
\<close>

theorem hub_checks_sound:
  assumes "map_of (hm_state m) a = Some st" and "distinct (map fst (hm_state m))" and "0 \<le> hp_Silence (hm_policy m)"
    and "\<forall>l. hs_lastData st = Some l \<longrightarrow> l \<le> t0" and "hs_added st \<le> t0"
  shows "(healthy a (hs_lastRx st) ticks \<longrightarrow> map_of (hm_state (run_checks ticks m)) a \<noteq> None) \<and>
    ((\<forall>(t, stats)\<in>set ticks. \<exists>up tx. stats a = Some (up, hs_lastRx st, tx)) \<and>
     (\<exists>(t, stats)\<in>set ticks. t0 + hp_Silence (hm_policy m) < t) \<longrightarrow> map_of (hm_state (run_checks ticks m)) a = None)"
proof (intro conjI impI)
  show "map_of (hm_state (run_checks ticks m)) a \<noteq> None" if "healthy a (hs_lastRx st) ticks"
    using healthy_run [OF assms(1-3) that] .
next
  assume h: "(\<forall>(t, stats)\<in>set ticks. \<exists>up tx. stats a = Some (up, hs_lastRx st, tx)) \<and>
     (\<exists>(t, stats)\<in>set ticks. t0 + hp_Silence (hm_policy m) < t)"
  show "map_of (hm_state (run_checks ticks m)) a = None"
  proof (rule ccontr)
    assume "map_of (hm_state (run_checks ticks m)) a \<noteq> None"
    from silent_run [OF assms(1,2) h [THEN conjunct1] order_refl assms(4,5) this] h show False by fastforce
  qed
qed

lemma hub_checks_sound_witness:
  "map_of (hm_state (run_checks [(50 * second, \<lambda>a. Some (True, 7, 0)), (100 * second, \<lambda>a. Some (True, 7, 0))]
     (demo_manager\<lparr>hm_state := [(''a:1'', \<lparr>hs_added = 0, hs_announced = True, hs_lastRx = 7, hs_lastData = Some 5\<rparr>)]\<rparr>)))
     ''a:1'' = None"
  using hub_checks_sound [of "demo_manager\<lparr>hm_state := [(''a:1'', \<lparr>hs_added = 0, hs_announced = True, hs_lastRx = 7,
      hs_lastData = Some 5\<rparr>)]\<rparr>" "''a:1''" "\<lparr>hs_added = 0, hs_announced = True, hs_lastRx = 7, hs_lastData = Some 5\<rparr>" 5
      "[(50 * second, \<lambda>a. Some (True, 7, 0)), (100 * second, \<lambda>a. Some (True, 7, 0))]"]
  by (auto simp: demo_manager_def NewHubManager_def withDefaults_def or_default_def second_def)

end
