(* ===== verification/Signals.thy ===== *)
theory Signals
  imports Dial Hub_Manager
begin

text \<open>
  Signals between paired devices over Reticulum, \<^verbatim>\<open>internal/daemon/rns.go\<close>, and the clipboard in parts
  through the hubs, the second half of \<^verbatim>\<open>internal/daemon/queue.go\<close>. A message's outcome is what the
  program does with it: the new daemon and the actions it starts.
\<close>

section \<open>Signals\<close>

record signal =
  sg_Type :: string
  sg_ID :: string
  sg_Ufrag :: string
  sg_Pwd :: string
  sg_Cand :: string
  sg_N :: int
  sg_Of :: int
  sg_Data :: string

definition Signal0 :: signal where
  "Signal0 = \<lparr>sg_Type = [], sg_ID = [], sg_Ufrag = [], sg_Pwd = [], sg_Cand = [], sg_N = 0, sg_Of = 0, sg_Data = []\<rparr>"

definition signal_json :: "signal \<Rightarrow> json" where
  "signal_json s = JObj
     ([(''t'', JStr (sg_Type s))] @ opt_str ''id'' (sg_ID s) @ opt_str ''u'' (sg_Ufrag s) @ opt_str ''p'' (sg_Pwd s)
      @ opt_str ''c'' (sg_Cand s) @ opt_int ''n'' (sg_N s) @ opt_int ''of'' (sg_Of s) @ opt_str ''d'' (sg_Data s))"

definition signal_fields :: "signal fields" where
  "signal_fields =
     [(''t'', set_str (\<lambda>x s. s\<lparr>sg_Type := x\<rparr>)), (''id'', set_str (\<lambda>x s. s\<lparr>sg_ID := x\<rparr>)),
      (''u'', set_str (\<lambda>x s. s\<lparr>sg_Ufrag := x\<rparr>)), (''p'', set_str (\<lambda>x s. s\<lparr>sg_Pwd := x\<rparr>)),
      (''c'', set_str (\<lambda>x s. s\<lparr>sg_Cand := x\<rparr>)), (''n'', set_int (\<lambda>x s. s\<lparr>sg_N := x\<rparr>)),
      (''of'', set_int (\<lambda>x s. s\<lparr>sg_Of := x\<rparr>)), (''d'', set_str (\<lambda>x s. s\<lparr>sg_Data := x\<rparr>))]"

definition marshal_signal :: "signal \<Rightarrow> bytes" where
  "marshal_signal s = json_print (signal_json s)"

definition unmarshal_signal :: "bytes \<Rightarrow> signal option" where
  "unmarshal_signal b = (case json_unmarshal b of None \<Rightarrow> None | Some v \<Rightarrow> decode_struct signal_fields v Signal0)"

text \<open>The device of a Reticulum key, and sending to a device.\<close>

definition deviceByRNS :: "bytes \<Rightarrow> daemon \<Rightarrow> device option" where
  "deviceByRNS pub d = find (\<lambda>dev. d_RNS dev = hex_encode pub) (st_devices (dm_store d))"

definition trustedRNS :: "daemon \<Rightarrow> bytes \<Rightarrow> bool" where
  "trustedRNS d pub \<longleftrightarrow> deviceByRNS pub d \<noteq> None"

datatype signal_error = RnsOff | NoSuchDevice string | NoIdentityYet string | BadKeyHex | RnsErr rns_error

definition sendSignal ::
  "rns_lib \<Rightarrow> int \<Rightarrow> bool list \<Rightarrow> bool \<Rightarrow> node option \<Rightarrow> string \<Rightarrow> signal \<Rightarrow> daemon \<Rightarrow> signal_error + (device \<times> bytes \<times> bytes)" where
  "sendSignal lib now paths pok nd target s d = (case nd of
     None \<Rightarrow> Inl RnsOff
   | Some n \<Rightarrow>
       (case Lookup (dm_store d) target of
          None \<Rightarrow> Inl (NoSuchDevice target)
        | Some dev \<Rightarrow>
            if d_RNS dev = [] then Inl (NoIdentityYet (d_Name dev))
            else case hex_decode (d_RNS dev) of
              None \<Rightarrow> Inl BadKeyHex
            | Some pub \<Rightarrow>
                (case node_Send lib now paths pok pub (marshal_signal s) n of
                   Inl e \<Rightarrow> Inl (RnsErr e)
                 | Inr (hash, sealed) \<Rightarrow> Inr (dev, hash, sealed))))"

section \<open>The clipboard through the hubs\<close>

definition hubClipMax :: int where "hubClipMax = 4096"
definition hubClipPart :: int where "hubClipPart = 138"

text \<open>The signals \<^verbatim>\<open>sendClipOverHubs\<close> sends, in order.\<close>

definition clip_count :: "bytes \<Rightarrow> nat" where
  "clip_count data = (let parts = (length data + 138 - 1) div 138 in if parts = 0 then 1 else parts)"

definition clip_part :: "bytes \<Rightarrow> nat \<Rightarrow> bytes" where
  "clip_part data n = take (min ((n + 1) * 138) (length data) - n * 138) (drop (n * 138) data)"

definition clip_signal :: "string \<Rightarrow> bytes \<Rightarrow> nat \<Rightarrow> signal" where
  "clip_signal cid data n = Signal0\<lparr>sg_Type := ''clip'', sg_ID := cid, sg_N := int n, sg_Of := int (clip_count data),
     sg_Data := b64_encode StdEncoding (clip_part data n)\<rparr>"

definition clip_signals :: "string \<Rightarrow> bytes \<Rightarrow> signal list" where
  "clip_signals cid data = map (clip_signal cid data) [0..<clip_count data]"

fun send_signals :: "(signal \<Rightarrow> 'e option) \<Rightarrow> signal list \<Rightarrow> 'e option" where
  "send_signals send [] = None"
| "send_signals send (s # ss) = (case send s of Some e \<Rightarrow> Some e | None \<Rightarrow> send_signals send ss)"

datatype hub_clip_error = PartFailed signal_error | NoAck

text \<open>
  \<^verbatim>\<open>sendClipOverHubs\<close>, with the outcome of each signal and whether the acknowledgement comes within 45
  seconds. The identifier is awaited while it runs, which is the argument of \<^term>\<open>acked\<close>.
\<close>

definition sendClipOverHubs ::
  "(signal \<Rightarrow> signal_error option) \<Rightarrow> (daemon \<Rightarrow> bool) \<Rightarrow> string \<Rightarrow> bytes \<Rightarrow> daemon \<Rightarrow> hub_clip_error option \<times> daemon" where
  "sendClipOverHubs send acked cid data d =
     (let d1 = d\<lparr>dm_pongs := cid # dm_pongs d\<rparr>;
          done = d1\<lparr>dm_pongs := removeAll cid (dm_pongs d1)\<rparr> in
      case send_signals send (clip_signals cid data) of
        Some e \<Rightarrow> (Some (PartFailed e), done)
      | None \<Rightarrow> (if acked d1 then None else Some NoAck, done))"

text \<open>
  \<^verbatim>\<open>receiveClipPart\<close>. The result is \<^term>\<open>None\<close> when \<^verbatim>\<open>make\<close> panics: no slice longer than \<^term>\<open>mem\<close> can
  be made. Otherwise it is the daemon, the text the clipboard was set to, and the acknowledgement.
\<close>

definition clip_key :: "device \<Rightarrow> string \<Rightarrow> string" where
  "clip_key dev cid = d_Fingerprint dev @ ''/'' @ cid"

definition part_text :: "clipParts \<Rightarrow> bytes" where
  "part_text cp = concat (map (\<lambda>p. case p of None \<Rightarrow> [] | Some b \<Rightarrow> b) (cp_parts cp))"

definition clip_parts_for :: "int \<Rightarrow> int \<Rightarrow> string \<Rightarrow> daemon \<Rightarrow> clipParts option" where
  "clip_parts_for mem n key d = (case map_of (dm_clips d) key of
     Some cp \<Rightarrow> Some cp
   | None \<Rightarrow> if mem < n then None else Some \<lparr>cp_parts = replicate (nat n) None, cp_got = 0\<rparr>)"

definition receiveClipPart ::
  "int \<Rightarrow> (bytes \<Rightarrow> bool) \<Rightarrow> device \<Rightarrow> signal \<Rightarrow> daemon \<Rightarrow> (daemon \<times> bytes option \<times> signal option) option" where
  "receiveClipPart mem clip_set dev s d =
     (if sg_Of s \<le> 0 \<or> wrap64 (sg_Of s * hubClipPart) > hubClipMax + hubClipPart \<or> sg_N s < 0 \<or> sg_N s \<ge> sg_Of s
      then Some (d, None, None)
      else case b64_decode StdEncoding (sg_Data s) of
        None \<Rightarrow> Some (d, None, None)
      | Some part \<Rightarrow>
          if int (length part) > hubClipPart then Some (d, None, None)
          else
            (let key = clip_key dev (sg_ID s) in
             case clip_parts_for mem (sg_Of s) key d of
               None \<Rightarrow> None
             | Some cp \<Rightarrow>
                 if int (length (cp_parts cp)) \<noteq> sg_Of s \<or> cp_parts cp ! nat (sg_N s) \<noteq> None
                 then Some (d\<lparr>dm_clips := AList.update key cp (dm_clips d)\<rparr>, None, None)
                 else
                   (let cp1 = \<lparr>cp_parts = (cp_parts cp)[nat (sg_N s) := Some part], cp_got = cp_got cp + 1\<rparr> in
                    if cp_got cp1 \<noteq> int (length (cp_parts cp1))
                    then Some (d\<lparr>dm_clips := AList.update key cp1 (dm_clips d)\<rparr>, None, None)
                    else
                      (let d1 = d\<lparr>dm_clips := AList.delete key (dm_clips d)\<rparr>; txt = part_text cp1 in
                       if \<not> clip_set txt then Some (d1, None, None)
                       else Some (broadcast (Event0\<lparr>ev_Kind := ''recv-done'', ev_Peer := d_Name dev, ev_File := ''clipboard''\<rparr>) d1,
                                  Some txt, Some (Signal0\<lparr>sg_Type := ''clip-ack'', sg_ID := sg_ID s\<rparr>))))))"

text \<open>The timer that drops an incomplete text after a minute.\<close>

definition clip_expired :: "string \<Rightarrow> daemon \<Rightarrow> daemon" where
  "clip_expired key d = d\<lparr>dm_clips := AList.delete key (dm_clips d)\<rparr>"

section \<open>The inbox\<close>

datatype action =
    SendBack device signal
  | ServeOffer device signal
  | IceSignal string string string string string
  | SetClipboard bytes
  | WakeWaiter string

definition answer_waiter :: "string \<Rightarrow> daemon \<Rightarrow> daemon \<times> action list" where
  "answer_waiter cid d =
     (if cid \<in> set (dm_pongs d) then (d\<lparr>dm_pongs := removeAll cid (dm_pongs d)\<rparr>, [WakeWaiter cid]) else (d, []))"

definition on_message :: "int \<Rightarrow> (bytes \<Rightarrow> bool) \<Rightarrow> message \<Rightarrow> daemon \<Rightarrow> (daemon \<times> action list) option" where
  "on_message mem clip_set m d = (case deviceByRNS (m_From m) d of
     None \<Rightarrow> Some (d, [])
   | Some dev \<Rightarrow>
       (case unmarshal_signal (m_Body m) of
          None \<Rightarrow> Some (d, [])
        | Some s \<Rightarrow>
            (let d1 = kickQueue d in
             if sg_Type s = ''ping'' then Some (d1, [SendBack dev (Signal0\<lparr>sg_Type := ''pong'', sg_ID := sg_ID s\<rparr>)])
             else if sg_Type s = ''ice-offer'' then Some (d1, [ServeOffer dev s])
             else if sg_Type s = ''ice-answer'' \<or> sg_Type s = ''ice-cand''
             then Some (d1, [IceSignal (sg_ID s) (drop 4 (sg_Type s)) (sg_Ufrag s) (sg_Pwd s) (sg_Cand s)])
             else if sg_Type s = ''clip'' then
               (case receiveClipPart mem clip_set dev s d1 of
                  None \<Rightarrow> None
                | Some (d2, txt, ack) \<Rightarrow>
                    Some (d2, (case txt of None \<Rightarrow> [] | Some t \<Rightarrow> [SetClipboard t]) @
                              (case ack of None \<Rightarrow> [] | Some a \<Rightarrow> [SendBack dev a])))
             else if sg_Type s = ''clip-ack'' \<or> sg_Type s = ''pong'' then Some (answer_waiter (sg_ID s) d1)
             else Some (d1, []))))"

text \<open>The loop of \<^verbatim>\<open>rnsInbox\<close> over the messages that arrive.\<close>

fun rnsInbox :: "int \<Rightarrow> (bytes \<Rightarrow> bool) \<Rightarrow> message list \<Rightarrow> daemon \<Rightarrow> (daemon \<times> action list) option" where
  "rnsInbox mem clip_set [] d = Some (d, [])"
| "rnsInbox mem clip_set (m # ms) d = (case on_message mem clip_set m d of
     None \<Rightarrow> None
   | Some (d1, acts) \<Rightarrow> (case rnsInbox mem clip_set ms d1 of None \<Rightarrow> None | Some (d2, acts') \<Rightarrow> Some (d2, acts @ acts')))"

text \<open>\<^verbatim>\<open>Ping\<close>, with the outcome of its signal and of the wait.\<close>

definition Ping :: "(signal \<Rightarrow> signal_error option) \<Rightarrow> (daemon \<Rightarrow> bool) \<Rightarrow> string \<Rightarrow> daemon \<Rightarrow> (signal_error option + unit) \<times> daemon" where
  "Ping send ponged cid d =
     (let d1 = d\<lparr>dm_pongs := cid # dm_pongs d\<rparr>; done = d1\<lparr>dm_pongs := removeAll cid (dm_pongs d1)\<rparr> in
      case send (Signal0\<lparr>sg_Type := ''ping'', sg_ID := cid\<rparr>) of
        Some e \<Rightarrow> (Inl (Some e), done)
      | None \<Rightarrow> (if ponged d1 then Inr () else Inl None, done))"

section \<open>Laws\<close>

definition signal_ok :: "signal \<Rightarrow> bool" where
  "signal_ok s \<longleftrightarrow> list_all utf8_valid [sg_Type s, sg_ID s, sg_Ufrag s, sg_Pwd s, sg_Cand s, sg_Data s] \<and>
     int64 (sg_N s) \<and> int64 (sg_Of s)"

lemma signal_lookup:
  "map_of signal_fields (fold_key ''t'') = Some (set_str (\<lambda>x s. s\<lparr>sg_Type := x\<rparr>))"
  "map_of signal_fields (fold_key ''id'') = Some (set_str (\<lambda>x s. s\<lparr>sg_ID := x\<rparr>))"
  "map_of signal_fields (fold_key ''u'') = Some (set_str (\<lambda>x s. s\<lparr>sg_Ufrag := x\<rparr>))"
  "map_of signal_fields (fold_key ''p'') = Some (set_str (\<lambda>x s. s\<lparr>sg_Pwd := x\<rparr>))"
  "map_of signal_fields (fold_key ''c'') = Some (set_str (\<lambda>x s. s\<lparr>sg_Cand := x\<rparr>))"
  "map_of signal_fields (fold_key ''n'') = Some (set_int (\<lambda>x s. s\<lparr>sg_N := x\<rparr>))"
  "map_of signal_fields (fold_key ''of'') = Some (set_int (\<lambda>x s. s\<lparr>sg_Of := x\<rparr>))"
  "map_of signal_fields (fold_key ''d'') = Some (set_str (\<lambda>x s. s\<lparr>sg_Data := x\<rparr>))"
  by (simp_all add: signal_fields_def key_lookup)

lemma unmarshal_marshal_signal [wire_simps]: "signal_ok s \<Longrightarrow> unmarshal_signal (marshal_signal s) = Some s"
proof -
  assume ok: "signal_ok s"
  then have "json_ok (signal_json s)"
    by (simp add: signal_ok_def signal_json_def members_ok_simps members_ok_opts utf8_valid_ascii del: json_ok.simps(4))
  moreover have "decode_struct signal_fields (signal_json s) Signal0 = Some s"
    using ok by (simp add: signal_ok_def decode_struct_def signal_json_def Signal0_def signal_lookup member_defs
        decode_steps decode_opt_str [where ms = "[]", simplified])
  ultimately show ?thesis by (simp add: unmarshal_signal_def marshal_signal_def json_unmarshal_print)
qed

text \<open>The parts of a text.\<close>

lemma clip_part_eq: "clip_part data n = take 138 (drop (n * 138) data)"
proof -
  have m: "min ((n + 1) * 138) (length data) - n * 138 = min 138 (length (drop (n * 138) data))" by (auto simp: min_def)
  have t: "take (min 138 (length ys)) ys = take 138 ys" for ys :: bytes by (cases "138 \<le> length ys") simp_all
  show ?thesis unfolding clip_part_def m by (rule t)
qed

lemma chunks_concat: "concat (map (\<lambda>n. take k (drop (n * k) xs)) [0..<m]) = take (m * k) xs"
proof (induction m)
  case (Suc m)
  have "take (Suc m * k) xs = take (m * k) xs @ take k (drop (m * k) xs)"
    using take_add [of "m * k" k xs] by (simp add: add.commute)
  with Suc show ?case by simp
qed simp

lemma clip_count_props:
  "0 < clip_count data" "length data \<le> clip_count data * 138" "length data \<le> 4096 \<Longrightarrow> clip_count data \<le> 30"
  by (auto simp: clip_count_def Let_def)

lemma clip_parts_concat: "concat (map (clip_part data) [0..<clip_count data]) = data"
  using chunks_concat [of 138 data "clip_count data"] clip_count_props(2) [of data]
  by (simp add: clip_part_eq [abs_def])

lemma b64_std_plain:
  assumes "b64_class StdEncoding c"
  shows "cv c < 128 \<and> json_esc c = [c]"
proof -
  let ?bad = "[CHR ''\"'', CHR 0x5C, CHR 0x08, CHR 0x0C, CHR 0x0A, CHR 0x0D, CHR 0x09, CHR ''<'', CHR ''>'', CHR ''&'']"
  have "list_all (\<lambda>x. \<not> b64_class StdEncoding x) ?bad"
    by (simp add: b64_class_def StdEncoding_def char_class_defs)
  then have "c \<notin> set ?bad" using assms by (auto simp: list_all_iff)
  moreover have "32 \<le> cv c \<and> cv c < 128"
    using assms by (auto simp: b64_class_def StdEncoding_def char_class_defs)
  ultimately show ?thesis by (simp add: json_esc_def)
qed

lemma b64_std_ascii: "utf8_valid (b64_encode StdEncoding s)"
  using b64_alphabet [OF b64_ok_encodings(2), of s] b64_std_plain
  unfolding list_all_iff by (intro utf8_valid_ascii) blast

lemma clip_signal_ok:
  assumes "utf8_valid cid" "length data \<le> 4096" "n < clip_count data"
  shows "signal_ok (clip_signal cid data n)"
  using assms clip_count_props(3) [of data]
  by (auto simp: signal_ok_def clip_signal_def Signal0_def utf8_valid_ascii b64_std_ascii int64_def)

text \<open>What has been collected when the parts \<^term>\<open>js\<close> have arrived.\<close>

definition collected :: "bytes \<Rightarrow> nat set \<Rightarrow> clipParts" where
  "collected data J = \<lparr>cp_parts = map (\<lambda>i. if i \<in> J then Some (clip_part data i) else None) [0..<clip_count data],
     cp_got = int (card J)\<rparr>"

definition collecting :: "daemon \<Rightarrow> string \<Rightarrow> bytes \<Rightarrow> nat set \<Rightarrow> bool" where
  "collecting d key data J \<longleftrightarrow> map_of (dm_clips d) key = (if J = {} then None else Some (collected data J))"

lemma collected_insert:
  assumes "n < clip_count data" "n \<notin> J" "finite J"
  shows "\<lparr>cp_parts = (cp_parts (collected data J))[n := Some (clip_part data n)], cp_got = cp_got (collected data J) + 1\<rparr>
    = collected data (insert n J)"
  using assms by (auto simp: collected_def list_eq_iff_nth_eq nth_list_update)

lemma clip_parts_start:
  assumes "collecting d key data J" "int (clip_count data) \<le> mem"
  shows "clip_parts_for mem (int (clip_count data)) key d = Some (collected data J)"
proof (cases "J = {}")
  case True
  have "map (\<lambda>i. None) [0..<clip_count data] = replicate (clip_count data) (None :: bytes option)"
    by (simp add: map_replicate_const)
  then show ?thesis using assms True by (simp add: clip_parts_for_def collecting_def collected_def)
next
  case False
  then show ?thesis using assms by (simp add: clip_parts_for_def collecting_def)
qed

lemma clip_checks:
  assumes "length data \<le> 4096" "n < clip_count data"
  shows "\<not> (sg_Of (clip_signal cid data n) \<le> 0 \<or> wrap64 (sg_Of (clip_signal cid data n) * hubClipPart) > hubClipMax + hubClipPart \<or>
      sg_N (clip_signal cid data n) < 0 \<or> sg_N (clip_signal cid data n) \<ge> sg_Of (clip_signal cid data n))"
    and "b64_decode StdEncoding (sg_Data (clip_signal cid data n)) = Some (clip_part data n)"
    and "\<not> int (length (clip_part data n)) > hubClipPart"
  using assms clip_count_props(1,3) [of data]
  by (auto simp: clip_signal_def Signal0_def hubClipPart_def hubClipMax_def int64_def b64_decode_encode clip_part_eq)

lemma receiveClipPart_pass:
  assumes "\<not> (sg_Of s \<le> 0 \<or> wrap64 (sg_Of s * hubClipPart) > hubClipMax + hubClipPart \<or> sg_N s < 0 \<or> sg_N s \<ge> sg_Of s)"
    and "b64_decode StdEncoding (sg_Data s) = Some part" and "\<not> int (length part) > hubClipPart"
  shows "receiveClipPart mem clip_set dev s d = (let key = clip_key dev (sg_ID s) in
     case clip_parts_for mem (sg_Of s) key d of
       None \<Rightarrow> None
     | Some cp \<Rightarrow>
         if int (length (cp_parts cp)) \<noteq> sg_Of s \<or> cp_parts cp ! nat (sg_N s) \<noteq> None
         then Some (d\<lparr>dm_clips := AList.update key cp (dm_clips d)\<rparr>, None, None)
         else
           (let cp1 = \<lparr>cp_parts = (cp_parts cp)[nat (sg_N s) := Some part], cp_got = cp_got cp + 1\<rparr> in
            if cp_got cp1 \<noteq> int (length (cp_parts cp1))
            then Some (d\<lparr>dm_clips := AList.update key cp1 (dm_clips d)\<rparr>, None, None)
            else
              (let d1 = d\<lparr>dm_clips := AList.delete key (dm_clips d)\<rparr>; txt = part_text cp1 in
               if \<not> clip_set txt then Some (d1, None, None)
               else Some (broadcast (Event0\<lparr>ev_Kind := ''recv-done'', ev_Peer := d_Name dev, ev_File := ''clipboard''\<rparr>) d1,
                          Some txt, Some (Signal0\<lparr>sg_Type := ''clip-ack'', sg_ID := sg_ID s\<rparr>)))))"
  unfolding receiveClipPart_def using assms by (simp only: if_False option.case)

text \<open>One more part: already there, collected, or the last one.\<close>

lemma clip_part_run:
  assumes d: "collecting d (clip_key dev cid) data J" and data: "length data \<le> 4096" and n: "n < clip_count data"
    and fin: "finite J" and mem: "30 \<le> mem"
  shows "receiveClipPart mem clip_set dev (clip_signal cid data n) d =
      (if n \<in> J then Some (d\<lparr>dm_clips := AList.update (clip_key dev cid) (collected data J) (dm_clips d)\<rparr>, None, None)
       else if card (insert n J) \<noteq> clip_count data
       then Some (d\<lparr>dm_clips := AList.update (clip_key dev cid) (collected data (insert n J)) (dm_clips d)\<rparr>, None, None)
       else
         (let d1 = d\<lparr>dm_clips := AList.delete (clip_key dev cid) (dm_clips d)\<rparr>; txt = part_text (collected data (insert n J)) in
          if \<not> clip_set txt then Some (d1, None, None)
          else Some (broadcast (Event0\<lparr>ev_Kind := ''recv-done'', ev_Peer := d_Name dev, ev_File := ''clipboard''\<rparr>) d1,
                     Some txt, Some (Signal0\<lparr>sg_Type := ''clip-ack'', sg_ID := cid\<rparr>))))"
proof -
  let ?s = "clip_signal cid data n" and ?cp = "collected data J"
  have "int (clip_count data) \<le> mem" using clip_count_props(3) [OF data] mem by linarith
  note start = clip_parts_start [OF d this]
  have f: "sg_ID ?s = cid" "sg_Of ?s = int (clip_count data)" "nat (sg_N ?s) = n" by (simp_all add: clip_signal_def)
  have len: "length (cp_parts (collected data K)) = clip_count data" and got: "cp_got (collected data K) = int (card K)" for K
    by (simp_all add: collected_def)
  have nth: "cp_parts ?cp ! n = (if n \<in> J then Some (clip_part data n) else None)" using n by (simp add: collected_def)
  note pass = receiveClipPart_pass [OF clip_checks(1) [where cid = cid, OF data n] clip_checks(2) [where cid = cid, OF data n] clip_checks(3) [OF data n], unfolded f Let_def]
  show ?thesis
  proof (cases "n \<in> J")
    case True
    then show ?thesis unfolding pass start option.case len nth by simp
  next
    case False
    show ?thesis unfolding pass start option.case nth collected_insert [OF n False fin]
      unfolding len got using False by (simp only: if_False Let_def simp_thms of_nat_eq_iff)
  qed
qed

lemma clip_full: "part_text (collected data {..<clip_count data}) = data"
proof -
  have "map (\<lambda>i. if i \<in> {..<clip_count data} then Some (clip_part data i) else None) [0..<clip_count data]
      = map (\<lambda>i. Some (clip_part data i)) [0..<clip_count data]" by (rule map_cong) auto
  then show ?thesis using clip_parts_concat [of data] by (simp add: part_text_def collected_def comp_def del: map_eq_conv)
qed

lemma clip_part_more:
  assumes d: "collecting d (clip_key dev cid) data J" and data: "length data \<le> 4096" and n: "n < clip_count data"
    and J: "J \<subset> {..<clip_count data}" and mem: "30 \<le> mem" and more: "insert n J \<noteq> {..<clip_count data}"
  shows "\<exists>d'. receiveClipPart mem clip_set dev (clip_signal cid data n) d = Some (d', None, None) \<and>
    collecting d' (clip_key dev cid) data (insert n J) \<and> dm_store d' = dm_store d"
proof -
  have fin: "finite J" using J finite_subset by blast
  have "card (insert n J) \<noteq> clip_count data"
    using card_subset_eq [of "{..<clip_count data}" "insert n J"] J n more by auto
  moreover have "n \<in> J \<Longrightarrow> J \<noteq> {} \<and> insert n J = J" by blast
  ultimately show ?thesis
    unfolding clip_part_run [OF d data n fin mem]
    by (cases "n \<in> J") (simp_all add: collecting_def AList.update_conv')
qed

lemma clip_part_last:
  assumes d: "collecting d (clip_key dev cid) data J" and data: "length data \<le> 4096" and n: "n < clip_count data"
    and J: "J \<subset> {..<clip_count data}" and mem: "30 \<le> mem" and full: "insert n J = {..<clip_count data}" and c: "clip_set data"
  shows "\<exists>d'. receiveClipPart mem clip_set dev (clip_signal cid data n) d =
      Some (d', Some data, Some (Signal0\<lparr>sg_Type := ''clip-ack'', sg_ID := cid\<rparr>)) \<and>
    map_of (dm_clips d') (clip_key dev cid) = None \<and> dm_store d' = dm_store d"
proof -
  have fin: "finite J" using J finite_subset by blast
  have new: "n \<notin> J" using J full by (metis insert_absorb psubset_eq)
  have "card (insert n J) = clip_count data" unfolding full by (rule card_lessThan)
  then have "receiveClipPart mem clip_set dev (clip_signal cid data n) d =
      Some (broadcast (Event0\<lparr>ev_Kind := ''recv-done'', ev_Peer := d_Name dev, ev_File := ''clipboard''\<rparr>)
              (d\<lparr>dm_clips := AList.delete (clip_key dev cid) (dm_clips d)\<rparr>),
            Some data, Some (Signal0\<lparr>sg_Type := ''clip-ack'', sg_ID := cid\<rparr>))"
    unfolding clip_part_run [OF d data n fin mem] using new c unfolding full clip_full Let_def by (simp only: if_False if_True simp_thms)
  moreover have "map_of (dm_clips (broadcast e (d\<lparr>dm_clips := AList.delete k (dm_clips d)\<rparr>))) k = None"
      "dm_store (broadcast e (d\<lparr>dm_clips := AList.delete k (dm_clips d)\<rparr>)) = dm_store d" for e k
    by (simp_all add: broadcast_def AList.delete_conv')
  ultimately show ?thesis by (intro exI conjI)
qed

text \<open>Messages from one device.\<close>

definition clip_message :: "bytes \<Rightarrow> string \<Rightarrow> bytes \<Rightarrow> nat \<Rightarrow> message" where
  "clip_message pub cid data n = \<lparr>m_From = pub, m_Body = marshal_signal (clip_signal cid data n)\<rparr>"

lemma on_clip_message:
  assumes "deviceByRNS pub d = Some dev" "utf8_valid cid" "length data \<le> 4096" "n < clip_count data"
  shows "on_message mem clip_set (clip_message pub cid data n) d =
    (case receiveClipPart mem clip_set dev (clip_signal cid data n) (kickQueue d) of
       None \<Rightarrow> None
     | Some (d2, txt, ack) \<Rightarrow> Some (d2, (case txt of None \<Rightarrow> [] | Some t \<Rightarrow> [SetClipboard t]) @
         (case ack of None \<Rightarrow> [] | Some a \<Rightarrow> [SendBack dev a])))"
proof -
  have t: "sg_Type (clip_signal cid data n) = ''clip''" by (simp add: clip_signal_def)
  show ?thesis
    using assms(1) unmarshal_marshal_signal [OF clip_signal_ok [OF assms(2-4)]]
    by (simp add: on_message_def clip_message_def t Let_def)
qed

lemma clip_messages_more:
  assumes "deviceByRNS pub d = Some dev" "utf8_valid cid" "length data \<le> 4096" "30 \<le> mem"
    and "collecting d (clip_key dev cid) data J" "J \<union> set js \<subset> {..<clip_count data}"
  shows "\<exists>d'. rnsInbox mem clip_set (map (clip_message pub cid data) js) d = Some (d', []) \<and>
    collecting d' (clip_key dev cid) data (J \<union> set js) \<and> dm_store d' = dm_store d"
  using assms(1,5,6)
proof (induction js arbitrary: d J)
  case (Cons n js)
  have n: "n < clip_count data" and J: "J \<subset> {..<clip_count data}" and nJ: "insert n J \<noteq> {..<clip_count data}"
    using Cons.prems(3) by auto
  have k: "collecting (kickQueue d) (clip_key dev cid) data J" using Cons.prems(2) by (simp add: collecting_def kickQueue_def)
  obtain d1 where d1: "receiveClipPart mem clip_set dev (clip_signal cid data n) (kickQueue d) = Some (d1, None, None)"
      "collecting d1 (clip_key dev cid) data (insert n J)" "dm_store d1 = dm_store d"
    using clip_part_more [OF k assms(3) n J assms(4) nJ] by (auto simp: kickQueue_def)
  have dev1: "deviceByRNS pub d1 = Some dev" using Cons.prems(1) d1(3) by (simp add: deviceByRNS_def)
  have sub: "insert n J \<union> set js \<subset> {..<clip_count data}" using Cons.prems(3) by simp
  from Cons.IH [OF dev1 d1(2) sub] obtain d' where d': "rnsInbox mem clip_set (map (clip_message pub cid data) js) d1 = Some (d', [])"
      "collecting d' (clip_key dev cid) data (insert n J \<union> set js)" "dm_store d' = dm_store d1" by blast
  then show ?case using d1 by (simp add: on_clip_message [OF Cons.prems(1) assms(2,3) n])
qed simp

lemma rnsInbox_append:
  "rnsInbox mem cs (ms @ ms') d = (case rnsInbox mem cs ms d of None \<Rightarrow> None | Some (d1, a) \<Rightarrow>
     (case rnsInbox mem cs ms' d1 of None \<Rightarrow> None | Some (d2, a') \<Rightarrow> Some (d2, a @ a')))"
  by (induction ms arbitrary: d) (auto split: option.splits)

lemma clip_set_once:
  assumes "deviceByRNS pub d = Some dev" and "utf8_valid cid" and "length data \<le> 4096" and "30 \<le> mem"
    and "map_of (dm_clips d) (clip_key dev cid) = None" and "clip_set data"
    and "set js \<subset> {..<clip_count data}" and "insert n (set js) = {..<clip_count data}"
  shows "\<exists>d'. rnsInbox mem clip_set (map (clip_message pub cid data) (js @ [n])) d =
      Some (d', [SetClipboard data, SendBack dev (Signal0\<lparr>sg_Type := ''clip-ack'', sg_ID := cid\<rparr>)]) \<and>
    map_of (dm_clips d') (clip_key dev cid) = None \<and> dm_store d' = dm_store d"
proof -
  have js: "{} \<union> set js \<subset> {..<clip_count data}" and full: "insert n (set js) = {..<clip_count data}"
    using assms(7,8) by simp_all
  have n: "n < clip_count data" using full by blast
  have "collecting d (clip_key dev cid) data {}" using assms(5) by (simp add: collecting_def)
  from clip_messages_more [OF assms(1-4) this js, of clip_set]
  obtain d1 where d1: "rnsInbox mem clip_set (map (clip_message pub cid data) js) d = Some (d1, [])"
      "collecting d1 (clip_key dev cid) data (set js)" "dm_store d1 = dm_store d" by auto
  have dev1: "deviceByRNS pub d1 = Some dev" using assms(1) d1(3) by (simp add: deviceByRNS_def)
  have k: "collecting (kickQueue d1) (clip_key dev cid) data (set js)" using d1(2) by (simp add: collecting_def kickQueue_def)
  from clip_part_last [where clip_set = clip_set, OF k assms(3) n _ assms(4) full assms(6)] js obtain d' where
      "receiveClipPart mem clip_set dev (clip_signal cid data n) (kickQueue d1) =
        Some (d', Some data, Some (Signal0\<lparr>sg_Type := ''clip-ack'', sg_ID := cid\<rparr>))"
      "map_of (dm_clips d') (clip_key dev cid) = None" "dm_store d' = dm_store d1" by (auto simp: kickQueue_def)
  then show ?thesis
    using d1(1,3) by (simp add: rnsInbox_append on_clip_message [OF dev1 assms(2,3) n])
qed


text \<open>
  What a repetition after the last part does: a text of one part delivered twice sets the clipboard twice,
  the second time over whatever the user has copied since.
\<close>

lemma one_part_set_again:
  assumes "deviceByRNS pub d = Some dev" and "utf8_valid cid" and "length data \<le> 138" and "30 \<le> mem"
    and "map_of (dm_clips d) (clip_key dev cid) = None" and "clip_set data"
  shows "\<exists>d'. rnsInbox mem clip_set (map (clip_message pub cid data) [0, 0]) d =
      Some (d', [SetClipboard data, SendBack dev (Signal0\<lparr>sg_Type := ''clip-ack'', sg_ID := cid\<rparr>),
        SetClipboard data, SendBack dev (Signal0\<lparr>sg_Type := ''clip-ack'', sg_ID := cid\<rparr>)])"
proof -
  have one: "clip_count data = 1" using assms(3) unfolding clip_count_def Let_def by (auto; presburger)
  have js: "set [] \<subset> {..<clip_count data}" "insert 0 (set []) = {..<clip_count data}" by (auto simp: one)
  have short: "length data \<le> 4096" using assms(3) by simp
  note once = clip_set_once [where clip_set = clip_set, OF _ assms(2) short assms(4) _ assms(6) js]
  from once [OF assms(1,5)] obtain d1 where d1: "rnsInbox mem clip_set (map (clip_message pub cid data) ([] @ [0])) d =
      Some (d1, [SetClipboard data, SendBack dev (Signal0\<lparr>sg_Type := ''clip-ack'', sg_ID := cid\<rparr>)])"
      "map_of (dm_clips d1) (clip_key dev cid) = None" "dm_store d1 = dm_store d" by blast
  have "deviceByRNS pub d1 = Some dev" using assms(1) d1(3) by (simp add: deviceByRNS_def)
  from once [OF this d1(2)] d1(1) show ?thesis
    using rnsInbox_append [of mem clip_set "[clip_message pub cid data 0]" "[clip_message pub cid data 0]" d] by auto
qed

definition hub_daemon :: daemon where
  "hub_daemon = demo_daemon\<lparr>dm_store := dm_store demo_daemon\<lparr>st_devices :=
     [Device0\<lparr>d_Name := ''phone'', d_Fingerprint := ''f1'', d_RNS := hex_encode (nd_pub demo_node)\<rparr>]\<rparr>\<rparr>"

lemma hub_device: "deviceByRNS (nd_pub demo_node) hub_daemon =
    Some (Device0\<lparr>d_Name := ''phone'', d_Fingerprint := ''f1'', d_RNS := hex_encode (nd_pub demo_node)\<rparr>)"
  by (simp add: deviceByRNS_def hub_daemon_def)


section \<open>Sizes\<close>

lemma json_body_plain: "list_all (\<lambda>c. cv c < 128 \<and> json_esc c = [c]) s \<Longrightarrow> json_body s = s"
  by (induction s) (simp_all add: json_body_ascii json_body.simps [of "[]"])

lemma json_body_b64: "json_body (b64_encode StdEncoding s) = b64_encode StdEncoding s"
  using b64_alphabet [OF b64_ok_encodings(2), of s] b64_std_plain by (intro json_body_plain) (auto simp: list_all_iff)

lemma length_show_int_small: "0 \<le> i \<Longrightarrow> i < 100 \<Longrightarrow> length (show_int i) \<le> 2"
  by (auto simp: show_int_def show_nat.simps [of "nat i"] show_nat.simps [of "nat i div 10"])

lemma length_clip_data: "length (b64_encode StdEncoding (clip_part data n)) \<le> 184"
proof -
  have "length (clip_part data n) \<le> 138" by (simp add: clip_part_eq)
  then have "(length (clip_part data n) + 2) div 3 \<le> 140 div 3" by (intro div_le_mono) simp
  then show ?thesis unfolding length_b64_std by simp
qed

lemma hex_plain: "list_all (\<lambda>c. cv c < 128 \<and> json_esc c = [c]) (hex_encode b)"
proof -
  have "b64_class StdEncoding (hex_digit d)" if "d < 16" for d
    using that by (simp add: b64_class_def char_class_defs hex_digit_def)
  moreover have "cv a div 16 < 16" for a using of_char_lt [of a] by (simp add: div_less_iff_less_mult)
  ultimately have "list_all (b64_class StdEncoding) (hex_encode b)"
    by (induction b) simp_all
  then show ?thesis using b64_std_plain by (auto simp: list_all_iff)
qed

text \<open>The exact size of an object of plain members.\<close>

definition plain :: "string \<Rightarrow> bool" where
  "plain s \<longleftrightarrow> json_body s = s"

lemma length_quote_plain: "plain s \<Longrightarrow> length (json_quote s) = length s + 2"
  by (simp add: json_quote_def plain_def)

lemma length_go_join: "xs \<noteq> [] \<Longrightarrow> length (go_join '','' xs) + 1 = sum_list (map (\<lambda>x. length x + 1) xs)"
proof (induction xs)
  case (Cons x xs)
  then show ?case by (cases "xs = []") (simp_all add: go_join_Cons)
qed simp

definition obj_size :: "(string \<times> json) list \<Rightarrow> nat" where
  "obj_size ms = sum_list (map (\<lambda>m. length (json_quote (fst m)) + length (json_print (snd m)) + 2) ms)"

lemma obj_size_simps:
  "obj_size [] = 0" "obj_size (ms @ ns) = obj_size ms + obj_size ns"
  "obj_size ((k, v) # ms) = length (json_quote k) + length (json_print v) + 2 + obj_size ms"
  by (simp_all add: obj_size_def length_quote_plain)

lemma obj_size_opts:
  "plain k \<Longrightarrow> plain s \<Longrightarrow> obj_size (opt_str k s) \<le> length k + length s + 6"
  "plain k \<Longrightarrow> obj_size (opt_int k i) \<le> length k + length (show_int i) + 4"
  by (simp_all add: opt_str_def opt_int_def obj_size_simps length_quote_plain)

lemma length_obj: "ms \<noteq> [] \<Longrightarrow> length (json_print (JObj ms)) = obj_size ms + 1"
proof -
  assume "ms \<noteq> []"
  then have "length (go_join '','' (map (\<lambda>(k, v). json_quote k @ '':'' @ json_print v) ms)) + 1 = obj_size ms"
    using length_go_join [of "map (\<lambda>(k, v). json_quote k @ '':'' @ json_print v) ms"]
    by (simp add: obj_size_def comp_def case_prod_beta)
  then show ?thesis by simp
qed

lemma plain_words: "plain ''t''" "plain ''id''" "plain ''n''" "plain ''of''" "plain ''d''" "plain ''clip''"
  unfolding plain_def by (rule json_body_plain, simp add: json_esc_def)+

lemma clip_signal_size:
  assumes "length data \<le> 4096" "n < clip_count data" "length cid = 8"
  shows "length (marshal_signal (clip_signal (hex_encode cid) data n)) \<le> 242"
proof -
  have c: "clip_count data \<le> 30" by (rule clip_count_props(3) [OF assms(1)])
  let ?d = "b64_encode StdEncoding (clip_part data n)"
  have "obj_size (opt_str ''id'' (hex_encode cid)) \<le> 24"
    using obj_size_opts(1) [of "''id''" "hex_encode cid"] plain_words json_body_plain [OF hex_plain] assms(3) by (simp add: plain_def)
  moreover have "obj_size (opt_int ''n'' (int n)) \<le> 7" "obj_size (opt_int ''of'' (int (clip_count data))) \<le> 8"
    using obj_size_opts(2) [of "''n''" "int n"] obj_size_opts(2) [of "''of''" "int (clip_count data)"] plain_words
      length_show_int_small [of "int n"] length_show_int_small [of "int (clip_count data)"] assms(2) c by simp_all
  moreover have "obj_size (opt_str ''d'' ?d) \<le> 191"
    using obj_size_opts(1) [of "''d''" ?d] plain_words length_clip_data [of data n] json_body_b64 by (simp add: plain_def)
  ultimately show ?thesis
    unfolding marshal_signal_def signal_json_def using plain_words
    by (subst length_obj) (simp_all add: clip_signal_def Signal0_def obj_size_simps opt_str_def [of _ "[]"] length_quote_plain)
qed

text \<open>
  Property C38. Every signal of a clipboard sent through the hubs is at most 242 bytes of JSON, so with
  the library's packet size of 383 bytes it fits \<^verbatim>\<open>MaxMessage\<close> and is never refused for its size.
\<close>

theorem clip_signal_fits:
  assumes "length data \<le> 4096" and "s \<in> set (clip_signals (hex_encode cid) data)" and "length cid = 8"
    and "383 \<le> lib_EncryptedMDU lib"
  shows "length (marshal_signal s) \<le> 242 \<and> node_Send lib now paths pok peer (marshal_signal s) nd \<noteq>
    Inl (RnsTooLong (int (length (marshal_signal s))) (MaxMessage lib))"
proof -
  obtain n where n: "n < clip_count data" and s: "s = clip_signal (hex_encode cid) data n"
    using assms(2) by (auto simp: clip_signals_def)
  have l: "length (marshal_signal s) \<le> 242" unfolding s by (rule clip_signal_size [OF assms(1) n assms(3)])
  moreover have "\<not> MaxMessage lib < int (length (marshal_signal s))"
    using l assms(4) by (simp add: MaxMessage_def pubLen_def sigLen_def)
  moreover have "snd (waitPath hubs i paths) \<noteq> Some (RnsTooLong a b)" for hubs i a b
    by (induction paths arbitrary: i) (simp_all add: Let_def case_prod_beta)
  ultimately show ?thesis
    by (auto simp: node_Send_def AddressOf_def split: sum.splits option.splits)
qed

lemma clip_signal_fits_witness:
  "length (marshal_signal (clip_signal (hex_encode ''12345678'') ''hi'' 0)) \<le> 242"
proof -
  have "clip_signal (hex_encode ''12345678'') ''hi'' 0 \<in> set (clip_signals (hex_encode ''12345678'') ''hi'')"
    by (simp add: clip_signals_def clip_count_def)
  from clip_signal_fits [OF _ this, of demo_lib] show ?thesis by (simp add: demo_lib_def)
qed

section \<open>A signal that stops the daemon\<close>

definition huge_clip :: signal where
  "huge_clip = Signal0\<lparr>sg_Type := ''clip'', sg_N := 0, sg_Of := 2 ^ 62\<rparr>"

text \<open>
  Property C39. The check of a part's count multiplies before it compares, and the product wraps: a
  paired device that announces 2 to the power 62 parts passes it, and \<^verbatim>\<open>make\<close> of that many slices
  panics (no slice of that length can be made), which ends the daemon.
\<close>

theorem huge_clip_panics:
  assumes "deviceByRNS pub d = Some dev" and "map_of (dm_clips d) (clip_key dev []) = None" and "mem < 2 ^ 62"
  shows "on_message mem clip_set \<lparr>m_From = pub, m_Body = marshal_signal huge_clip\<rparr> d = None"
proof -
  have "signal_ok huge_clip" by (simp add: signal_ok_def huge_clip_def Signal0_def utf8_valid_ascii int64_def)
  then have u: "unmarshal_signal (marshal_signal huge_clip) = Some huge_clip" by (rule unmarshal_marshal_signal)
  have f: "sg_Type huge_clip = ''clip''" "sg_ID huge_clip = []" "sg_Of huge_clip = 2 ^ 62" "sg_N huge_clip = 0" "sg_Data huge_clip = []"
    by (simp_all add: huge_clip_def Signal0_def)
  have "wrap64 (2 ^ 62 * hubClipPart) = - (2 ^ 63)" by (simp add: wrap64_def hubClipPart_def)
  then have c: "\<not> (sg_Of huge_clip \<le> 0 \<or> wrap64 (sg_Of huge_clip * hubClipPart) > hubClipMax + hubClipPart \<or>
      sg_N huge_clip < 0 \<or> sg_N huge_clip \<ge> sg_Of huge_clip)"
    by (simp add: f hubClipMax_def hubClipPart_def)
  have "b64_decode StdEncoding (sg_Data huge_clip) = Some []" by (simp add: f b64_decode_def)
  note pass = receiveClipPart_pass [OF c this]
  have "clip_parts_for mem (2 ^ 62) (clip_key dev []) (kickQueue d) = None"
    using assms(2,3) by (simp add: clip_parts_for_def kickQueue_def)
  then have "receiveClipPart mem clip_set dev huge_clip (kickQueue d) = None"
    by (subst pass) (simp_all add: f hubClipPart_def)
  then show ?thesis by (simp add: on_message_def assms(1) u f Let_def)
qed

lemma huge_clip_panics_witness:
  "on_message (2 ^ 48) (\<lambda>_. True) \<lparr>m_From = nd_pub demo_node, m_Body = marshal_signal huge_clip\<rparr> hub_daemon = None"
  by (rule huge_clip_panics [OF hub_device]) (simp_all add: hub_daemon_def demo_daemon_def)

end
