(* ===== verification/Queue.thy ===== *)
theory Queue
  imports Signals
begin

text \<open>
  Sends that wait for a channel, \<^verbatim>\<open>internal/daemon/queue.go\<close>: the file \<^verbatim>\<open>queue.json\<close>, the operations
  on it, retrying, and the two entry points that send now or queue. An \<^verbatim>\<open>Added\<close> time is its RFC 3339
  text. An empty queue is written as \<^verbatim>\<open>[]\<close> here; the program writes \<^verbatim>\<open>null\<close> for a nil slice, which
  is read back the same.
\<close>

section \<open>The file\<close>

record queued =
  q_ID :: string
  q_Peer :: string
  q_Name :: string
  q_Paths :: "string list"
  q_Clip :: "bytes option"
  q_Added :: string
  q_Reason :: string
  q_Tries :: int

definition queued0 :: queued where
  "queued0 = \<lparr>q_ID = [], q_Peer = [], q_Name = [], q_Paths = [], q_Clip = None, q_Added = time_zero, q_Reason = [], q_Tries = 0\<rparr>"

definition queued_json :: "queued \<Rightarrow> json" where
  "queued_json q = JObj
     ([(''id'', JStr (q_ID q)), (''peer'', JStr (q_Peer q)), (''name'', JStr (q_Name q))]
      @ (if q_Paths q = [] then [] else [(''paths'', JArr (map JStr (q_Paths q)))])
      @ (case q_Clip q of None \<Rightarrow> [] | Some [] \<Rightarrow> [] | Some b \<Rightarrow> [(''clip'', JStr (b64_encode StdEncoding b))])
      @ [(''added'', JStr (q_Added q)), (''reason'', JStr (q_Reason q)), (''tries'', JNum (show_int (q_Tries q)))])"

text \<open>
  \<^verbatim>\<open>json.Unmarshal\<close> whose error is ignored: a value of another type is skipped and the rest decoded;
  a time that does not parse ends the decoding where it is. A setter returns the new value and
  whether decoding ends.
\<close>

type_synonym 'a lax_fields = "(string \<times> (json \<Rightarrow> 'a \<Rightarrow> 'a \<times> bool)) list"

definition lax :: "(json \<Rightarrow> 'a \<Rightarrow> 'a option) \<Rightarrow> json \<Rightarrow> 'a \<Rightarrow> 'a \<times> bool" where
  "lax f v x = (case f v x of None \<Rightarrow> (x, False) | Some y \<Rightarrow> (y, False))"

definition or_end :: "(json \<Rightarrow> 'a \<Rightarrow> 'a option) \<Rightarrow> json \<Rightarrow> 'a \<Rightarrow> 'a \<times> bool" where
  "or_end f v x = (case f v x of None \<Rightarrow> (x, True) | Some y \<Rightarrow> (y, False))"

fun lax_members :: "'a lax_fields \<Rightarrow> (string \<times> json) list \<Rightarrow> 'a \<Rightarrow> 'a \<times> bool" where
  "lax_members fs [] x = (x, False)"
| "lax_members fs ((k, v) # ms) x = (case map_of fs (fold_key k) of
     None \<Rightarrow> lax_members fs ms x
   | Some f \<Rightarrow> (case f v x of (y, stop) \<Rightarrow> if stop then (y, True) else lax_members fs ms y))"

fun lax_list :: "'a lax_fields \<Rightarrow> 'a \<Rightarrow> json list \<Rightarrow> 'a list" where
  "lax_list fs zero [] = []"
| "lax_list fs zero (v # vs) =
     (case (case v of JObj ms \<Rightarrow> lax_members fs ms zero | _ \<Rightarrow> (zero, False)) of
        (y, stop) \<Rightarrow> if stop then [y] else y # lax_list fs zero vs)"

fun lax_strings :: "json list \<Rightarrow> string list \<Rightarrow> string list" where
  "lax_strings [] old = []"
| "lax_strings (v # vs) old =
     (case v of JStr s \<Rightarrow> s | _ \<Rightarrow> (case old of [] \<Rightarrow> [] | o1 # _ \<Rightarrow> o1)) # lax_strings vs (tl old)"

definition set_paths :: "json \<Rightarrow> queued \<Rightarrow> queued option" where
  "set_paths v q = (case v of
     JNull \<Rightarrow> Some (q\<lparr>q_Paths := []\<rparr>) | JArr vs \<Rightarrow> Some (q\<lparr>q_Paths := lax_strings vs (q_Paths q)\<rparr>) | _ \<Rightarrow> None)"

definition set_clip :: "json \<Rightarrow> queued \<Rightarrow> queued option" where
  "set_clip v q = (case v of
     JNull \<Rightarrow> Some (q\<lparr>q_Clip := None\<rparr>)
   | JStr s \<Rightarrow> map_option (\<lambda>b. q\<lparr>q_Clip := Some b\<rparr>) (b64_decode StdEncoding s)
   | _ \<Rightarrow> None)"

definition queued_fields :: "queued lax_fields" where
  "queued_fields =
     [(''id'', lax (set_str (\<lambda>s q. q\<lparr>q_ID := s\<rparr>))), (''peer'', lax (set_str (\<lambda>s q. q\<lparr>q_Peer := s\<rparr>))),
      (''name'', lax (set_str (\<lambda>s q. q\<lparr>q_Name := s\<rparr>))), (''paths'', lax set_paths), (''clip'', lax set_clip),
      (''added'', or_end (set_time (\<lambda>s q. q\<lparr>q_Added := s\<rparr>))), (''reason'', lax (set_str (\<lambda>s q. q\<lparr>q_Reason := s\<rparr>))),
      (''tries'', lax (set_int (\<lambda>i q. q\<lparr>q_Tries := i\<rparr>)))]"

text \<open>The queue a file stands for, and \<^verbatim>\<open>loadQueue\<close>: a file that cannot be read (\<^term>\<open>rok\<close>) is an empty queue.\<close>

definition queue_of :: "daemon \<Rightarrow> queued list" where
  "queue_of d = (case dm_queueFile d of
     None \<Rightarrow> []
   | Some raw \<Rightarrow> (case json_unmarshal raw of Some (JArr vs) \<Rightarrow> lax_list queued_fields queued0 vs | _ \<Rightarrow> []))"

definition loadQueue :: "bool \<Rightarrow> daemon \<Rightarrow> queued list" where
  "loadQueue rok d = (if rok then queue_of d else [])"

text \<open>The file is written beside and renamed, so a failure keeps the old one.\<close>

definition saveQueueLocked :: "bool \<Rightarrow> queued list \<Rightarrow> daemon \<Rightarrow> daemon" where
  "saveQueueLocked wok q d =
     (if wok then d\<lparr>dm_queueFile := Some (MarshalIndent (JArr (map queued_json q)))\<rparr> else d)"

section \<open>Operations\<close>

definition enqueue :: "bool \<Rightarrow> bool \<Rightarrow> bytes \<Rightarrow> string \<Rightarrow> queued \<Rightarrow> daemon \<Rightarrow> queued \<times> daemon" where
  "enqueue rok wok idb now item d =
     (let it = item\<lparr>q_ID := hex_encode idb, q_Added := now\<rparr> in (it, saveQueueLocked wok (loadQueue rok d @ [it]) d))"

record queueItem =
  qi_ID :: string
  qi_Peer :: string
  qi_What :: string
  qi_Paths :: "string list"
  qi_Added :: string
  qi_Reason :: string
  qi_Tries :: int

text \<open>Formatting a time as RFC 3339 without fractional seconds.\<close>

definition format_rfc3339 :: "string \<Rightarrow> string" where
  "format_rfc3339 t = take 19 t @ (case drop 19 t of
     c # z \<Rightarrow> if c = CHR ''.'' then dropWhile is_digit z else c # z | [] \<Rightarrow> [])"

definition Queue :: "bool \<Rightarrow> daemon \<Rightarrow> queueItem list" where
  "Queue rok d = map (\<lambda>it. \<lparr>qi_ID = q_ID it, qi_Peer = q_Name it,
     qi_What = (case q_Clip it of Some b \<Rightarrow> ''clipboard ('' @ show_nat (length b) @ '' bytes)''
                | None \<Rightarrow> show_nat (length (q_Paths it)) @ '' file(s)''),
     qi_Paths = q_Paths it, qi_Added = format_rfc3339 (q_Added it), qi_Reason = q_Reason it, qi_Tries = q_Tries it\<rparr>) (loadQueue rok d)"

text \<open>Removing the first item with an identifier.\<close>

fun remove_id :: "string \<Rightarrow> queued list \<Rightarrow> queued list" where
  "remove_id i [] = []"
| "remove_id i (q # qs) = (if q_ID q = i then qs else q # remove_id i qs)"

definition Unqueue :: "bool \<Rightarrow> bool \<Rightarrow> string \<Rightarrow> daemon \<Rightarrow> bool \<times> daemon" where
  "Unqueue rok wok i d =
     (let q = loadQueue rok d in
      if i \<in> q_ID ` set q then (True, saveQueueLocked wok (remove_id i q) d) else (False, d))"

definition waitReason :: "daemon \<Rightarrow> device \<Rightarrow> string \<Rightarrow> string" where
  "waitReason d dev err =
     (if dm_rnsKey d = [] \<or> d_RNS dev = [] then
        d_Name dev @ '' cannot be reached now; it goes when '' @ d_Name dev @ '' is back on this network. Last error: '' @ err
      else
        d_Name dev @ '' is outside this network and no direct channel came up (both sides are probably behind strict NATs, '' @
        ''e.g. two phones on mobile data); it goes as soon as one of them is reachable, for example on Wi-Fi. Last error: '' @ err)"

section \<open>Retrying\<close>

datatype outcome = Sent | NotReached device string | Failed string

definition outcome_of :: "(sending_error \<Rightarrow> string) \<Rightarrow> sending_error option \<Rightarrow> outcome" where
  "outcome_of err_text err = (case err of
     None \<Rightarrow> Sent
   | Some (DialErr (UnreachableError dev msg)) \<Rightarrow> NotReached dev msg
   | Some e \<Rightarrow> Failed (err_text e))"

text \<open>What the locked block of \<^verbatim>\<open>retryQueue\<close> does to the queue, and the event it sends.\<close>

definition settle_queue :: "daemon \<Rightarrow> queued \<Rightarrow> outcome \<Rightarrow> queued list \<Rightarrow> queued list" where
  "settle_queue d it out cur = (case out of
     NotReached dev msg \<Rightarrow> update_first (\<lambda>q. q_ID q = q_ID it)
       (\<lambda>q. q\<lparr>q_Tries := wrap64 (q_Tries q + 1), q_Reason := waitReason d dev msg\<rparr>) cur
   | _ \<Rightarrow> remove_id (q_ID it) cur)"

definition settle_events :: "queued \<Rightarrow> outcome \<Rightarrow> queued list \<Rightarrow> event list" where
  "settle_events it out cur = (if q_ID it \<notin> q_ID ` set cur then [] else case out of
     Sent \<Rightarrow> [Event0\<lparr>ev_Kind := ''queue-sent'', ev_Peer := q_Name it, ev_Count := int (length (q_Paths it))\<rparr>]
   | NotReached _ _ \<Rightarrow> []
   | Failed e \<Rightarrow> [Event0\<lparr>ev_Kind := ''queue-error'', ev_Peer := q_Name it, ev_Err := e\<rparr>])"

definition settle :: "bool \<Rightarrow> bool \<Rightarrow> queued \<Rightarrow> outcome \<Rightarrow> daemon \<Rightarrow> daemon" where
  "settle rok wok it out d =
     (let cur = loadQueue rok d in
      saveQueueLocked wok (settle_queue d it out cur) (fold broadcast (settle_events it out cur) d))"

text \<open>
  What a retry of one item meets: the network, the files, other goroutines while it sends, and
  whether the queue can be read and written.
\<close>

record retry_env =
  re_dial :: dial_env
  re_os :: os_env
  re_src :: "string \<Rightarrow> bytes option"
  re_lstat :: "string \<Rightarrow> tree option"
  re_others :: "daemon \<Rightarrow> daemon"
  re_text :: "sending_error \<Rightarrow> string"
  re_rok :: bool
  re_wok :: bool

definition attempt :: "retry_env \<Rightarrow> queued \<Rightarrow> daemon \<Rightarrow> outcome \<times> daemon" where
  "attempt re it d =
     (let (err, _, d1) =
        (case q_Clip it of
           Some b \<Rightarrow> SendClipboard (re_dial re) (q_Peer it) b ''text/plain'' d
         | None \<Rightarrow> SendFiles (re_dial re) (re_os re) (re_src re) (q_Peer it) (map (\<lambda>p. (p, re_lstat re p)) (q_Paths it)) d) in
      (outcome_of (re_text re) err, re_others re d1))"

fun retry_items :: "retry_env list \<Rightarrow> queued list \<Rightarrow> daemon \<Rightarrow> daemon" where
  "retry_items (re # res) (it # its) d =
     (let (out, d1) = attempt re it d in retry_items res its (settle (re_rok re) (re_wok re) it out d1))"
| "retry_items _ _ d = d"

text \<open>\<^verbatim>\<open>retryQueue\<close>; it stops early when the context ends, which is the end of the environments.\<close>

definition retryQueue :: "bool \<Rightarrow> retry_env list \<Rightarrow> daemon \<Rightarrow> daemon" where
  "retryQueue rok res d = retry_items res (loadQueue rok d) d"

section \<open>Send now or queue\<close>

definition queueable :: "daemon \<Rightarrow> sending_error option \<Rightarrow> (device \<times> string) option" where
  "queueable d err = (case err of
     Some (DialErr (UnreachableError dev msg)) \<Rightarrow>
       if dm_queueAll d \<or> (dm_rnsKey d \<noteq> [] \<and> d_RNS dev \<noteq> []) then Some (dev, msg) else None
   | _ \<Rightarrow> None)"

text \<open>The reason when queued, else the error of the send; what was written to the peer; the daemon.\<close>

definition SendFilesOrQueue ::
  "retry_env \<Rightarrow> bytes \<Rightarrow> string \<Rightarrow> string \<Rightarrow> string list \<Rightarrow> daemon \<Rightarrow> (string + sending_error option) \<times> bytes \<times> daemon" where
  "SendFilesOrQueue re idb now target paths d =
     (case SendFiles (re_dial re) (re_os re) (re_src re) target (map (\<lambda>p. (p, re_lstat re p)) paths) d of
        (err, out, d1) \<Rightarrow>
          (case queueable d1 err of
             None \<Rightarrow> (Inr err, out, d1)
           | Some (dev, msg) \<Rightarrow>
               (let (it, d2) = enqueue (re_rok re) (re_wok re) idb now (queued0\<lparr>q_Peer := d_Fingerprint dev, q_Name := d_Name dev,
                      q_Paths := paths, q_Reason := waitReason d1 dev msg\<rparr>) d1 in
                (Inl (q_Reason it), out, d2))))"

datatype clip_result = ClipSent | ClipThroughHubs | ClipQueued string | ClipError "sending_error option"

text \<open>What the hubs contribute: this device's node, paths and packets per signal, and the acknowledgement.\<close>

record hub_env =
  he_lib :: rns_lib
  he_now :: int
  he_paths :: "signal \<Rightarrow> bool list"
  he_pok :: "signal \<Rightarrow> bool"
  he_node :: "node option"
  he_acked :: "daemon \<Rightarrow> bool"
  he_id :: bytes

definition hub_send :: "hub_env \<Rightarrow> device \<Rightarrow> daemon \<Rightarrow> signal \<Rightarrow> signal_error option" where
  "hub_send he dev d s =
     (case sendSignal (he_lib he) (he_now he) (he_paths he s) (he_pok he s) (he_node he) (d_Fingerprint dev) s d of
        Inl e \<Rightarrow> Some e | Inr _ \<Rightarrow> None)"

definition SendClipboardAnywhere ::
  "retry_env \<Rightarrow> hub_env \<Rightarrow> bytes \<Rightarrow> string \<Rightarrow> string \<Rightarrow> bytes \<Rightarrow> string \<Rightarrow> daemon \<Rightarrow> clip_result \<times> bytes \<times> daemon" where
  "SendClipboardAnywhere re he idb now target data mime d =
     (case SendClipboard (re_dial re) target data mime d of
        (None, out, d1) \<Rightarrow> (ClipSent, out, d1)
      | (err, out, d1) \<Rightarrow>
          (case queueable d1 err of
             None \<Rightarrow> (ClipError err, out, d1)
           | Some (dev, msg) \<Rightarrow>
               (let (herr, d2) =
                  (if int (length data) \<le> hubClipMax \<and> (mime = [] \<or> mime = ''text/plain'')
                   then sendClipOverHubs (hub_send he dev d1) (he_acked he) (hex_encode (he_id he)) data d1
                   else (Some NoAck, d1)) in
                if herr = None
                then (ClipThroughHubs, out, d2\<lparr>dm_store := SetLastPeer (re_wok re) (d_Fingerprint dev) (dm_store d2)\<rparr>)
                else
                  (let (it, d3) = enqueue (re_rok re) (re_wok re) idb now (queued0\<lparr>q_Peer := d_Fingerprint dev, q_Name := d_Name dev,
                         q_Clip := Some data, q_Reason := waitReason d2 dev msg\<rparr>) d2 in
                   (ClipQueued (q_Reason it), out, d3)))))"

section \<open>Laws of the file\<close>

text \<open>
  A list kept in a file that is replaced as a whole: what was saved is what is loaded, and a failed
  save leaves the old list. Every client operation loads, changes the list and saves.
\<close>

locale saved_list =
  fixes load :: "'s \<Rightarrow> 'a list"
    and save :: "bool \<Rightarrow> 'a list \<Rightarrow> 's \<Rightarrow> 's"
    and ok :: "'a \<Rightarrow> bool"
  assumes load_save: "list_all ok q \<Longrightarrow> load (save True q s) = q"
    and save_failed: "save False q s = s"
begin

lemma load_saved: "list_all ok q \<Longrightarrow> load (save w q s) = (if w then q else load s)"
  by (cases w) (simp_all add: load_save save_failed)

text \<open>What holds of the old and of the new list holds after the save, whether it succeeds or not.\<close>

lemma save_keeps:
  "list_all ok (load s) \<Longrightarrow> P (load s) \<Longrightarrow> list_all ok q \<Longrightarrow> P q \<Longrightarrow>
   list_all ok (load (save w q s)) \<and> P (load (save w q s))"
  by (simp add: load_saved)

end

text \<open>Items that survive the encoding: valid UTF-8, a real time, and a clipboard that is not empty.\<close>

definition queued_ok :: "queued \<Rightarrow> bool" where
  "queued_ok q \<longleftrightarrow> list_all utf8_valid ([q_ID q, q_Peer q, q_Name q, q_Added q, q_Reason q] @ q_Paths q) \<and>
     rfc3339_ok (q_Added q) \<and> int64 (q_Tries q) \<and> q_Clip q \<noteq> Some []"

lemma queued_lookup:
  "map_of queued_fields (fold_key ''id'') = Some (lax (set_str (\<lambda>s q. q\<lparr>q_ID := s\<rparr>)))"
  "map_of queued_fields (fold_key ''peer'') = Some (lax (set_str (\<lambda>s q. q\<lparr>q_Peer := s\<rparr>)))"
  "map_of queued_fields (fold_key ''name'') = Some (lax (set_str (\<lambda>s q. q\<lparr>q_Name := s\<rparr>)))"
  "map_of queued_fields (fold_key ''paths'') = Some (lax set_paths)"
  "map_of queued_fields (fold_key ''clip'') = Some (lax set_clip)"
  "map_of queued_fields (fold_key ''added'') = Some (or_end (set_time (\<lambda>s q. q\<lparr>q_Added := s\<rparr>)))"
  "map_of queued_fields (fold_key ''reason'') = Some (lax (set_str (\<lambda>s q. q\<lparr>q_Reason := s\<rparr>)))"
  "map_of queued_fields (fold_key ''tries'') = Some (lax (set_int (\<lambda>i q. q\<lparr>q_Tries := i\<rparr>)))"
  by (simp_all add: queued_fields_def key_lookup)

lemma lax_strings_map [simp]: "lax_strings (map JStr ps) old = ps"
  by (induction ps arbitrary: old) simp_all

lemma lax_queued:
  assumes "queued_ok q" "queued_json q = JObj ms"
  shows "lax_members queued_fields ms queued0 = (q, False)"
proof -
  have t: "rfc3339_ok (q_Added q)" "int64 (q_Tries q)" "q_Clip q \<noteq> Some []" using assms(1) by (simp_all add: queued_ok_def)
  note steps = lax_def or_end_def set_str_def set_int_def set_time_def set_paths_def set_clip_def int_of_show_int queued_lookup
  show ?thesis
  proof (cases "q_Clip q")
    case None
    with t show ?thesis using assms(2)
      by (cases "q_Paths q = []") (auto simp: queued_json_def steps queued0_def)
  next
    case (Some b)
    then obtain c b' where "b = c # b'" using t(3) by (cases b) auto
    with t Some show ?thesis using assms(2)
      by (cases "q_Paths q = []") (auto simp: queued_json_def steps queued0_def b64_decode_encode)
  qed
qed

lemma lax_list_queued: "list_all queued_ok qs \<Longrightarrow> lax_list queued_fields queued0 (map queued_json qs) = qs"
proof (induction qs)
  case (Cons q qs)
  obtain ms where ms: "queued_json q = JObj ms" by (simp add: queued_json_def)
  with Cons show ?case by (simp add: lax_queued [OF _ ms])
qed simp

lemma json_ok_queued: "queued_ok q \<Longrightarrow> json_ok (queued_json q)"
  by (auto simp: queued_ok_def queued_json_def utf8_valid_ascii b64_std_ascii list_all_iff split: option.splits list.splits)

interpretation queue_file: saved_list queue_of saveQueueLocked queued_ok
proof
  fix q :: "queued list" and d :: daemon
  assume ok: "list_all queued_ok q"
  then have "json_ok (JArr (map queued_json q))" by (simp add: list_all_iff json_ok_queued)
  then show "queue_of (saveQueueLocked True q d) = q"
    by (simp add: queue_of_def saveQueueLocked_def json_unmarshal_indent lax_list_queued ok)
qed (simp add: saveQueueLocked_def)

section \<open>What happens to a queued send\<close>

lemma utf8_append: "utf8_valid a \<Longrightarrow> utf8_valid b \<Longrightarrow> utf8_valid (a @ b)"
proof (induction a rule: utf8_valid.induct)
  case (1 a)
  show ?case
  proof (cases "a = []")
    case False
    with "1.prems"(1) have l: "rune_len a \<noteq> 0" and v: "utf8_valid (drop (rune_len a) a)"
      by (subst (asm) utf8_valid.simps, simp split: if_splits)+
    have "rune_len (a @ b) = rune_len a"
      using rune_len_take [of a "drop (rune_len a) a @ b"] l by (metis append_assoc append_take_drop_id neq0_conv)
    moreover have "utf8_valid (drop (rune_len a) a @ b)" using "1.IH" [OF False l v "1.prems"(2)] .
    ultimately show ?thesis using False l rune_len_le [of a] by (subst utf8_valid.simps) simp
  qed (use "1.prems" in simp)
qed

lemma utf8_waitReason: "utf8_valid (d_Name dev) \<Longrightarrow> utf8_valid msg \<Longrightarrow> utf8_valid (waitReason d dev msg)"
  unfolding waitReason_def
  by (cases "dm_rnsKey d = [] \<or> d_RNS dev = []", simp_all only: if_True if_False)
    (intro utf8_append; (assumption | rule utf8_valid_ascii, simp))+

text \<open>The operations on the queue, each with whether its read and its write succeed.\<close>

datatype queue_op = Enqueue bytes string queued | Unqueued string | Settled queued outcome

fun run_queue_op :: "bool \<times> bool \<times> queue_op \<Rightarrow> daemon \<Rightarrow> daemon" where
  "run_queue_op (r, w, Enqueue idb now item) d = snd (enqueue r w idb now item d)"
| "run_queue_op (r, w, Unqueued i) d = snd (Unqueue r w i d)"
| "run_queue_op (r, w, Settled it out) d = settle r w it out d"

fun queue_op_ok :: "bool \<times> bool \<times> queue_op \<Rightarrow> bool" where
  "queue_op_ok (r, w, Enqueue idb now item) = queued_ok (item\<lparr>q_ID := hex_encode idb, q_Added := now\<rparr>)"
| "queue_op_ok (r, w, Unqueued i) = True"
| "queue_op_ok (r, w, Settled it out) =
     (case out of NotReached dev msg \<Rightarrow> utf8_valid (d_Name dev) \<and> utf8_valid msg | _ \<Rightarrow> True)"

text \<open>
  The operations that may take an item away: the user drops it, a send of it ended, or the file could
  not be read and was then written over.
\<close>

fun takes_away :: "string \<Rightarrow> bool \<times> bool \<times> queue_op \<Rightarrow> bool" where
  "takes_away i (r, w, Enqueue idb now item) = (\<not> r \<and> w)"
| "takes_away i (r, w, Unqueued j) = (i = j)"
| "takes_away i (r, w, Settled it out) =
     (\<not> r \<and> w \<or> i = q_ID it \<and> (case out of NotReached _ _ \<Rightarrow> False | _ \<Rightarrow> True))"

definition same_send :: "queued \<Rightarrow> queued \<Rightarrow> bool" where
  "same_send a b \<longleftrightarrow> q_ID a = q_ID b \<and> q_Peer a = q_Peer b \<and> q_Name a = q_Name b \<and> q_Paths a = q_Paths b \<and>
     q_Clip a = q_Clip b \<and> q_Added a = q_Added b"

definition holds_send :: "queued \<Rightarrow> queued list \<Rightarrow> bool" where
  "holds_send it q \<longleftrightarrow> list_ex (same_send it) q"

lemma holds_send_append: "holds_send it q \<Longrightarrow> holds_send it (q @ r)"
  by (auto simp: holds_send_def)

lemma remove_id_ok: "list_all P q \<Longrightarrow> list_all P (remove_id i q)"
  by (induction q) auto

lemma remove_id_other: "holds_send it q \<Longrightarrow> i \<noteq> q_ID it \<Longrightarrow> holds_send it (remove_id i q)"
  by (induction q) (auto simp: holds_send_def same_send_def)

lemma update_first_holds:
  "holds_send it q \<Longrightarrow> (\<And>x. same_send it x \<Longrightarrow> same_send it (f x)) \<Longrightarrow> holds_send it (update_first P f q)"
  by (induction q) (auto simp: holds_send_def)

lemma settle_queue_ok:
  assumes "list_all queued_ok q" "queue_op_ok (r, w, Settled it out)"
  shows "list_all queued_ok (settle_queue d it out q)"
  using assms by (auto simp: settle_queue_def remove_id_ok queued_ok_def wrap64_range utf8_waitReason
      intro!: list_all_update_first split: outcome.splits)

lemma settle_queue_holds:
  assumes "holds_send it q" "\<not> takes_away (q_ID it) (r, w, Settled it' out)"
  shows "holds_send it (settle_queue d it' out q)"
  using assms by (auto simp: settle_queue_def same_send_def intro!: remove_id_other update_first_holds split: outcome.splits)

lemma queue_of_broadcast [simp]: "queue_of (fold broadcast es d) = queue_of d"
proof -
  have "dm_queueFile (fold broadcast es d) = dm_queueFile d"
    by (induction es arbitrary: d) (simp_all add: broadcast_def)
  then show ?thesis by (simp add: queue_of_def)
qed

lemmas queue_saved = queue_file.save_keeps [where P = "holds_send it" for it]

text \<open>An unread file is kept only when the write fails too.\<close>

lemma queue_resaved:
  assumes "list_all queued_ok (queue_of d)" "holds_send it (queue_of d)" "r \<or> \<not> w"
    and "r \<Longrightarrow> list_all queued_ok q \<and> holds_send it q"
  shows "list_all queued_ok (queue_of (saveQueueLocked w q d)) \<and> holds_send it (queue_of (saveQueueLocked w q d))"
proof (cases r)
  case True
  then show ?thesis using assms(4) queue_saved [OF assms(1,2)] by blast
next
  case False
  then show ?thesis using assms(1-3) by (simp add: queue_file.save_failed)
qed

lemma queue_step_keeps:
  assumes "list_all queued_ok (queue_of d)" "holds_send it (queue_of d)" "queue_op_ok op" "\<not> takes_away (q_ID it) op"
  shows "list_all queued_ok (queue_of (run_queue_op op d)) \<and> holds_send it (queue_of (run_queue_op op d))"
proof (cases "(q_ID it, op)" rule: takes_away.cases)
  case (1 i r w idb now item)
  then have op: "op = (r, w, Enqueue idb now item)" by simp
  show ?thesis using assms
    unfolding op run_queue_op.simps enqueue_def Let_def snd_conv
    by (intro queue_resaved [where r = r]) (simp_all add: loadQueue_def holds_send_append)
next
  case (2 i r w j)
  then have op: "op = (r, w, Unqueued j)" and j: "j \<noteq> q_ID it" using assms(4) by auto
  show ?thesis using assms(1,2) queue_saved [OF assms(1,2) remove_id_ok remove_id_other] j
    unfolding op run_queue_op.simps Unqueue_def Let_def loadQueue_def by simp
next
  case (3 i r w it' out)
  have op: "queue_op_ok (r, w, Settled it' out)" "\<not> takes_away (q_ID it) (r, w, Settled it' out)" using assms(3,4) 3 by simp_all
  have "list_all queued_ok (queue_of (settle r w it' out d)) \<and> holds_send it (queue_of (settle r w it' out d))"
    unfolding settle_def Let_def
    using assms(1,2) op(2) settle_queue_ok [OF assms(1) op(1)] settle_queue_holds [OF assms(2) op(2)]
    by (intro queue_resaved [where r = r]) (simp_all add: loadQueue_def)
  then show ?thesis using 3 by simp
qed

lemma queue_steps_keep:
  "list_all queued_ok (queue_of d) \<Longrightarrow> holds_send it (queue_of d) \<Longrightarrow>
   list_all (\<lambda>op. queue_op_ok op \<and> \<not> takes_away (q_ID it) op) ops \<Longrightarrow> holds_send it (queue_of (fold run_queue_op ops d))"
proof (induction ops arbitrary: d)
  case (Cons op ops)
  have "queue_op_ok op" "\<not> takes_away (q_ID it) op" using Cons.prems(3) by simp_all
  with queue_step_keeps [OF Cons.prems(1,2)] Cons show ?case by simp
qed simp

text \<open>
  Property C9. A send that was queued and written to the file stays in the queue with its device, files
  or clipboard through any operations on the queue, retries that do not reach the device, reads and
  writes that fail included, until the user drops it, a send of it ended, or the daemon fails to read the
  file and then succeeds in writing it (it takes the queue for empty). The queue is one the program can
  store: texts, paths and error messages are valid UTF-8, times are RFC 3339, and a clipboard is not
  empty. As the queue is read from its file every time, restarts of the daemon change nothing.
\<close>

theorem queued_send_kept:
  assumes "list_all queued_ok (queue_of d)" and "queue_op_ok (rok, True, Enqueue idb now item)"
    and "enqueue rok True idb now item d = (it, d0)"
    and "list_all (\<lambda>op. queue_op_ok op \<and> \<not> takes_away (q_ID it) op) ops"
  shows "\<exists>it'\<in>set (loadQueue True (fold run_queue_op ops d0)). same_send it it'"
proof -
  have it: "it = item\<lparr>q_ID := hex_encode idb, q_Added := now\<rparr>" and d0: "d0 = saveQueueLocked True (loadQueue rok d @ [it]) d"
    using assms(3) by (auto simp: enqueue_def Let_def)
  have ok: "list_all queued_ok (loadQueue rok d @ [it])" using assms(1,2) it by (simp add: loadQueue_def)
  from queue_file.load_save [OF this, of d] have "queue_of d0 = loadQueue rok d @ [it]" by (simp add: d0)
  moreover from this have "list_all queued_ok (queue_of d0)" using ok by simp
  moreover have "same_send it it" by (simp add: same_send_def)
  ultimately have "holds_send it (queue_of (fold run_queue_op ops d0))"
    using queue_steps_keep [of d0 it ops] assms(4) by (simp add: holds_send_def)
  then show ?thesis by (auto simp: holds_send_def list_ex_iff loadQueue_def)
qed

text \<open>
  The exception: with a file that cannot be read, the retry of an item that was loaded before, or a new
  send, replaces every stored send once it can be written.
\<close>

lemma unread_queue_overwritten:
  "queue_of (settle False True it out d) = []"
  "queued_ok (item\<lparr>q_ID := hex_encode idb, q_Added := now\<rparr>) \<Longrightarrow>
     queue_of (snd (enqueue False True idb now item d)) = [item\<lparr>q_ID := hex_encode idb, q_Added := now\<rparr>]"
proof -
  have "settle_queue d it out [] = []" by (simp add: settle_queue_def split: outcome.splits)
  then show "queue_of (settle False True it out d) = []"
    using queue_file.load_save [of "[]"] by (simp add: settle_def loadQueue_def Let_def)
qed (use queue_file.load_save [of "[item\<lparr>q_ID := hex_encode idb, q_Added := now\<rparr>]"] in \<open>simp add: enqueue_def loadQueue_def Let_def\<close>)

definition demo_item :: queued where
  "demo_item = queued0\<lparr>q_Peer := ''f1'', q_Name := ''phone'', q_Paths := [''/a'']\<rparr>"

lemma time_zero_ok: "rfc3339_ok time_zero"
  by (simp add: rfc3339_ok_def time_zero_def digits_in_def is_digit_def nat_of_digits_def digit_val_def days_in_def
      frac_zone_ok_def zone_ok_def)

lemma demo_item_ok: "queued_ok (demo_item\<lparr>q_ID := hex_encode idb, q_Added := time_zero\<rparr>)"
  using time_zero_ok by (simp add: queued_ok_def demo_item_def queued0_def utf8_hex utf8_valid_ascii int64_def)
    (simp add: time_zero_def utf8_valid_ascii)

lemma queued_send_kept_witness:
  "\<exists>it'\<in>set (loadQueue True (run_queue_op (True, False, Unqueued []) (snd (enqueue True True ''xxxxxx'' time_zero demo_item demo_daemon)))).
     q_Paths it' = [''/a'']"
proof -
  obtain it d0 where e: "enqueue True True ''xxxxxx'' time_zero demo_item demo_daemon = (it, d0)" by fastforce
  have empty: "list_all queued_ok (queue_of demo_daemon)" by (simp add: queue_of_def demo_daemon_def)
  have it: "q_ID it = hex_encode ''xxxxxx''" "q_Paths it = [''/a'']" using e by (auto simp: enqueue_def Let_def demo_item_def)
  have "list_all (\<lambda>op. queue_op_ok op \<and> \<not> takes_away (q_ID it) op) [(True, False, Unqueued [])]" by (simp add: it)
  from queued_send_kept [OF empty _ e this] obtain it' where
      "it' \<in> set (loadQueue True (fold run_queue_op [(True, False, Unqueued [])] d0))" "same_send it it'"
    using demo_item_ok by (metis queue_op_ok.simps(1))
  then show ?thesis using it(2) e by (intro bexI [of _ it']) (simp_all add: same_send_def)
qed

text \<open>
  Property C30. What \<^verbatim>\<open>SendFilesOrQueue\<close> does is the send itself, followed by the queue at most. Either it
  returns what the send returned, an error or success, with what the send wrote and the daemon it left;
  this is so unless the send failed because the device was not reached and it may wait. Or it says the
  send is queued: then nothing was written to any device and the waiting send is for a device the target
  names. It is in the queue with all its files, behind the sends that wait already, if the queue file can
  be read and written and the name, the fingerprint, the paths and the reason are valid UTF-8; if the file
  cannot be written the queue stays as it is, although the same answer is given.
\<close>

theorem send_files_or_queue:
  assumes "SendFilesOrQueue re idb now target paths d = (res, out, d')"
    and "SendFiles (re_dial re) (re_os re) (re_src re) target (map (\<lambda>p. (p, re_lstat re p)) paths) d = (err, out1, d1)"
  shows "(case res of
      Inr e \<Rightarrow> e = err \<and> out = out1 \<and> d' = d1 \<and> queueable d1 err = None
    | Inl reason \<Rightarrow> out = [] \<and> (\<exists>dev msg. err = Some (DialErr (UnreachableError dev msg)) \<and> matches target dev \<and>
        reason = waitReason d1 dev msg \<and>
        (re_rok re \<and> re_wok re \<and> list_all queued_ok (queue_of d1) \<and> rfc3339_ok now \<and>
           list_all utf8_valid ([d_Name dev, d_Fingerprint dev, reason, now] @ paths) \<longrightarrow>
         loadQueue True d' = loadQueue True d1 @ [queued0\<lparr>q_ID := hex_encode idb, q_Peer := d_Fingerprint dev,
           q_Name := d_Name dev, q_Paths := paths, q_Added := now, q_Reason := reason\<rparr>]) \<and>
        (\<not> re_wok re \<longrightarrow> d' = d1)))"
proof (cases "queueable d1 err")
  case None
  then show ?thesis using assms by (auto simp: SendFilesOrQueue_def)
next
  case (Some a)
  then obtain dev msg where q: "queueable d1 err = Some (dev, msg)" by (cases a) auto
  then have err: "err = Some (DialErr (UnreachableError dev msg))"
    by (auto simp: queueable_def split: option.splits sending_error.splits dial_error.splits if_splits)
  have sent: "out1 = [] \<and> matches target dev" by (rule over_dial_pinned(2) [OF SendFiles_over_dial [OF assms(2)] err])
  let ?reason = "waitReason d1 dev msg"
  let ?it = "queued0\<lparr>q_ID := hex_encode idb, q_Peer := d_Fingerprint dev, q_Name := d_Name dev, q_Paths := paths,
      q_Added := now, q_Reason := ?reason\<rparr>"
  have res: "res = Inl ?reason" "out = out1" "d' = saveQueueLocked (re_wok re) (loadQueue (re_rok re) d1 @ [?it]) d1"
    using assms q by (auto simp: SendFilesOrQueue_def enqueue_def Let_def queued0_def)
  have "loadQueue True d' = loadQueue True d1 @ [?it]"
    if "re_rok re" "re_wok re" "list_all queued_ok (queue_of d1)" "rfc3339_ok now"
      "list_all utf8_valid ([d_Name dev, d_Fingerprint dev, ?reason, now] @ paths)"
  proof -
    have "list_all queued_ok (queue_of d1 @ [?it])"
      using that by (simp add: queued_ok_def queued0_def utf8_hex int64_def)
    from queue_file.load_save [OF this, of d1] show ?thesis
      unfolding res(3) using that(1,2) by (simp add: loadQueue_def)
  qed
  moreover have "d' = d1" if "\<not> re_wok re" using that res(3) by (simp add: saveQueueLocked_def)
  ultimately show ?thesis using err sent res(1,2) by auto
qed

definition offline_retry :: retry_env where
  "offline_retry = \<lparr>re_dial = demo_env\<lparr>de_net := \<lambda>_ _. Inl (OtherErrno, ''down'')\<rparr>, re_os = env_ok, re_src = (\<lambda>_. Some ''hi''),
     re_lstat = (\<lambda>_. Some (TFile ''hi'')), re_others = (\<lambda>d. d), re_text = (\<lambda>_. []), re_rok = True, re_wok = True\<rparr>"

definition queueing :: daemon where
  "queueing = (knows ''phone'' ''cB'')\<lparr>dm_queueAll := True\<rparr>"

abbreviation demo_phone :: device where
  "demo_phone \<equiv> Device0\<lparr>d_Name := ''phone'', d_Fingerprint := Fingerprint ''cB'', d_Addr := ''10.0.0.9:53127''\<rparr>"

lemma offline_send:
  "\<exists>msg. SendFiles (re_dial offline_retry) (re_os offline_retry) (re_src offline_retry) ''phone''
     (map (\<lambda>p. (p, re_lstat offline_retry p)) [''/a'']) queueing = (Some (DialErr (UnreachableError demo_phone msg)), [], queueing) \<and>
     utf8_valid (waitReason queueing demo_phone msg)"
proof -
  have l: "Lookup (dm_store queueing) ''phone'' = Some demo_phone"
    using demo_lookup [of "''phone''" "''cB''"] by (simp add: queueing_def)
  have m: "\<exists>ms. buildManifest env_ok [(''/a'', Some (TFile ''hi''))] = Inr ms"
    by (simp add: buildManifest_def hashFile_def env_ok_def)
  have dial: "DialTimeout (\<lambda>_ _. Inl (OtherErrno, ''down'')) c t a = Inl (OtherErrno, ''down'')" for c t a
    by (simp add: DialTimeout_def dialTLS_def client_handshake_def)
  let ?msg = "dialFailure demo_phone (OtherErrno, ''down'') False (no_wake_text queueing demo_phone)"
  have "reach (re_dial offline_retry) ''phone'' demo_phone queueing = (Inl (UnreachableError demo_phone ?msg), demo_phone, queueing)"
    by (simp add: reach_def offline_retry_def demo_env_def dial refreshAddrViaMDNS_def canGoDirect_def try_wake_def
        queueing_def knows_def demo_daemon_def Device0_def)
  then have "SendFiles (re_dial offline_retry) (re_os offline_retry) (re_src offline_retry) ''phone''
     (map (\<lambda>p. (p, re_lstat offline_retry p)) [''/a'']) queueing = (Some (DialErr (UnreachableError demo_phone ?msg)), [], queueing)"
    using m by (auto simp: SendFiles_def dialPeer_def l offline_retry_def)
  moreover have "utf8_valid (waitReason queueing demo_phone ?msg)"
    by (rule utf8_waitReason) (simp_all add: dialFailure_def no_wake_text_def Device0_def queueing_def knows_def demo_daemon_def utf8_valid_ascii Let_def)
  ultimately show ?thesis by blast
qed

lemma send_files_or_queue_witness:
  "\<exists>reason d' it. SendFilesOrQueue offline_retry ''xxxxxx'' time_zero ''phone'' [''/a''] queueing = (Inl reason, [], d') \<and>
     loadQueue True d' = [it] \<and> q_Paths it = [''/a''] \<and> q_Peer it = Fingerprint ''cB''"
proof -
  obtain msg where s: "SendFiles (re_dial offline_retry) (re_os offline_retry) (re_src offline_retry) ''phone''
      (map (\<lambda>p. (p, re_lstat offline_retry p)) [''/a'']) queueing = (Some (DialErr (UnreachableError demo_phone msg)), [], queueing)"
      and u: "utf8_valid (waitReason queueing demo_phone msg)" using offline_send by blast
  obtain d' where run: "SendFilesOrQueue offline_retry ''xxxxxx'' time_zero ''phone'' [''/a''] queueing =
      (Inl (waitReason queueing demo_phone msg), [], d')"
    using s by (simp add: SendFilesOrQueue_def queueable_def queueing_def enqueue_def Let_def del: list.map)
  have empty: "queue_of queueing = []" "loadQueue True queueing = []"
    by (simp_all add: loadQueue_def queue_of_def queueing_def knows_def demo_daemon_def)
  have "list_all utf8_valid ([d_Name demo_phone, d_Fingerprint demo_phone, waitReason queueing demo_phone msg, time_zero] @ [''/a''])"
    using u by (simp add: utf8_valid_ascii Fingerprint_def utf8_hex) (simp add: time_zero_def utf8_valid_ascii)
  moreover have "re_rok offline_retry" "re_wok offline_retry" by (simp_all add: offline_retry_def)
  ultimately show ?thesis using send_files_or_queue [OF run s] run empty time_zero_ok by auto
qed

text \<open>
  An empty clipboard that has to wait is lost: \<^verbatim>\<open>queue.json\<close> leaves out an empty \<^verbatim>\<open>clip\<close>, so
  the item comes back as a send of no files, and the next retry, whatever the network, drops it with
  an error without writing anything.
\<close>

lemma empty_clipboard_lost:
  assumes "queue_of d = []" and "enqueue True True idb now (queued0\<lparr>q_Peer := p, q_Name := name, q_Clip := Some [], q_Reason := r\<rparr>) d = (it, d1)"
    and "list_all utf8_valid [p, name, now, r]" and "rfc3339_ok now" and "re_others re = (\<lambda>d. d)" and "re_rok re" and "re_wok re"
  shows "map q_Clip (queue_of d1) = [None] \<and> fst (attempt re (hd (queue_of d1)) d1) = Failed (re_text re (TransferErr NoFiles)) \<and>
    queue_of (retryQueue True [re] d1) = []"
proof -
  let ?it = "queued0\<lparr>q_ID := hex_encode idb, q_Peer := p, q_Name := name, q_Added := now, q_Reason := r\<rparr>"
  have same: "queued_json (?it\<lparr>q_Clip := Some []\<rparr>) = queued_json ?it" by (simp add: queued_json_def queued0_def)
  have d1: "d1 = saveQueueLocked True [?it\<lparr>q_Clip := Some []\<rparr>] d"
    using assms(1,2) by (auto simp: enqueue_def loadQueue_def Let_def queued0_def)
  then have "d1 = saveQueueLocked True [?it] d" by (simp add: saveQueueLocked_def same)
  moreover have "list_all queued_ok [?it]" using assms(3,4) by (simp add: queued_ok_def queued0_def utf8_hex int64_def)
  ultimately have l: "queue_of d1 = [?it]" by (simp add: queue_file.load_save)
  have a: "attempt re ?it d1 = (Failed (re_text re (TransferErr NoFiles)), d1)"
    using assms(5) by (simp add: attempt_def SendFiles_def buildManifest_def outcome_of_def queued0_def)
  have "queue_of (saveQueueLocked True [] e) = []" for e using queue_file.load_save [of "[]" e] by simp
  then have "queue_of (retryQueue True [re] d1) = []"
    using assms(6,7) by (simp add: retryQueue_def loadQueue_def l a settle_def settle_queue_def)
  then show ?thesis using l a by (simp add: queued0_def)
qed

end
