(* ===== verification/Control.thy ===== *)
theory Control
  imports Queue
begin

text \<open>
  The control protocol between a client and the daemon, \<^verbatim>\<open>internal/ipc\<close>: the request and the
  responses with their JSON, the stream of JSON values on a connection (\<^verbatim>\<open>json.Encoder\<close> and
  \<^verbatim>\<open>json.Decoder\<close>), and the token by which the TCP endpoint of \<^verbatim>\<open>conn_tcp.go\<close> admits a client. A locale
  states what the two sides need of an encoding; it is interpreted for requests and for responses.
\<close>

section \<open>Members of nested structs\<close>

text \<open>Pointers and slices tagged \<^verbatim>\<open>omitempty\<close>, and their decoding.\<close>

definition opt_ptr :: "string \<Rightarrow> ('a \<Rightarrow> json) \<Rightarrow> 'a option \<Rightarrow> (string \<times> json) list" where
  "opt_ptr k enc p = (case p of None \<Rightarrow> [] | Some x \<Rightarrow> [(k, enc x)])"

definition opt_list :: "string \<Rightarrow> ('a \<Rightarrow> json) \<Rightarrow> 'a list \<Rightarrow> (string \<times> json) list" where
  "opt_list k enc xs = (if xs = [] then [] else [(k, JArr (map enc xs))])"

definition set_ptr :: "'b fields \<Rightarrow> 'b \<Rightarrow> ('a \<Rightarrow> 'b option) \<Rightarrow> ('b option \<Rightarrow> 'a \<Rightarrow> 'a) \<Rightarrow> json \<Rightarrow> 'a \<Rightarrow> 'a option" where
  "set_ptr fs zero get upd v x = (if v = JNull then Some (upd None x)
     else map_option (\<lambda>y. upd (Some y) x) (decode_struct fs v (case get x of None \<Rightarrow> zero | Some y \<Rightarrow> y)))"

definition set_list :: "'b fields \<Rightarrow> 'b \<Rightarrow> ('a \<Rightarrow> 'b list) \<Rightarrow> ('b list \<Rightarrow> 'a \<Rightarrow> 'a) \<Rightarrow> json \<Rightarrow> 'a \<Rightarrow> 'a option" where
  "set_list fs zero get upd v x = (case v of
     JNull \<Rightarrow> Some (upd [] x)
   | JArr vs \<Rightarrow> map_option (\<lambda>ys. upd ys x) (decode_list fs zero vs (get x))
   | _ \<Rightarrow> None)"

fun decode_strings :: "json list \<Rightarrow> string list \<Rightarrow> string list option" where
  "decode_strings [] old = Some []"
| "decode_strings (v # vs) old =
     (case v of
        JStr s \<Rightarrow> map_option ((#) s) (decode_strings vs (tl old))
      | JNull \<Rightarrow> map_option ((#) (case old of [] \<Rightarrow> [] | o1 # _ \<Rightarrow> o1)) (decode_strings vs (tl old))
      | _ \<Rightarrow> None)"

definition set_strs :: "('a \<Rightarrow> string list) \<Rightarrow> (string list \<Rightarrow> 'a \<Rightarrow> 'a) \<Rightarrow> json \<Rightarrow> 'a \<Rightarrow> 'a option" where
  "set_strs get upd v x = (case v of
     JNull \<Rightarrow> Some (upd [] x)
   | JArr vs \<Rightarrow> map_option (\<lambda>ys. upd ys x) (decode_strings vs (get x))
   | _ \<Rightarrow> None)"

lemma decode_strings_map [simp]: "decode_strings (map JStr ss) old = Some ss"
  by (induction ss arbitrary: old) simp_all

text \<open>What decoding does with one member, written or left out.\<close>

lemma decode_opt_strs:
  "map_of fs (fold_key k) = Some (set_strs get upd) \<Longrightarrow> upd [] x = x \<Longrightarrow>
   decode_members fs (opt_list k JStr ss @ ms) x = decode_members fs ms (upd ss x)"
  by (simp add: opt_list_def set_strs_def)

lemma decode_opt_ptr:
  assumes "map_of fs (fold_key k) = Some (set_ptr gs zero get upd)" "get x = None" "upd None x = x"
    "\<And>y. p = Some y \<Longrightarrow> enc y \<noteq> JNull \<and> decode_struct gs (enc y) zero = Some y"
  shows "decode_members fs (opt_ptr k enc p @ ms) x = decode_members fs ms (upd p x)"
  using assms by (cases p) (simp_all add: opt_ptr_def set_ptr_def)

lemma decode_opt_list:
  assumes "map_of fs (fold_key k) = Some (set_list gs zero get upd)" "get x = []" "upd [] x = x"
    "\<And>y. y \<in> set ys \<Longrightarrow> decode_struct gs (enc y) zero = Some y"
  shows "decode_members fs (opt_list k enc ys @ ms) x = decode_members fs ms (upd ys x)"
  using assms by (simp add: opt_list_def set_list_def decode_list_map)

lemmas control_steps = decode_opt_strs decode_steps member_defs set_bool_def decode_struct_def
lemmas last_member = decode_opt_str [where ms = "[]", simplified] decode_opt_bool [where ms = "[]", simplified]
  decode_opt_strs [where ms = "[]", simplified]
lemmas control_ok = members_ok_simps members_ok_opts utf8_valid_ascii

lemma members_ok_nested:
  "utf8_valid k \<Longrightarrow> (\<And>y. p = Some y \<Longrightarrow> json_ok (enc y)) \<Longrightarrow> members_ok (opt_ptr k enc p)"
  "utf8_valid k \<Longrightarrow> (\<And>y. y \<in> set ys \<Longrightarrow> json_ok (enc y)) \<Longrightarrow> members_ok (opt_list k enc ys)"
  by (auto simp: opt_ptr_def opt_list_def members_ok_simps list_all_iff split: option.splits)

section \<open>Requests\<close>

record request =
  rq_Cmd :: string
  rq_Target :: string
  rq_PairURI :: string
  rq_Name :: string
  rq_Files :: "string list"
  rq_Text :: string
  rq_MIME :: string
  rq_ID :: string
  rq_OK :: bool

definition Request0 :: request where
  "Request0 = \<lparr>rq_Cmd = [], rq_Target = [], rq_PairURI = [], rq_Name = [], rq_Files = [], rq_Text = [],
     rq_MIME = [], rq_ID = [], rq_OK = False\<rparr>"

definition request_json :: "request \<Rightarrow> json" where
  "request_json r = JObj
     ((''cmd'', JStr (rq_Cmd r)) # opt_str ''target'' (rq_Target r) @ opt_str ''pair_uri'' (rq_PairURI r)
      @ opt_str ''name'' (rq_Name r) @ opt_list ''files'' JStr (rq_Files r) @ opt_str ''text'' (rq_Text r)
      @ opt_str ''mime'' (rq_MIME r) @ opt_str ''id'' (rq_ID r) @ opt_bool ''ok'' (rq_OK r))"

definition request_fields :: "request fields" where
  "request_fields =
     [(''cmd'', set_str (\<lambda>s r. r\<lparr>rq_Cmd := s\<rparr>)), (''target'', set_str (\<lambda>s r. r\<lparr>rq_Target := s\<rparr>)),
      (''pair_uri'', set_str (\<lambda>s r. r\<lparr>rq_PairURI := s\<rparr>)), (''name'', set_str (\<lambda>s r. r\<lparr>rq_Name := s\<rparr>)),
      (''files'', set_strs rq_Files (\<lambda>ss r. r\<lparr>rq_Files := ss\<rparr>)), (''text'', set_str (\<lambda>s r. r\<lparr>rq_Text := s\<rparr>)),
      (''mime'', set_str (\<lambda>s r. r\<lparr>rq_MIME := s\<rparr>)), (''id'', set_str (\<lambda>s r. r\<lparr>rq_ID := s\<rparr>)),
      (''ok'', set_bool (\<lambda>b r. r\<lparr>rq_OK := b\<rparr>))]"

definition request_ok :: "request \<Rightarrow> bool" where
  "request_ok r \<longleftrightarrow> list_all utf8_valid ([rq_Cmd r, rq_Target r, rq_PairURI r, rq_Name r, rq_Text r, rq_MIME r, rq_ID r] @ rq_Files r)"

lemma request_lookup:
  "map_of request_fields (fold_key ''cmd'') = Some (set_str (\<lambda>s r. r\<lparr>rq_Cmd := s\<rparr>))"
  "map_of request_fields (fold_key ''target'') = Some (set_str (\<lambda>s r. r\<lparr>rq_Target := s\<rparr>))"
  "map_of request_fields (fold_key ''pair_uri'') = Some (set_str (\<lambda>s r. r\<lparr>rq_PairURI := s\<rparr>))"
  "map_of request_fields (fold_key ''name'') = Some (set_str (\<lambda>s r. r\<lparr>rq_Name := s\<rparr>))"
  "map_of request_fields (fold_key ''files'') = Some (set_strs rq_Files (\<lambda>ss r. r\<lparr>rq_Files := ss\<rparr>))"
  "map_of request_fields (fold_key ''text'') = Some (set_str (\<lambda>s r. r\<lparr>rq_Text := s\<rparr>))"
  "map_of request_fields (fold_key ''mime'') = Some (set_str (\<lambda>s r. r\<lparr>rq_MIME := s\<rparr>))"
  "map_of request_fields (fold_key ''id'') = Some (set_str (\<lambda>s r. r\<lparr>rq_ID := s\<rparr>))"
  "map_of request_fields (fold_key ''ok'') = Some (set_bool (\<lambda>b r. r\<lparr>rq_OK := b\<rparr>))"
  by (simp_all add: request_fields_def key_lookup)

lemma decode_request: "decode_struct request_fields (request_json r) Request0 = Some r"
  by (simp add: request_json_def Request0_def request_lookup control_steps last_member)

lemma request_json_ok: "request_ok r \<Longrightarrow> json_ok (request_json r)"
  by (simp add: request_json_def request_ok_def control_ok members_ok_nested list_all_iff del: json_ok.simps(4))

section \<open>Responses\<close>

record deviceInfo =
  di_Name :: string
  di_Fingerprint :: string
  di_Addr :: string
  di_PairedAt :: string

record statusInfo =
  si_Name :: string
  si_Fingerprint :: string
  si_ListenAddr :: string
  si_NumDevices :: int
  si_LastPeer :: string
  si_RNSAddr :: string
  si_RNSHubs :: "string list"

record response =
  rs_Line :: string
  rs_QR :: string
  rs_Devices :: "deviceInfo list"
  rs_Status :: "statusInfo option"
  rs_Event :: "event option"
  rs_Pair :: "pair_info option"
  rs_Pending :: "pair_info list"
  rs_Queue :: "queueItem list"
  rs_Nearby :: "nearby_info list"
  rs_Done :: bool
  rs_Err :: string

definition deviceInfo_json :: "deviceInfo \<Rightarrow> json" where
  "deviceInfo_json i = JObj [(''name'', JStr (di_Name i)), (''fingerprint'', JStr (di_Fingerprint i)),
     (''addr'', JStr (di_Addr i)), (''paired_at'', JStr (di_PairedAt i))]"

definition statusInfo_json :: "statusInfo \<Rightarrow> json" where
  "statusInfo_json i = JObj
     ((''name'', JStr (si_Name i)) # (''fingerprint'', JStr (si_Fingerprint i)) # (''listen_addr'', JStr (si_ListenAddr i))
      # (''num_devices'', JNum (show_int (si_NumDevices i))) # opt_str ''last_peer'' (si_LastPeer i)
      @ opt_str ''rns_addr'' (si_RNSAddr i) @ opt_list ''rns_hubs'' JStr (si_RNSHubs i))"

definition pairInfo_json :: "pair_info \<Rightarrow> json" where
  "pairInfo_json i = JObj [(''id'', JStr (pi_ID i)), (''name'', JStr (pi_Name i)),
     (''fingerprint'', JStr (pi_Fingerprint i)), (''code'', JStr (pi_Code i))]"

definition nearbyInfo_json :: "nearby_info \<Rightarrow> json" where
  "nearbyInfo_json i = JObj [(''name'', JStr (nb_Name i)), (''addr'', JStr (nb_Addr i)),
     (''fingerprint'', JStr (nb_Fingerprint i)), (''paired'', JBool (nb_Paired i))]"

definition queueItem_json :: "queueItem \<Rightarrow> json" where
  "queueItem_json i = JObj
     ((''id'', JStr (qi_ID i)) # (''peer'', JStr (qi_Peer i)) # (''what'', JStr (qi_What i)) # opt_list ''paths'' JStr (qi_Paths i)
      @ [(''added'', JStr (qi_Added i)), (''reason'', JStr (qi_Reason i)), (''tries'', JNum (show_int (qi_Tries i)))])"

definition event_json :: "event \<Rightarrow> json" where
  "event_json e = JObj
     ((''kind'', JStr (ev_Kind e)) # (''peer'', JStr (ev_Peer e)) # (''file'', JStr (ev_File e))
      # (''index'', JNum (show_int (ev_Index e))) # (''count'', JNum (show_int (ev_Count e)))
      # (''bytes_done'', JNum (show_int (ev_BytesDone e))) # (''total'', JNum (show_int (ev_Total e)))
      # opt_str ''err'' (ev_Err e) @ opt_ptr ''pair'' pairInfo_json (ev_Pair e) @ opt_str ''path'' (ev_Path e))"

definition response_json :: "response \<Rightarrow> json" where
  "response_json r = JObj
     (opt_str ''line'' (rs_Line r) @ opt_str ''qr'' (rs_QR r) @ opt_list ''devices'' deviceInfo_json (rs_Devices r)
      @ opt_ptr ''status'' statusInfo_json (rs_Status r) @ opt_ptr ''event'' event_json (rs_Event r)
      @ opt_ptr ''pair'' pairInfo_json (rs_Pair r) @ opt_list ''pending'' pairInfo_json (rs_Pending r)
      @ opt_list ''queue'' queueItem_json (rs_Queue r) @ opt_list ''nearby'' nearbyInfo_json (rs_Nearby r)
      @ opt_bool ''done'' (rs_Done r) @ opt_str ''err'' (rs_Err r))"

text \<open>Decoding tables.\<close>

definition deviceInfo_fields :: "deviceInfo fields" where
  "deviceInfo_fields =
     [(''name'', set_str (\<lambda>s i. i\<lparr>di_Name := s\<rparr>)), (''fingerprint'', set_str (\<lambda>s i. i\<lparr>di_Fingerprint := s\<rparr>)),
      (''addr'', set_str (\<lambda>s i. i\<lparr>di_Addr := s\<rparr>)), (''paired_at'', set_str (\<lambda>s i. i\<lparr>di_PairedAt := s\<rparr>))]"

definition statusInfo_fields :: "statusInfo fields" where
  "statusInfo_fields =
     [(''name'', set_str (\<lambda>s i. i\<lparr>si_Name := s\<rparr>)), (''fingerprint'', set_str (\<lambda>s i. i\<lparr>si_Fingerprint := s\<rparr>)),
      (''listen_addr'', set_str (\<lambda>s i. i\<lparr>si_ListenAddr := s\<rparr>)), (''num_devices'', set_int (\<lambda>n i. i\<lparr>si_NumDevices := n\<rparr>)),
      (''last_peer'', set_str (\<lambda>s i. i\<lparr>si_LastPeer := s\<rparr>)), (''rns_addr'', set_str (\<lambda>s i. i\<lparr>si_RNSAddr := s\<rparr>)),
      (''rns_hubs'', set_strs si_RNSHubs (\<lambda>ss i. i\<lparr>si_RNSHubs := ss\<rparr>))]"

definition pairInfo_fields :: "pair_info fields" where
  "pairInfo_fields =
     [(''id'', set_str (\<lambda>s i. i\<lparr>pi_ID := s\<rparr>)), (''name'', set_str (\<lambda>s i. i\<lparr>pi_Name := s\<rparr>)),
      (''fingerprint'', set_str (\<lambda>s i. i\<lparr>pi_Fingerprint := s\<rparr>)), (''code'', set_str (\<lambda>s i. i\<lparr>pi_Code := s\<rparr>))]"

definition nearbyInfo_fields :: "nearby_info fields" where
  "nearbyInfo_fields =
     [(''name'', set_str (\<lambda>s i. i\<lparr>nb_Name := s\<rparr>)), (''addr'', set_str (\<lambda>s i. i\<lparr>nb_Addr := s\<rparr>)),
      (''fingerprint'', set_str (\<lambda>s i. i\<lparr>nb_Fingerprint := s\<rparr>)), (''paired'', set_bool (\<lambda>b i. i\<lparr>nb_Paired := b\<rparr>))]"

definition queueItem_fields :: "queueItem fields" where
  "queueItem_fields =
     [(''id'', set_str (\<lambda>s i. i\<lparr>qi_ID := s\<rparr>)), (''peer'', set_str (\<lambda>s i. i\<lparr>qi_Peer := s\<rparr>)),
      (''what'', set_str (\<lambda>s i. i\<lparr>qi_What := s\<rparr>)), (''paths'', set_strs qi_Paths (\<lambda>ss i. i\<lparr>qi_Paths := ss\<rparr>)),
      (''added'', set_str (\<lambda>s i. i\<lparr>qi_Added := s\<rparr>)), (''reason'', set_str (\<lambda>s i. i\<lparr>qi_Reason := s\<rparr>)),
      (''tries'', set_int (\<lambda>n i. i\<lparr>qi_Tries := n\<rparr>))]"

definition DeviceInfo0 :: deviceInfo where
  "DeviceInfo0 = \<lparr>di_Name = [], di_Fingerprint = [], di_Addr = [], di_PairedAt = []\<rparr>"

definition StatusInfo0 :: statusInfo where
  "StatusInfo0 = \<lparr>si_Name = [], si_Fingerprint = [], si_ListenAddr = [], si_NumDevices = 0, si_LastPeer = [],
     si_RNSAddr = [], si_RNSHubs = []\<rparr>"

definition PairInfo0 :: pair_info where
  "PairInfo0 = \<lparr>pi_ID = [], pi_Name = [], pi_Fingerprint = [], pi_Code = []\<rparr>"

definition NearbyInfo0 :: nearby_info where
  "NearbyInfo0 = \<lparr>nb_Name = [], nb_Addr = [], nb_Fingerprint = [], nb_Paired = False\<rparr>"

definition QueueItem0 :: queueItem where
  "QueueItem0 = \<lparr>qi_ID = [], qi_Peer = [], qi_What = [], qi_Paths = [], qi_Added = [], qi_Reason = [], qi_Tries = 0\<rparr>"

definition Response0 :: response where
  "Response0 = \<lparr>rs_Line = [], rs_QR = [], rs_Devices = [], rs_Status = None, rs_Event = None, rs_Pair = None,
     rs_Pending = [], rs_Queue = [], rs_Nearby = [], rs_Done = False, rs_Err = []\<rparr>"

definition event_fields :: "event fields" where
  "event_fields =
     [(''kind'', set_str (\<lambda>s e. e\<lparr>ev_Kind := s\<rparr>)), (''peer'', set_str (\<lambda>s e. e\<lparr>ev_Peer := s\<rparr>)),
      (''file'', set_str (\<lambda>s e. e\<lparr>ev_File := s\<rparr>)), (''index'', set_int (\<lambda>n e. e\<lparr>ev_Index := n\<rparr>)),
      (''count'', set_int (\<lambda>n e. e\<lparr>ev_Count := n\<rparr>)), (''bytes_done'', set_int (\<lambda>n e. e\<lparr>ev_BytesDone := n\<rparr>)),
      (''total'', set_int (\<lambda>n e. e\<lparr>ev_Total := n\<rparr>)), (''err'', set_str (\<lambda>s e. e\<lparr>ev_Err := s\<rparr>)),
      (''pair'', set_ptr pairInfo_fields PairInfo0 ev_Pair (\<lambda>p e. e\<lparr>ev_Pair := p\<rparr>)),
      (''path'', set_str (\<lambda>s e. e\<lparr>ev_Path := s\<rparr>))]"

definition response_fields :: "response fields" where
  "response_fields =
     [(''line'', set_str (\<lambda>s r. r\<lparr>rs_Line := s\<rparr>)), (''qr'', set_str (\<lambda>s r. r\<lparr>rs_QR := s\<rparr>)),
      (''devices'', set_list deviceInfo_fields DeviceInfo0 rs_Devices (\<lambda>xs r. r\<lparr>rs_Devices := xs\<rparr>)),
      (''status'', set_ptr statusInfo_fields StatusInfo0 rs_Status (\<lambda>p r. r\<lparr>rs_Status := p\<rparr>)),
      (''event'', set_ptr event_fields Event0 rs_Event (\<lambda>p r. r\<lparr>rs_Event := p\<rparr>)),
      (''pair'', set_ptr pairInfo_fields PairInfo0 rs_Pair (\<lambda>p r. r\<lparr>rs_Pair := p\<rparr>)),
      (''pending'', set_list pairInfo_fields PairInfo0 rs_Pending (\<lambda>xs r. r\<lparr>rs_Pending := xs\<rparr>)),
      (''queue'', set_list queueItem_fields QueueItem0 rs_Queue (\<lambda>xs r. r\<lparr>rs_Queue := xs\<rparr>)),
      (''nearby'', set_list nearbyInfo_fields NearbyInfo0 rs_Nearby (\<lambda>xs r. r\<lparr>rs_Nearby := xs\<rparr>)),
      (''done'', set_bool (\<lambda>b r. r\<lparr>rs_Done := b\<rparr>)), (''err'', set_str (\<lambda>s r. r\<lparr>rs_Err := s\<rparr>))]"

lemma deviceInfo_lookup:
  "map_of deviceInfo_fields (fold_key ''name'') = Some (set_str (\<lambda>s i. i\<lparr>di_Name := s\<rparr>))"
  "map_of deviceInfo_fields (fold_key ''fingerprint'') = Some (set_str (\<lambda>s i. i\<lparr>di_Fingerprint := s\<rparr>))"
  "map_of deviceInfo_fields (fold_key ''addr'') = Some (set_str (\<lambda>s i. i\<lparr>di_Addr := s\<rparr>))"
  "map_of deviceInfo_fields (fold_key ''paired_at'') = Some (set_str (\<lambda>s i. i\<lparr>di_PairedAt := s\<rparr>))"
  by (simp_all add: deviceInfo_fields_def key_lookup)

lemma statusInfo_lookup:
  "map_of statusInfo_fields (fold_key ''name'') = Some (set_str (\<lambda>s i. i\<lparr>si_Name := s\<rparr>))"
  "map_of statusInfo_fields (fold_key ''fingerprint'') = Some (set_str (\<lambda>s i. i\<lparr>si_Fingerprint := s\<rparr>))"
  "map_of statusInfo_fields (fold_key ''listen_addr'') = Some (set_str (\<lambda>s i. i\<lparr>si_ListenAddr := s\<rparr>))"
  "map_of statusInfo_fields (fold_key ''num_devices'') = Some (set_int (\<lambda>n i. i\<lparr>si_NumDevices := n\<rparr>))"
  "map_of statusInfo_fields (fold_key ''last_peer'') = Some (set_str (\<lambda>s i. i\<lparr>si_LastPeer := s\<rparr>))"
  "map_of statusInfo_fields (fold_key ''rns_addr'') = Some (set_str (\<lambda>s i. i\<lparr>si_RNSAddr := s\<rparr>))"
  "map_of statusInfo_fields (fold_key ''rns_hubs'') = Some (set_strs si_RNSHubs (\<lambda>ss i. i\<lparr>si_RNSHubs := ss\<rparr>))"
  by (simp_all add: statusInfo_fields_def key_lookup)

lemma pairInfo_lookup:
  "map_of pairInfo_fields (fold_key ''id'') = Some (set_str (\<lambda>s i. i\<lparr>pi_ID := s\<rparr>))"
  "map_of pairInfo_fields (fold_key ''name'') = Some (set_str (\<lambda>s i. i\<lparr>pi_Name := s\<rparr>))"
  "map_of pairInfo_fields (fold_key ''fingerprint'') = Some (set_str (\<lambda>s i. i\<lparr>pi_Fingerprint := s\<rparr>))"
  "map_of pairInfo_fields (fold_key ''code'') = Some (set_str (\<lambda>s i. i\<lparr>pi_Code := s\<rparr>))"
  by (simp_all add: pairInfo_fields_def key_lookup)

lemma nearbyInfo_lookup:
  "map_of nearbyInfo_fields (fold_key ''name'') = Some (set_str (\<lambda>s i. i\<lparr>nb_Name := s\<rparr>))"
  "map_of nearbyInfo_fields (fold_key ''addr'') = Some (set_str (\<lambda>s i. i\<lparr>nb_Addr := s\<rparr>))"
  "map_of nearbyInfo_fields (fold_key ''fingerprint'') = Some (set_str (\<lambda>s i. i\<lparr>nb_Fingerprint := s\<rparr>))"
  "map_of nearbyInfo_fields (fold_key ''paired'') = Some (set_bool (\<lambda>b i. i\<lparr>nb_Paired := b\<rparr>))"
  by (simp_all add: nearbyInfo_fields_def key_lookup)

lemma queueItem_lookup:
  "map_of queueItem_fields (fold_key ''id'') = Some (set_str (\<lambda>s i. i\<lparr>qi_ID := s\<rparr>))"
  "map_of queueItem_fields (fold_key ''peer'') = Some (set_str (\<lambda>s i. i\<lparr>qi_Peer := s\<rparr>))"
  "map_of queueItem_fields (fold_key ''what'') = Some (set_str (\<lambda>s i. i\<lparr>qi_What := s\<rparr>))"
  "map_of queueItem_fields (fold_key ''paths'') = Some (set_strs qi_Paths (\<lambda>ss i. i\<lparr>qi_Paths := ss\<rparr>))"
  "map_of queueItem_fields (fold_key ''added'') = Some (set_str (\<lambda>s i. i\<lparr>qi_Added := s\<rparr>))"
  "map_of queueItem_fields (fold_key ''reason'') = Some (set_str (\<lambda>s i. i\<lparr>qi_Reason := s\<rparr>))"
  "map_of queueItem_fields (fold_key ''tries'') = Some (set_int (\<lambda>n i. i\<lparr>qi_Tries := n\<rparr>))"
  by (simp_all add: queueItem_fields_def key_lookup)

lemma event_lookup:
  "map_of event_fields (fold_key ''kind'') = Some (set_str (\<lambda>s e. e\<lparr>ev_Kind := s\<rparr>))"
  "map_of event_fields (fold_key ''peer'') = Some (set_str (\<lambda>s e. e\<lparr>ev_Peer := s\<rparr>))"
  "map_of event_fields (fold_key ''file'') = Some (set_str (\<lambda>s e. e\<lparr>ev_File := s\<rparr>))"
  "map_of event_fields (fold_key ''index'') = Some (set_int (\<lambda>n e. e\<lparr>ev_Index := n\<rparr>))"
  "map_of event_fields (fold_key ''count'') = Some (set_int (\<lambda>n e. e\<lparr>ev_Count := n\<rparr>))"
  "map_of event_fields (fold_key ''bytes_done'') = Some (set_int (\<lambda>n e. e\<lparr>ev_BytesDone := n\<rparr>))"
  "map_of event_fields (fold_key ''total'') = Some (set_int (\<lambda>n e. e\<lparr>ev_Total := n\<rparr>))"
  "map_of event_fields (fold_key ''err'') = Some (set_str (\<lambda>s e. e\<lparr>ev_Err := s\<rparr>))"
  "map_of event_fields (fold_key ''pair'') = Some (set_ptr pairInfo_fields PairInfo0 ev_Pair (\<lambda>p e. e\<lparr>ev_Pair := p\<rparr>))"
  "map_of event_fields (fold_key ''path'') = Some (set_str (\<lambda>s e. e\<lparr>ev_Path := s\<rparr>))"
  by (simp_all add: event_fields_def key_lookup)

lemma response_lookup:
  "map_of response_fields (fold_key ''line'') = Some (set_str (\<lambda>s r. r\<lparr>rs_Line := s\<rparr>))"
  "map_of response_fields (fold_key ''qr'') = Some (set_str (\<lambda>s r. r\<lparr>rs_QR := s\<rparr>))"
  "map_of response_fields (fold_key ''devices'') = Some (set_list deviceInfo_fields DeviceInfo0 rs_Devices (\<lambda>xs r. r\<lparr>rs_Devices := xs\<rparr>))"
  "map_of response_fields (fold_key ''status'') = Some (set_ptr statusInfo_fields StatusInfo0 rs_Status (\<lambda>p r. r\<lparr>rs_Status := p\<rparr>))"
  "map_of response_fields (fold_key ''event'') = Some (set_ptr event_fields Event0 rs_Event (\<lambda>p r. r\<lparr>rs_Event := p\<rparr>))"
  "map_of response_fields (fold_key ''pair'') = Some (set_ptr pairInfo_fields PairInfo0 rs_Pair (\<lambda>p r. r\<lparr>rs_Pair := p\<rparr>))"
  "map_of response_fields (fold_key ''pending'') = Some (set_list pairInfo_fields PairInfo0 rs_Pending (\<lambda>xs r. r\<lparr>rs_Pending := xs\<rparr>))"
  "map_of response_fields (fold_key ''queue'') = Some (set_list queueItem_fields QueueItem0 rs_Queue (\<lambda>xs r. r\<lparr>rs_Queue := xs\<rparr>))"
  "map_of response_fields (fold_key ''nearby'') = Some (set_list nearbyInfo_fields NearbyInfo0 rs_Nearby (\<lambda>xs r. r\<lparr>rs_Nearby := xs\<rparr>))"
  "map_of response_fields (fold_key ''done'') = Some (set_bool (\<lambda>b r. r\<lparr>rs_Done := b\<rparr>))"
  "map_of response_fields (fold_key ''err'') = Some (set_str (\<lambda>s r. r\<lparr>rs_Err := s\<rparr>))"
  by (simp_all add: response_fields_def key_lookup)

text \<open>Every struct is read back as it was written, when its integers fit.\<close>

lemma decode_deviceInfo: "decode_struct deviceInfo_fields (deviceInfo_json i) DeviceInfo0 = Some i"
  by (simp add: deviceInfo_json_def DeviceInfo0_def deviceInfo_lookup control_steps)

lemma decode_statusInfo: "int64 (si_NumDevices i) \<Longrightarrow> decode_struct statusInfo_fields (statusInfo_json i) StatusInfo0 = Some i"
  by (simp add: statusInfo_json_def StatusInfo0_def statusInfo_lookup control_steps last_member)

lemma decode_pairInfo: "decode_struct pairInfo_fields (pairInfo_json i) PairInfo0 = Some i"
  by (simp add: pairInfo_json_def PairInfo0_def pairInfo_lookup control_steps)

lemma decode_nearbyInfo: "decode_struct nearbyInfo_fields (nearbyInfo_json i) NearbyInfo0 = Some i"
  by (simp add: nearbyInfo_json_def NearbyInfo0_def nearbyInfo_lookup control_steps)

lemma decode_queueItem: "int64 (qi_Tries i) \<Longrightarrow> decode_struct queueItem_fields (queueItem_json i) QueueItem0 = Some i"
  by (simp add: queueItem_json_def QueueItem0_def queueItem_lookup control_steps)

definition event_ints_ok :: "event \<Rightarrow> bool" where
  "event_ints_ok e \<longleftrightarrow> int64 (ev_Index e) \<and> int64 (ev_Count e) \<and> int64 (ev_BytesDone e) \<and> int64 (ev_Total e)"

lemma json_not_null [simp]:
  "statusInfo_json si \<noteq> JNull" "pairInfo_json p \<noteq> JNull" "event_json e \<noteq> JNull"
  by (simp_all add: statusInfo_json_def pairInfo_json_def event_json_def)

lemma decode_event: "event_ints_ok e \<Longrightarrow> decode_struct event_fields (event_json e) Event0 = Some e"
  by (simp add: event_ints_ok_def event_json_def Event0_def event_lookup control_steps last_member
      decode_opt_ptr [OF event_lookup(9)] decode_pairInfo [unfolded decode_struct_def])

text \<open>Strings that JSON keeps, and integers of Go's range.\<close>

definition deviceInfo_ok :: "deviceInfo \<Rightarrow> bool" where
  "deviceInfo_ok i \<longleftrightarrow> list_all utf8_valid [di_Name i, di_Fingerprint i, di_Addr i, di_PairedAt i]"

definition statusInfo_ok :: "statusInfo \<Rightarrow> bool" where
  "statusInfo_ok i \<longleftrightarrow> int64 (si_NumDevices i) \<and>
     list_all utf8_valid ([si_Name i, si_Fingerprint i, si_ListenAddr i, si_LastPeer i, si_RNSAddr i] @ si_RNSHubs i)"

definition pairInfo_ok :: "pair_info \<Rightarrow> bool" where
  "pairInfo_ok i \<longleftrightarrow> list_all utf8_valid [pi_ID i, pi_Name i, pi_Fingerprint i, pi_Code i]"

definition nearbyInfo_ok :: "nearby_info \<Rightarrow> bool" where
  "nearbyInfo_ok i \<longleftrightarrow> list_all utf8_valid [nb_Name i, nb_Addr i, nb_Fingerprint i]"

definition queueItem_ok :: "queueItem \<Rightarrow> bool" where
  "queueItem_ok i \<longleftrightarrow> int64 (qi_Tries i) \<and>
     list_all utf8_valid ([qi_ID i, qi_Peer i, qi_What i, qi_Added i, qi_Reason i] @ qi_Paths i)"

definition event_ok :: "event \<Rightarrow> bool" where
  "event_ok e \<longleftrightarrow> event_ints_ok e \<and> pred_option pairInfo_ok (ev_Pair e) \<and>
     list_all utf8_valid [ev_Kind e, ev_Peer e, ev_File e, ev_Err e, ev_Path e]"

definition response_ok :: "response \<Rightarrow> bool" where
  "response_ok r \<longleftrightarrow> list_all utf8_valid [rs_Line r, rs_QR r, rs_Err r] \<and> list_all deviceInfo_ok (rs_Devices r) \<and>
     pred_option statusInfo_ok (rs_Status r) \<and> pred_option event_ok (rs_Event r) \<and> pred_option pairInfo_ok (rs_Pair r) \<and>
     list_all pairInfo_ok (rs_Pending r) \<and> list_all queueItem_ok (rs_Queue r) \<and> list_all nearbyInfo_ok (rs_Nearby r)"

lemma part_json_ok:
  "deviceInfo_ok di \<Longrightarrow> json_ok (deviceInfo_json di)"
  "statusInfo_ok si \<Longrightarrow> json_ok (statusInfo_json si)"
  "pairInfo_ok p \<Longrightarrow> json_ok (pairInfo_json p)"
  "nearbyInfo_ok nb \<Longrightarrow> json_ok (nearbyInfo_json nb)"
  "queueItem_ok q \<Longrightarrow> json_ok (queueItem_json q)"
  by (simp_all add: deviceInfo_ok_def statusInfo_ok_def pairInfo_ok_def nearbyInfo_ok_def queueItem_ok_def
      deviceInfo_json_def statusInfo_json_def pairInfo_json_def nearbyInfo_json_def queueItem_json_def
      control_ok members_ok_nested list_all_iff del: json_ok.simps(4)) auto

lemma event_json_ok: "event_ok e \<Longrightarrow> json_ok (event_json e)"
  by (simp add: event_ok_def event_json_def control_ok members_ok_nested part_json_ok pred_option_def del: json_ok.simps(4)) auto

lemma response_json_ok: "response_ok r \<Longrightarrow> json_ok (response_json r)"
  by (simp add: response_ok_def response_json_def control_ok members_ok_nested part_json_ok event_json_ok
      pred_option_def list_all_iff del: json_ok.simps(4))

lemma decode_response:
  assumes "response_ok r"
  shows "decode_struct response_fields (response_json r) Response0 = Some r"
proof -
  note parts = decode_deviceInfo decode_pairInfo decode_nearbyInfo decode_statusInfo decode_queueItem decode_event
  have "decode_struct statusInfo_fields (statusInfo_json si) StatusInfo0 = Some si" if "rs_Status r = Some si" for si
    using assms that by (simp add: parts response_ok_def statusInfo_ok_def)
  moreover have "decode_struct event_fields (event_json e) Event0 = Some e" if "rs_Event r = Some e" for e
    using assms that by (simp add: parts response_ok_def event_ok_def)
  moreover have "decode_struct queueItem_fields (queueItem_json q) QueueItem0 = Some q" if "q \<in> set (rs_Queue r)" for q
    using assms that by (simp add: parts response_ok_def queueItem_ok_def list_all_iff)
  ultimately show ?thesis
    by (simp add: response_json_def Response0_def response_lookup control_steps(1-8) decode_struct_def [of response_fields]
      last_member decode_opt_ptr [OF response_lookup(4)] decode_opt_ptr [OF response_lookup(5)]
      decode_opt_ptr [OF response_lookup(6)] decode_opt_list [OF response_lookup(3)] decode_opt_list [OF response_lookup(7)]
      decode_opt_list [OF response_lookup(8)] decode_opt_list [OF response_lookup(9)] parts(1-3))
qed

section \<open>Streams of JSON values\<close>

text \<open>
  \<^verbatim>\<open>Encoder.Encode\<close> writes a value and a newline; \<^verbatim>\<open>Decoder.Decode\<close> takes the next value from the
  connection and leaves what follows it.
\<close>

definition Encode_value :: "json \<Rightarrow> bytes" where
  "Encode_value v = json_print v @ [newline]"

definition next_value :: "bytes \<Rightarrow> (json \<times> bytes) option" where
  "next_value s = p_value (2 * length s + 2) (skip_ws s)"

definition Decode_next :: "'a fields \<Rightarrow> 'a \<Rightarrow> bytes \<Rightarrow> ('a \<times> bytes) option" where
  "Decode_next fs zero s = (case next_value s of
     None \<Rightarrow> None
   | Some (v, t) \<Rightarrow> map_option (\<lambda>x. (x, t)) (decode_struct fs v zero))"

lemma next_value_encoded:
  assumes "json_ok v" "blank w"
  shows "next_value (w @ Encode_value v @ r) = Some (v, newline # r)"
proof -
  have r: "reads (json_print v) v" using assms(1) by (rule json_print_reads)
  have d: "json_delim (newline # r)" by (simp add: json_delim_def json_ws_def)
  have "skip_ws (w @ Encode_value v @ r) = json_print v @ newline # r"
    using assms(2) reads_start [OF r, of "newline # r"] by (simp add: Encode_value_def)
  then show ?thesis using readsD [OF r d] by (simp add: next_value_def Encode_value_def del: p_value.simps)
qed

text \<open>The parser takes at least one byte, so a loop over the values of a connection ends.\<close>

lemma p_chars_shorter: "p_chars s = Some (x, t) \<Longrightarrow> length t < length s"
proof (induction "length s" arbitrary: s x t rule: less_induct)
  case less
  have IH: "length s' < length s \<longrightarrow> length u < length s'" if "p_chars s' = Some (a, u)" for s' a u
    using less(1) [of s' a u] that by blast
  from less(2) [unfolded p_chars.simps [of s]] show ?case
    by (auto split: list.splits if_splits option.splits dest!: IH)
qed

lemma p_num_shorter: "p_num s = Some (x, t) \<Longrightarrow> length t < length s"
proof -
  have digits: "p_digits s = Some (x, t) \<Longrightarrow> length t < length s" for s x t
    by (cases s) (auto simp: p_digits_def Let_def split: if_splits intro: le_imp_less_Suc length_dropWhile_le)
  have int: "p_int s = Some (x, t) \<Longrightarrow> length t < length s" for s x t
    by (auto simp: p_int_def split: list.splits if_splits dest: digits)
  have frac: "p_frac s = Some (x, t) \<Longrightarrow> length t \<le> length s" for s x t
    by (auto simp: p_frac_def split: list.splits if_splits dest: digits)
  have exp: "p_exp s = Some (x, t) \<Longrightarrow> length t \<le> length s" for s x t
    by (auto simp: p_exp_def split: list.splits if_splits dest!: digits)
  assume "p_num s = Some (x, t)"
  then show ?thesis
    by (auto simp: p_num_def Let_def split: list.splits if_splits option.splits prod.splits dest!: int frac exp)
qed

lemma skip_ws_le: "length (skip_ws s) \<le> length s"
  by (simp add: skip_ws_def length_dropWhile_le)

lemma p_lit_shorter: "p_lit l v s = Some (x, t) \<Longrightarrow> l \<noteq> [] \<Longrightarrow> length t < length s"
  by (auto simp: p_lit_def prefix_def split: if_splits)

lemma p_value_shorter:
  "p_value n s = Some (v, t) \<Longrightarrow> length t < length s"
  "p_elems n s = Some (vs, t) \<Longrightarrow> length t < length s"
  "p_members n s = Some (ms, t) \<Longrightarrow> length t < length s"
proof (induction n arbitrary: s v vs ms t)
  case (Suc n)
  have ws: "skip_ws u = d # w \<Longrightarrow> length w < length u" for u d w using skip_ws_le [of u] by simp
  have after: "length w < length (skip_ws u) \<Longrightarrow> length w < length u" for u w :: string
    using skip_ws_le [of u] by simp
  { case 1
    then show ?case
      by (auto split: list.splits if_splits dest!: Suc(2,3) ws dest: p_chars_shorter p_num_shorter p_lit_shorter)
  next
    case 2
    then show ?case
      by (auto split: list.splits if_splits option.splits prod.splits dest!: Suc(1,2) ws after)
  next
    case 3
    then show ?case
      by (auto split: list.splits if_splits option.splits prod.splits dest!: Suc(1,3) ws p_chars_shorter after)
  }
qed simp_all

lemma Decode_next_shorter: "Decode_next fs zero s = Some (x, t) \<Longrightarrow> length t < length s"
  using skip_ws_le [of s] by (auto simp: Decode_next_def next_value_def simp del: p_value.simps
      split: option.splits dest!: p_value_shorter)

text \<open>Values read until one satisfies \<^term>\<open>stop\<close>, and whether one did before the connection ended.\<close>

function read_until :: "'a fields \<Rightarrow> 'a \<Rightarrow> ('a \<Rightarrow> bool) \<Rightarrow> bytes \<Rightarrow> 'a list \<times> bool" where
  "read_until fs zero stop s = (case Decode_next fs zero s of
     None \<Rightarrow> ([], False)
   | Some (x, t) \<Rightarrow> if stop x then ([x], True) else apfst ((#) x) (read_until fs zero stop t))"
  by pat_completeness auto
termination
  by (relation "measure (\<lambda>(fs, zero, stop, s). length s)") (auto dest: Decode_next_shorter)

declare read_until.simps [simp del]

text \<open>What two sides need of an encoding to exchange values over one connection.\<close>

locale json_codec =
  fixes enc :: "'a \<Rightarrow> json" and fs :: "'a fields" and zero :: 'a and ok :: "'a \<Rightarrow> bool"
  assumes enc_ok: "ok x \<Longrightarrow> json_ok (enc x)"
    and dec_enc: "ok x \<Longrightarrow> decode_struct fs (enc x) zero = Some x"
begin

lemma next_written:
  "ok x \<Longrightarrow> blank w \<Longrightarrow> Decode_next fs zero (w @ Encode_value (enc x) @ r) = Some (x, newline # r)"
  using next_value_encoded [OF enc_ok, of x w r] by (simp add: Decode_next_def dec_enc)

lemma read_written:
  assumes "list_all ok (xs @ [x])" "list_all (\<lambda>y. \<not> stop y) xs" "stop x" "blank w"
  shows "read_until fs zero stop (w @ concat (map (Encode_value \<circ> enc) (xs @ [x])) @ r) = (xs @ [x], True)"
  using assms
proof (induction xs arbitrary: w)
  case Nil
  then show ?case by (simp add: read_until.simps [of _ _ _ "_ @ _"] next_written)
next
  case (Cons y ys)
  from Cons.IH [of "[newline]"] Cons.prems show ?case
    by (simp add: read_until.simps [of _ _ _ "_ @ _"] next_written json_ws_def)
qed

lemma read_cut:
  assumes "list_all ok xs" "list_all (\<lambda>y. \<not> stop y) xs" "blank w"
  shows "read_until fs zero stop (w @ concat (map (Encode_value \<circ> enc) xs)) = (xs, False)"
  using assms
proof (induction xs arbitrary: w)
  case Nil
  then have "skip_ws w = []" by (simp add: skip_ws_def blank_def list_all_iff)
  then show ?case by (simp add: read_until.simps Decode_next_def next_value_def)
next
  case (Cons y ys)
  from Cons.IH [of "[newline]"] Cons.prems show ?case
    by (simp add: read_until.simps [of _ _ _ "_ @ _"] next_written json_ws_def)
qed

end

interpretation request_codec: json_codec request_json request_fields Request0 request_ok
  by unfold_locales (simp_all add: request_json_ok decode_request)

interpretation response_codec: json_codec response_json response_fields Response0 response_ok
  by unfold_locales (simp_all add: response_json_ok decode_response)

section \<open>The token endpoint\<close>

text \<open>\<^verbatim>\<open>conn_tcp.go\<close>: the file that publishes the endpoint, and the line a client sends first.\<close>

record endpoint =
  ep_Addr :: string
  ep_Token :: string

definition endpoint_json :: "endpoint \<Rightarrow> json" where
  "endpoint_json e = JObj [(''addr'', JStr (ep_Addr e)), (''token'', JStr (ep_Token e))]"

definition endpoint_fields :: "endpoint fields" where
  "endpoint_fields = [(''addr'', set_str (\<lambda>s e. e\<lparr>ep_Addr := s\<rparr>)), (''token'', set_str (\<lambda>s e. e\<lparr>ep_Token := s\<rparr>))]"

text \<open>Where the endpoint is published; the arguments are environment variables, empty when unset.\<close>

definition EndpointFile :: "string \<Rightarrow> string option \<Rightarrow> string \<Rightarrow> string" where
  "EndpointFile adrop_ipc_file userConfigDir tempDir =
     (if adrop_ipc_file \<noteq> [] then adrop_ipc_file
      else Join (Join (case userConfigDir of Some dir \<Rightarrow> dir | None \<Rightarrow> tempDir) ''adrop'') ''ipc.json'')"

definition SocketPath :: "string \<Rightarrow> string \<Rightarrow> string \<Rightarrow> string" where
  "SocketPath adrop_socket xdg_runtime_dir tempDir =
     (if adrop_socket \<noteq> [] then adrop_socket
      else Join (if xdg_runtime_dir \<noteq> [] then xdg_runtime_dir else tempDir) ''adrop.sock'')"

fun readLine_from :: "string \<Rightarrow> bytes \<Rightarrow> string option \<times> bytes" where
  "readLine_from b [] = (None, [])"
| "readLine_from b (c # t) =
     (if 256 \<le> length b then (None, c # t)
      else if c = newline then (Some b, t) else readLine_from (b @ [c]) t)"

definition readLine :: "bytes \<Rightarrow> string option \<times> bytes" where
  "readLine c = readLine_from [] c"

text \<open>
  \<^verbatim>\<open>Accept\<close> over the connections that arrive: the first one with the token, what follows the token on
  it, and the connections not yet looked at; none when the listener fails first.
\<close>

fun Accept :: "string \<Rightarrow> bytes list \<Rightarrow> (bytes \<times> bytes list) option" where
  "Accept token [] = None"
| "Accept token (c # cs) = (case readLine c of
     (Some line, rest) \<Rightarrow> if line = token then Some (rest, cs) else Accept token cs
   | (None, _) \<Rightarrow> Accept token cs)"

text \<open>\<^verbatim>\<open>Listen\<close> with the address it got, its random bytes and whether the file could be written: the
  token it expects and the file's content.\<close>

definition ipc_Listen :: "string \<Rightarrow> bytes \<Rightarrow> bool \<Rightarrow> bool \<Rightarrow> (string \<times> bytes) option" where
  "ipc_Listen addr tb mkdir_ok write_ok =
     (let ep = \<lparr>ep_Addr = addr, ep_Token = hex_encode tb\<rparr>; raw = json_print (endpoint_json ep) in
      if \<not> mkdir_ok then None else if \<not> write_ok then None else Some (ep_Token ep, raw))"

text \<open>\<^verbatim>\<open>Dial\<close>: the address dialed and the bytes the client writes first.\<close>

datatype ipc_error = NotRunning | BadEndpoint | Unreached string | TokenNotWritten

definition ipc_Dial :: "bytes option \<Rightarrow> (string \<Rightarrow> bool) \<Rightarrow> bool \<Rightarrow> ipc_error + (string \<times> bytes)" where
  "ipc_Dial raw reachable write_ok = (case raw of
     None \<Rightarrow> Inl NotRunning
   | Some r \<Rightarrow>
       (case Option.bind (json_unmarshal r) (\<lambda>v. decode_struct endpoint_fields v \<lparr>ep_Addr = [], ep_Token = []\<rparr>) of
          None \<Rightarrow> Inl BadEndpoint
        | Some ep \<Rightarrow>
            if \<not> reachable (ep_Addr ep) then Inl (Unreached (ep_Addr ep))
            else if \<not> write_ok then Inl TokenNotWritten
            else Inr (ep_Addr ep, ep_Token ep @ [newline])))"

lemma readLine_line: "newline \<notin> set l \<Longrightarrow> length (b @ l) < 256 \<Longrightarrow> readLine_from b (l @ newline # r) = (Some (b @ l), r)"
  by (induction l arbitrary: b) auto

lemma readLine_sound: "readLine_from b s = (Some l, r) \<Longrightarrow> \<exists>u. s = u @ newline # r \<and> l = b @ u"
  by (induction b s rule: readLine_from.induct) (auto split: if_splits)

definition line_token :: "string \<Rightarrow> bool" where
  "line_token token \<longleftrightarrow> newline \<notin> set token \<and> length token < 256"

lemma readLine_token:
  assumes "line_token token"
  shows "readLine c = (Some token, rest) \<longleftrightarrow> c = token @ newline # rest"
  using readLine_line [of token "[]" rest] readLine_sound [of "[]" c token rest] assms
  by (auto simp: readLine_def line_token_def)

lemma Accept_iff:
  assumes "line_token token"
  shows "Accept token cs = Some (rest, later) \<longleftrightarrow>
    (\<exists>early. cs = early @ (token @ newline # rest) # later \<and> (\<forall>c\<in>set early. \<not> prefix (token @ [newline]) c))"
proof (induction cs)
  case (Cons c cs)
  have p: "prefix (token @ [newline]) c \<longleftrightarrow> (\<exists>r. readLine c = (Some token, r))"
    by (simp add: readLine_token [OF assms] prefix_def)
  show ?case
  proof (cases "prefix (token @ [newline]) c")
    case True
    then obtain r where r: "readLine c = (Some token, r)" using p by blast
    moreover have "c = token @ newline # r" using r readLine_token [OF assms] by blast
    ultimately show ?thesis using True
      by (auto simp: append_eq_Cons_conv Cons_eq_append_conv)
  next
    case False
    then have "Accept token (c # cs) = Accept token cs" using p by (auto split: option.splits prod.splits)
    then show ?thesis using Cons.IH False by (auto simp: Cons_eq_append_conv)
  qed
qed auto

lemma hex_newline: "newline \<notin> set (hex_encode b)"
proof -
  have "hex_digit d \<noteq> newline" if "d < 16" for d
    using hex_val_digit [OF that] by (auto simp: hex_val_def)
  moreover have "cv c div 16 < 16" for c by (simp add: less_mult_imp_div_less)
  ultimately show ?thesis by (induction b rule: hex_encode.induct) (simp_all add: eq_commute [of newline])
qed

lemma Dial_published:
  assumes "utf8_valid (ep_Addr e)" "utf8_valid (ep_Token e)"
  shows "ipc_Dial (Some (json_print (endpoint_json e))) (\<lambda>_. True) True = Inr (ep_Addr e, ep_Token e @ [newline])"
proof -
  have "json_ok (endpoint_json e)"
    using assms by (simp add: endpoint_json_def control_ok del: json_ok.simps(4))
  moreover have "decode_struct endpoint_fields (endpoint_json e) \<lparr>ep_Addr = [], ep_Token = []\<rparr> = Some e"
    by (simp add: endpoint_json_def endpoint_fields_def key_lookup control_steps)
  ultimately show ?thesis by (simp add: ipc_Dial_def json_unmarshal_print)
qed

text \<open>
  Property C26. The token endpoint of \<^verbatim>\<open>conn_tcp.go\<close> hands a connection to the daemon exactly when it
  starts with the line the daemon published, skipping every other one and keeping every byte after that
  line; and a client that reads the published file is admitted, its request arriving as it was sent. A
  connection is the bytes that arrive before its read deadline, which is lifted after the line.
\<close>

theorem token_endpoint:
  assumes "ipc_Listen addr tb True True = Some (token, raw)" "length tb = 24" "utf8_valid addr" "request_ok r"
    "\<forall>c\<in>set strangers. \<not> prefix (token @ [newline]) c"
  shows "(\<forall>cs rest later. Accept token cs = Some (rest, later) \<longleftrightarrow>
      (\<exists>early. cs = early @ (token @ newline # rest) # later \<and> (\<forall>c\<in>set early. \<not> prefix (token @ [newline]) c))) \<and>
    (\<exists>first rest. ipc_Dial (Some raw) (\<lambda>_. True) True = Inr (addr, first) \<and>
      Accept token (strangers @ (first @ Encode_value (request_json r) @ after) # later) = Some (rest, later) \<and>
      Decode_next request_fields Request0 rest = Some (r, newline # after))"
proof -
  from assms(1) have t: "token = hex_encode tb" "raw = json_print (endpoint_json \<lparr>ep_Addr = addr, ep_Token = token\<rparr>)"
    by (auto simp: ipc_Listen_def Let_def)
  then have lt: "line_token token" using assms(2) hex_newline by (simp add: line_token_def)
  have "ipc_Dial (Some raw) (\<lambda>_. True) True = Inr (addr, token @ [newline])"
    using Dial_published [of "\<lparr>ep_Addr = addr, ep_Token = token\<rparr>"] assms(3) utf8_hex t by simp
  moreover have "Accept token (strangers @ ((token @ [newline]) @ Encode_value (request_json r) @ after) # later) =
      Some (Encode_value (request_json r) @ after, later)"
    using assms(5) by (subst Accept_iff [OF lt]) auto
  moreover have "Decode_next request_fields Request0 (Encode_value (request_json r) @ after) = Some (r, newline # after)"
    using request_codec.next_written [OF assms(4), of "[]" after] by simp
  ultimately show ?thesis using Accept_iff [OF lt] by blast
qed

theorem token_endpoint_witness:
  "\<exists>token raw first rest. ipc_Listen ''127.0.0.1:4000'' (replicate 24 (CHR 0x2A)) True True = Some (token, raw) \<and>
     ipc_Dial (Some raw) (\<lambda>_. True) True = Inr (''127.0.0.1:4000'', first) \<and>
     Accept token ([''nonsense''] @ (first @ Encode_value (request_json (Request0\<lparr>rq_Cmd := ''status''\<rparr>)) @ []) # []) = Some (rest, []) \<and>
     Decode_next request_fields Request0 rest = Some (Request0\<lparr>rq_Cmd := ''status''\<rparr>, [newline])"
proof -
  obtain token raw where l: "ipc_Listen ''127.0.0.1:4000'' (replicate 24 (CHR 0x2A)) True True = Some (token, raw)"
    by (simp add: ipc_Listen_def Let_def)
  moreover have "token = hex_encode (replicate 24 (CHR 0x2A))" using l by (simp add: ipc_Listen_def Let_def)
  then have "\<forall>c\<in>set [''nonsense'']. \<not> prefix (token @ [newline]) c"
    by (auto dest!: prefix_length_le)
  moreover have "request_ok (Request0\<lparr>rq_Cmd := ''status''\<rparr>)" "utf8_valid ''127.0.0.1:4000''"
    by (simp_all add: request_ok_def Request0_def utf8_valid_ascii)
  ultimately show ?thesis
    using token_endpoint [of "''127.0.0.1:4000''" "replicate 24 (CHR 0x2A)" token raw "Request0\<lparr>rq_Cmd := ''status''\<rparr>"
        "[''nonsense'']" "[]" "[]"] by fastforce
qed

end
