(* ===== verification/Tap_Pair.thy ===== *)
theory Tap_Pair
  imports Peer
begin

text \<open>
  Tap pairing, \<^verbatim>\<open>internal/daemon/tappair.go\<close>: the requests, the two answers, the outcome. The
  \<^verbatim>\<open>select\<close> of \<^verbatim>\<open>awaitAnswers\<close> takes whichever channel is ready; here the order in which they become
  ready is an argument, a list of events, so a theorem for every list covers every scheduling. The
  answer channel holds one answer and the first one wins.
\<close>

section \<open>Requests\<close>

datatype tap_error = PairDeclined | PeerDeclined | PairTimeout | Cancelled | TapWrite proto_error | TapSave
  | TapOff | TapDial | ThatIsUs | TapRead proto_error | NotPairRequest string | NoPendingPairing

definition pair_request_header :: "daemon \<Rightarrow> string \<Rightarrow> header" where
  "pair_request_header d addr = Header0\<lparr>h_Type := TypePairRequest, h_Version := ProtocolVersion, h_RNS := dm_rnsKey d,
     h_Name := dm_name d, h_Addr := addr\<rparr>"

definition sendPairRequest :: "string \<Rightarrow> daemon \<Rightarrow> tap_error option \<times> bytes \<times> daemon" where
  "sendPairRequest ip d =
     (let (addr, d') = advertiseAddr ip d; (out, err) = WriteControl (pair_request_header d' addr) in
      (map_option TapWrite err, out, d'))"

definition readPairRequest :: "bytes \<Rightarrow> (tap_error + header) \<times> bytes" where
  "readPairRequest conn = (case ReadHeader conn of
     (Inl e, r) \<Rightarrow> (Inl (TapRead e), r)
   | (Inr h, r) \<Rightarrow> if h_Type h \<noteq> TypePairRequest \<or> h_Name h = [] then (Inl (NotPairRequest (h_Type h)), r) else (Inr h, r))"

section \<open>Answers\<close>

datatype tap_event = Decide bool | Remote | Timer | Cancel

definition confirm_header :: "bool \<Rightarrow> header" where
  "confirm_header ok = Header0\<lparr>h_Type := TypePairConfirm, h_OK := ok\<rparr>"

text \<open>What the goroutine reading the peer's answer puts into its channel.\<close>

definition remote_answer :: "bytes \<Rightarrow> bool" where
  "remote_answer conn = (case ReadHeader conn of
     (Inr h, r) \<Rightarrow> h_Type h = TypePairConfirm \<and> h_OK h
   | _ \<Rightarrow> False)"

text \<open>
  The loop of \<^verbatim>\<open>awaitAnswers\<close>: \<^term>\<open>open\<close> while the local answer is still taken. No result means it is
  still waiting when the events end.
\<close>

fun await :: "bool \<Rightarrow> bool \<Rightarrow> bool \<Rightarrow> bool \<Rightarrow> tap_event list \<Rightarrow> (tap_error + unit) option \<times> bytes" where
  "await answer open localYes remoteYes es =
     (if localYes \<and> remoteYes then (Some (Inr ()), [])
      else case es of
        [] \<Rightarrow> (None, [])
      | Decide ok # es' \<Rightarrow>
          if \<not> open then await answer open localYes remoteYes es'
          else
            (let (out, err) = WriteControl (confirm_header ok) in
             case err of
               Some e \<Rightarrow> (Some (Inl (TapWrite e)), out)
             | None \<Rightarrow>
                 if \<not> ok then (Some (Inl PairDeclined), out)
                 else (let (res, out') = await answer False True remoteYes es' in (res, out @ out')))
      | Remote # es' \<Rightarrow>
          if remoteYes then await answer open localYes remoteYes es'
          else if \<not> answer then (Some (Inl PeerDeclined), [])
          else await answer open localYes True es'
      | Timer # _ \<Rightarrow> (Some (Inl PairTimeout), [])
      | Cancel # _ \<Rightarrow> (Some (Inl Cancelled), []))"

declare await.simps [simp del]

definition tap_device :: "daemon \<Rightarrow> pendingPair \<Rightarrow> string \<Rightarrow> string \<Rightarrow> string \<Rightarrow> device" where
  "tap_device d p peerAddr remote now = Device0\<lparr>d_Name := pi_Name (pp_info p), d_Fingerprint := pi_Fingerprint (pp_info p),
     d_Addr := resolvePeerAddr d peerAddr remote, d_PairedAt := now, d_RNS := pp_rns p\<rparr>"

definition awaitAnswers ::
  "conn_env \<Rightarrow> tap_event list \<Rightarrow> bytes \<Rightarrow> pendingPair \<Rightarrow> string \<Rightarrow> daemon \<Rightarrow> (tap_error + device) option \<times> bytes \<times> daemon" where
  "awaitAnswers ce es conn p peerAddr d =
     (case await (remote_answer conn) True False False es of
        (None, out) \<Rightarrow> (None, out, d)
      | (Some (Inl e), out) \<Rightarrow> (Some (Inl e), out, d)
      | (Some (Inr _), out) \<Rightarrow>
          (let dev = tap_device d p peerAddr (ce_remote ce) (ce_now ce);
               (err, st) = AddDevice (ce_wok ce 0) (ce_now ce) dev (dm_store d) in
           (Some (if err \<noteq> None then Inl TapSave else Inr dev), out, d\<lparr>dm_store := st\<rparr>)))"

section \<open>The session\<close>

definition pending_pair :: "daemon \<Rightarrow> bytes \<Rightarrow> header \<Rightarrow> string \<Rightarrow> pendingPair" where
  "pending_pair d idb peer fp =
     \<lparr>pp_info = \<lparr>pi_ID = hex_encode idb, pi_Name = sanitizeName (h_Name peer), pi_Fingerprint = fp,
        pi_Code = Code (Store_Fingerprint (dm_store d)) fp\<rparr>, pp_rns = h_RNS peer\<rparr>"

definition pair_event :: "string \<Rightarrow> pair_info \<Rightarrow> string \<Rightarrow> event" where
  "pair_event kind info err = Event0\<lparr>ev_Kind := kind, ev_Peer := pi_Name info, ev_Pair := Some info, ev_Err := err\<rparr>"

definition tapPairSession ::
  "conn_env \<Rightarrow> (tap_error \<Rightarrow> string) \<Rightarrow> bytes \<Rightarrow> tap_event list \<Rightarrow> bytes \<Rightarrow> header \<Rightarrow> string \<Rightarrow> daemon
   \<Rightarrow> (tap_error + device) option \<times> bytes \<times> daemon" where
  "tapPairSession ce err_text idb es conn peer fp d =
     (let p = pending_pair d idb peer fp; info = pp_info p;
          d1 = broadcast (pair_event ''pair-request'' info [])
                 (d\<lparr>dm_tapPairs := AList.update (pi_ID info) p (dm_tapPairs d)\<rparr>);
          (res, out, d2) = awaitAnswers ce es conn p (h_Addr peer) d1 in
      case res of
        None \<Rightarrow> (None, out, d2)
      | Some r \<Rightarrow>
          (let d3 = d2\<lparr>dm_tapPairs := AList.delete (pi_ID info) (dm_tapPairs d2)\<rparr> in
           (Some r, out,
            broadcast (case r of Inl e \<Rightarrow> pair_event ''pair-error'' info (err_text e) | Inr _ \<Rightarrow> pair_event ''pair-done'' info []) d3)))"

definition handleTapPair ::
  "conn_env \<Rightarrow> (tap_error \<Rightarrow> string) \<Rightarrow> bytes \<Rightarrow> tap_event list \<Rightarrow> string \<Rightarrow> bytes \<Rightarrow> daemon
   \<Rightarrow> (tap_error + device) option \<times> bytes \<times> daemon" where
  "handleTapPair ce err_text idb es fp conn d =
     (case readPairRequest conn of
        (Inl e, r) \<Rightarrow> (Some (Inl e), [], d)
      | (Inr peer, r) \<Rightarrow>
          (case sendPairRequest (ce_lanIP ce) d of
             (Some e, out, d1) \<Rightarrow> (Some (Inl e), out, d1)
           | (None, out, d1) \<Rightarrow>
               (let (res, out', d2) = tapPairSession ce err_text idb es r peer fp d1 in (res, out @ out', d2))))"

text \<open>\<^term>\<open>dial\<close>: the peer's fingerprint and its bytes, when \<^verbatim>\<open>transport.DialPair\<close> succeeds.\<close>

definition PairWith ::
  "conn_env \<Rightarrow> (tap_error \<Rightarrow> string) \<Rightarrow> bytes \<Rightarrow> tap_event list \<Rightarrow> (string \<times> bytes) option \<Rightarrow> daemon
   \<Rightarrow> (tap_error + device) option \<times> bytes \<times> daemon" where
  "PairWith ce err_text idb es dial d =
     (if \<not> dm_tapPair d then (Some (Inl TapOff), [], d)
      else case dial of
        None \<Rightarrow> (Some (Inl TapDial), [], d)
      | Some (fp, conn) \<Rightarrow>
          if fp = Store_Fingerprint (dm_store d) then (Some (Inl ThatIsUs), [], d)
          else case sendPairRequest (ce_lanIP ce) d of
            (Some e, out, d1) \<Rightarrow> (Some (Inl e), out, d1)
          | (None, out, d1) \<Rightarrow>
              (case readPairRequest conn of
                 (Inl e, r) \<Rightarrow> (Some (Inl e), out, d1)
               | (Inr peer, r) \<Rightarrow>
                   (let (res, out', d2) = tapPairSession ce err_text idb es r peer fp d1 in (res, out @ out', d2))))"

definition PendingPairs :: "daemon \<Rightarrow> pair_info list" where
  "PendingPairs d = map (pp_info \<circ> snd) (dm_tapPairs d)"

text \<open>
  \<^verbatim>\<open>ConfirmPair\<close>: which pairing the answer goes to; \<^term>\<open>outcome\<close> is how that pairing ends, or nothing
  when the caller gives up waiting first.
\<close>

definition ConfirmPair :: "string \<Rightarrow> (tap_error + device) option \<Rightarrow> daemon \<Rightarrow> tap_error + pair_info" where
  "ConfirmPair ident outcome d = (case map_of (dm_tapPairs d) ident of
     None \<Rightarrow> Inl NoPendingPairing
   | Some p \<Rightarrow> (case outcome of
       None \<Rightarrow> Inl Cancelled
     | Some (Inl e) \<Rightarrow> Inl e
     | Some (Inr dev) \<Rightarrow> Inr (pp_info p)))"

section \<open>Laws\<close>

lemma confirm_sendable: "sendable_header (confirm_header ok)"
  using length_types by (intro small_header) (simp_all add: confirm_header_def header_defs int64_def)

lemma write_confirm: "WriteControl (confirm_header ok) = (frame (confirm_header ok) [], None)"
  using confirm_sendable by (intro WriteControl_sent) (simp_all add: confirm_header_def Header0_def)

lemma remote_answer_confirm: "remote_answer (frame (confirm_header ok) [] @ r) = ok"
  using ReadHeader_sent [OF confirm_sendable, of ok "[]" r] by (simp add: remote_answer_def confirm_header_def Header0_def)

lemma remote_answer_nothing: "\<not> remote_answer []"
  by (simp add: remote_answer_def ReadHeader_def ReadFull_def)

text \<open>The user's answer is the first one given.\<close>

fun first_answer :: "tap_event list \<Rightarrow> bool option" where
  "first_answer [] = None"
| "first_answer (Decide ok # es) = Some ok"
| "first_answer (e # es) = first_answer es"

lemmas await_unfold = await.simps [of _ _ _ _ "[]"] await.simps [of _ _ _ _ "e # es" for e es]

lemma await_success:
  assumes "await answer (\<not> l) l r es = (Some (Inr u), out)"
  shows "(l \<or> first_answer es = Some True) \<and> (r \<or> answer) \<and> out = (if l then [] else frame (confirm_header True) [])"
  using assms
proof (induction es arbitrary: l r out)
  case (Cons e es)
  show ?case
  proof (cases "l \<and> r")
    case False
    from Cons.prems False show ?thesis
    proof (cases e)
      case (Decide ok)
      show ?thesis
      proof (cases l)
        case True
        with Cons.prems Decide False Cons.IH [of True r out] show ?thesis by (auto simp: await_unfold(2) split: if_splits)
      next
        case lf: False
        show ?thesis
        proof (cases ok)
          case True
          obtain res out' where aw: "await answer False True r es = (res, out')" by fastforce
          with Cons.prems Decide False lf True have "res = Some (Inr u)" "out = frame (confirm_header True) [] @ out'"
            by (auto simp: await_unfold(2) write_confirm)
          with Cons.IH [of True r out'] aw Decide lf True show ?thesis by simp
        qed (use Cons.prems Decide False lf in \<open>auto simp: await_unfold(2) write_confirm\<close>)
      qed
    next
      case Remote
      with Cons.prems False Cons.IH [of l r out] Cons.IH [of l True out] show ?thesis
        by (cases r; cases answer) (auto simp: await_unfold(2))
    qed (auto simp: await_unfold(2))
  qed (use Cons.prems in \<open>auto simp: await_unfold(2)\<close>)
qed (auto simp: await_unfold(1) split: if_splits)

lemma await_writes:
  assumes "await answer (\<not> l) l r es = (res, out)"
  shows "out = [] \<or> (\<not> l \<and> (\<exists>ok. first_answer es = Some ok \<and> out = frame (confirm_header ok) []))"
  using assms
proof (induction es arbitrary: l r res out)
  case (Cons e es)
  show ?case
  proof (cases "l \<and> r")
    case False
    from Cons.prems False show ?thesis
    proof (cases e)
      case (Decide ok)
      obtain res' out' where aw: "await answer False True r es = (res', out')" by fastforce
      with Cons.IH [of True r res' out'] have "out' = []" by simp
      with Cons.prems Decide False aw Cons.IH [of l r res out] show ?thesis
        by (cases l; cases ok) (auto simp: await_unfold(2) write_confirm)
    next
      case Remote
      with Cons.prems False Cons.IH [of l r res out] Cons.IH [of l True res out] show ?thesis
        by (cases r; cases answer) (auto simp: await_unfold(2))
    qed (auto simp: await_unfold(2))
  qed (use Cons.prems in \<open>auto simp: await_unfold(2)\<close>)
qed (auto simp: await_unfold(1) split: if_splits)

lemma tapPairSession_store:
  assumes "tapPairSession ce et idb es conn peer fp d = (res, out, d')"
  obtains (same) "dm_store d' = dm_store d" "\<forall>dev. res \<noteq> Some (Inr dev)"
      "out = [] \<or> (\<exists>ok. first_answer es = Some ok \<and> out = frame (confirm_header ok) [])"
  | (saved) dev where "first_answer es = Some True" "remote_answer conn" "out = frame (confirm_header True) []"
      "d_Fingerprint dev = fp" "d_Name dev = sanitizeName (h_Name peer)" "d_RNS dev = h_RNS peer"
      "dm_store d' = snd (AddDevice (ce_wok ce 0) (ce_now ce) dev (dm_store d))"
      "res = Some (if ce_wok ce 0 then Inr dev else Inl TapSave)"
proof -
  let ?p = "pending_pair d idb peer fp"
  let ?d1 = "broadcast (pair_event ''pair-request'' (pp_info ?p) []) (d\<lparr>dm_tapPairs := AList.update (pi_ID (pp_info ?p)) ?p (dm_tapPairs d)\<rparr>)"
  obtain r o' where aw: "await (remote_answer conn) True False False es = (r, o')" by fastforce
  show thesis
  proof (cases "\<exists>u. r = Some (Inr u)")
    case True
    let ?dev = "tap_device ?d1 ?p (h_Addr peer) (ce_remote ce) (ce_now ce)"
    from True aw await_success [of "remote_answer conn" False False es] have yes:
      "first_answer es = Some True" "remote_answer conn" "o' = frame (confirm_header True) []" by auto
    have ok: "fst (AddDevice w n x s) = (if w then None else Some SaveFailed)" for w n x s
      by (simp add: AddDevice_def Let_def)
    from assms aw True ok [of "ce_wok ce 0" "ce_now ce" ?dev "dm_store d"] show thesis
      by (intro saved [of ?dev] yes)
        (auto simp: tapPairSession_def awaitAnswers_def Let_def tap_device_def pending_pair_def yes(3) split: prod.splits if_splits)
  next
    case False
    with aw assms await_writes [of "remote_answer conn" False False es r o'] show thesis
      by (intro same) (auto simp: tapPairSession_def awaitAnswers_def Let_def split: option.splits sum.splits prod.splits)
  qed
qed

text \<open>
  Property C4. A tap pairing saves a device only when both said yes: whatever order the local answer, the
  peer's answer, the timeout and cancellation arrive in, the trusted list changes only if the first local
  answer was yes, the peer sent its confirmation, and this device sent its own; it gains at most the
  fingerprint of the peer's certificate, and a pairing reported as done is trusted.
\<close>

theorem tap_pair_needs_both:
  assumes "tapPairSession ce et idb es conn peer fp d = (res, out, d')"
  shows "(dm_store d' \<noteq> dm_store d \<longrightarrow>
      first_answer es = Some True \<and> remote_answer conn \<and> out = frame (confirm_header True) []) \<and>
    (IsTrusted (dm_store d') q \<noteq> None \<longrightarrow> IsTrusted (dm_store d) q \<noteq> None \<or> q = fp) \<and>
    (res = Some (Inr dev) \<longrightarrow> d_Fingerprint dev = fp \<and> IsTrusted (dm_store d') fp \<noteq> None)"
  using assms
proof (cases rule: tapPairSession_store)
  case (saved dev')
  have "trusted (dm_store d') = insert fp (trusted (dm_store d))"
    using fps_AddDevice [of "ce_wok ce 0" "ce_now ce" dev' "dm_store d"] saved(4,7) by (auto simp flip: set_map split: if_splits)
  with saved show ?thesis unfolding IsTrusted_iff by (auto split: if_splits)
qed simp

text \<open>
  Tap pairing is mutual consent: when what one device reads is what the other one wrote in its
  session, or a beginning of it if the connection broke, then a device that saves its peer does so only
  if the user of the peer said yes as well.
\<close>

lemma tap_pair_mutual:
  assumes "tapPairSession ceA etA idA esA connA peerA fpB dA = (resA, outA, dA')"
    and "tapPairSession ceB etB idB esB connB peerB fpA dB = (resB, outB, dB')"
    and "prefix connA outB" and "dm_store dA' \<noteq> dm_store dA"
  shows "first_answer esA = Some True \<and> first_answer esB = Some True"
proof -
  from assms(1,4) have a: "first_answer esA = Some True" "remote_answer connA" by (auto elim: tapPairSession_store)
  from assms(2) have "outB = [] \<or> (\<exists>ok. first_answer esB = Some ok \<and> outB = frame (confirm_header ok) [])"
    by (auto elim: tapPairSession_store)
  then obtain ok where b: "first_answer esB = Some ok" "outB = frame (confirm_header ok) []"
    using assms(3) a(2) remote_answer_nothing by auto
  have "connA = outB"
  proof (rule ccontr)
    assume "connA \<noteq> outB"
    with assms(3) b(2) have "strict_prefix connA (frame (confirm_header ok) [])" by (auto simp: strict_prefix_def)
    with ReadHeader_cut confirm_sendable obtain e where "ReadHeader connA = (Inl e, [])" by (metis sendable_header_def)
    with a(2) show False by (simp add: remote_answer_def)
  qed
  with a b remote_answer_confirm [of ok "[]"] show ?thesis by simp
qed

section \<open>Outcomes\<close>

lemma await_ends: "Timer \<in> set es \<or> Cancel \<in> set es \<Longrightarrow> fst (await answer (\<not> l) l r es) \<noteq> None"
proof (induction es arbitrary: l r)
  case (Cons e es)
  show ?case
  proof (cases e)
    case (Decide ok)
    with Cons.prems have "fst (await answer False True r es) \<noteq> None" "fst (await answer (\<not> l) l r es) \<noteq> None"
      using Cons.IH [of True r] Cons.IH [of l r] by auto
    with Decide show ?thesis by (cases ok; cases l) (auto simp: await_unfold(2) write_confirm split: prod.splits)
  next
    case Remote
    with Cons.prems Cons.IH [of l r] Cons.IH [of l True] show ?thesis by (auto simp: await_unfold(2))
  qed (auto simp: await_unfold(2))
qed simp

lemma tapPairSession_res:
  "fst (tapPairSession ce et idb es conn peer fp d) = None \<longleftrightarrow> fst (await (remote_answer conn) True False False es) = None"
  by (auto simp: tapPairSession_def awaitAnswers_def Let_def split: option.splits sum.splits prod.splits)

lemma broadcast_tapPairs [simp]: "dm_tapPairs (broadcast e d) = dm_tapPairs d"
  by (simp add: broadcast_def)

lemma tapPairSession_pending:
  assumes "tapPairSession ce et idb es conn peer fp d = (res, out, d')"
  shows "map_of (dm_tapPairs d') (hex_encode idb) = (if res = None then Some (pending_pair d idb peer fp) else None)"
proof -
  have ident: "pi_ID (pp_info (pending_pair d idb peer fp)) = hex_encode idb" by (simp add: pending_pair_def)
  have keep: "dm_tapPairs d2 = dm_tapPairs d1" if "awaitAnswers ce es conn p a d1 = (r, o', d2)" for p a d1 r o' d2
    using that by (auto simp: awaitAnswers_def Let_def split: option.splits sum.splits prod.splits)
  from assms show ?thesis
    by (auto simp: tapPairSession_def Let_def ident update_conv' AList.delete_conv' dest!: keep
        split: prod.splits option.splits)
qed

text \<open>
  A tap pairing does not hang and is listed exactly while it waits: once the timer fires or the
  context is cancelled it has an outcome, and a pairing is among the pending ones, with the code both
  screens show, if and only if it has none yet.
\<close>

lemma tap_pair_ends:
  assumes "tapPairSession ce et idb es conn peer fp d = (res, out, d')"
  shows "(Timer \<in> set es \<or> Cancel \<in> set es \<longrightarrow> res \<noteq> None) \<and>
    (res = None \<longrightarrow> (\<exists>info\<in>set (PendingPairs d'). pi_ID info = hex_encode idb \<and>
       pi_Code info = Code (Store_Fingerprint (dm_store d)) fp)) \<and>
    (res \<noteq> None \<longrightarrow> ConfirmPair (hex_encode idb) outcome d' = Inl NoPendingPairing)"
proof -
  have "Timer \<in> set es \<or> Cancel \<in> set es \<longrightarrow> res \<noteq> None"
    using tapPairSession_res [of ce et idb es conn peer fp d] await_ends [of es "remote_answer conn" False False] assms by auto
  moreover have "res = None \<longrightarrow> (hex_encode idb, pending_pair d idb peer fp) \<in> set (dm_tapPairs d')"
    using tapPairSession_pending [OF assms] by (auto dest: map_of_SomeD)
  then have p: "res = None \<longrightarrow> pp_info (pending_pair d idb peer fp) \<in> set (PendingPairs d')"
    by (force simp: PendingPairs_def)
  have "res = None \<longrightarrow> (\<exists>info\<in>set (PendingPairs d'). pi_ID info = hex_encode idb \<and>
      pi_Code info = Code (Store_Fingerprint (dm_store d)) fp)"
    by (rule impI, rule bexI [OF _ p [rule_format]]) (simp_all add: pending_pair_def)
  moreover have "res \<noteq> None \<longrightarrow> ConfirmPair (hex_encode idb) outcome d' = Inl NoPendingPairing"
    using tapPairSession_pending [OF assms] by (simp add: ConfirmPair_def)
  ultimately show ?thesis by blast
qed

lemma await_both:
  "es = [Decide True, Remote] \<or> es = [Remote, Decide True] \<Longrightarrow>
   await True True False False es = (Some (Inr ()), frame (confirm_header True) [])"
  by (auto simp: await_unfold write_confirm)

lemma tapPairSession_yes:
  assumes "es = [Decide True, Remote] \<or> es = [Remote, Decide True]" "remote_answer conn" "ce_wok ce 0"
  shows "\<exists>dev d'. tapPairSession ce et idb es conn peer fp d = (Some (Inr dev), frame (confirm_header True) [], d') \<and>
    d_Fingerprint dev = fp \<and> d_Name dev = sanitizeName (h_Name peer) \<and> IsTrusted (dm_store d') fp \<noteq> None"
proof -
  obtain res out d' where run: "tapPairSession ce et idb es conn peer fp d = (res, out, d')"
    by (cases "tapPairSession ce et idb es conn peer fp d")
  have ok: "fst (AddDevice w n x s) = (if w then None else Some SaveFailed)" for w n x s
    by (simp add: AddDevice_def Let_def)
  have "\<exists>dev. res = Some (Inr dev)"
    using run await_both [OF assms(1)] assms(2,3) ok [of True] by (auto simp: tapPairSession_def awaitAnswers_def Let_def split: prod.splits) (metis fst_conv option.distinct(1))
  from run this show ?thesis
  proof (cases rule: tapPairSession_store)
    case (saved dev)
    have "fp \<in> trusted (dm_store d')"
      using fps_AddDevice [of "ce_wok ce 0" "ce_now ce" dev "dm_store d"] saved(4,7) by (auto simp flip: set_map split: if_splits)
    then have "IsTrusted (dm_store d') fp \<noteq> None" by (simp only: IsTrusted_iff)
    with saved run assms(3) show ?thesis by auto
  qed blast
qed

lemma sendPairRequest_sent:
  assumes "advertiseAddr ip d = (addr, d1)" "utf8_valid (dm_name d)" "utf8_valid addr" "utf8_valid (dm_rnsKey d)"
    "length (dm_name d) \<le> 20000" "length addr \<le> 20000" "length (dm_rnsKey d) \<le> 20000"
  shows "sendPairRequest ip d = (None, frame (pair_request_header d addr) [], d1)"
    "dm_name d \<noteq> [] \<Longrightarrow> readPairRequest (frame (pair_request_header d addr) [] @ r) = (Inr (pair_request_header d addr), r)"
proof -
  have same: "pair_request_header d1 addr = pair_request_header d addr"
    using advertiseAddr_frame(8,9) [OF assms(1)] by (simp add: pair_request_header_def)
  have ok: "sendable_header (pair_request_header d addr)"
    using assms(2-7) length_types
    by (intro small_header) (simp_all add: pair_request_header_def header_defs ProtocolVersion_def int64_def)
  then have "WriteControl (pair_request_header d addr) = (frame (pair_request_header d addr) [], None)"
    by (intro WriteControl_sent) (simp_all add: pair_request_header_def Header0_def)
  with assms(1) same show "sendPairRequest ip d = (None, frame (pair_request_header d addr) [], d1)"
    by (simp add: sendPairRequest_def)
  show "readPairRequest (frame (pair_request_header d addr) [] @ r) = (Inr (pair_request_header d addr), r)" if "dm_name d \<noteq> []"
    using that ReadHeader_sent [OF ok, of "[]" r] by (simp add: readPairRequest_def pair_request_header_def Header0_def)
qed

definition tap_ready :: "conn_env \<Rightarrow> daemon \<Rightarrow> bool" where
  "tap_ready ce d \<longleftrightarrow> dm_name d \<noteq> [] \<and> ce_wok ce 0 \<and>
     (let addr = fst (advertiseAddr (ce_lanIP ce) d) in
      list_all (\<lambda>s. utf8_valid s \<and> length s \<le> 20000) [dm_name d, addr, dm_rnsKey d])"

text \<open>
  Property C27. Two users who both say yes are paired: when one device taps the other, each reads what the
  other wrote, and both users confirm (before or after the peer's confirmation arrives), both runs end
  with the other device saved under the fingerprint of the certificate it presented, and if those are the
  devices' own certificates, nobody in between, the two screens showed the same code.
\<close>

theorem tap_pair_completes:
  assumes "dm_tapPair dA" "tap_ready ceA dA" "tap_ready ceB dB"
    and "fpB \<noteq> Store_Fingerprint (dm_store dA)"
    and "esA = [Decide True, Remote] \<or> esA = [Remote, Decide True]" "esB = [Decide True, Remote] \<or> esB = [Remote, Decide True]"
  shows "\<exists>outA outB devA devB dA' dB'.
    PairWith ceA etA idA esA (Some (fpB, outB)) dA = (Some (Inr devA), outA, dA') \<and>
    handleTapPair ceB etB idB esB fpA outA dB = (Some (Inr devB), outB, dB') \<and>
    d_Fingerprint devA = fpB \<and> d_Fingerprint devB = fpA \<and> d_Name devA = sanitizeName (dm_name dB) \<and>
    IsTrusted (dm_store dA') fpB \<noteq> None \<and> IsTrusted (dm_store dB') fpA \<noteq> None \<and>
    (fpA = Store_Fingerprint (dm_store dA) \<and> fpB = Store_Fingerprint (dm_store dB) \<longrightarrow>
       pi_Code (pp_info (pending_pair dA idA peerA fpB)) = pi_Code (pp_info (pending_pair dB idB peerB fpA)))"
proof -
  obtain adA dA1 where a: "advertiseAddr (ce_lanIP ceA) dA = (adA, dA1)" by fastforce
  obtain adB dB1 where b: "advertiseAddr (ce_lanIP ceB) dB = (adB, dB1)" by fastforce
  let ?qA = "pair_request_header dA adA" and ?qB = "pair_request_header dB adB" and ?c = "frame (confirm_header True) []"
  have rA: "sendPairRequest (ce_lanIP ceA) dA = (None, frame ?qA [], dA1)" "\<And>r. readPairRequest (frame ?qA [] @ r) = (Inr ?qA, r)"
    using sendPairRequest_sent [OF a] assms(2) a by (simp_all add: tap_ready_def)
  have rB: "sendPairRequest (ce_lanIP ceB) dB = (None, frame ?qB [], dB1)" "\<And>r. readPairRequest (frame ?qB [] @ r) = (Inr ?qB, r)"
    using sendPairRequest_sent [OF b] assms(3) b by (simp_all add: tap_ready_def)
  have ans: "remote_answer ?c" using remote_answer_confirm [of True "[]"] by simp
  obtain devA dA' where A: "tapPairSession ceA etA idA esA ?c ?qB fpB dA1 = (Some (Inr devA), ?c, dA')"
      "d_Fingerprint devA = fpB" "d_Name devA = sanitizeName (h_Name ?qB)" "IsTrusted (dm_store dA') fpB \<noteq> None"
    using tapPairSession_yes [OF assms(5) ans, of ceA etA idA ?qB fpB dA1] assms(2) by (auto simp: tap_ready_def)
  obtain devB dB' where B: "tapPairSession ceB etB idB esB ?c ?qA fpA dB1 = (Some (Inr devB), ?c, dB')"
      "d_Fingerprint devB = fpA" "IsTrusted (dm_store dB') fpA \<noteq> None"
    using tapPairSession_yes [OF assms(6) ans, of ceB etB idB ?qA fpA dB1] assms(3) by (auto simp: tap_ready_def)
  have "PairWith ceA etA idA esA (Some (fpB, frame ?qB [] @ ?c)) dA = (Some (Inr devA), frame ?qA [] @ ?c, dA')"
    using assms(1,4) rA(1) rB(2) A(1) by (simp add: PairWith_def)
  moreover have "handleTapPair ceB etB idB esB fpA (frame ?qA [] @ ?c) dB = (Some (Inr devB), frame ?qB [] @ ?c, dB')"
    using rA(2) rB(1) B(1) by (simp add: handleTapPair_def)
  moreover have "h_Name ?qB = dm_name dB" by (simp add: pair_request_header_def)
  moreover have "fpA = Store_Fingerprint (dm_store dA) \<and> fpB = Store_Fingerprint (dm_store dB) \<longrightarrow>
      pi_Code (pp_info (pending_pair dA idA peerA fpB)) = pi_Code (pp_info (pending_pair dB idB peerB fpA))"
    by (simp add: pending_pair_def Code_commute)
  ultimately show ?thesis using A(2-4) B(2,3) by metis
qed

section \<open>Witnesses\<close>

definition demo_tap :: daemon where
  "demo_tap = demo_daemon\<lparr>dm_tapPair := True\<rparr>"

lemma demo_tap_facts:
  "dm_tapPair demo_tap" "tap_ready demo_conn demo_tap" "''bb'' \<noteq> Store_Fingerprint (dm_store demo_tap)"
  "IsTrusted (dm_store demo_tap) fp = None"
proof -
  have "length (Store_Fingerprint (dm_store demo_tap)) = 64" by (simp add: Store_Fingerprint_def)
  moreover have "length ''bb'' \<noteq> 64" by simp
  ultimately show "''bb'' \<noteq> Store_Fingerprint (dm_store demo_tap)" by metis
qed (simp_all add: demo_tap_def demo_daemon_def demo_conn_def tap_ready_def advertiseAddr_def utf8_valid_ascii IsTrusted_def)

lemma demo_session_runs:
  obtains dev d' where "tapPairSession demo_conn (\<lambda>_. []) ''id'' [Decide True, Remote] (frame (confirm_header True) []) demo_hello ''bb'' demo_tap =
    (Some (Inr dev), frame (confirm_header True) [], d')" "dm_store d' \<noteq> dm_store demo_tap"
proof -
  obtain dev d' where run: "tapPairSession demo_conn (\<lambda>_. []) ''id'' [Decide True, Remote] (frame (confirm_header True) []) demo_hello ''bb'' demo_tap =
      (Some (Inr dev), frame (confirm_header True) [], d')" "IsTrusted (dm_store d') ''bb'' \<noteq> None"
    using tapPairSession_yes [of "[Decide True, Remote]" "frame (confirm_header True) []" demo_conn "\<lambda>_. []" "''id''" demo_hello "''bb''" demo_tap]
      remote_answer_confirm [of True "[]"] by (auto simp: demo_conn_def)
  with demo_tap_facts(4) [of "''bb''"] that show thesis by metis
qed

theorem tap_pair_needs_both_witness:
  "\<exists>res out d'. tapPairSession demo_conn (\<lambda>_. []) ''id'' [Decide True, Remote] (frame (confirm_header True) []) demo_hello ''bb'' demo_tap = (res, out, d') \<and>
     dm_store d' \<noteq> dm_store demo_tap \<and> out = frame (confirm_header True) []"
  by (rule demo_session_runs) (use tap_pair_needs_both in blast)

theorem tap_pair_completes_witness:
  "\<exists>outA outB devA devB dA' dB'.
    PairWith demo_conn (\<lambda>_. []) ''i'' [Remote, Decide True] (Some (''bb'', outB)) demo_tap = (Some (Inr devA), outA, dA') \<and>
    handleTapPair demo_conn (\<lambda>_. []) ''j'' [Decide True, Remote] ''aa'' outA demo_tap = (Some (Inr devB), outB, dB') \<and>
    IsTrusted (dm_store dA') ''bb'' \<noteq> None"
  using tap_pair_completes [OF demo_tap_facts(1,2,2,3), of "[Remote, Decide True]" "[Decide True, Remote]" "\<lambda>_. []" "''i''" "\<lambda>_. []" "''j''" "''aa''"]
  by blast

end
