(* ===== verification/Handler.thy ===== *)
theory Handler
  imports Control Tap_Pair Hub_Manager
begin

text \<open>
  The daemon's side of the control protocol, \<^verbatim>\<open>internal/daemon/ipc_handler.go\<close>: one definition per arm
  of \<^verbatim>\<open>handleIPC\<close>, the event stream, and the waiting of \<^verbatim>\<open>pair show\<close>. What an arm needs from outside is
  in \<^verbatim>\<open>handler_env\<close>: the network and the files of a send, the clipboard and QR programs, the texts of
  error values, the order of events of a pairing. The result is \<^term>\<open>None\<close> when the handler panics
  (slicing a fingerprint shorter than 16 bytes), else the responses sent, whether the handler has
  returned, and the daemon.
\<close>

section \<open>Environment\<close>

datatype failure =
    BadRequest
  | PairErr "pair_error option"
  | QRErr
  | StoreErr store_error
  | SendErr "sending_error option"
  | TapErr tap_error
  | PingErr "signal_error option"
  | NotQueued string

datatype wake = WindowDone | ClientGone | ShuttingDown

datatype happening = Publish event | Take | Gone | Down

record handler_env =
  hv_text :: "failure \<Rightarrow> string"
  hv_retry :: retry_env
  hv_hub :: hub_env
  hv_conn :: conn_env
  hv_now :: string
  hv_idb :: bytes
  hv_lanIP :: string
  hv_rok :: bool
  hv_wok :: bool
  hv_rns :: "(string \<times> hubManager) option"
  hv_qr :: "string \<Rightarrow> (nat \<times> (nat \<Rightarrow> nat \<Rightarrow> bool)) option"
  hv_others :: "daemon \<Rightarrow> daemon"
  hv_wake :: wake
  hv_progress :: "string list"
  hv_clip :: "string \<Rightarrow> string + bytes"
  hv_tap :: "tap_event list"
  hv_outcome :: "(tap_error + device) option"
  hv_cid :: string
  hv_ponged :: "daemon \<Rightarrow> bool"
  hv_rtt :: string
  hv_stream :: "happening list"

type_synonym served = "(response list \<times> bool \<times> daemon) option"

section \<open>Responses\<close>

definition fail :: "string \<Rightarrow> response" where
  "fail err = Response0\<lparr>rs_Err := err, rs_Done := True\<rparr>"

definition say :: "string \<Rightarrow> response" where
  "say line = Response0\<lparr>rs_Line := line\<rparr>"

definition final_line :: "string \<Rightarrow> response" where
  "final_line line = Response0\<lparr>rs_Line := line, rs_Done := True\<rparr>"

text \<open>The last line of a pairing; the fingerprint is cut at 16 bytes, a shorter one panics.\<close>

definition paired_line :: "string \<Rightarrow> string \<Rightarrow> response option" where
  "paired_line name fp =
     (if length fp < 16 then None else Some (final_line (''paired with '' @ name @ '' ('' @ take 16 fp @ '')'')))"

section \<open>The arms\<close>

definition RNSStatus :: "(string \<times> hubManager) option \<Rightarrow> string \<times> string list" where
  "RNSStatus node = (case node of None \<Rightarrow> ([], []) | Some (addr, m) \<Rightarrow> (addr, Working m))"

definition handle_status :: "handler_env \<Rightarrow> daemon \<Rightarrow> served" where
  "handle_status env d =
     (let fp = st_lastPeer (dm_store d);
          lastPeerName = (if fp \<noteq> [] then (case Lookup (dm_store d) fp of Some dev \<Rightarrow> d_Name dev | None \<Rightarrow> []) else []);
          (rnsAddr, rnsHubs) = RNSStatus (hv_rns env);
          (addr, d') = advertiseAddr (hv_lanIP env) d in
      Some ([Response0\<lparr>rs_Status := Some \<lparr>si_Name = dm_name d, si_Fingerprint = Store_Fingerprint (dm_store d),
               si_ListenAddr = addr, si_NumDevices = int (length (st_devices (dm_store d))), si_LastPeer = lastPeerName,
               si_RNSAddr = rnsAddr, si_RNSHubs = rnsHubs\<rparr>, rs_Done := True\<rparr>], True, d'))"

text \<open>
  The end of \<^verbatim>\<open>pair show\<close>: the window current when it starts waiting, and what wakes it. The daemon is
  the one after whatever other goroutines did in the meantime.
\<close>

definition waitPairOrDisconnect :: "wake \<Rightarrow> nat option \<Rightarrow> daemon \<Rightarrow> response list" where
  "waitPairOrDisconnect wake window d = (case window of
     None \<Rightarrow> [Response0\<lparr>rs_Done := True\<rparr>]
   | Some ps \<Rightarrow>
       (case wake of
          WindowDone \<Rightarrow> [final_line (if ps_paired (dm_sessions d ! ps) \<noteq> []
                                   then ''paired with '' @ ps_paired (dm_sessions d ! ps) else ''pairing complete'')]
        | ClientGone \<Rightarrow> []
        | ShuttingDown \<Rightarrow> [final_line ''daemon shutting down'']))"

definition scan_text :: string where
  "scan_text = ''Scan with the phone (or run `adrop pair add <uri>` on a peer). Waiting'' @ [CHR 0xE2, CHR 0x80, CHR 0xA6]"

definition handle_pair_show :: "handler_env \<Rightarrow> daemon \<Rightarrow> served" where
  "handle_pair_show env d =
     (case PairingURI (hv_lanIP env) d of
        (Inl e, d1) \<Rightarrow> Some ([fail (hv_text env (PairErr (Some e)))], True, d1)
      | (Inr uri, d1) \<Rightarrow>
          (case hv_qr env uri of
             None \<Rightarrow> Some ([fail (hv_text env QRErr)], True, d1)
           | Some (sz, black) \<Rightarrow>
               (let (win, d2) = OpenPairWindow [] [] d1;
                    window = pairWindowDone d2;
                    d3 = hv_others env d2 in
                Some ([Response0\<lparr>rs_QR := RenderTerminal sz black, rs_Line := uri\<rparr>, say scan_text]
                        @ waitPairOrDisconnect (hv_wake env) window d3,
                      True, closePairWindow win d3))))"

definition handle_pair_add :: "handler_env \<Rightarrow> request \<Rightarrow> daemon \<Rightarrow> served" where
  "handle_pair_add env req d =
     (case AddPeer (re_dial (hv_retry env)) (hv_now env) (rq_PairURI req) d of
        (Inl e, d1) \<Rightarrow> Some ([fail (hv_text env (PairErr e))], True, d1)
      | (Inr dev, d1) \<Rightarrow> map_option (\<lambda>r. ([r], True, d1)) (paired_line (d_Name dev) (d_Fingerprint dev)))"

definition handle_devices :: "daemon \<Rightarrow> served" where
  "handle_devices d = Some ([Response0\<lparr>rs_Devices := map (\<lambda>dev. \<lparr>di_Name = d_Name dev, di_Fingerprint = d_Fingerprint dev,
     di_Addr = d_Addr dev, di_PairedAt = format_rfc3339 (d_PairedAt dev)\<rparr>) (st_devices (dm_store d)), rs_Done := True\<rparr>], True, d)"

definition handle_revoke :: "handler_env \<Rightarrow> request \<Rightarrow> daemon \<Rightarrow> served" where
  "handle_revoke env req d =
     (case RemoveDevice (hv_wok env) (rq_Target req) (dm_store d) of
        ((n, Some e), st) \<Rightarrow> Some ([fail (hv_text env (StoreErr e))], True, d\<lparr>dm_store := st\<rparr>)
      | ((n, None), st) \<Rightarrow>
          Some ([if n = 0 then fail (''no device matched '' @ rq_Target req) else final_line ''revoked''], True, d\<lparr>dm_store := st\<rparr>))"

definition handle_rename :: "handler_env \<Rightarrow> request \<Rightarrow> daemon \<Rightarrow> served" where
  "handle_rename env req d =
     (case RenameDevice (hv_wok env) (rq_Target req) (rq_Name req) (dm_store d) of
        (Some e, st) \<Rightarrow> Some ([fail (hv_text env (StoreErr e))], True, d\<lparr>dm_store := st\<rparr>)
      | (None, st) \<Rightarrow> Some ([final_line ''renamed''], True, d\<lparr>dm_store := st\<rparr>))"

definition resolveTarget :: "string \<Rightarrow> store \<Rightarrow> string + string" where
  "resolveTarget target s =
     (if target \<noteq> [] then Inr target
      else if st_lastPeer s = [] then Inl ''no target specified and no previous send on record; use: adrop send <peer> ...''
      else case Lookup s (st_lastPeer s) of
        None \<Rightarrow> Inl ''last-used device is no longer paired; use: adrop send <peer> ...''
      | Some dev \<Rightarrow> Inr (d_Name dev))"

definition handle_send_files :: "handler_env \<Rightarrow> request \<Rightarrow> daemon \<Rightarrow> served" where
  "handle_send_files env req d =
     (case resolveTarget (rq_Target req) (dm_store d) of
        Inl e \<Rightarrow> Some ([fail e], True, d)
      | Inr target \<Rightarrow>
          (case SendFilesOrQueue (hv_retry env) (hv_idb env) (hv_now env) target (rq_Files req) d of
             (Inr (Some e), _, d1) \<Rightarrow> Some (map say (hv_progress env) @ [fail (hv_text env (SendErr (Some e)))], True, d1)
           | (Inr None, _, d1) \<Rightarrow> Some (map say (hv_progress env) @ [Response0\<lparr>rs_Done := True\<rparr>], True, d1)
           | (Inl reason, _, d1) \<Rightarrow>
               Some (map say (hv_progress env) @
                 [if reason \<noteq> [] then final_line (''queued: '' @ reason) else Response0\<lparr>rs_Done := True\<rparr>], True, d1)))"

text \<open>What \<^verbatim>\<open>SendClipboardAnywhere\<close> reports.\<close>

definition clip_report :: "handler_env \<Rightarrow> clip_result \<Rightarrow> response" where
  "clip_report env r = (case r of
     ClipSent \<Rightarrow> final_line ''clipboard sent''
   | ClipThroughHubs \<Rightarrow> final_line ''clipboard sent through reticulum hubs''
   | ClipQueued reason \<Rightarrow> final_line (''queued: '' @ reason)
   | ClipError e \<Rightarrow> fail (hv_text env (SendErr e)))"

definition handle_send_clip :: "handler_env \<Rightarrow> request \<Rightarrow> daemon \<Rightarrow> served" where
  "handle_send_clip env req d =
     (case resolveTarget (rq_Target req) (dm_store d) of
        Inl e \<Rightarrow> Some ([fail e], True, d)
      | Inr target \<Rightarrow>
          (let mime = (if rq_MIME req = [] then ''text/plain'' else rq_MIME req) in
           case (if rq_Text req = [] then hv_clip env mime else Inr (rq_Text req)) of
             Inl e \<Rightarrow> Some ([fail (''read clipboard: '' @ e)], True, d)
           | Inr data \<Rightarrow>
               (let (res, _, d1) = SendClipboardAnywhere (hv_retry env) (hv_hub env) (hv_idb env) (hv_now env) target data mime d in
                Some ([clip_report env res], True, d1))))"

definition pair_addr :: "string \<Rightarrow> daemon \<Rightarrow> string" where
  "pair_addr target d = foldl (\<lambda>addr n. if nb_Name n = target then nb_Addr n else addr) target (Nearby d)"

text \<open>The pairing that \<^verbatim>\<open>PairWith\<close> passes to its callback, if it gets that far.\<close>

definition shown_pair :: "conn_env \<Rightarrow> bytes \<Rightarrow> (string \<times> bytes) option \<Rightarrow> daemon \<Rightarrow> pair_info option" where
  "shown_pair ce idb dial d =
     (if \<not> dm_tapPair d then None
      else case dial of
        None \<Rightarrow> None
      | Some (fp, conn) \<Rightarrow>
          if fp = Store_Fingerprint (dm_store d) then None
          else case sendPairRequest (ce_lanIP ce) d of
            (Some e, out, d1) \<Rightarrow> None
          | (None, out, d1) \<Rightarrow>
              (case readPairRequest conn of
                 (Inl e, r) \<Rightarrow> None
               | (Inr peer, r) \<Rightarrow> Some (pp_info (pending_pair d1 idb peer fp))))"

definition code_response :: "pair_info \<Rightarrow> response" where
  "code_response p = Response0\<lparr>rs_Pair := Some p, rs_Line := ''code '' @ pi_Code p @ '' ('' @ pi_Name p @ '')''\<rparr>"

definition pair_dial :: "dial_env \<Rightarrow> string \<Rightarrow> (string \<times> bytes) option" where
  "pair_dial de addr = (case DialPair (de_net de) (de_lanControl de) addr of
     Inl _ \<Rightarrow> None | Inr (c, fp) \<Rightarrow> Some (fp, tc_in c))"

definition handle_pair_with :: "handler_env \<Rightarrow> request \<Rightarrow> daemon \<Rightarrow> served" where
  "handle_pair_with env req d =
     (let dial = pair_dial (re_dial (hv_retry env)) (pair_addr (rq_Target req) d);
          shown = (case shown_pair (hv_conn env) (hv_idb env) dial d of None \<Rightarrow> [] | Some p \<Rightarrow> [code_response p]) in
      case PairWith (hv_conn env) (hv_text env \<circ> TapErr) (hv_idb env) (hv_tap env) dial d of
        (None, _, d1) \<Rightarrow> Some (shown, False, d1)
      | (Some (Inl e), _, d1) \<Rightarrow> Some (shown @ [fail (hv_text env (TapErr e))], True, d1)
      | (Some (Inr dev), _, d1) \<Rightarrow>
          map_option (\<lambda>r. (shown @ [r], True, d1)) (paired_line (d_Name dev) (d_Fingerprint dev)))"

definition handle_pair_confirm :: "handler_env \<Rightarrow> request \<Rightarrow> daemon \<Rightarrow> served" where
  "handle_pair_confirm env req d =
     (case ConfirmPair (rq_ID req) (hv_outcome env) d of
        Inl e \<Rightarrow> Some ([fail (hv_text env (TapErr e))], True, d)
      | Inr p \<Rightarrow> map_option (\<lambda>r. ([r], True, d)) (paired_line (pi_Name p) (pi_Fingerprint p)))"

definition ping_signal :: "hub_env \<Rightarrow> string \<Rightarrow> daemon \<Rightarrow> signal \<Rightarrow> signal_error option" where
  "ping_signal he target d s =
     (case sendSignal (he_lib he) (he_now he) (he_paths he s) (he_pok he s) (he_node he) target s d of
        Inl e \<Rightarrow> Some e | Inr _ \<Rightarrow> None)"

definition handle_ping :: "handler_env \<Rightarrow> request \<Rightarrow> daemon \<Rightarrow> served" where
  "handle_ping env req d =
     (case Ping (ping_signal (hv_hub env) (rq_Target req) d) (hv_ponged env) (hv_cid env) d of
        (Inl e, d1) \<Rightarrow> Some ([fail (hv_text env (PingErr e))], True, d1)
      | (Inr _, d1) \<Rightarrow>
          Some ([final_line (''pong from '' @ rq_Target req @ '' over reticulum in '' @ hv_rtt env)], True, d1))"

definition handle_unqueue :: "handler_env \<Rightarrow> request \<Rightarrow> daemon \<Rightarrow> served" where
  "handle_unqueue env req d =
     (case Unqueue (hv_rok env) (hv_wok env) (rq_ID req) d of
        (False, d1) \<Rightarrow> Some ([fail (hv_text env (NotQueued (rq_ID req)))], True, d1)
      | (True, d1) \<Rightarrow> Some ([final_line ''dropped''], True, d1))"

section \<open>The event stream\<close>

text \<open>
  \<^verbatim>\<open>streamEvents\<close>: other goroutines publish events, the loop takes one from its channel, the client
  disconnects or the daemon stops, in any order. The stream has not returned when the happenings end.
\<close>

fun stream_loop :: "nat \<Rightarrow> happening list \<Rightarrow> daemon \<Rightarrow> response list \<times> bool \<times> daemon" where
  "stream_loop ch [] d = ([], False, d)"
| "stream_loop ch (Publish e # hs) d = stream_loop ch hs (broadcast e d)"
| "stream_loop ch (Take # hs) d = (case map_of (dm_subs d) ch of
     Some (e # es) \<Rightarrow> apfst ((#) (Response0\<lparr>rs_Event := Some e\<rparr>)) (stream_loop ch hs (d\<lparr>dm_subs := AList.update ch es (dm_subs d)\<rparr>))
   | _ \<Rightarrow> stream_loop ch hs d)"
| "stream_loop ch (Gone # hs) d = ([], True, unsubscribe ch d)"
| "stream_loop ch (Down # hs) d = ([Response0\<lparr>rs_Done := True\<rparr>], True, unsubscribe ch d)"

definition streamEvents :: "happening list \<Rightarrow> daemon \<Rightarrow> served" where
  "streamEvents hs d = (let (ch, d1) = subscribe d in Some (stream_loop ch hs d1))"

section \<open>Dispatch\<close>

definition dispatch :: "handler_env \<Rightarrow> request \<Rightarrow> daemon \<Rightarrow> served" where
  "dispatch env req d =
     (let cmd = rq_Cmd req in
      if cmd = ''status'' then handle_status env d
      else if cmd = ''pair-show'' then handle_pair_show env d
      else if cmd = ''pair-add'' then handle_pair_add env req d
      else if cmd = ''devices'' then handle_devices d
      else if cmd = ''revoke'' then handle_revoke env req d
      else if cmd = ''rename'' then handle_rename env req d
      else if cmd = ''send-files'' then handle_send_files env req d
      else if cmd = ''send-clipboard'' then handle_send_clip env req d
      else if cmd = ''nearby'' then Some ([Response0\<lparr>rs_Nearby := Nearby d, rs_Done := True\<rparr>], True, d)
      else if cmd = ''pair-with'' then handle_pair_with env req d
      else if cmd = ''pair-pending'' then Some ([Response0\<lparr>rs_Pending := PendingPairs d, rs_Done := True\<rparr>], True, d)
      else if cmd = ''pair-confirm'' then handle_pair_confirm env req d
      else if cmd = ''ping'' then handle_ping env req d
      else if cmd = ''queue'' then Some ([Response0\<lparr>rs_Queue := Queue (hv_rok env) d, rs_Done := True\<rparr>], True, d)
      else if cmd = ''unqueue'' then handle_unqueue env req d
      else if cmd = ''subscribe'' then streamEvents (hv_stream env) d
      else Some ([fail (''unknown command: '' @ cmd)], True, d))"

definition handleIPC :: "handler_env \<Rightarrow> bytes \<Rightarrow> daemon \<Rightarrow> served" where
  "handleIPC env conn d = (case Decode_next request_fields Request0 conn of
     None \<Rightarrow> Some ([fail (''decode request: '' @ hv_text env BadRequest)], True, d)
   | Some (req, _) \<Rightarrow> dispatch env req d)"

section \<open>The form of the answers\<close>

text \<open>A response before the last one; and what a client may rely on.\<close>

definition quiet :: "response \<Rightarrow> bool" where
  "quiet r \<longleftrightarrow> \<not> rs_Done r \<and> rs_Err r = []"

definition responses_ok :: "bool \<Rightarrow> response list \<times> bool \<Rightarrow> bool" where
  "responses_ok stays a \<longleftrightarrow> (case a of (rs, returned) \<Rightarrow> list_all quiet (butlast rs) \<and>
     (if returned then stays \<longrightarrow> rs \<noteq> [] \<and> rs_Done (last rs) else list_all quiet rs))"

definition client_stays :: "handler_env \<Rightarrow> bool" where
  "client_stays env \<longleftrightarrow> hv_wake env \<noteq> ClientGone \<and> Gone \<notin> set (hv_stream env)"

lemma quiet_simps [simp]:
  "quiet (say l)" "quiet (code_response p)" "quiet (Response0\<lparr>rs_QR := q, rs_Line := l\<rparr>)" "quiet (Response0\<lparr>rs_Event := ev\<rparr>)"
  "rs_Done (fail e)" "rs_Done (final_line l)"
  by (simp_all add: quiet_def say_def code_response_def fail_def final_line_def Response0_def)

lemma responses_ok_end [simp]: "responses_ok stays (rs @ [r], True) \<longleftrightarrow> list_all quiet rs \<and> (stays \<longrightarrow> rs_Done r)"
  by (simp add: responses_ok_def)

lemma responses_ok_one [simp]: "responses_ok stays ([r], True) \<longleftrightarrow> (stays \<longrightarrow> rs_Done r)"
  using responses_ok_end [of stays "[]"] by simp

lemma responses_ok_Cons: "quiet r \<Longrightarrow> responses_ok stays (rs, b) \<Longrightarrow> responses_ok stays (r # rs, b)"
  by (auto simp: responses_ok_def split: if_splits)

definition served_ok :: "bool \<Rightarrow> served \<Rightarrow> bool" where
  "served_ok stays r \<longleftrightarrow> (case r of None \<Rightarrow> True | Some (rs, b, _) \<Rightarrow> responses_ok stays (rs, b))"

lemma served_ok_simps [simp]:
  "served_ok stays None" "served_ok stays (Some (rs, b, d)) \<longleftrightarrow> responses_ok stays (rs, b)"
  by (simp_all add: served_ok_def)

lemma stream_loop_ok: "stays \<longrightarrow> Gone \<notin> set hs \<Longrightarrow> served_ok stays (Some (stream_loop ch hs d))"
proof (induction ch hs d rule: stream_loop.induct)
  case (3 ch hs d)
  then show ?case
    by (auto split: option.splits list.splits intro!: responses_ok_Cons simp: served_ok_def case_prod_beta)
qed (auto simp: responses_ok_def)

lemma paired_ok: "list_all quiet rs \<Longrightarrow> served_ok stays (map_option (\<lambda>r. (rs @ [r], True, d)) (paired_line n fp))"
  by (simp add: paired_line_def)

lemma wait_ok: "list_all quiet rs \<Longrightarrow> stays \<longrightarrow> w \<noteq> ClientGone \<Longrightarrow>
    responses_ok stays (rs @ waitPairOrDisconnect w win d, True)"
  by (cases w; cases win) (auto simp: waitPairOrDisconnect_def responses_ok_def Response0_def dest: in_set_butlastD simp: list_all_iff)

lemma done_simp [simp]: "rs_Done (r\<lparr>rs_Done := b\<rparr>) = b"
  by simp

lemma arms_ok:
  "served_ok stays (handle_status env d)"
  "stays \<longrightarrow> hv_wake env \<noteq> ClientGone \<Longrightarrow> served_ok stays (handle_pair_show env d)"
  "served_ok stays (handle_pair_add env req d)"
  "served_ok stays (handle_devices d)"
  "served_ok stays (handle_revoke env req d)"
  "served_ok stays (handle_rename env req d)"
  "served_ok stays (handle_send_files env req d)"
  "served_ok stays (handle_send_clip env req d)"
  "served_ok stays (handle_pair_with env req d)"
  "served_ok stays (handle_pair_confirm env req d)"
  "served_ok stays (handle_ping env req d)"
  "served_ok stays (handle_unqueue env req d)"
  subgoal by (simp add: handle_status_def Let_def split: prod.splits)
  subgoal using wait_ok [of "[_, _]" stays]
    by (simp add: handle_pair_show_def Let_def split: prod.splits sum.splits option.splits)
  subgoal using paired_ok [of "[]" stays] by (simp add: handle_pair_add_def split: prod.splits sum.splits)
  subgoal by (simp add: handle_devices_def)
  subgoal by (simp add: handle_revoke_def split: prod.splits option.splits)
  subgoal by (simp add: handle_rename_def split: prod.splits option.splits)
  subgoal by (simp add: handle_send_files_def list_all_iff split: prod.splits sum.splits option.splits)
  subgoal by (simp add: handle_send_clip_def clip_report_def Let_def split: prod.splits sum.splits clip_result.splits)
  subgoal by (auto simp: handle_pair_with_def Let_def responses_ok_def paired_line_def
        split: prod.splits sum.splits option.splits)
  subgoal using paired_ok [of "[]" stays] by (simp add: handle_pair_confirm_def split: sum.splits)
  subgoal by (simp add: handle_ping_def split: prod.splits sum.splits)
  subgoal by (simp add: handle_unqueue_def split: prod.splits bool.splits)
  done

lemma handleIPC_form: "served_ok (client_stays env) (handleIPC env conn d)"
proof -
  have "served_ok (client_stays env) (dispatch env req d)" for req
    unfolding dispatch_def Let_def
    using arms_ok(1,2) [where stays = "client_stays env" and env = env] arms_ok(3-) [where stays = "client_stays env"]
      stream_loop_ok [of "client_stays env" "hv_stream env"]
    by (simp add: client_stays_def streamEvents_def subscribe_def Let_def)
  then show ?thesis by (simp add: handleIPC_def split: option.splits prod.splits)
qed

section \<open>No handler panics\<close>

text \<open>Fingerprints of pairings that wait are whole ones; kept by every tap pairing.\<close>

definition tap_ok :: "daemon \<Rightarrow> bool" where
  "tap_ok d \<longleftrightarrow> list_all (\<lambda>(_, p). 16 \<le> length (pi_Fingerprint (pp_info p))) (dm_tapPairs d)"

lemma tap_ok_lookup: "tap_ok d \<Longrightarrow> map_of (dm_tapPairs d) i = Some p \<Longrightarrow> 16 \<le> length (pi_Fingerprint (pp_info p))"
  by (auto simp: tap_ok_def list_all_iff dest: map_of_SomeD)

lemma set_update_subset: "set (AList.update k v xs) \<subseteq> insert (k, v) (set xs)"
  by (induction xs) auto

lemma tapPairSession_tap_ok:
  assumes "tap_ok d" "16 \<le> length fp"
  shows "tap_ok (snd (snd (tapPairSession ce et idb es conn peer fp d)))"
proof -
  define p where "p = pending_pair d idb peer fp"
  define d1 where "d1 = broadcast (pair_event ''pair-request'' (pp_info p) [])
      (d\<lparr>dm_tapPairs := AList.update (pi_ID (pp_info p)) p (dm_tapPairs d)\<rparr>)"
  obtain res out d2 where aw: "awaitAnswers ce es conn p (h_Addr peer) d1 = (res, out, d2)" by (metis prod_cases3)
  have "tap_ok d1"
    using assms set_update_subset [of "pi_ID (pp_info p)" p "dm_tapPairs d"]
    by (auto simp: tap_ok_def list_all_iff d1_def p_def pending_pair_def broadcast_def)
  moreover have "dm_tapPairs d2 = dm_tapPairs d1"
    using aw by (auto simp: awaitAnswers_def Let_def split: prod.splits option.splits sum.splits)
  ultimately have "tap_ok d2" by (simp add: tap_ok_def)
  moreover have "tap_ok (broadcast e (x\<lparr>dm_tapPairs := AList.delete k (dm_tapPairs x)\<rparr>))" if "tap_ok x" for e x k
    using that by (auto simp: tap_ok_def list_all_iff AList.delete_eq broadcast_def)
  ultimately show ?thesis
    using aw by (simp add: tapPairSession_def Let_def p_def d1_def split: option.splits)
qed

lemma tap_ok_cong: "dm_tapPairs d' = dm_tapPairs d \<Longrightarrow> tap_ok d' = tap_ok d"
  by (simp add: tap_ok_def)

lemma sendPairRequest_tapPairs: "sendPairRequest ip d = (e, out, d') \<Longrightarrow> dm_tapPairs d' = dm_tapPairs d"
  by (auto simp: sendPairRequest_def advertiseAddr_def refreshAdvertiseAddr_def Let_def split: prod.splits if_splits)

lemma tap_pairs_kept:
  assumes "tap_ok d" "16 \<le> length fp"
  shows "tap_ok (snd (snd (PairWith ce et idb es (Some (fp, conn)) d)))" "tap_ok (snd (snd (handleTapPair ce et idb es fp conn d)))"
  using tapPairSession_tap_ok [OF _ assms(2)] assms(1)
  by (auto simp: PairWith_def handleTapPair_def Let_def dest!: sendPairRequest_tapPairs dest: tap_ok_cong
      split: sum.splits prod.splits option.splits) (metis snd_conv tap_ok_cong)+


lemma Decode_fp_length: "Decode uri = Inr p \<Longrightarrow> length (p_Fingerprint p) = 64"
proof -
  have fields: "length (p_Fingerprint p) = 64" if "decodeFields v k s = Inr p" for v k s p
    using that by (auto simp: decodeFields_def Let_def split: option.splits prod.splits if_splits)
  show "Decode uri = Inr p \<Longrightarrow> length (p_Fingerprint p) = 64"
    by (auto simp: Decode_def decodeCompact_def Let_def fields split: if_splits option.splits) (metis Fingerprint_length)+
qed

lemma AddPeer_fp_length: "AddPeer de now uri d = (Inr dev, d') \<Longrightarrow> length (d_Fingerprint dev) = 64"
  by (auto simp: AddPeer_def Let_def Device0_def dest!: Decode_fp_length split: sum.splits prod.splits if_splits)

lemma pair_dial_fp_length: "pair_dial de addr = Some (fp, c) \<Longrightarrow> length fp = 64"
  by (auto simp: pair_dial_def DialPair_def PeerFingerprint_def split: sum.splits list.splits if_splits)

lemma tapPairSession_fp: "tapPairSession ce et idb es conn peer fp d = (Some (Inr dev), out, d') \<Longrightarrow> d_Fingerprint dev = fp"
  by (auto simp: tapPairSession_def awaitAnswers_def tap_device_def pending_pair_def Device0_def Let_def
      split: option.splits sum.splits prod.splits if_splits)

lemma PairWith_fp_length: "PairWith ce et idb es (pair_dial de addr) d = (Some (Inr dev), out, d') \<Longrightarrow> length (d_Fingerprint dev) = 64"
  by (auto simp: PairWith_def dest!: tapPairSession_fp dest: pair_dial_fp_length
      split: if_splits option.splits prod.splits sum.splits)

lemma paired_line_some: "16 \<le> length fp \<Longrightarrow> paired_line n fp \<noteq> None"
  by (simp add: paired_line_def)

text \<open>
  Property C25. No command makes the daemon panic: whatever bytes a client sends and however the outside
  answers, the handler ends or waits. The pairings it slices fingerprints of are those it decoded, those it
  dialed and those waiting, and every tap pairing keeps the waiting ones sliceable.
\<close>

theorem control_never_panics:
  assumes "tap_ok d"
  shows "(\<exists>rs returned d'. handleIPC env conn d = Some (rs, returned, d')) \<and>
    (\<forall>fp ce et idb es c. 16 \<le> length fp \<longrightarrow> tap_ok (snd (snd (PairWith ce et idb es (Some (fp, c)) d))) \<and>
       tap_ok (snd (snd (handleTapPair ce et idb es fp c d))))"
proof -
  have add: "handle_pair_add env req d \<noteq> None" for req
    by (auto simp: handle_pair_add_def paired_line_def dest!: AddPeer_fp_length split: sum.splits prod.splits)
  have with': "handle_pair_with env req d \<noteq> None" for req
    by (auto simp: handle_pair_with_def Let_def paired_line_def dest!: PairWith_fp_length
        split: sum.splits prod.splits option.splits)
  have confirm: "handle_pair_confirm env req d \<noteq> None" for req
    using tap_ok_lookup [OF assms]
    by (fastforce simp: handle_pair_confirm_def ConfirmPair_def paired_line_def split: sum.splits option.splits)
  note defs = handle_status_def handle_pair_show_def handle_devices_def handle_revoke_def handle_rename_def
    handle_send_files_def handle_send_clip_def handle_ping_def handle_unqueue_def streamEvents_def
  have others: "handle_status env d \<noteq> None" "handle_pair_show env d \<noteq> None" "handle_devices d \<noteq> None"
    "handle_revoke env req d \<noteq> None" "handle_rename env req d \<noteq> None" "handle_send_files env req d \<noteq> None"
    "handle_send_clip env req d \<noteq> None" "handle_ping env req d \<noteq> None" "handle_unqueue env req d \<noteq> None"
    "streamEvents hs d \<noteq> None" for req hs
    by (simp_all add: defs Let_def del: not_None_eq split: prod.splits sum.splits option.splits bool.splits)
  have "dispatch env req d \<noteq> None" for req
    using add with' confirm others by (simp add: dispatch_def Let_def del: not_None_eq)
  then have "handleIPC env conn d \<noteq> None" by (simp add: handleIPC_def del: not_None_eq split: option.splits prod.splits)
  then show ?thesis using tap_pairs_kept [OF assms] by auto
qed

theorem control_never_panics_witness:
  "tap_ok demo_daemon \<and> (\<forall>env conn. \<exists>rs returned d'. handleIPC env conn demo_daemon = Some (rs, returned, d'))"
proof -
  have "tap_ok demo_daemon" by (simp add: tap_ok_def demo_daemon_def)
  then show ?thesis using control_never_panics [of demo_daemon] by blast
qed

section \<open>The default target\<close>

text \<open>
  Without a target a send goes to the last peer: the name found for it finds the same device, provided no
  other device has that name or a fingerprint starting with it.
\<close>

lemma resolveTarget_last_peer:
  assumes "dev \<in> set (st_devices s)" "d_Fingerprint dev = st_lastPeer s" "8 \<le> length (st_lastPeer s)"
    "\<And>x. x \<in> set (st_devices s) \<Longrightarrow> matches (st_lastPeer s) x \<or> matches (d_Name dev) x \<Longrightarrow> x = dev"
  shows "resolveTarget [] s = Inr (d_Name dev)" "Lookup s (d_Name dev) = Some dev"
proof -
  have find: "Lookup s q = Some dev" if "matches q dev" "\<And>x. x \<in> set (st_devices s) \<Longrightarrow> matches q x \<Longrightarrow> x = dev" for q
    using that assms(1) unfolding Lookup_def by (metis find_Some_iff2 find_None_iff option.exhaust nth_mem find_Some_iff)
  have "Lookup s (st_lastPeer s) = Some dev"
    using assms by (intro find) (auto simp: matches_def hasPrefix_def)
  then show "resolveTarget [] s = Inr (d_Name dev)" using assms(3) by (auto simp: resolveTarget_def)
  show "Lookup s (d_Name dev) = Some dev" using assms(4) by (intro find) (auto simp: matches_def)
qed

text \<open>
  Two devices of the same name, the second of them the last peer: the name that \<^verbatim>\<open>resolveTarget\<close> returns
  is looked up as the first, so the send goes to a device that was not the last one used.
\<close>

lemma default_target_ambiguous:
  "\<exists>s dev. st_lastPeer s = d_Fingerprint dev \<and> dev \<in> set (st_devices s) \<and> resolveTarget [] s = Inr (d_Name dev) \<and>
     Lookup s (d_Name dev) \<noteq> Some dev"
proof -
  let ?a = "Device0\<lparr>d_Name := ''phone'', d_Fingerprint := ''aaaaaaaa''\<rparr>"
  let ?b = "Device0\<lparr>d_Name := ''phone'', d_Fingerprint := ''bbbbbbbb''\<rparr>"
  let ?s = "\<lparr>st_certDER = [], st_devices = [?a, ?b], st_lastPeer = ''bbbbbbbb'', st_disk = None\<rparr>"
  have "resolveTarget [] ?s = Inr ''phone'' \<and> Lookup ?s ''phone'' = Some ?a \<and> ?a \<noteq> ?b"
    by (simp add: resolveTarget_def Lookup_def matches_def hasPrefix_def Device0_def)
  then show ?thesis by (intro exI [of _ ?s] exI [of _ ?b]) simp
qed

section \<open>The order of events\<close>

text \<open>
  A subscriber sees the events published while it is subscribed, in order; it misses one only when 32
  wait for it. \<^term>\<open>mailbox\<close> is the channel alone.
\<close>

fun mailbox :: "happening list \<Rightarrow> event list \<Rightarrow> event list" where
  "mailbox (Publish e # hs) q = mailbox hs (if length q < sub_capacity then q @ [e] else q)"
| "mailbox (Take # hs) q = (case q of [] \<Rightarrow> mailbox hs [] | e # es \<Rightarrow> e # mailbox hs es)"
| "mailbox _ q = []"

fun published :: "happening list \<Rightarrow> event list" where
  "published [] = []"
| "published (h # hs) = (case h of Publish e \<Rightarrow> e # published hs | _ \<Rightarrow> published hs)"

lemma mailbox_subseq: "subseq (mailbox hs q) (q @ published hs)"
proof (induction hs q rule: mailbox.induct)
  case (1 e hs q)
  have "subseq (q @ published hs) (q @ e # published hs)" unfolding subseq_append' by (intro list_emb_Cons subseq_order.refl)
  with 1 show ?case by (auto intro: subseq_order.trans)
qed (auto split: list.splits)

lemma broadcast_queue:
  "map_of (dm_subs (broadcast e d)) ch = map_option (\<lambda>q. if length q < sub_capacity then q @ [e] else q) (map_of (dm_subs d) ch)"
proof -
  have "map_of (map (\<lambda>(c, s). (c, if length s < sub_capacity then s @ [e] else s)) xs) ch =
      map_option (\<lambda>q. if length q < sub_capacity then q @ [e] else q) (map_of xs ch)" for xs :: "(nat \<times> event list) list"
    by (induction xs) auto
  then show ?thesis by (simp add: broadcast_def)
qed

lemma stream_loop_mailbox:
  "map_of (dm_subs d) ch = Some q \<Longrightarrow> List.map_filter rs_Event (fst (stream_loop ch hs d)) = mailbox hs q"
proof (induction hs arbitrary: d q)
  case (Cons h hs)
  show ?case
  proof (cases h)
    case (Publish e)
    with Cons show ?thesis by (simp add: broadcast_queue)
  next
    case Take
    with Cons show ?thesis by (cases q) (simp_all add: map_filter_simps Response0_def update_conv')
  qed (auto simp: map_filter_simps Response0_def)
qed (simp add: map_filter_simps)

text \<open>The subscriber keeps up: nothing is published while its channel, now holding \<^term>\<open>n\<close>, is full.\<close>

fun keeps_up :: "happening list \<Rightarrow> nat \<Rightarrow> bool" where
  "keeps_up [] n = True"
| "keeps_up (h # hs) n = (case h of
     Publish e \<Rightarrow> n < sub_capacity \<and> keeps_up hs (Suc n)
   | Take \<Rightarrow> keeps_up hs (n - 1)
   | _ \<Rightarrow> True)"

lemma mailbox_prefix: "keeps_up hs (length q) \<Longrightarrow> prefix (mailbox hs q) (q @ published hs)"
  by (induction hs q rule: mailbox.induct) (auto split: list.splits)

lemma subscribe_fresh: "subscribe d = (ch, d1) \<Longrightarrow> map_of (dm_subs d1) ch = Some []"
  by (auto simp: subscribe_def Let_def)

text \<open>
  Property C36. A subscription, with its channel in the daemon's table among those of other subscribers, behaves
  like a mailbox of 32 events of its own: it delivers the events published while it lasts in the order they
  were published, each at most once, and every one of them, up to where it has read, unless 32 were waiting
  when one was published.
\<close>

theorem subscription_in_order:
  assumes "streamEvents hs d = Some (rs, returned, d')"
  shows "List.map_filter rs_Event rs = mailbox hs [] \<and> subseq (List.map_filter rs_Event rs) (published hs) \<and>
    (keeps_up hs 0 \<longrightarrow> prefix (List.map_filter rs_Event rs) (published hs))"
proof -
  obtain ch d1 where sub: "subscribe d = (ch, d1)" by fastforce
  then have "List.map_filter rs_Event (fst (stream_loop ch hs d1)) = mailbox hs []"
    by (intro stream_loop_mailbox subscribe_fresh)
  moreover have "rs = fst (stream_loop ch hs d1)" using assms sub by (auto simp: streamEvents_def)
  ultimately show ?thesis using mailbox_subseq [of hs "[]"] mailbox_prefix [of hs "[]"] by simp
qed

theorem subscription_in_order_witness:
  "\<exists>rs returned d'. streamEvents [Publish Event0, Publish (Event0\<lparr>ev_Kind := ''x''\<rparr>), Take, Take, Down] demo_daemon = Some (rs, returned, d') \<and>
     keeps_up [Publish Event0, Publish (Event0\<lparr>ev_Kind := ''x''\<rparr>), Take, Take, Down] 0 \<and>
     prefix (List.map_filter rs_Event rs) [Event0, Event0\<lparr>ev_Kind := ''x''\<rparr>]"
proof -
  let ?hs = "[Publish Event0, Publish (Event0\<lparr>ev_Kind := ''x''\<rparr>), Take, Take, Down]"
  obtain rs returned d' where "streamEvents ?hs demo_daemon = Some (rs, returned, d')"
    by (cases "streamEvents ?hs demo_daemon") (auto simp: streamEvents_def split: prod.splits)
  moreover have "keeps_up ?hs 0" by (simp add: sub_capacity_def)
  moreover have "published ?hs = [Event0, Event0\<lparr>ev_Kind := ''x''\<rparr>]" by simp
  ultimately show ?thesis using subscription_in_order [of ?hs demo_daemon rs returned d'] by simp
qed

end
