(* ===== verification/Mdns.thy ===== *)
theory Mdns
  imports Peer
begin

text \<open>
  Discovery in the local network, \<^verbatim>\<open>internal/mdns\<close>: the lines of \<^verbatim>\<open>avahi-browse\<close> (\<^verbatim>\<open>mdns.go\<close>), the
  entries of the zeroconf library where there is no avahi (\<^verbatim>\<open>mdns_zeroconf.go\<close>), and what the daemon does
  with either (\<^verbatim>\<open>startMDNS\<close>). The programs and the library are outside: their output is the input here.
\<close>

section \<open>Text\<close>

text \<open>\<^verbatim>\<open>strings.SplitN\<close>: at most \<^term>\<open>n\<close> parts, the last one unsplit.\<close>

definition splitN :: "nat \<Rightarrow> char \<Rightarrow> string \<Rightarrow> string list" where
  "splitN n c s = (let ps = go_split c s in
     if length ps \<le> n then ps else take (n - 1) ps @ [go_join [c] (drop (n - 1) ps)])"

text \<open>\<^verbatim>\<open>strings.Fields\<close>: the parts between white space, none of them empty.\<close>

function fields_from :: "string \<Rightarrow> string \<Rightarrow> string list" where
  "fields_from acc s = (case s of
     [] \<Rightarrow> (if acc = [] then [] else [acc])
   | c # t \<Rightarrow>
       (case find (\<lambda>w. w \<noteq> [] \<and> prefix w s) white_runes of
          Some w \<Rightarrow> (if acc = [] then [] else [acc]) @ fields_from [] (drop (length w) s)
        | None \<Rightarrow> fields_from (acc @ [c]) t))"
  by pat_completeness auto
termination
  by (relation "measure (\<lambda>(acc, s). length s)") (auto simp: find_Some_iff prefix_def)

declare fields_from.simps [simp del]

definition go_Fields :: "string \<Rightarrow> string list" where
  "go_Fields s = fields_from [] s"

text \<open>\<^verbatim>\<open>strings.Trim\<close> with a set of bytes.\<close>

definition trim_set :: "char set \<Rightarrow> string \<Rightarrow> string" where
  "trim_set cs s = rev (dropWhile (\<lambda>c. c \<in> cs) (rev (dropWhile (\<lambda>c. c \<in> cs) s)))"

text \<open>\<^verbatim>\<open>strconv.Atoi\<close>.\<close>

definition atoi :: "string \<Rightarrow> int option" where
  "atoi s =
     (let (neg, ds) = (case s of c # t \<Rightarrow> if c = CHR ''-'' then (True, t) else if c = CHR ''+'' then (False, t) else (False, s)
                       | [] \<Rightarrow> (False, [])) in
      if ds = [] \<or> \<not> list_all is_digit ds then None
      else (let v = (if neg then - int (nat_of_digits ds) else int (nat_of_digits ds)) in if int64 v then Some v else None))"

section \<open>The lines of avahi-browse\<close>

abbreviation semicolon :: char where
  "semicolon \<equiv> CHR '';''"

definition quotes :: "char set" where
  "quotes = {CHR 0x22, CHR 0x27}"

fun first_fp :: "string list \<Rightarrow> string" where
  "first_fp [] = []"
| "first_fp (part # parts) =
     (let p = trim_set quotes part in if prefix ''fp='' p then drop 3 p else first_fp parts)"

definition extractFP :: "string \<Rightarrow> string" where
  "extractFP txt = first_fp (go_Fields txt)"

definition parseBrowseLine :: "string \<Rightarrow> (string \<times> string \<times> string) option" where
  "parseBrowseLine line =
     (if \<not> prefix ''='' line then None
      else
        (let fields = splitN 10 semicolon line in
         if length fields < 10 then None
         else
           (let recName = fields ! 3; address = fields ! 7; portStr = fields ! 8; txtField = fields ! 9 in
            if recName = [] \<or> address = [] \<or> portStr = [] then None
            else case atoi portStr of
              None \<Rightarrow> None
            | Some port \<Rightarrow>
                (let fp = extractFP txtField in
                 if fp = [] then None else Some (recName, address @ '':'' @ show_int port, fp)))))"

definition parseRemoveLine :: "string \<Rightarrow> string option" where
  "parseRemoveLine line =
     (let fields = go_split semicolon line in
      if length fields < 6 \<or> fields ! 0 \<noteq> ''-'' \<or> fields ! 3 = [] then None else Some (fields ! 3))"

text \<open>\<^verbatim>\<open>runBrowse\<close> with the daemon's callbacks, over the lines read.\<close>

definition browse_line :: "bool \<Rightarrow> string \<Rightarrow> daemon \<Rightarrow> daemon" where
  "browse_line wok line d = (case parseBrowseLine line of
     Some (name, addr, fp) \<Rightarrow> mdns_found wok name addr fp d
   | None \<Rightarrow> (case parseRemoveLine line of Some name \<Rightarrow> RemoveNearby name d | None \<Rightarrow> d))"

definition runBrowse :: "bool \<Rightarrow> string list \<Rightarrow> daemon \<Rightarrow> daemon" where
  "runBrowse wok lines d = fold (browse_line wok) lines d"

text \<open>What \<^verbatim>\<open>Advertise\<close> gives \<^verbatim>\<open>avahi-publish-service\<close>.\<close>

definition advertise_args :: "daemon \<Rightarrow> string list" where
  "advertise_args d = [dm_name d, ''_adrop._tcp'', show_int (dm_port d), ''fp='' @ Store_Fingerprint (dm_store d)]"

section \<open>Zeroconf\<close>

record service_entry =
  se_TTL :: nat
  se_Instance :: string
  se_Text :: "string list"
  se_AddrIPv4 :: "string list"
  se_Port :: int

definition entry_fp :: "string list \<Rightarrow> string" where
  "entry_fp ts = foldl (\<lambda>fp t. if prefix ''fp='' t then drop 3 t else fp) [] ts"

definition browse_entry :: "bool \<Rightarrow> service_entry \<Rightarrow> daemon \<Rightarrow> daemon" where
  "browse_entry wok e d =
     (if se_TTL e = 0 then RemoveNearby (se_Instance e) d
      else if entry_fp (se_Text e) = [] \<or> se_AddrIPv4 e = [] then d
      else mdns_found wok (se_Instance e) (JoinHostPort (hd (se_AddrIPv4 e)) (show_int (se_Port e))) (entry_fp (se_Text e)) d)"

section \<open>Announcements cannot change trust\<close>

text \<open>Two stores whose devices differ at most in their addresses.\<close>

definition same_but_addr :: "store \<Rightarrow> store \<Rightarrow> bool" where
  "same_but_addr s t \<longleftrightarrow> map (d_Addr_update (\<lambda>_. [])) (st_devices s) = map (d_Addr_update (\<lambda>_. [])) (st_devices t) \<and>
     st_lastPeer s = st_lastPeer t \<and> st_certDER s = st_certDER t"

lemma UpdateAddr_same: "same_but_addr (snd (UpdateAddr wok fp addr s)) s"
  by (auto simp: UpdateAddr_def same_but_addr_def saveDevicesLocked_def Let_def map_update_first split: option.splits)

lemma same_but_addr_trans: "same_but_addr r s \<Longrightarrow> same_but_addr s t \<Longrightarrow> same_but_addr r t"
  by (simp add: same_but_addr_def)

lemma same_but_addr_trust:
  assumes "same_but_addr s t"
  shows "IsTrusted s fp = IsTrusted t fp"
proof -
  have "IsTrusted u fp = map_option d_Name (find (\<lambda>d. d_Fingerprint d = fp) (map (d_Addr_update (\<lambda>_. [])) (st_devices u)))" for u
  proof -
    have "map_option d_Name (find (\<lambda>d. d_Fingerprint d = fp) (map (d_Addr_update (\<lambda>_. [])) ds)) =
        map_option d_Name (find (\<lambda>d. d_Fingerprint d = fp) ds)" for ds :: "device list"
      by (induction ds) auto
    then show ?thesis by (simp add: IsTrusted_def)
  qed
  then show ?thesis using assms by (simp add: same_but_addr_def)
qed

text \<open>What an announcement may change of a daemon.\<close>

definition only_addresses :: "daemon \<Rightarrow> daemon \<Rightarrow> bool" where
  "only_addresses d' d \<longleftrightarrow> (\<exists>st nb. d' = d\<lparr>dm_store := st, dm_nearby := nb\<rparr> \<and> same_but_addr st (dm_store d))"

lemma only_addressesI: "d' = d\<lparr>dm_store := st, dm_nearby := nb\<rparr> \<Longrightarrow> same_but_addr st (dm_store d) \<Longrightarrow> only_addresses d' d"
  by (auto simp: only_addresses_def)

lemma only_addresses_refl: "only_addresses d d"
  by (rule only_addressesI [where st = "dm_store d" and nb = "dm_nearby d"]) (simp_all add: same_but_addr_def)

lemma only_addresses_trans: "only_addresses a b \<Longrightarrow> only_addresses b c \<Longrightarrow> only_addresses a c"
  unfolding only_addresses_def by (elim exE conjE) (simp, blast intro: same_but_addr_trans)

lemma mdns_found_only: "only_addresses (mdns_found wok name addr fp d) d"
proof -
  let ?nb = "AList.update name \<lparr>nb_Name = name, nb_Addr = addr, nb_Fingerprint = fp, nb_Paired = False\<rparr> (dm_nearby d)"
  have "only_addresses (d\<lparr>dm_nearby := ?nb\<rparr>) d"
    by (rule only_addressesI [where st = "dm_store d" and nb = ?nb]) (simp_all add: same_but_addr_def)
  moreover have "only_addresses (d\<lparr>dm_nearby := ?nb, dm_store := snd (UpdateAddr wok fp addr (dm_store d))\<rparr>) d"
    by (rule only_addressesI [where st = "snd (UpdateAddr wok fp addr (dm_store d))" and nb = ?nb]) (simp_all add: UpdateAddr_same)
  ultimately show ?thesis by (simp add: mdns_found_def Let_def only_addresses_refl)
qed

lemma RemoveNearby_only: "only_addresses (RemoveNearby name d) d"
  by (rule only_addressesI [where st = "dm_store d" and nb = "AList.delete name (dm_nearby d)"]) (simp_all add: RemoveNearby_def same_but_addr_def)

lemma fold_only: "(\<And>x d. only_addresses (f x d) d) \<Longrightarrow> only_addresses (fold f xs d) d"
proof (induction xs arbitrary: d)
  case (Cons x xs)
  then show ?case using only_addresses_trans by fastforce
qed (simp add: only_addresses_refl)

lemma browse_only: "only_addresses (browse_line wok line d) d" "only_addresses (browse_entry wok e d) d"
  by (auto simp: browse_line_def browse_entry_def mdns_found_only RemoveNearby_only only_addresses_refl
      split: option.splits prod.splits)

lemma only_addresses_trust:
  assumes "only_addresses d' d"
  shows "IsTrusted (dm_store d') fp = IsTrusted (dm_store d) fp" "Daemon_IsTrusted d' fp = Daemon_IsTrusted d fp"
proof -
  obtain st nb where d': "d' = d\<lparr>dm_store := st, dm_nearby := nb\<rparr>" "same_but_addr st (dm_store d)"
    using assms by (auto simp: only_addresses_def)
  then show t: "IsTrusted (dm_store d') fp = IsTrusted (dm_store d) fp" by (simp add: same_but_addr_trust)
  with d' show "Daemon_IsTrusted d' fp = Daemon_IsTrusted d fp" by (simp add: Daemon_IsTrusted_def expects_def split: option.split)
qed

text \<open>
  Whatever is announced in the network, by avahi or zeroconf, changes only the list of
  nearby devices and the addresses of devices: no device becomes trusted or untrusted, none is renamed, no
  fingerprint or key changes, and the pairing window stays as it is.
\<close>

lemma announcements_harmless:
  "only_addresses (runBrowse wok lines d) d \<and> only_addresses (fold (browse_entry wok) entries d) d \<and>
   (\<forall>fp. Daemon_IsTrusted (runBrowse wok lines d) fp = Daemon_IsTrusted d fp \<and>
         Daemon_IsTrusted (fold (browse_entry wok) entries d) fp = Daemon_IsTrusted d fp)"
proof -
  have "only_addresses (runBrowse wok lines d) d" "only_addresses (fold (browse_entry wok) entries d) d"
    unfolding runBrowse_def by (simp_all add: fold_only browse_only)
  then show ?thesis using only_addresses_trust(2) by blast
qed

section \<open>Reading an announcement\<close>

lemma white_no_prefix:
  assumes "w \<in> set white_runes \<union> set (map rev white_runes)" "\<forall>c\<in>set t. 32 < cv c \<and> cv c < 128"
  shows "w = [] \<or> \<not> prefix w t"
proof (rule disjCI)
  have white: "\<forall>w\<in>set white_runes. \<forall>c\<in>set w. \<not> (32 < cv c \<and> cv c < 128)"
    by (simp add: white_runes_def)
  assume "\<not> \<not> prefix w t"
  then have "set w \<subseteq> set t" using set_mono_prefix by blast
  moreover have "\<forall>c\<in>set w. \<not> (32 < cv c \<and> cv c < 128)" using assms(1) white by auto
  ultimately show "w = []" using assms(2) by (cases w) auto
qed

lemma fields_from_plain:
  "\<forall>c\<in>set s. 32 < cv c \<and> cv c < 128 \<Longrightarrow> acc @ s \<noteq> [] \<Longrightarrow> fields_from acc s = [acc @ s]"
proof (induction s arbitrary: acc)
  case (Cons c t)
  have "find (\<lambda>w. w \<noteq> [] \<and> prefix w (c # t)) white_runes = None"
    using white_no_prefix [of _ "c # t"] Cons.prems(1) by (auto simp: find_None_iff)
  then show ?case using Cons.IH [of "acc @ [c]"] Cons.prems by (simp add: fields_from.simps [of _ "c # t"])
qed (simp add: fields_from.simps)

lemma atoi_show: "int64 i \<Longrightarrow> atoi (show_int i) = Some i"
proof (cases "i < 0")
  case True
  assume "int64 i"
  with True show ?thesis
    using show_nat_digits [of "nat (- i)"] by (simp add: atoi_def show_int_def list_all_iff)
next
  case False
  assume i: "int64 i"
  obtain c t where s: "show_nat (nat i) = c # t" by (meson neq_Nil_conv show_nat_nonempty)
  then have c: "c \<noteq> CHR ''-''" "c \<noteq> CHR ''+''" using show_nat_hd_digit [OF s] by (auto simp: is_digit_def)
  have "list_all is_digit (c # t)" "nat_of_digits (c # t) = nat i"
    using show_nat_digits [of "nat i"] nat_of_show_nat [of "nat i"] s by (simp_all add: list_all_iff)
  with False i s c show ?thesis unfolding atoi_def show_int_def by (simp add: Let_def)
qed

lemma trim_quoted:
  assumes "s \<noteq> []" "hd s \<notin> quotes" "last s \<notin> quotes"
  shows "trim_set quotes (CHR 0x22 # s @ [CHR 0x22]) = s"
proof -
  have "dropWhile (\<lambda>c. c \<in> quotes) (CHR 0x22 # s @ [CHR 0x22]) = s @ [CHR 0x22]"
    using assms(1,2) by (cases s) (auto simp: quotes_def)
  moreover have "dropWhile (\<lambda>c. c \<in> quotes) (rev (s @ [CHR 0x22])) = rev s"
    using assms(1,3) by (cases s rule: rev_cases) (auto simp: quotes_def)
  ultimately show ?thesis by (simp add: trim_set_def)
qed

text \<open>A resolved service as \<^verbatim>\<open>avahi-browse -p\<close> prints it, the format given in \<^verbatim>\<open>mdns.go\<close> and its test.\<close>

definition avahi_line :: "string \<Rightarrow> string \<Rightarrow> string \<Rightarrow> string \<Rightarrow> string \<Rightarrow> int \<Rightarrow> string \<Rightarrow> string" where
  "avahi_line iface proto name host addr port fp =
     go_join [semicolon] [''='', iface, proto, name, ''_adrop._tcp'', ''local'', host, addr, show_int port,
       CHR 0x22 # (''fp='' @ fp) @ [CHR 0x22]]"

lemma extractFP_quoted:
  assumes "fp \<noteq> []" "\<forall>c\<in>set fp. 32 < cv c \<and> cv c < 128 \<and> c \<notin> quotes"
  shows "extractFP (CHR 0x22 # (''fp='' @ fp) @ [CHR 0x22]) = fp"
proof -
  let ?txt = "CHR 0x22 # (''fp='' @ fp) @ [CHR 0x22]"
  have "go_Fields ?txt = [?txt]"
    unfolding go_Fields_def using assms(2) by (subst fields_from_plain) auto
  moreover have "trim_set quotes ?txt = ''fp='' @ fp"
    using assms by (intro trim_quoted) (auto simp: quotes_def)
  ultimately show ?thesis by (simp add: extractFP_def)
qed

lemma semicolon_free: "semicolon \<notin> set (show_int i)"
proof -
  have "semicolon \<notin> set (show_nat n)" for n
    using show_nat_digits [of n] by (auto simp: list_all_iff is_digit_def)
  then show ?thesis by (simp add: show_int_def)
qed

lemma parse_avahi_line:
  assumes "\<forall>x\<in>{iface, proto, name, host, addr}. semicolon \<notin> set x" "name \<noteq> []" "addr \<noteq> []" "int64 port"
    "fp \<noteq> []" "\<forall>c\<in>set fp. 32 < cv c \<and> cv c < 128 \<and> c \<notin> quotes \<and> c \<noteq> semicolon"
  shows "parseBrowseLine (avahi_line iface proto name host addr port fp) = Some (name, addr @ '':'' @ show_int port, fp)"
proof -
  let ?parts = "[''='', iface, proto, name, ''_adrop._tcp'', ''local'', host, addr, show_int port,
       CHR 0x22 # (''fp='' @ fp) @ [CHR 0x22]]"
  have "go_split semicolon (avahi_line iface proto name host addr port fp) = ?parts"
    unfolding avahi_line_def using assms(1,6) semicolon_free by (intro go_split_join) auto
  then have f: "splitN 10 semicolon (avahi_line iface proto name host addr port fp) = ?parts" by (simp add: splitN_def)
  have p: "prefix ''='' (avahi_line iface proto name host addr port fp)" by (simp add: avahi_line_def)
  have "show_int port \<noteq> []" using show_nat_digits [of "nat port"] by (auto simp: show_int_def)
  with extractFP_quoted [of fp] assms show ?thesis
    unfolding parseBrowseLine_def f using p by (simp add: atoi_show)
qed

definition announces_ok :: "string \<Rightarrow> string \<Rightarrow> string \<Rightarrow> string \<Rightarrow> string \<Rightarrow> int \<Rightarrow> string \<Rightarrow> bool" where
  "announces_ok iface proto name host addr port fp \<longleftrightarrow> (\<forall>x\<in>{iface, proto, name, host, addr}. semicolon \<notin> set x) \<and>
     name \<noteq> [] \<and> addr \<noteq> [] \<and> int64 port \<and> fp \<noteq> [] \<and>
     (\<forall>c\<in>set fp. 32 < cv c \<and> cv c < 128 \<and> c \<notin> quotes \<and> c \<noteq> semicolon)"

lemma find_update_first:
  "find P xs = Some x \<Longrightarrow> P (f x) \<Longrightarrow> find P (update_first P f xs) = Some (f x)"
  by (induction xs) (auto split: if_splits)

lemma announced_address:
  assumes "announces_ok iface proto name host addr port fp" "fp \<noteq> Store_Fingerprint (dm_store d)"
    "find (\<lambda>x. d_Fingerprint x = fp) (st_devices (dm_store d)) = Some dev"
  shows "\<exists>dev'. find (\<lambda>x. d_Fingerprint x = fp) (st_devices (dm_store (browse_line wok (avahi_line iface proto name host addr port fp) d))) = Some dev' \<and>
    d_Addr dev' = addr @ '':'' @ show_int port"
proof -
  have "parseBrowseLine (avahi_line iface proto name host addr port fp) = Some (name, addr @ '':'' @ show_int port, fp)"
    using assms(1) unfolding announces_ok_def by (intro parse_avahi_line) auto
  moreover have "IsTrusted (dm_store d) fp \<noteq> None" using assms(3) by (simp add: IsTrusted_def)
  moreover have "d_Fingerprint dev = fp" using assms(3) by (auto simp: find_Some_iff)
  ultimately show ?thesis
    using assms(2,3) find_update_first [OF assms(3), of "\<lambda>x. x\<lparr>d_Addr := addr @ '':'' @ show_int port\<rparr>"]
    by (auto simp: browse_line_def mdns_found_def Let_def UpdateAddr_def)
qed

lemma show_int_colon: "colon \<notin> set (show_int i)" "plain_host (show_int i)"
proof -
  have "\<forall>c\<in>set (show_nat n). c \<noteq> colon \<and> c \<noteq> CHR ''['' \<and> c \<noteq> CHR '']''" for n
    using show_nat_digits [of n] by (auto simp: is_digit_def)
  then show "colon \<notin> set (show_int i)" "plain_host (show_int i)" by (auto simp: show_int_def plain_host_def)
qed

text \<open>
  A trusted device that announces itself at an IPv4 address is found: its stored address
  becomes the announced one, in a form that splits back into the address and the port. Announced at an
  IPv6 address it is stored in a form that does not split, so that no connection can be made to it.
\<close>

lemma announced_device_found:
  assumes "announces_ok iface proto name host addr port fp" "fp \<noteq> Store_Fingerprint (dm_store d)"
    "find (\<lambda>x. d_Fingerprint x = fp) (st_devices (dm_store d)) = Some dev" "plain_host addr"
  shows "\<exists>dev'. find (\<lambda>x. d_Fingerprint x = fp) (st_devices (dm_store (browse_line wok (avahi_line iface proto name host addr port fp) d))) = Some dev' \<and>
    SplitHostPort (d_Addr dev') = (if colon \<in> set addr then None else Some (addr, show_int port))"
proof -
  have "SplitHostPort (addr @ '':'' @ show_int port) = (if colon \<in> set addr then None else Some (addr, show_int port))"
  proof (cases "colon \<in> set addr")
    case True
    have "hd (addr @ colon # show_int port) \<noteq> CHR ''[''"
      using assms(4) by (cases addr) (auto simp: plain_host_def)
    with True last_colon [OF show_int_colon(1), of addr port] show ?thesis by (simp add: SplitHostPort_def)
  next
    case False
    then show ?thesis
      using SplitHostPort_Join [OF assms(4) show_int_colon(2) [of port] show_int_colon(1) [of port]] by (simp add: JoinHostPort_def)
  qed
  then show ?thesis using announced_address [OF assms(1-3)] by metis
qed

text \<open>A field of the form given in the comment of \<^verbatim>\<open>extractFP\<close> yields no fingerprint.\<close>

lemma extractFP_documented_form: "extractFP (''txt='' @ [CHR 0x22] @ ''fp=abc123'' @ [CHR 0x22]) = []"
  by code_simp

end
