(* ===== verification/Client.thy ===== *)
theory Client
  imports Handler Mdns
begin

text \<open>
  The command line client, \<^verbatim>\<open>cmd/adrop/client.go\<close>: the exchange with the daemon, the requests the
  subcommands make of their arguments, and the printer that keeps a progress line in place. What the
  system answers (does a path exist, what is its absolute form, is the output a terminal, what did the
  user type) are arguments.
\<close>

section \<open>The exchange\<close>

datatype client_error = NoDaemon ipc_error | Closed | DaemonSaid string

text \<open>
  \<^verbatim>\<open>roundtrip\<close> over the bytes the daemon sends until the connection ends: the responses given to
  \<^verbatim>\<open>onResp\<close>, and the error.
\<close>

definition roundtrip :: "ipc_error + bytes \<Rightarrow> response list \<times> client_error option" where
  "roundtrip conn = (case conn of
     Inl e \<Rightarrow> ([], Some (NoDaemon e))
   | Inr answer \<Rightarrow>
       (case read_until response_fields Response0 (\<lambda>r. rs_Err r \<noteq> [] \<or> rs_Done r) answer of
          (rs, False) \<Rightarrow> (rs, Some Closed)
        | (rs, True) \<Rightarrow>
            if rs_Err (last rs) \<noteq> [] then (butlast rs, Some (DaemonSaid (rs_Err (last rs)))) else (rs, None)))"

definition wire :: "response list \<Rightarrow> bytes" where
  "wire rs = concat (map (Encode_value \<circ> response_json) rs)"

text \<open>
  Property C16. A client's command and the daemon's handler together: whatever the command, the client
  gets through to the arm it asked for, is given every response the handler sent, in order, and returns
  without error exactly when the last one carries none, else with that error. The handler returns, the client
  does not go away before, and the texts of request and responses are valid UTF-8.
\<close>

theorem command_answered:
  assumes "request_ok req" "handleIPC env (Encode_value (request_json req)) d = Some (rs, True, d')"
    "client_stays env" "list_all response_ok rs"
  shows "dispatch env req d = Some (rs, True, d') \<and> rs \<noteq> [] \<and>
    roundtrip (Inr (wire rs)) =
      (if rs_Err (last rs) = [] then (rs, None) else (butlast rs, Some (DaemonSaid (rs_Err (last rs)))))"
proof -
  have "Decode_next request_fields Request0 (Encode_value (request_json req)) = Some (req, [newline])"
    using request_codec.next_written [OF assms(1), of "[]" "[]"] by simp
  then have disp: "dispatch env req d = Some (rs, True, d')" using assms(2) by (simp add: handleIPC_def)
  have "responses_ok True (rs, True)"
    using handleIPC_form [of env "Encode_value (request_json req)" d] assms(2,3) by simp
  then have rs: "rs \<noteq> []" "list_all quiet (butlast rs)" "rs_Done (last rs)" by (simp_all add: responses_ok_def)
  then have "read_until response_fields Response0 (\<lambda>r. rs_Err r \<noteq> [] \<or> rs_Done r) (wire rs) = (rs, True)"
    using response_codec.read_written [of "butlast rs" "last rs" "\<lambda>r. rs_Err r \<noteq> [] \<or> rs_Done r" "[]" "[]"] assms(4)
    by (simp add: wire_def quiet_def list_all_iff)
  then show ?thesis using disp rs(1) by (simp add: roundtrip_def)
qed

definition demo_control :: handler_env where
  "demo_control = \<lparr>hv_text = (\<lambda>_. ''error''), hv_retry = offline_retry,
     hv_hub = \<lparr>he_lib = demo_lib, he_now = 0, he_paths = (\<lambda>_. []), he_pok = (\<lambda>_. False), he_node = None,
       he_acked = (\<lambda>_. False), he_id = []\<rparr>,
     hv_conn = demo_conn, hv_now = time_zero, hv_idb = [], hv_lanIP = ''10.0.0.2'', hv_rok = True, hv_wok = True, hv_rns = None,
     hv_qr = (\<lambda>_. None), hv_others = (\<lambda>d. d), hv_wake = ShuttingDown, hv_progress = [], hv_clip = (\<lambda>_. Inr ''hi''),
     hv_tap = [Timer], hv_outcome = None, hv_cid = ''1'', hv_ponged = (\<lambda>_. False), hv_rtt = [], hv_stream = []\<rparr>"

theorem command_answered_witness:
  "\<exists>rs d'. handleIPC demo_control (Encode_value (request_json (Request0\<lparr>rq_Cmd := ''revoke'', rq_Target := ''phone''\<rparr>))) demo_daemon
       = Some (rs, True, d') \<and>
     roundtrip (Inr (wire rs)) = ([], Some (DaemonSaid ''no device matched phone''))"
proof -
  let ?req = "Request0\<lparr>rq_Cmd := ''revoke'', rq_Target := ''phone''\<rparr>"
  have req: "request_ok ?req" by (simp add: request_ok_def Request0_def utf8_valid_ascii)
  have "dispatch demo_control ?req demo_daemon = Some ([fail ''no device matched phone''], True, demo_daemon)"
    by (simp add: dispatch_def handle_revoke_def RemoveDevice_def Request0_def demo_daemon_def)
  then have h: "handleIPC demo_control (Encode_value (request_json ?req)) demo_daemon =
      Some ([fail ''no device matched phone''], True, demo_daemon)"
    using request_codec.next_written [OF req, of "[]" "[]"] by (simp add: handleIPC_def)
  moreover have "client_stays demo_control" by (simp add: client_stays_def demo_control_def)
  moreover have "list_all response_ok [fail ''no device matched phone'']"
    by (simp add: response_ok_def fail_def Response0_def utf8_valid_ascii)
  ultimately show ?thesis
    using command_answered [OF req h] by (intro exI [of _ "[fail ''no device matched phone'']"] exI [of _ demo_daemon])
      (simp add: fail_def Response0_def)
qed

section \<open>Subcommands\<close>

text \<open>
  What a subcommand does with its arguments: refuse them, ask the daemon, start a pairing in which the
  user answers while the request is open, or wait for one.
\<close>

datatype action = Refuse string | Ask request | AskPair request | AwaitPair

definition ask :: "string \<Rightarrow> request" where
  "ask cmd = Request0\<lparr>rq_Cmd := cmd\<rparr>"

definition runPair :: "string list \<Rightarrow> action" where
  "runPair args = (case args of
     [] \<Rightarrow> Refuse ''usage: adrop pair show | add <uri> | with <device> | accept''
   | sub # rest \<Rightarrow>
       if sub = ''show'' then Ask (ask ''pair-show'')
       else if sub = ''add'' then
         (case rest of [] \<Rightarrow> Refuse ''usage: adrop pair add <adrop://pair?d=...>''
          | uri # _ \<Rightarrow> Ask ((ask ''pair-add'')\<lparr>rq_PairURI := uri\<rparr>))
       else if sub = ''with'' then
         (case rest of [] \<Rightarrow> Refuse ''usage: adrop pair with <nearby name|host:port>''
          | target # _ \<Rightarrow> AskPair ((ask ''pair-with'')\<lparr>rq_Target := target\<rparr>))
       else if sub = ''accept'' then AwaitPair
       else Refuse ''unknown pair subcommand'')"

definition runRevoke :: "string list \<Rightarrow> action" where
  "runRevoke args = (case args of
     [] \<Rightarrow> Refuse ''usage: adrop revoke <name|fingerprint-prefix>''
   | target # _ \<Rightarrow> Ask ((ask ''revoke'')\<lparr>rq_Target := target\<rparr>))"

definition runPing :: "string list \<Rightarrow> action" where
  "runPing args = (case args of
     [] \<Rightarrow> Refuse ''usage: adrop ping <peer>'' | target # _ \<Rightarrow> Ask ((ask ''ping'')\<lparr>rq_Target := target\<rparr>))"

definition cli_runQueue :: "string list \<Rightarrow> action" where
  "cli_runQueue args = (case args of
     [a, ident] \<Rightarrow> if a = ''rm'' then Ask ((ask ''unqueue'')\<lparr>rq_ID := ident\<rparr>) else Ask (ask ''queue'')
   | _ \<Rightarrow> Ask (ask ''queue''))"

text \<open>\<^verbatim>\<open>filepath.Abs\<close> and \<^verbatim>\<open>os.Stat\<close> are \<^term>\<open>absp\<close> and \<^term>\<open>stat\<close>; the error of a path names it.\<close>

fun abs_paths :: "(string \<Rightarrow> string option) \<Rightarrow> (string \<Rightarrow> bool) \<Rightarrow> string list \<Rightarrow> string + string list" where
  "abs_paths absp stat [] = Inr []"
| "abs_paths absp stat (p # ps) = (case absp p of
     None \<Rightarrow> Inl p
   | Some a \<Rightarrow> if \<not> stat a then Inl p
       else (case abs_paths absp stat ps of Inl e \<Rightarrow> Inl e | Inr as \<Rightarrow> Inr (a # as)))"

definition send_usage :: string where
  "send_usage = ''usage: adrop send [<peer>] <file> [file...]''"

definition runSend :: "(string \<Rightarrow> string option) \<Rightarrow> (string \<Rightarrow> bool) \<Rightarrow> string list \<Rightarrow> action" where
  "runSend absp stat args = (case args of
     [] \<Rightarrow> Refuse send_usage
   | a # rest \<Rightarrow>
       (case (if stat a then Some ([], args) else if rest = [] then None else Some (a, rest)) of
          None \<Rightarrow> Refuse send_usage
        | Some (peer, filePaths) \<Rightarrow>
            (case abs_paths absp stat filePaths of
               Inl e \<Rightarrow> Refuse e
             | Inr paths \<Rightarrow> Ask ((ask ''send-files'')\<lparr>rq_Target := peer, rq_Files := paths\<rparr>))))"

fun strip_mime :: "string \<Rightarrow> string list \<Rightarrow> string \<times> string list" where
  "strip_mime mime [] = (mime, [])"
| "strip_mime mime [a] = (if prefix ''--mime='' a then (drop 7 a, []) else (mime, [a]))"
| "strip_mime mime (a # b # rest) =
     (if a = ''--mime'' then strip_mime b rest
      else if prefix ''--mime='' a then strip_mime (drop 7 a) (b # rest)
      else apsnd ((#) a) (strip_mime mime (b # rest)))"

definition runClip :: "string list \<Rightarrow> action" where
  "runClip args =
     (let (mime, remaining) = strip_mime ''text/plain'' args;
          req = (if mime \<noteq> ''text/plain'' then (ask ''send-clipboard'')\<lparr>rq_MIME := mime\<rparr> else ask ''send-clipboard'') in
      Ask (case remaining of
             [] \<Rightarrow> req
           | [peer] \<Rightarrow> req\<lparr>rq_Target := peer\<rparr>
           | peer # txt # _ \<Rightarrow> req\<lparr>rq_Target := peer, rq_Text := txt\<rparr>))"

text \<open>The user's answer to a code, as typed.\<close>

definition confirm_request :: "pair_info \<Rightarrow> string \<Rightarrow> request" where
  "confirm_request p answer =
     (ask ''pair-confirm'')\<lparr>rq_ID := pi_ID p, rq_OK := equal_fold (trim_space answer) ''y''\<rparr>"

text \<open>
  \<^verbatim>\<open>runPairAccept\<close> over the answers of its polls: the pairing to confirm, an error of a poll, or nothing yet.
\<close>

fun runPairAccept :: "(client_error + pair_info list) list \<Rightarrow> (client_error + pair_info) option" where
  "runPairAccept [] = None"
| "runPairAccept (Inl e # _) = Some (Inl e)"
| "runPairAccept (Inr [] # polls) = runPairAccept polls"
| "runPairAccept (Inr (p # _) # _) = Some (Inr p)"

text \<open>
  \<^verbatim>\<open>runPairWith\<close>: its result is the error of the open request, else that of the user's answer if it has
  arrived by then.
\<close>

definition runPairWith :: "client_error option \<Rightarrow> client_error option option \<Rightarrow> client_error option" where
  "runPairWith err answered = (case err of Some e \<Rightarrow> Some e | None \<Rightarrow> (case answered of Some r \<Rightarrow> r | None \<Rightarrow> None))"

section \<open>The command line\<close>

datatype invocation = OpenWindow | RunDaemon | Autostart "string list" | ShowUsage | UnknownCommand string | Do action

definition cli_main :: "(string \<Rightarrow> string option) \<Rightarrow> (string \<Rightarrow> bool) \<Rightarrow> string list \<Rightarrow> invocation" where
  "cli_main absp stat argv = (case argv of
     [] \<Rightarrow> OpenWindow
   | cmd # args \<Rightarrow>
       if cmd = ''daemon'' then RunDaemon
       else if cmd = ''status'' then Do (Ask (ask ''status''))
       else if cmd = ''pair'' then Do (runPair args)
       else if cmd = ''devices'' then Do (Ask (ask ''devices''))
       else if cmd = ''nearby'' then Do (Ask (ask ''nearby''))
       else if cmd = ''ping'' then Do (runPing args)
       else if cmd = ''queue'' then Do (cli_runQueue args)
       else if cmd = ''autostart'' then Autostart args
       else if cmd = ''revoke'' then Do (runRevoke args)
       else if cmd = ''send'' then Do (runSend absp stat args)
       else if cmd \<in> {''clip'', ''clipboard''} then Do (runClip args)
       else if cmd \<in> {''-h'', ''--help'', ''help''} then ShowUsage
       else UnknownCommand cmd)"

text \<open>The daemon's options from the environment, \<^verbatim>\<open>runDaemon\<close> of \<^verbatim>\<open>cmd/adrop/daemon.go\<close>.\<close>

definition splitList :: "string \<Rightarrow> string list" where
  "splitList s = filter (\<lambda>f. f \<noteq> []) (map trim_space (go_split CHR '','' s))"

definition runDaemon_options :: "(string \<Rightarrow> string) \<Rightarrow> store \<Rightarrow> options" where
  "runDaemon_options getenv st = \<lparr>opt_Store = Some st, opt_Name = getenv ''ADROP_NAME'',
     opt_Port = (case atoi (getenv ''ADROP_PORT'') of Some v \<Rightarrow> v | None \<Rightarrow> DefaultPort),
     opt_AdvertiseIP = getenv ''ADROP_ADVERTISE_IP'', opt_ListenIP = [], opt_DownloadDir = getenv ''ADROP_DOWNLOAD_DIR'',
     opt_RelayAddr = getenv ''ADROP_RELAY'', opt_TapPair = (getenv ''ADROP_TAP_PAIR'' = ''1''),
     opt_Reticulum = (getenv ''ADROP_RNS'' = ''1''), opt_QueueUnreachable = False\<rparr>"

text \<open>Every request the command line makes names a command that the daemon knows.\<close>

definition known_commands :: "string list" where
  "known_commands = [''status'', ''pair-show'', ''pair-add'', ''devices'', ''revoke'', ''rename'', ''send-files'', ''send-clipboard'',
     ''nearby'', ''pair-with'', ''pair-pending'', ''pair-confirm'', ''ping'', ''queue'', ''unqueue'', ''subscribe'']"

definition asks_known :: "action \<Rightarrow> bool" where
  "asks_known a \<longleftrightarrow> (case a of Ask r \<Rightarrow> rq_Cmd r \<in> set known_commands | AskPair r \<Rightarrow> rq_Cmd r \<in> set known_commands | _ \<Rightarrow> True)"

lemma asks_known_simps [simp]:
  "asks_known (Refuse e)" "asks_known AwaitPair" "asks_known (Ask r) \<longleftrightarrow> rq_Cmd r \<in> set known_commands"
  "asks_known (AskPair r) \<longleftrightarrow> rq_Cmd r \<in> set known_commands" "rq_Cmd (ask cmd) = cmd"
  by (simp_all add: asks_known_def ask_def Request0_def)

lemma run_asks_known:
  "asks_known (runPair args)" "asks_known (runPing args)" "asks_known (cli_runQueue args)" "asks_known (runRevoke args)"
  "asks_known (runSend absp stat args)" "asks_known (runClip args)"
proof -
  show "asks_known (runPair args)"
    unfolding runPair_def by (cases args; cases "tl args") (simp_all add: known_commands_def)
  show "asks_known (runPing args)" "asks_known (runRevoke args)"
    by (cases args; simp add: runPing_def runRevoke_def known_commands_def)+
  show "asks_known (cli_runQueue args)"
    by (simp add: cli_runQueue_def known_commands_def split: list.split)
  show "asks_known (runSend absp stat args)"
    by (simp add: runSend_def known_commands_def split: list.split option.split sum.split prod.split)
  show "asks_known (runClip args)"
    by (simp add: runClip_def known_commands_def Let_def split: list.split prod.split)
qed

lemma cli_asks_known: "cli_main absp stat argv = Do a \<Longrightarrow> asks_known a"
proof (cases argv)
  case (Cons cmd args)
  have plain: "asks_known (Ask (ask ''status''))" "asks_known (Ask (ask ''devices''))" "asks_known (Ask (ask ''nearby''))"
    by (simp_all add: known_commands_def)
  have "\<forall>b. cli_main absp stat argv = Do b \<longrightarrow> asks_known b"
    unfolding Cons cli_main_def list.case
    by (split if_split, intro conjI impI; (simp only: invocation.inject invocation.distinct plain run_asks_known simp_thms)?)+
  then show "cli_main absp stat argv = Do a \<Longrightarrow> asks_known a" by blast
qed (simp add: cli_main_def)

section \<open>What the callbacks print\<close>

definition status_text :: "response \<Rightarrow> string" where
  "status_text r =
     (case rs_Status r of None \<Rightarrow> [] | Some s \<Rightarrow>
        ''device:      '' @ si_Name s @ [newline] @ ''fingerprint: '' @ si_Fingerprint s @ [newline]
        @ ''listen addr: '' @ si_ListenAddr s @ [newline] @ ''devices:     '' @ show_int (si_NumDevices s) @ '' trusted'' @ [newline]
        @ (if si_LastPeer s \<noteq> [] then ''last peer:   '' @ si_LastPeer s @ [newline] else [])
        @ (if si_RNSAddr s \<noteq> [] then ''reticulum:   '' @ si_RNSAddr s @ [newline] @ ''hubs:        '' @ go_join '', '' (si_RNSHubs s) @ [newline]
           else []))
     @ (if rs_Line r \<noteq> [] then rs_Line r @ [newline] else [])"

definition pair_show_text :: "response \<Rightarrow> string" where
  "pair_show_text r = rs_QR r @ (if rs_Line r \<noteq> [] then rs_Line r @ [newline] else [])"

text \<open>The rows of a table, before \<^verbatim>\<open>text/tabwriter\<close> aligns them; none when there is nothing to list.\<close>

definition device_rows :: "response \<Rightarrow> string list list" where
  "device_rows r = (if rs_Devices r = [] then [] else [''NAME'', ''FINGERPRINT'', ''ADDR'', ''PAIRED''] #
     map (\<lambda>i. [di_Name i, if 16 < length (di_Fingerprint i) then take 16 (di_Fingerprint i) else di_Fingerprint i,
               di_Addr i, di_PairedAt i]) (rs_Devices r))"

definition nearby_rows :: "response \<Rightarrow> string list list" where
  "nearby_rows r = (if rs_Nearby r = [] then [] else [''NAME'', ''FINGERPRINT'', ''ADDR'', ''PAIRED''] #
     map (\<lambda>i. [nb_Name i, take 16 (nb_Fingerprint i), nb_Addr i, if nb_Paired i then ''yes'' else []]) (rs_Nearby r))"

definition queue_text :: "response \<Rightarrow> string" where
  "queue_text r = (if rs_Queue r = [] then ''nothing is waiting'' @ [newline]
     else concat (map (\<lambda>q. qi_ID q @ ''  '' @ qi_What q @ '' to '' @ qi_Peer q @ '', queued '' @ qi_Added q @ '', '' @
       show_int (qi_Tries q) @ '' tries'' @ [newline] @ ''  '' @ qi_Reason q @ [newline]) (rs_Queue r)))"

text \<open>The question \<^verbatim>\<open>confirmPair\<close> asks; a fingerprint shorter than 16 bytes panics.\<close>

definition confirm_prompt :: "pair_info \<Rightarrow> string option" where
  "confirm_prompt p =
     (if length (pi_Fingerprint p) < 16 then None
      else Some (''Pairing with '' @ pi_Name p @ '' ('' @ take 16 (pi_Fingerprint p) @ '')'' @ [newline] @ ''  code: '' @ pi_Code p @
        [newline] @ ''Does the other screen show the same code? [y/N] ''))"

section \<open>Printing\<close>

record progressPrinter =
  pr_out :: string
  pr_inline :: bool
  pr_lastLen :: nat

definition isProgressLine :: "string \<Rightarrow> bool" where
  "isProgressLine line \<longleftrightarrow> suffix ''%'' line"

definition finish :: "progressPrinter \<Rightarrow> progressPrinter" where
  "finish p = (if pr_inline p then p\<lparr>pr_out := pr_out p @ [newline], pr_inline := False, pr_lastLen := 0\<rparr> else p)"

definition print_line :: "bool \<Rightarrow> response \<Rightarrow> progressPrinter \<Rightarrow> progressPrinter" where
  "print_line tty r p =
     (let line = rs_Line r in
      if line = [] then p
      else if isProgressLine line \<and> tty then
        p\<lparr>pr_out := pr_out p @ [CHR 0x0D] @ line @ replicate (pr_lastLen p - length line) (CHR '' ''),
          pr_inline := True, pr_lastLen := length line\<rparr>
      else
        (let p1 = (if pr_inline p then p\<lparr>pr_out := pr_out p @ [newline], pr_inline := False, pr_lastLen := 0\<rparr> else p) in
         p1\<lparr>pr_out := pr_out p1 @ line @ [newline]\<rparr>))"

definition printLines :: "bool \<Rightarrow> response \<Rightarrow> progressPrinter \<Rightarrow> progressPrinter" where
  "printLines tty r p = (let p1 = print_line tty r p in if rs_Done r then finish p1 else p1)"

text \<open>A terminal: the lines left behind, the line the cursor is on, its column.\<close>

record screen =
  sc_lines :: "string list"
  sc_line :: string
  sc_col :: nat

definition type_char :: "char \<Rightarrow> screen \<Rightarrow> screen" where
  "type_char c sc =
     (if c = newline then \<lparr>sc_lines = sc_lines sc @ [sc_line sc], sc_line = [], sc_col = 0\<rparr>
      else if c = CHR 0x0D then sc\<lparr>sc_col := 0\<rparr>
      else sc\<lparr>sc_line := take (sc_col sc) (sc_line sc) @ [c] @ drop (Suc (sc_col sc)) (sc_line sc), sc_col := Suc (sc_col sc)\<rparr>)"

definition terminal :: "string \<Rightarrow> screen" where
  "terminal out = fold type_char out \<lparr>sc_lines = [], sc_line = [], sc_col = 0\<rparr>"

text \<open>What the user is meant to see: a progress line replaces the one before it, other lines stay.\<close>

fun shown_lines :: "string list \<Rightarrow> string option \<Rightarrow> string list" where
  "shown_lines [] held = (case held of None \<Rightarrow> [] | Some h \<Rightarrow> [h])"
| "shown_lines (l # ls) held =
     (if l = [] then shown_lines ls held
      else if isProgressLine l then shown_lines ls (Some l)
      else (case held of None \<Rightarrow> [] | Some h \<Rightarrow> [h]) @ l # shown_lines ls None)"

definition plain_text :: "string \<Rightarrow> bool" where
  "plain_text s \<longleftrightarrow> newline \<notin> set s \<and> CHR 0x0D \<notin> set s"

definition padded :: "string \<Rightarrow> string \<Rightarrow> bool" where
  "padded line s \<longleftrightarrow> (\<exists>k. s = line @ replicate k (CHR '' ''))"

lemma type_plain:
  "plain_text s \<Longrightarrow> sc_col sc \<le> length (sc_line sc) \<Longrightarrow>
   fold type_char s sc = sc\<lparr>sc_line := take (sc_col sc) (sc_line sc) @ s @ drop (sc_col sc + length s) (sc_line sc),
     sc_col := sc_col sc + length s\<rparr>"
proof (induction s arbitrary: sc)
  case (Cons c s)
  then have "type_char c sc = sc\<lparr>sc_line := take (sc_col sc) (sc_line sc) @ [c] @ drop (Suc (sc_col sc)) (sc_line sc), sc_col := Suc (sc_col sc)\<rparr>"
    by (auto simp: type_char_def plain_text_def)
  with Cons show ?case by (simp add: plain_text_def add_ac)
qed simp

text \<open>The printer and the screen: a held progress line is the current line, blank after it.\<close>

definition screen_ok :: "string list \<Rightarrow> string option \<Rightarrow> progressPrinter \<Rightarrow> bool" where
  "screen_ok done held p \<longleftrightarrow>
     (let sc = terminal (pr_out p) in
      sc_col sc \<le> length (sc_line sc) \<and> list_all2 padded done (sc_lines sc) \<and>
      (case held of
         None \<Rightarrow> \<not> pr_inline p \<and> sc_line sc = [] \<and> pr_lastLen p = 0
       | Some h \<Rightarrow> pr_inline p \<and> padded h (sc_line sc) \<and> pr_lastLen p = length h))"

lemma terminal_append: "terminal (a @ b) = fold type_char b (terminal a)"
  by (simp add: terminal_def)

lemma screen_newline:
  assumes "screen_ok ls (Some h) p"
  shows "screen_ok (ls @ [h]) None (p\<lparr>pr_out := pr_out p @ [newline], pr_inline := False, pr_lastLen := 0\<rparr>)"
  using assms by (simp add: screen_ok_def Let_def terminal_append type_char_def list_all2_appendI)

lemma screen_finish:
  assumes "screen_ok ls held p"
  shows "screen_ok (ls @ (case held of None \<Rightarrow> [] | Some h \<Rightarrow> [h])) None (finish p)"
proof (cases held)
  case None
  then show ?thesis using assms by (auto simp: finish_def screen_ok_def Let_def)
next
  case (Some h)
  then have "pr_inline p" using assms by (simp add: screen_ok_def Let_def)
  then show ?thesis using screen_newline [of ls h p] assms Some by (simp add: finish_def)
qed

lemma screen_line:
  assumes "screen_ok ls None p" "plain_text l"
  shows "screen_ok (ls @ [l]) None (p\<lparr>pr_out := pr_out p @ l @ [newline]\<rparr>)"
proof -
  have "padded l l" unfolding padded_def by (rule exI [of _ 0]) simp
  then show ?thesis
    using assms type_plain [OF assms(2), of "terminal (pr_out p)"]
    by (auto simp: screen_ok_def Let_def terminal_append type_char_def list_all2_appendI)
qed

lemma screen_progress:
  assumes "screen_ok ls held p" "plain_text l"
  shows "screen_ok ls (Some l) (p\<lparr>pr_out := pr_out p @ [CHR 0x0D] @ l @ replicate (pr_lastLen p - length l) (CHR '' ''),
    pr_inline := True, pr_lastLen := length l\<rparr>)"
proof -
  define sc where "sc = terminal (pr_out p)"
  define new where "new = l @ replicate (pr_lastLen p - length l) (CHR '' '')"
  have "plain_text new" using assms(2) by (auto simp: plain_text_def new_def)
  then have t: "fold type_char new (sc\<lparr>sc_col := 0\<rparr>) = sc\<lparr>sc_line := new @ drop (length new) (sc_line sc), sc_col := length new\<rparr>"
    by (subst type_plain) simp_all
  obtain h k where h: "sc_line sc = h @ replicate k (CHR '' '')" "pr_lastLen p = length h"
    using assms(1) by (cases held) (auto simp: screen_ok_def Let_def padded_def sc_def)
  then have "drop (length new) (sc_line sc) = replicate (length h + k - length new) (CHR '' '')"
    by (simp add: new_def)
  then have "padded l (new @ drop (length new) (sc_line sc))"
    by (auto simp: padded_def new_def simp flip: replicate_add)
  then show ?thesis
    using assms(1) t by (cases held) (simp_all add: screen_ok_def Let_def terminal_append type_char_def new_def sc_def)
qed

lemma screen_print:
  assumes "screen_ok ls held p" "list_all plain_text (map rs_Line rs)"
  shows "\<exists>ls' held'. screen_ok ls' held' (fold (print_line True) rs p) \<and>
    ls' @ (case held' of None \<Rightarrow> [] | Some h \<Rightarrow> [h]) = ls @ shown_lines (map rs_Line rs) held"
  using assms
proof (induction rs arbitrary: ls held p)
  case (Cons r rs)
  let ?l = "rs_Line r"
  consider (none) "?l = []" | (progress) "?l \<noteq> []" "isProgressLine ?l" | (line) "?l \<noteq> []" "\<not> isProgressLine ?l" by blast
  then show ?case
  proof cases
    case none
    with Cons.IH [of ls held p] Cons.prems show ?thesis by (simp add: print_line_def)
  next
    case progress
    with Cons.IH [OF screen_progress [OF Cons.prems(1)], of ?l] Cons.prems(2) show ?thesis by (simp add: print_line_def Let_def)
  next
    case line
    define base where "base = ls @ (case held of None \<Rightarrow> [] | Some h \<Rightarrow> [h])"
    have "screen_ok base None (finish p)" using screen_finish [OF Cons.prems(1)] by (simp add: base_def)
    from screen_line [OF this, of ?l] Cons.prems(2) line
    have "screen_ok (base @ [?l]) None (print_line True r p)" by (simp add: print_line_def finish_def Let_def)
    from Cons.IH [OF this] Cons.prems(2) line show ?thesis by (simp add: base_def)
  qed
qed (auto simp: intro!: exI)

text \<open>
  On a terminal, the lines of a command's responses end up as they are meant to: every
  progress line is replaced by the next one with nothing left of it, every other line stays on a line of
  its own, and the cursor ends at the start of a fresh line.
\<close>

lemma progress_in_place:
  assumes "list_all quiet (butlast rs)" "rs \<noteq> []" "rs_Done (last rs)" "list_all plain_text (map rs_Line rs)"
  shows "\<exists>lines. terminal (pr_out (fold (printLines True) rs \<lparr>pr_out = [], pr_inline = False, pr_lastLen = 0\<rparr>)) =
      \<lparr>sc_lines = lines, sc_line = [], sc_col = 0\<rparr> \<and> list_all2 padded (shown_lines (map rs_Line rs) None) lines"
proof -
  let ?p0 = "\<lparr>pr_out = [], pr_inline = False, pr_lastLen = 0\<rparr>"
  have quiets: "fold (printLines True) xs p = fold (print_line True) xs p" if "list_all quiet xs" for xs p
    using that by (induction xs arbitrary: p) (simp_all add: printLines_def quiet_def)
  have "fold (printLines True) (butlast rs @ [last rs]) ?p0 = finish (fold (print_line True) (butlast rs @ [last rs]) ?p0)"
    using assms(1,3) by (simp add: quiets printLines_def)
  then have run: "fold (printLines True) rs ?p0 = finish (fold (print_line True) rs ?p0)" using assms(2) by simp
  have "screen_ok [] None ?p0" by (simp add: screen_ok_def terminal_def)
  from screen_print [OF this assms(4)] obtain ls held where
    ok: "screen_ok ls held (fold (print_line True) rs ?p0)"
    and ls: "ls @ (case held of None \<Rightarrow> [] | Some h \<Rightarrow> [h]) = shown_lines (map rs_Line rs) None" by auto
  have "screen_ok (shown_lines (map rs_Line rs) None) None (finish (fold (print_line True) rs ?p0))"
    using screen_finish [OF ok] ls by simp
  then show ?thesis unfolding run screen_ok_def Let_def
    by (cases "terminal (pr_out (finish (fold (print_line True) rs ?p0)))") auto
qed

end
