(* ===== verification/Core.thy ===== *)
theory Core
  imports Handler Mdns
begin

text \<open>
  The core embedded in the phone app, \<^verbatim>\<open>core/core.go\<close>: the daemon's operations as the app calls them,
  lists crossing as JSON. The app's \<^verbatim>\<open>Platform\<close> (clipboard and event sink) is outside; what it is given is
  in the results. Contexts with a deadline are the ends of the environments of the operations called.
\<close>

section \<open>Starting\<close>

record core_options =
  co_DataDir :: string
  co_DownloadDir :: string
  co_Name :: string
  co_Port :: int
  co_TapPair :: bool
  co_Reticulum :: bool

datatype core_error =
    NoDataDir
  | NoPlatform
  | OpenFailed store_error
  | NewFailed
  | PairFailed "pair_error option"
  | NotAccepted string dial_error
  | NoDeviceMatched string
  | StoreFailed store_error
  | TapFailed tap_error
  | BadPaths
  | SendFailed "sending_error option"
  | NotQueuedHere string
  | NoPong "signal_error option"
  | HelloFailedTo dial_error

text \<open>
  \<^verbatim>\<open>Start\<close> with the outcome of opening the store: the daemon it runs, already subscribed to its events, and
  the subscription. The phone queues every send whose device is away.
\<close>

definition core_daemon_options :: "core_options \<Rightarrow> store \<Rightarrow> options" where
  "core_daemon_options opt st = \<lparr>opt_Store = Some st, opt_Name = co_Name opt, opt_Port = co_Port opt, opt_AdvertiseIP = [],
     opt_ListenIP = [], opt_DownloadDir = co_DownloadDir opt, opt_RelayAddr = [], opt_TapPair = co_TapPair opt,
     opt_Reticulum = co_Reticulum opt, opt_QueueUnreachable = True\<rparr>"

definition core_Start ::
  "sys_env \<Rightarrow> core_options option \<Rightarrow> bool \<Rightarrow> store_error + store \<Rightarrow> core_error + (nat \<times> daemon)" where
  "core_Start sys opt platform opened = (case opt of
     None \<Rightarrow> Inl NoDataDir
   | Some o1 \<Rightarrow>
       if co_DataDir o1 = [] then Inl NoDataDir
       else if \<not> platform then Inl NoPlatform
       else case opened of
         Inl e \<Rightarrow> Inl (OpenFailed e)
       | Inr st \<Rightarrow> (case New sys (core_daemon_options o1 st) of None \<Rightarrow> Inl NewFailed | Some d \<Rightarrow> Inr (subscribe d)))"

text \<open>What the app is given for an event, and for a list that is \<^verbatim>\<open>nil\<close> when empty.\<close>

definition core_emit :: "event \<Rightarrow> string" where
  "core_emit e = json_print (event_json e)"

definition asJSON_list :: "('a \<Rightarrow> json) \<Rightarrow> 'a list \<Rightarrow> string" where
  "asJSON_list enc xs = json_print (if xs = [] then JNull else JArr (map enc xs))"

section \<open>Status and devices\<close>

definition core_Status :: "(string \<times> hubManager) option \<Rightarrow> daemon \<Rightarrow> string" where
  "core_Status node d = (case RNSStatus node of (addr, hubs) \<Rightarrow>
     json_print (statusInfo_json \<lparr>si_Name = dm_name d, si_Fingerprint = Store_Fingerprint (dm_store d), si_ListenAddr = [],
       si_NumDevices = int (length (st_devices (dm_store d))), si_LastPeer = [], si_RNSAddr = addr, si_RNSHubs = hubs\<rparr>))"

definition core_Devices :: "daemon \<Rightarrow> string" where
  "core_Devices d = asJSON_list deviceInfo_json (map (\<lambda>dev. \<lparr>di_Name = d_Name dev, di_Fingerprint = d_Fingerprint dev,
     di_Addr = d_Addr dev, di_PairedAt = format_rfc3339 (d_PairedAt dev)\<rparr>) (st_devices (dm_store d)))"

definition core_Revoke :: "bool \<Rightarrow> string \<Rightarrow> daemon \<Rightarrow> core_error option \<times> daemon" where
  "core_Revoke wok target d = (case RemoveDevice wok target (dm_store d) of
     ((removed, err), st) \<Rightarrow>
       (case err of Some e \<Rightarrow> Some (StoreFailed e) | None \<Rightarrow> if removed = 0 then Some (NoDeviceMatched target) else None,
        d\<lparr>dm_store := st\<rparr>))"

definition core_Rename :: "bool \<Rightarrow> string \<Rightarrow> string \<Rightarrow> daemon \<Rightarrow> core_error option \<times> daemon" where
  "core_Rename wok target name d = (case RenameDevice wok target name (dm_store d) of
     (err, st) \<Rightarrow> (map_option StoreFailed err, d\<lparr>dm_store := st\<rparr>))"

definition core_OpenPairWindow :: "daemon \<Rightarrow> nat \<times> daemon" where
  "core_OpenPairWindow d = OpenPairWindow [] [] d"

section \<open>Pairing by a scanned code\<close>


section \<open>Nearby devices and tap pairing\<close>

definition core_Nearby :: "daemon \<Rightarrow> string" where
  "core_Nearby d = json_print (JArr (map nearbyInfo_json (Nearby d)))"

definition core_AddNearby :: "bool \<Rightarrow> string \<Rightarrow> string \<Rightarrow> int \<Rightarrow> string \<Rightarrow> daemon \<Rightarrow> daemon" where
  "core_AddNearby wok name host port fp d = AddNearby wok name (JoinHostPort host (show_int port)) fp d"

definition core_PairWith ::
  "conn_env \<Rightarrow> (tap_error \<Rightarrow> string) \<Rightarrow> bytes \<Rightarrow> tap_event list \<Rightarrow> dial_env \<Rightarrow> string \<Rightarrow> daemon
   \<Rightarrow> (core_error + string) option \<times> daemon" where
  "core_PairWith ce et idb es de target d =
     (case PairWith ce et idb es (pair_dial de (pair_addr target d)) d of
        (None, _, d1) \<Rightarrow> (None, d1)
      | (Some (Inl e), _, d1) \<Rightarrow> (Some (Inl (TapFailed e)), d1)
      | (Some (Inr dev), _, d1) \<Rightarrow> (Some (Inr (d_Name dev)), d1))"

definition core_PendingPairs :: "daemon \<Rightarrow> string" where
  "core_PendingPairs d = asJSON_list pairInfo_json (PendingPairs d)"

definition core_ConfirmPair :: "string \<Rightarrow> (tap_error + device) option \<Rightarrow> daemon \<Rightarrow> core_error option" where
  "core_ConfirmPair ident outcome d = (case ConfirmPair ident outcome d of Inl e \<Rightarrow> Some (TapFailed e) | Inr _ \<Rightarrow> None)"

section \<open>Sending\<close>

definition parse_paths :: "string \<Rightarrow> string list option" where
  "parse_paths js = (case json_unmarshal js of
     Some JNull \<Rightarrow> Some [] | Some (JArr vs) \<Rightarrow> decode_strings vs [] | _ \<Rightarrow> None)"

text \<open>The reason when queued, empty when sent.\<close>

definition core_SendFiles ::
  "retry_env \<Rightarrow> bytes \<Rightarrow> string \<Rightarrow> string \<Rightarrow> string \<Rightarrow> daemon \<Rightarrow> (core_error + string) \<times> bytes \<times> daemon" where
  "core_SendFiles re idb now target pathsJSON d = (case parse_paths pathsJSON of
     None \<Rightarrow> (Inl BadPaths, [], d)
   | Some paths \<Rightarrow>
       (case SendFilesOrQueue re idb now target paths d of
          (Inl reason, out, d1) \<Rightarrow> (Inr reason, out, d1)
        | (Inr None, out, d1) \<Rightarrow> (Inr [], out, d1)
        | (Inr err, out, d1) \<Rightarrow> (Inl (SendFailed err), out, d1)))"

definition core_SendText ::
  "retry_env \<Rightarrow> hub_env \<Rightarrow> bytes \<Rightarrow> string \<Rightarrow> string \<Rightarrow> string \<Rightarrow> daemon \<Rightarrow> (core_error + string) \<times> bytes \<times> daemon" where
  "core_SendText re he idb now target txt d =
     (case SendClipboardAnywhere re he idb now target txt ''text/plain'' d of
        (ClipSent, out, d1) \<Rightarrow> (Inr ''clipboard sent'', out, d1)
      | (ClipThroughHubs, out, d1) \<Rightarrow> (Inr ''clipboard sent through reticulum hubs'', out, d1)
      | (ClipQueued reason, out, d1) \<Rightarrow> (Inr (''queued: '' @ reason), out, d1)
      | (ClipError e, out, d1) \<Rightarrow> (Inl (SendFailed e), out, d1))"

definition core_Queue :: "bool \<Rightarrow> daemon \<Rightarrow> string" where
  "core_Queue rok d = asJSON_list queueItem_json (Queue rok d)"

definition core_Unqueue :: "bool \<Rightarrow> bool \<Rightarrow> string \<Rightarrow> daemon \<Rightarrow> core_error option \<times> daemon" where
  "core_Unqueue rok wok ident d = (case Unqueue rok wok ident d of (found, d1) \<Rightarrow> (if found then None else Some (NotQueuedHere ident), d1))"

definition core_Ping :: "hub_env \<Rightarrow> (daemon \<Rightarrow> bool) \<Rightarrow> string \<Rightarrow> string \<Rightarrow> string \<Rightarrow> daemon \<Rightarrow> (core_error + string) \<times> daemon" where
  "core_Ping he ponged cid rtt target d = (case Ping (ping_signal he target d) ponged cid d of
     (Inl e, d1) \<Rightarrow> (Inl (NoPong e), d1) | (Inr _, d1) \<Rightarrow> (Inr rtt, d1))"

definition core_Hello :: "dial_env \<Rightarrow> string \<Rightarrow> daemon \<Rightarrow> (core_error + string) \<times> daemon" where
  "core_Hello env peer d = (case Hello env peer d of
     (Inl e, d1) \<Rightarrow> (Inl (HelloFailedTo e), d1)
   | (Inr dev, d1) \<Rightarrow> (Inr (d_Name dev @ '' '' @ d_Fingerprint dev), d1))"

section \<open>Laws\<close>










text \<open>The phone's own options: every send whose device is away is queued.\<close>

lemma core_Start_queues: "core_Start sys opt platform opened = Inr (ch, d) \<Longrightarrow> dm_queueAll d"
  by (auto simp: core_Start_def core_daemon_options_def New_def subscribe_def Let_def
      split: option.splits sum.splits if_splits)

section \<open>Scanning the code of a device that is away\<close>





end
