(* ===== verification/Relay.thy ===== *)
theory Relay
  imports Control
begin

text \<open>
  The wake relay, \<^verbatim>\<open>cmd/adrop-relay\<close>, and the Firebase client it uses, \<^verbatim>\<open>internal/fcm\<close>: a daemon's wake
  request becomes a push message to the phone. The RSA key and its signature, and the HTTP servers, are
  outside: \<^term>\<open>sign\<close> and \<^term>\<open>http\<close>. Times are in nanoseconds. Every operation also returns the requests
  it made.
\<close>

section \<open>HTTP\<close>

record http_req =
  hr_URL :: string
  hr_Authorization :: string
  hr_ContentType :: string
  hr_Body :: bytes

type_synonym http = "http_req \<Rightarrow> string + (int \<times> bytes)"

section \<open>The Firebase client\<close>

record serviceAccount =
  sa_ProjectID :: string
  sa_ClientEmail :: string
  sa_PrivateKey :: string

definition serviceAccount_fields :: "serviceAccount fields" where
  "serviceAccount_fields =
     [(''project_id'', set_str (\<lambda>s a. a\<lparr>sa_ProjectID := s\<rparr>)), (''client_email'', set_str (\<lambda>s a. a\<lparr>sa_ClientEmail := s\<rparr>)),
      (''private_key'', set_str (\<lambda>s a. a\<lparr>sa_PrivateKey := s\<rparr>))]"

record 'k fcm_client =
  fc_sa :: serviceAccount
  fc_privKey :: 'k
  fc_token :: string
  fc_expires :: int

datatype fcm_error =
    BadAccountJSON
  | MissingFields
  | NoPEM
  | BadKey
  | SignFailed
  | TokenFetch string
  | TokenStatus int bytes
  | TokenDecode
  | SendFetch string
  | SendStatus int bytes

text \<open>\<^verbatim>\<open>parseRSAKey\<close>; \<^term>\<open>pkcs8\<close> is the parser of \<^verbatim>\<open>crypto/x509\<close>, succeeding on RSA keys.\<close>

definition parseRSAKey :: "(bytes \<Rightarrow> 'k option) \<Rightarrow> string \<Rightarrow> fcm_error + 'k" where
  "parseRSAKey pkcs8 pemStr = (case pem_Decode pemStr of
     None \<Rightarrow> Inl NoPEM
   | Some (block, _) \<Rightarrow> (case pkcs8 (snd block) of None \<Rightarrow> Inl BadKey | Some k \<Rightarrow> Inr k))"

text \<open>The zero \<^verbatim>\<open>time.Time\<close> is the first second of year one.\<close>

definition time_zero_ns :: int where "time_zero_ns = - 62135596800 * second"

definition NewClientFromJSON :: "(bytes \<Rightarrow> 'k option) \<Rightarrow> bytes \<Rightarrow> fcm_error + 'k fcm_client" where
  "NewClientFromJSON pkcs8 raw =
     (case Option.bind (json_unmarshal raw) (\<lambda>v. decode_struct serviceAccount_fields v \<lparr>sa_ProjectID = [], sa_ClientEmail = [], sa_PrivateKey = []\<rparr>) of
        None \<Rightarrow> Inl BadAccountJSON
      | Some sa \<Rightarrow>
          if sa_ProjectID sa = [] \<or> sa_ClientEmail sa = [] \<or> sa_PrivateKey sa = [] then Inl MissingFields
          else case parseRSAKey pkcs8 (sa_PrivateKey sa) of
            Inl e \<Rightarrow> Inl e
          | Inr k \<Rightarrow> Inr \<lparr>fc_sa = sa, fc_privKey = k, fc_token = [], fc_expires = time_zero_ns\<rparr>)"

definition tokenURL :: string where "tokenURL = ''https://oauth2.googleapis.com/token''"

definition fcmScope :: string where "fcmScope = ''https://www.googleapis.com/auth/firebase.messaging''"

definition b64url :: "bytes \<Rightarrow> string" where
  "b64url b = b64_encode RawURLEncoding b"

text \<open>\<^verbatim>\<open>signedJWT\<close>; a marshalled map has its keys in order.\<close>

definition jwt_claims :: "serviceAccount \<Rightarrow> int \<Rightarrow> json" where
  "jwt_claims sa now = JObj [(''aud'', JStr tokenURL), (''exp'', JNum (show_int (now + 3600))), (''iat'', JNum (show_int now)),
     (''iss'', JStr (sa_ClientEmail sa)), (''scope'', JStr fcmScope)]"

definition jwt_header :: json where
  "jwt_header = JObj [(''alg'', JStr ''RS256''), (''typ'', JStr ''JWT'')]"

definition signedJWT :: "('k \<Rightarrow> bytes \<Rightarrow> bytes option) \<Rightarrow> int \<Rightarrow> 'k fcm_client \<Rightarrow> fcm_error + string" where
  "signedJWT sign now c =
     (let sigInput = b64url (json_print jwt_header) @ ''.'' @ b64url (json_print (jwt_claims (fc_sa c) (now div second))) in
      case sign (fc_privKey c) (sha256 sigInput) of
        None \<Rightarrow> Inl SignFailed
      | Some sig \<Rightarrow> Inr (sigInput @ ''.'' @ b64url sig))"

record token_reply =
  tr_AccessToken :: string
  tr_ExpiresIn :: int

definition token_reply_fields :: "token_reply fields" where
  "token_reply_fields =
     [(''access_token'', set_str (\<lambda>s t. t\<lparr>tr_AccessToken := s\<rparr>)), (''expires_in'', set_int (\<lambda>n t. t\<lparr>tr_ExpiresIn := n\<rparr>))]"

definition grant_body :: "string \<Rightarrow> bytes" where
  "grant_body jwt = ''grant_type=urn%3Aietf%3Aparams%3Aoauth%3Agrant-type%3Ajwt-bearer&assertion='' @ jwt"

text \<open>
  \<^verbatim>\<open>accessToken\<close> at time \<^term>\<open>now\<close>, the answer to its request arriving at \<^term>\<open>later\<close>. The lifetime is
  multiplied in 64 bits.
\<close>

definition accessToken ::
  "('k \<Rightarrow> bytes \<Rightarrow> bytes option) \<Rightarrow> http \<Rightarrow> int \<Rightarrow> int \<Rightarrow> 'k fcm_client \<Rightarrow> (fcm_error + string) \<times> http_req list \<times> 'k fcm_client" where
  "accessToken sign http now later c =
     (if now < fc_expires c - 30 * second then (Inr (fc_token c), [], c)
      else case signedJWT sign now c of
        Inl e \<Rightarrow> (Inl e, [], c)
      | Inr jwt \<Rightarrow>
          (let req = \<lparr>hr_URL = tokenURL, hr_Authorization = [], hr_ContentType = ''application/x-www-form-urlencoded'',
                 hr_Body = grant_body jwt\<rparr> in
           case http req of
             Inl e \<Rightarrow> (Inl (TokenFetch e), [req], c)
           | Inr (status, body) \<Rightarrow>
               if status \<noteq> 200 then (Inl (TokenStatus status body), [req], c)
               else (case Decode_next token_reply_fields \<lparr>tr_AccessToken = [], tr_ExpiresIn = 0\<rparr> body of
                 None \<Rightarrow> (Inl TokenDecode, [req], c)
               | Some (tok, _) \<Rightarrow>
                   (Inr (tr_AccessToken tok), [req],
                    c\<lparr>fc_token := tr_AccessToken tok, fc_expires := later + wrap64 (tr_ExpiresIn tok * second)\<rparr>))))"

definition fcm_message :: "string \<Rightarrow> (string \<times> string) list \<Rightarrow> json" where
  "fcm_message registrationToken data = JObj [(''message'', JObj [(''token'', JStr registrationToken),
     (''data'', JObj (map (\<lambda>(k, v). (k, JStr v)) data)), (''android'', JObj [(''priority'', JStr ''high'')])])]"

definition fcm_url :: "string \<Rightarrow> string" where
  "fcm_url project = ''https://fcm.googleapis.com/v1/projects/'' @ project @ ''/messages:send''"

definition fcm_Send ::
  "('k \<Rightarrow> bytes \<Rightarrow> bytes option) \<Rightarrow> http \<Rightarrow> int \<Rightarrow> int \<Rightarrow> string \<Rightarrow> (string \<times> string) list \<Rightarrow> 'k fcm_client
   \<Rightarrow> fcm_error option \<times> http_req list \<times> 'k fcm_client" where
  "fcm_Send sign http now later registrationToken data c = (case accessToken sign http now later c of
     (Inl e, reqs, c1) \<Rightarrow> (Some e, reqs, c1)
   | (Inr token, reqs, c1) \<Rightarrow>
       (let req = \<lparr>hr_URL = fcm_url (sa_ProjectID (fc_sa c1)), hr_Authorization = ''Bearer '' @ token,
              hr_ContentType = ''application/json'', hr_Body = json_print (fcm_message registrationToken data)\<rparr> in
        case http req of
          Inl e \<Rightarrow> (Some (SendFetch e), reqs @ [req], c1)
        | Inr (status, body) \<Rightarrow> (if status \<noteq> 200 then Some (SendStatus status body) else None, reqs @ [req], c1)))"

section \<open>The relay\<close>

record wake_request =
  wk_Fingerprint :: string
  wk_Sender :: string
  wk_FCMToken :: string

definition wake_request_fields :: "wake_request fields" where
  "wake_request_fields =
     [(''fingerprint'', set_str (\<lambda>s w. w\<lparr>wk_Fingerprint := s\<rparr>)), (''sender'', set_str (\<lambda>s w. w\<lparr>wk_Sender := s\<rparr>)),
      (''fcm_token'', set_str (\<lambda>s w. w\<lparr>wk_FCMToken := s\<rparr>))]"

text \<open>\<^verbatim>\<open>handleWake\<close>: the status and body answered; \<^term>\<open>errs\<close> gives the texts of errors.\<close>

definition handleWake ::
  "('k \<Rightarrow> bytes \<Rightarrow> bytes option) \<Rightarrow> http \<Rightarrow> (fcm_error option \<Rightarrow> string) \<Rightarrow> int \<Rightarrow> int \<Rightarrow> string \<Rightarrow> bytes \<Rightarrow> 'k fcm_client
   \<Rightarrow> (int \<times> bytes) \<times> http_req list \<times> 'k fcm_client" where
  "handleWake sign http errs now later method body c =
     (if method \<noteq> ''POST'' then ((405, ''method not allowed'' @ [newline]), [], c)
      else case Decode_next wake_request_fields \<lparr>wk_Fingerprint = [], wk_Sender = [], wk_FCMToken = []\<rparr> body of
        None \<Rightarrow> ((400, ''bad request: '' @ errs None @ [newline]), [], c)
      | Some (w, _) \<Rightarrow>
          if wk_FCMToken w = [] then ((400, ''fcm_token is required'' @ [newline]), [], c)
          else case fcm_Send sign http now later (wk_FCMToken w)
                 [(''fingerprint'', wk_Fingerprint w), (''sender'', wk_Sender w), (''type'', ''wake'')] c of
            (Some e, reqs, c1) \<Rightarrow> ((502, ''fcm send failed: '' @ errs (Some e) @ [newline]), reqs, c1)
          | (None, reqs, c1) \<Rightarrow> ((200, []), reqs, c1))"

text \<open>
  The program: its key file, and the requests that arrive, each with its path and times. Only one path is
  served; the key file is read once.
\<close>

datatype relay_error = KeyRequired | KeyUnread | InitFailed fcm_error

definition relay_main :: "(bytes \<Rightarrow> 'k option) \<Rightarrow> string \<Rightarrow> (string \<Rightarrow> bytes option) \<Rightarrow> relay_error + 'k fcm_client" where
  "relay_main pkcs8 keyFile read =
     (if keyFile = [] then Inl KeyRequired
      else case read keyFile of
        None \<Rightarrow> Inl KeyUnread
      | Some keyJSON \<Rightarrow>
          (case NewClientFromJSON pkcs8 keyJSON of Inl e \<Rightarrow> Inl (InitFailed e) | Inr c \<Rightarrow> Inr c))"

record relay_req =
  rr_Path :: string
  rr_Method :: string
  rr_Body :: bytes
  rr_now :: int
  rr_later :: int

definition relay_route ::
  "('k \<Rightarrow> bytes \<Rightarrow> bytes option) \<Rightarrow> http \<Rightarrow> (fcm_error option \<Rightarrow> string) \<Rightarrow> relay_req \<Rightarrow> 'k fcm_client
   \<Rightarrow> (int \<times> bytes) \<times> http_req list \<times> 'k fcm_client" where
  "relay_route sign http errs r c =
     (if rr_Path r = ''/wake'' then handleWake sign http errs (rr_now r) (rr_later r) (rr_Method r) (rr_Body r) c
      else ((404, ''404 page not found'' @ [newline]), [], c))"

fun relay_serve ::
  "('k \<Rightarrow> bytes \<Rightarrow> bytes option) \<Rightarrow> http \<Rightarrow> (fcm_error option \<Rightarrow> string) \<Rightarrow> relay_req list \<Rightarrow> 'k fcm_client
   \<Rightarrow> (int \<times> bytes) list \<times> http_req list \<times> 'k fcm_client" where
  "relay_serve sign http errs [] c = ([], [], c)"
| "relay_serve sign http errs (r # rs) c =
     (let (a, out, c1) = relay_route sign http errs r c; (as, outs, c2) = relay_serve sign http errs rs c1 in
      (a # as, out @ outs, c2))"

section \<open>Laws\<close>

lemma next_value_print: "json_ok v \<Longrightarrow> next_value (json_print v) = Some (v, [])"
  using readsD [OF json_print_reads, of v "[]"] reads_start [OF json_print_reads, of v "[]"]
  by (simp add: next_value_def del: p_value.simps)

lemma decode_wakeRequest:
  assumes "utf8_valid (d_Fingerprint dev)" "utf8_valid (dm_name d)" "utf8_valid (d_FcmToken dev)"
  shows "Decode_next wake_request_fields \<lparr>wk_Fingerprint = [], wk_Sender = [], wk_FCMToken = []\<rparr> (json_print (wakeRequest d dev)) =
    Some (\<lparr>wk_Fingerprint = d_Fingerprint dev, wk_Sender = dm_name d, wk_FCMToken = d_FcmToken dev\<rparr>, [])"
proof -
  have "json_ok (wakeRequest d dev)" using assms by (simp add: wakeRequest_def control_ok del: json_ok.simps(4))
  moreover have "decode_struct wake_request_fields (wakeRequest d dev) \<lparr>wk_Fingerprint = [], wk_Sender = [], wk_FCMToken = []\<rparr> =
      Some \<lparr>wk_Fingerprint = d_Fingerprint dev, wk_Sender = dm_name d, wk_FCMToken = d_FcmToken dev\<rparr>"
    by (simp add: wakeRequest_def wake_request_fields_def key_lookup control_steps)
  ultimately show ?thesis by (simp add: Decode_next_def next_value_print)
qed

text \<open>The push message for a device.\<close>

definition wake_push :: "string \<Rightarrow> string \<Rightarrow> daemon \<Rightarrow> device \<Rightarrow> http_req" where
  "wake_push project token d dev = \<lparr>hr_URL = fcm_url project, hr_Authorization = ''Bearer '' @ token, hr_ContentType = ''application/json'',
     hr_Body = json_print (fcm_message (d_FcmToken dev)
       [(''fingerprint'', d_Fingerprint dev), (''sender'', dm_name d), (''type'', ''wake'')])\<rparr>"

lemma accessToken_sa: "accessToken sign http now later c = (r, reqs, c1) \<Longrightarrow> fc_sa c1 = fc_sa c"
  by (auto simp: accessToken_def Let_def split: if_splits sum.splits prod.splits option.splits)

text \<open>
  Property C32. A daemon's wake request through the relay: the relay makes exactly one push, to the phone's
  own registration token and with the daemon's name and the phone's fingerprint, under a bearer token; the
  daemon is told that it worked exactly when Firebase accepted the push. The texts are valid UTF-8, the phone
  has a registration token, and the relay gets or has an access token.
\<close>

theorem wake_reaches_phone:
  assumes "utf8_valid (d_Fingerprint dev)" "utf8_valid (dm_name d)" "utf8_valid (d_FcmToken dev)" "d_FcmToken dev \<noteq> []"
    "accessToken sign http now later c = (Inr token, reqs, c1)"
  shows "fst (snd (handleWake sign http errs now later ''POST'' (json_print (wakeRequest d dev)) c)) =
      reqs @ [wake_push (sa_ProjectID (fc_sa c)) token d dev] \<and>
    (wakeViRelay (\<lambda>url body. Inr (fst (handleWake sign http errs now later ''POST'' body c))) dev d = None \<longleftrightarrow>
      (\<exists>body. http (wake_push (sa_ProjectID (fc_sa c)) token d dev) = Inr (200, body)))"
proof -
  let ?push = "wake_push (sa_ProjectID (fc_sa c)) token d dev"
  have sa: "fc_sa c1 = fc_sa c" using accessToken_sa [OF assms(5)] .
  have send: "fcm_Send sign http now later (d_FcmToken dev) [(''fingerprint'', d_Fingerprint dev), (''sender'', dm_name d), (''type'', ''wake'')] c =
      ((case http ?push of Inl e \<Rightarrow> Some (SendFetch e) | Inr (status, body) \<Rightarrow> if status \<noteq> 200 then Some (SendStatus status body) else None),
       reqs @ [?push], c1)"
    using assms(5) sa by (simp add: fcm_Send_def wake_push_def Let_def split: sum.splits prod.splits)
  show ?thesis
    using assms(4) by (simp add: handleWake_def decode_wakeRequest [OF assms(1-3)] send wakeViRelay_def split: sum.splits prod.splits if_splits)
qed

theorem wake_reaches_phone_witness:
  "\<exists>c :: nat fcm_client. wakeViRelay (\<lambda>url body. Inr (fst (handleWake (\<lambda>_ _. None) (\<lambda>_. Inr (200, [])) (\<lambda>_. []) 0 0 ''POST'' body c)))
     (Device0\<lparr>d_FcmToken := ''reg''\<rparr>) demo_daemon = None"
proof -
  let ?c = "\<lparr>fc_sa = \<lparr>sa_ProjectID = ''p'', sa_ClientEmail = ''e'', sa_PrivateKey = ''k''\<rparr>, fc_privKey = 0 :: nat, fc_token = ''tok'',
    fc_expires = 3600 * second\<rparr>"
  let ?dev = "Device0\<lparr>d_FcmToken := ''reg''\<rparr>"
  have "accessToken (\<lambda>_ _. None) (\<lambda>_. Inr (200, [])) 0 0 ?c = (Inr ''tok'', [], ?c)"
    by (simp add: accessToken_def second_def)
  from wake_reaches_phone [OF _ _ _ _ this, of ?dev demo_daemon "\<lambda>_. []"]
  have "wakeViRelay (\<lambda>url body. Inr (fst (handleWake (\<lambda>_ _. None) (\<lambda>_. Inr (200, [])) (\<lambda>_. []) 0 0 ''POST'' body ?c))) ?dev demo_daemon = None"
    by (simp add: Device0_def demo_daemon_def utf8_valid_ascii)
  then show ?thesis by blast
qed

text \<open>A cached token is used only while it has more than thirty seconds left; otherwise one is fetched.\<close>

lemma accessToken_fresh:
  assumes "accessToken sign http now later c = (Inr token, reqs, c1)"
  shows "(reqs = [] \<and> token = fc_token c \<and> now + 30 * second < fc_expires c) \<or>
    (\<exists>jwt. map hr_URL reqs = [tokenURL] \<and> signedJWT sign now c = Inr jwt \<and> hr_Body (hd reqs) = grant_body jwt \<and> token = fc_token c1)"
  using assms by (auto simp: accessToken_def Let_def split: if_splits sum.splits prod.splits option.splits)

text \<open>The parts of a signed token read back, and the signature is over the first two.\<close>

lemma b64url_dot: "CHR ''.'' \<notin> set (b64url b)"
proof -
  have "b64_ok RawURLEncoding" by simp
  then have "list_all (b64_class RawURLEncoding) (b64url b)" unfolding b64url_def by (rule b64_alphabet)
  moreover have "\<not> b64_class RawURLEncoding CHR ''.''"
    by (simp add: b64_class_def is_upper_def is_lower_def is_digit_def RawURLEncoding_def)
  ultimately show ?thesis by (auto simp: list_all_iff)
qed

lemma signedJWT_parts:
  assumes "signedJWT sign now c = Inr jwt"
  shows "\<exists>sig. go_split CHR ''.'' jwt = [b64url (json_print jwt_header), b64url (json_print (jwt_claims (fc_sa c) (now div second))), b64url sig] \<and>
    sign (fc_privKey c) (sha256 (go_join ''.'' (take 2 (go_split CHR ''.'' jwt)))) = Some sig"
  using assms b64url_dot
  by (auto simp: signedJWT_def Let_def go_split_append go_split_no_sep split: option.splits)

text \<open>
  What a served relay sends out: nothing but token requests and pushes of the project in its key file, and
  only for requests that post to \<^verbatim>\<open>/wake\<close> with a registration token.
\<close>

definition wakes :: "relay_req \<Rightarrow> bool" where
  "wakes r \<longleftrightarrow> rr_Path r = ''/wake'' \<and> rr_Method r = ''POST'' \<and>
     (\<exists>w rest. Decode_next wake_request_fields \<lparr>wk_Fingerprint = [], wk_Sender = [], wk_FCMToken = []\<rparr> (rr_Body r) = Some (w, rest) \<and>
        wk_FCMToken w \<noteq> [])"

lemma accessToken_urls: "accessToken sign http now later c = (t, reqs, c1) \<Longrightarrow> \<forall>r\<in>set reqs. hr_URL r = tokenURL"
  by (auto simp: accessToken_def Let_def split: if_splits sum.splits prod.splits option.splits)

lemma relay_route_out:
  assumes "relay_route sign http errs r c = (a, out, c1)"
  shows "fc_sa c1 = fc_sa c \<and> set (map hr_URL out) \<subseteq> {tokenURL, fcm_url (sa_ProjectID (fc_sa c))} \<and> (\<not> wakes r \<longrightarrow> out = [] \<and> fst a \<noteq> 200)"
proof -
  have send: "fc_sa c' = fc_sa c \<and> set (map hr_URL reqs) \<subseteq> {tokenURL, fcm_url (sa_ProjectID (fc_sa c))}"
    if s: "fcm_Send sign http now later tok data c = (e, reqs, c')" for now later tok data e reqs c'
  proof -
    obtain t rs c0 where a: "accessToken sign http now later c = (t, rs, c0)" by (metis prod_cases3)
    from s a accessToken_urls [OF a] accessToken_sa [OF a] show ?thesis
      by (auto simp: fcm_Send_def Let_def split: sum.splits prod.splits if_splits)
  qed
  show ?thesis using assms send
    by (fastforce simp: relay_route_def handleWake_def wakes_def split: if_splits option.splits prod.splits)
qed

lemma relay_serves_wakes_only:
  assumes "relay_serve sign http errs rs c = (as, outs, c1)"
  shows "fc_sa c1 = fc_sa c" "length as = length rs" "set (map hr_URL outs) \<subseteq> {tokenURL, fcm_url (sa_ProjectID (fc_sa c))}"
    "\<forall>r\<in>set rs. \<not> wakes r \<Longrightarrow> outs = [] \<and> (\<forall>a\<in>set as. fst a \<noteq> 200)"
proof -
  have "fc_sa c1 = fc_sa c \<and> length as = length rs \<and> set (map hr_URL outs) \<subseteq> {tokenURL, fcm_url (sa_ProjectID (fc_sa c))} \<and>
      ((\<forall>r\<in>set rs. \<not> wakes r) \<longrightarrow> outs = [] \<and> (\<forall>a\<in>set as. fst a \<noteq> 200))"
    using assms
  proof (induction rs arbitrary: c as outs)
    case (Cons r rs)
    obtain a out c' where r: "relay_route sign http errs r c = (a, out, c')" by (metis prod_cases3)
    obtain as' outs' c'' where s: "relay_serve sign http errs rs c' = (as', outs', c'')" by (metis prod_cases3)
    have eq: "as = a # as'" "outs = out @ outs'" "c1 = c''" using Cons.prems r s by auto
    from Cons.IH [OF s [folded eq(3)]] relay_route_out [OF r] show ?case unfolding eq by auto
  qed auto
  then show "fc_sa c1 = fc_sa c" "length as = length rs" "set (map hr_URL outs) \<subseteq> {tokenURL, fcm_url (sa_ProjectID (fc_sa c))}"
    "\<forall>r\<in>set rs. \<not> wakes r \<Longrightarrow> outs = [] \<and> (\<forall>a\<in>set as. fst a \<noteq> 200)" by blast+
qed

end
