(* ===== verification/Direct.thy ===== *)
theory Direct
  imports Signals
begin

text \<open>
  Setting up a direct channel between networks, \<^verbatim>\<open>internal/direct/direct.go\<close> and
  \<^verbatim>\<open>internal/daemon/directch.go\<close>: the two sides exchange credentials and candidates as signals through the
  hubs, ICE finds a path, QUIC runs over it with the pinned certificates. The ICE and QUIC libraries are the
  argument \<^verbatim>\<open>ice_lib\<close>; what happens while a set-up runs is the list of its events, which ends when the path
  is there or its time (30 seconds by default) is over.
\<close>

section \<open>Messages and inboxes\<close>

record direct_Msg =
  ms_Kind :: string
  ms_Ufrag :: string
  ms_Pwd :: string
  ms_Cand :: string

definition Msg0 :: direct_Msg where
  "Msg0 = \<lparr>ms_Kind = [], ms_Ufrag = [], ms_Pwd = [], ms_Cand = []\<rparr>"

text \<open>\<^verbatim>\<open>d.iceSetups\<close>: the queues of the set-ups in progress by their identifier, each a channel of 64 messages.\<close>

type_synonym ice_setups = "(string \<times> direct_Msg list) list"

definition ice_capacity :: nat where
  "ice_capacity = 64"

definition iceInbox :: "string \<Rightarrow> ice_setups \<Rightarrow> direct_Msg list \<times> ice_setups" where
  "iceInbox cid setups = (case map_of setups cid of
     Some q \<Rightarrow> (q, setups)
   | None \<Rightarrow> ([], AList.update cid [] setups))"

definition dropIceInbox :: "string \<Rightarrow> ice_setups \<Rightarrow> ice_setups" where
  "dropIceInbox cid setups = AList.delete cid setups"

text \<open>The arm of \<^verbatim>\<open>rnsInbox\<close> for answers and candidates: queued, or dropped when the queue is full.\<close>

definition ice_deliver :: "string \<Rightarrow> direct_Msg \<Rightarrow> ice_setups \<Rightarrow> ice_setups" where
  "ice_deliver cid m setups =
     (let (q, setups') = iceInbox cid setups in
      if length q < ice_capacity then AList.update cid (q @ [m]) setups' else setups')"

fun perform_ice :: "action \<Rightarrow> ice_setups \<Rightarrow> ice_setups" where
  "perform_ice (IceSignal cid kind u p c) setups = ice_deliver cid \<lparr>ms_Kind = kind, ms_Ufrag = u, ms_Pwd = p, ms_Cand = c\<rparr> setups"
| "perform_ice _ setups = setups"

definition iceSignal :: "string \<Rightarrow> direct_Msg \<Rightarrow> signal" where
  "iceSignal cid m = Signal0\<lparr>sg_Type := ''ice-'' @ ms_Kind m, sg_ID := cid, sg_Ufrag := ms_Ufrag m, sg_Pwd := ms_Pwd m,
     sg_Cand := ms_Cand m\<rparr>"

section \<open>The agent\<close>

record direct_Options =
  do_STUN :: "string list option"
  do_Loopback :: bool

definition DefaultSTUN :: "string list" where
  "DefaultSTUN = [''stun:stun.l.google.com:19302'', ''stun:stun.cloudflare.com:3478'', ''stun:stun.nextcloud.com:443'']"

definition direct_ALPN :: string where
  "direct_ALPN = ''adrop/1''"

datatype candidateType = CandidateTypeHost | CandidateTypeServerReflexive

record 'u agent_options =
  ao_urls :: "'u list"
  ao_types :: "candidateType list"
  ao_loopback :: bool

text \<open>
  The libraries: parsing a STUN address and a candidate, making an agent, its credentials and gathering,
  connecting with the peer's credentials and candidates, and the two sides of QUIC.
\<close>

record ('u, 'c, 'k, 'q) ice_lib =
  il_parse :: "string \<Rightarrow> string + 'u"
  il_new :: "'u agent_options \<Rightarrow> string option"
  il_onCandidate :: "string option"
  il_creds :: "string + (string \<times> string)"
  il_gather :: "string option"
  il_candidate :: "string \<Rightarrow> 'c option"
  il_connect :: "bool \<Rightarrow> string \<Rightarrow> string \<Rightarrow> 'c list \<Rightarrow> string + 'k"
  il_dial :: "string list \<Rightarrow> 'k \<Rightarrow> string + 'q"
  il_open :: "'q \<Rightarrow> string + tls_conn"
  il_listen :: "string list \<Rightarrow> 'k \<Rightarrow> string option"
  il_accept :: "'k \<Rightarrow> string + 'q"
  il_stream :: "'q \<Rightarrow> string + tls_conn"

fun parse_urls :: "(string \<Rightarrow> string + 'u) \<Rightarrow> string list \<Rightarrow> string + 'u list" where
  "parse_urls parse [] = Inr []"
| "parse_urls parse (s # ss) = (case parse s of
     Inl e \<Rightarrow> Inl e
   | Inr u \<Rightarrow> (case parse_urls parse ss of Inl e \<Rightarrow> Inl e | Inr us \<Rightarrow> Inr (u # us)))"

definition newAgent :: "('u, 'c, 'k, 'q) ice_lib \<Rightarrow> direct_Options \<Rightarrow> string option" where
  "newAgent lib opt =
     (let servers = (case do_STUN opt of None \<Rightarrow> DefaultSTUN | Some ss \<Rightarrow> ss) in
      case parse_urls (il_parse lib) servers of
        Inl e \<Rightarrow> Some e
      | Inr urls \<Rightarrow>
          il_new lib \<lparr>ao_urls = urls,
            ao_types = CandidateTypeHost # (if 0 < length urls then [CandidateTypeServerReflexive] else []),
            ao_loopback = do_Loopback opt\<rparr>)"

section \<open>Set-up\<close>

text \<open>
  What happens while a set-up waits: the agent finds a local candidate, a message of its inbox is handled, or
  the inbox is closed. \<^verbatim>\<open>remote\<close> is a channel of one message.
\<close>

datatype ice_event = LocalCandidate string | Incoming direct_Msg | InboxClosed

record 'c ice_state =
  is_remote :: "direct_Msg option"
  is_added :: "'c list"
  is_open :: bool

definition on_ice_msg :: "('u, 'c, 'k, 'q) ice_lib \<Rightarrow> direct_Msg \<Rightarrow> 'c ice_state \<Rightarrow> 'c ice_state" where
  "on_ice_msg lib m st =
     (if ms_Kind m = ''answer'' then (if is_remote st = None then st\<lparr>is_remote := Some m\<rparr> else st)
      else if ms_Kind m = ''cand'' then
        (case il_candidate lib (ms_Cand m) of
           Some c \<Rightarrow> st\<lparr>is_added := is_added st @ [c]\<rparr>
         | None \<Rightarrow> st)
      else st)"

fun on_ice_event :: "('u, 'c, 'k, 'q) ice_lib \<Rightarrow> ice_event \<Rightarrow> 'c ice_state \<Rightarrow> 'c ice_state" where
  "on_ice_event lib (LocalCandidate c) st = st"
| "on_ice_event lib (Incoming m) st = (if is_open st then on_ice_msg lib m st else st)"
| "on_ice_event lib InboxClosed st = st\<lparr>is_open := False\<rparr>"

fun candidate_signals :: "ice_event list \<Rightarrow> direct_Msg list" where
  "candidate_signals [] = []"
| "candidate_signals (LocalCandidate c # es) = Msg0\<lparr>ms_Kind := ''cand'', ms_Cand := c\<rparr> # candidate_signals es"
| "candidate_signals (_ # es) = candidate_signals es"

text \<open>What is opened and closed, in order.\<close>

datatype resource = Agent | Transport | QuicConn | QuicStream

datatype usage = Opened resource | Closed resource

definition quic_stage :: "('u, 'c, 'k, 'q) ice_lib \<Rightarrow> bool \<Rightarrow> 'k \<Rightarrow> string + tls_conn" where
  "quic_stage lib controlling k =
     (if controlling then
        (case il_dial lib [direct_ALPN] k of Inl e \<Rightarrow> Inl e | Inr q \<Rightarrow> il_open lib q)
      else (case il_listen lib [direct_ALPN] k of
          Some e \<Rightarrow> Inl e
        | None \<Rightarrow> (case il_accept lib k of Inl e \<Rightarrow> Inl e | Inr q \<Rightarrow> il_stream lib q)))"

definition direct_setup ::
  "('u, 'c, 'k, 'q) ice_lib \<Rightarrow> (direct_Msg \<Rightarrow> string option) \<Rightarrow> ice_event list \<Rightarrow> bool \<Rightarrow> direct_Msg \<Rightarrow> direct_Options \<Rightarrow>
   (string + tls_conn) \<times> direct_Msg list \<times> usage list" where
  "direct_setup lib send es controlling offer opt =
     (case newAgent lib opt of
        Some e \<Rightarrow> (Inl e, [], [])
      | None \<Rightarrow>
          (let fail = (\<lambda>e sigs. (Inl e, sigs, [Opened Agent, Closed Agent])) in
           case il_onCandidate lib of
             Some e \<Rightarrow> fail e []
           | None \<Rightarrow>
               (case il_creds lib of
                  Inl e \<Rightarrow> fail e []
                | Inr (ufrag, pwd) \<Rightarrow>
                    (let kind = (if controlling then ''offer'' else ''answer'');
                         first = Msg0\<lparr>ms_Kind := kind, ms_Ufrag := ufrag, ms_Pwd := pwd\<rparr> in
                     case send first of
                       Some e \<Rightarrow> fail (''direct: send '' @ kind @ '': '' @ e) [first]
                     | None \<Rightarrow>
                         (case il_gather lib of
                            Some e \<Rightarrow> fail e [first]
                          | None \<Rightarrow>
                              (let sigs = first # candidate_signals es;
                                   st = fold (on_ice_event lib) es
                                     \<lparr>is_remote = (if controlling then None else Some offer), is_added = [], is_open = True\<rparr> in
                               case is_remote st of
                                 None \<Rightarrow> fail ''direct: no answer from the peer'' sigs
                               | Some creds \<Rightarrow>
                                   (case il_connect lib controlling (ms_Ufrag creds) (ms_Pwd creds) (is_added st) of
                                      Inl e \<Rightarrow> fail (''direct: no path through the NATs: '' @ e) sigs
                                    | Inr k \<Rightarrow>
                                        (case quic_stage lib controlling k of
                                           Inl e \<Rightarrow> (Inl (''direct: quic: '' @ e), sigs,
                                             [Opened Agent, Opened Transport, Closed Transport, Closed Agent])
                                         | Inr c \<Rightarrow> (Inr c, sigs,
                                             [Opened Agent, Opened Transport, Opened QuicConn, Opened QuicStream])))))))))"

definition direct_Dial where
  "direct_Dial lib send es opt = direct_setup lib send es True Msg0 opt"

definition direct_Accept where
  "direct_Accept lib send es offer opt = direct_setup lib send es False offer opt"

text \<open>\<^verbatim>\<open>Close\<close>: once, whatever is called again; the connection and the agent go when the peer has had time to read.\<close>

record direct_Conn =
  dc_closed :: bool
  dc_usage :: "usage list"

definition direct_Close :: "direct_Conn \<Rightarrow> direct_Conn" where
  "direct_Close c = (if dc_closed c then c
     else c\<lparr>dc_closed := True,
       dc_usage := dc_usage c @ [Closed QuicStream, Closed QuicConn, Closed Transport, Closed Agent]\<rparr>)"

section \<open>Laws\<close>

text \<open>The signals of a set-up through the hubs: what one daemon sends is what the other is told.\<close>

lemma ice_signal_ok:
  "list_all utf8_valid [cid, ms_Kind m, ms_Ufrag m, ms_Pwd m, ms_Cand m] \<Longrightarrow> utf8_valid (''ice-'' @ ms_Kind m) \<Longrightarrow> signal_ok (iceSignal cid m)"
  by (simp add: signal_ok_def iceSignal_def Signal0_def int64_def)

definition msg_ok :: "direct_Msg \<Rightarrow> bool" where
  "msg_ok m \<longleftrightarrow> ms_Kind m \<in> {''offer'', ''answer'', ''cand''} \<and> list_all utf8_valid [ms_Ufrag m, ms_Pwd m, ms_Cand m]"

lemma ice_signal_received:
  assumes "deviceByRNS pub d = Some dev" "msg_ok m" "utf8_valid cid"
  shows "on_message mem clip_set \<lparr>m_From = pub, m_Body = marshal_signal (iceSignal cid m)\<rparr> d =
    Some (kickQueue d, if ms_Kind m = ''offer'' then [ServeOffer dev (iceSignal cid m)]
      else [IceSignal cid (ms_Kind m) (ms_Ufrag m) (ms_Pwd m) (ms_Cand m)])"
proof -
  have "signal_ok (iceSignal cid m)"
    using assms(2,3) by (intro ice_signal_ok) (auto simp: msg_ok_def utf8_valid_ascii)
  then have "unmarshal_signal (marshal_signal (iceSignal cid m)) = Some (iceSignal cid m)" by (rule unmarshal_marshal_signal)
  with assms(1,2) show ?thesis by (auto simp: on_message_def msg_ok_def iceSignal_def Signal0_def Let_def)
qed

text \<open>
  An inbox keeps what arrives in order, also what arrives before its set-up has begun, until 64 messages
  wait; other inboxes are not touched.
\<close>

lemma ice_deliver_same:
  "map_of (ice_deliver cid m setups) cid = Some (let q = (case map_of setups cid of Some q \<Rightarrow> q | None \<Rightarrow> []) in
     if length q < ice_capacity then q @ [m] else q)"
  by (simp add: ice_deliver_def iceInbox_def Let_def update_conv' split: option.splits)

lemma ice_inbox_fifo:
  assumes "map_of setups cid = Some q" "length q + length ms \<le> ice_capacity"
  shows "map_of (fold (ice_deliver cid) ms setups) cid = Some (q @ ms)"
  using assms
proof (induction ms arbitrary: setups q)
  case (Cons m ms)
  then have "map_of (ice_deliver cid m setups) cid = Some (q @ [m])" by (simp add: ice_deliver_same)
  from Cons.IH [OF this] Cons.prems(2) show ?case by simp
qed simp

lemma ice_inbox_others: "cid' \<noteq> cid \<Longrightarrow> map_of (ice_deliver cid m setups) cid' = map_of setups cid'"
  by (simp add: ice_deliver_def iceInbox_def Let_def update_conv' split: option.splits)

text \<open>What a run of events leaves: the first answer, and the candidates that can be read.\<close>

fun incoming :: "ice_event list \<Rightarrow> direct_Msg list" where
  "incoming [] = []"
| "incoming (Incoming m # es) = m # incoming es"
| "incoming (InboxClosed # es) = []"
| "incoming (LocalCandidate c # es) = incoming es"

lemma closed_stays: "\<not> is_open st \<Longrightarrow> fold (on_ice_event lib) es st = st"
proof (induction es arbitrary: st)
  case (Cons e es)
  then have "on_ice_event lib e st = st" by (cases e) auto
  with Cons show ?case by simp
qed simp

lemma ice_events_state:
  "is_open st \<Longrightarrow>
   is_remote (fold (on_ice_event lib) es st) =
     (case is_remote st of Some m \<Rightarrow> Some m | None \<Rightarrow> find (\<lambda>m. ms_Kind m = ''answer'') (incoming es)) \<and>
   is_added (fold (on_ice_event lib) es st) = is_added st @
     List.map_filter (\<lambda>m. if ms_Kind m = ''cand'' then il_candidate lib (ms_Cand m) else None) (incoming es)"
proof (induction es arbitrary: st)
  case (Cons e es)
  show ?case
  proof (cases e)
    case (Incoming m)
    with Cons.prems Cons.IH [of "on_ice_msg lib m st"] show ?thesis
      by (auto simp: on_ice_msg_def map_filter_simps split: option.splits)
  next
    case InboxClosed
    then show ?thesis by (simp add: closed_stays map_filter_simps split: option.splits)
  next
    case (LocalCandidate c)
    with Cons show ?thesis by (simp split: option.splits)
  qed
qed (simp add: map_filter_simps split: option.splits)

definition candidates_of :: "('u, 'c, 'k, 'q) ice_lib \<Rightarrow> direct_Msg list \<Rightarrow> 'c list" where
  "candidates_of lib ms = List.map_filter (\<lambda>m. if ms_Kind m = ''cand'' then il_candidate lib (ms_Cand m) else None) ms"

lemma set_candidates: "set (candidates_of lib ms) = {c. \<exists>m\<in>set ms. ms_Kind m = ''cand'' \<and> il_candidate lib (ms_Cand m) = Some c}"
  by (auto simp: candidates_of_def map_filter_def image_iff split: if_splits) force+

text \<open>A set-up that succeeds: what it sent, with whose credentials it connected, over which protocol.\<close>

lemma setup_ok:
  assumes "direct_setup lib send es controlling offer opt = (Inr c, sigs, tr)"
  obtains u p creds k where "il_creds lib = Inr (u, p)"
    "sigs = Msg0\<lparr>ms_Kind := if controlling then ''offer'' else ''answer'', ms_Ufrag := u, ms_Pwd := p\<rparr> # candidate_signals es"
    "(if controlling then find (\<lambda>m. ms_Kind m = ''answer'') (incoming es) else Some offer) = Some creds"
    "il_connect lib controlling (ms_Ufrag creds) (ms_Pwd creds) (candidates_of lib (incoming es)) = Inr k"
    "quic_stage lib controlling k = Inr c" "tr = [Opened Agent, Opened Transport, Opened QuicConn, Opened QuicStream]"
  using assms that
  by (auto simp: direct_setup_def Let_def ice_events_state candidates_of_def split: option.splits sum.splits if_splits)

text \<open>How often a resource was opened and closed.\<close>

definition opens :: "usage list \<Rightarrow> resource \<Rightarrow> nat" where
  "opens us r = length (filter (\<lambda>u. u = Opened r) us)"

definition closes :: "usage list \<Rightarrow> resource \<Rightarrow> nat" where
  "closes us r = length (filter (\<lambda>u. u = Closed r) us)"

lemma setup_failed:
  assumes "direct_setup lib send es controlling offer opt = (Inl e, sigs, tr)"
  shows "opens tr r = closes tr r"
  using assms
  by (cases r) (auto simp: direct_setup_def Let_def opens_def closes_def split: option.splits sum.splits if_splits prod.splits)

text \<open>
  A channel that is set up holds one of everything, and closing it, however often, releases each exactly once.
\<close>

lemma setup_releases:
  assumes "direct_setup lib send es controlling offer opt = (Inr c, sigs, tr)"
  shows "opens tr r = 1 \<and> closes tr r = 0 \<and>
    (let done = (direct_Close ^^ Suc n) \<lparr>dc_closed = False, dc_usage = tr\<rparr> in opens (dc_usage done) r = 1 \<and> closes (dc_usage done) r = 1)"
proof -
  have tr: "tr = [Opened Agent, Opened Transport, Opened QuicConn, Opened QuicStream]" by (rule setup_ok [OF assms])
  have "(direct_Close ^^ Suc n) x = direct_Close x" for x
    by (induction n) (simp_all add: direct_Close_def)
  then show ?thesis by (cases r) (simp_all add: tr Let_def direct_Close_def opens_def closes_def)
qed

text \<open>What the daemon does with the signals of one set-up that reach it.\<close>

definition ice_message :: "bytes \<Rightarrow> string \<Rightarrow> direct_Msg \<Rightarrow> message" where
  "ice_message pub cid m = \<lparr>m_From = pub, m_Body = marshal_signal (iceSignal cid m)\<rparr>"

lemma deviceByRNS_kick: "deviceByRNS pub (kickQueue d) = deviceByRNS pub d"
  by (simp add: deviceByRNS_def kickQueue_def)

definition ice_action :: "device \<Rightarrow> string \<Rightarrow> direct_Msg \<Rightarrow> action" where
  "ice_action dev cid m = (if ms_Kind m = ''offer'' then ServeOffer dev (iceSignal cid m)
     else IceSignal cid (ms_Kind m) (ms_Ufrag m) (ms_Pwd m) (ms_Cand m))"

lemma rnsInbox_ice:
  assumes "list_all msg_ok ms" "deviceByRNS pub d = Some dev" "utf8_valid cid"
  shows "rnsInbox mem clip_set (map (ice_message pub cid) ms) d = Some (fold (\<lambda>_. kickQueue) ms d, map (ice_action dev cid) ms)"
  using assms
proof (induction ms arbitrary: d)
  case (Cons m ms)
  have "on_message mem clip_set (ice_message pub cid m) d = Some (kickQueue d, [ice_action dev cid m])"
    using Cons.prems ice_signal_received [of pub d dev m cid mem clip_set] unfolding ice_message_def ice_action_def by auto
  with Cons show ?case by (simp add: deviceByRNS_kick)
qed simp

text \<open>The messages of a set-up come from what the daemon was told through the hubs.\<close>

definition told :: "string \<Rightarrow> action list \<Rightarrow> direct_Msg list \<Rightarrow> bool" where
  "told cid acts ms \<longleftrightarrow> (\<forall>m\<in>set ms. IceSignal cid (ms_Kind m) (ms_Ufrag m) (ms_Pwd m) (ms_Cand m) \<in> set acts)"

lemma told_ice:
  assumes "list_all msg_ok sent" "deviceByRNS pub d = Some dev" "utf8_valid cid" "set ms \<subseteq> set sent"
    and "rnsInbox mem clip_set (map (ice_message pub cid) ms) d = Some (d', acts)" "told cid acts got"
  shows "set got \<subseteq> set sent"
proof
  fix m
  assume "m \<in> set got"
  moreover have "list_all msg_ok ms" using assms(1,4) by (auto simp: list_all_iff)
  ultimately have "\<exists>x\<in>set ms. ms_Kind m = ms_Kind x \<and> ms_Ufrag m = ms_Ufrag x \<and> ms_Pwd m = ms_Pwd x \<and> ms_Cand m = ms_Cand x"
    using rnsInbox_ice [OF _ assms(2,3), of ms mem clip_set] assms(5,6) by (fastforce simp: told_def ice_action_def split: if_splits)
  then have "m \<in> set ms" by (metis direct_Msg.equality old.unit.exhaust)
  with assms(4) show "m \<in> set sent" by blast
qed

lemma candidate_signals_kind: "m \<in> set (candidate_signals es) \<Longrightarrow> ms_Kind m = ''cand''"
  by (induction es rule: candidate_signals.induct) (auto simp: Msg0_def)

text \<open>
  Property C33. A direct channel joins the two devices that signalled and no others: when the two set-ups of
  one identifier both end in a channel, and each was told only what the other's daemon sent through the hubs, in
  whatever order and with whatever lost or repeated, then each asked its agent for a path with exactly the
  other's credentials and with candidates the other had found.
\<close>

theorem direct_channel_agrees:
  assumes A: "direct_Dial libA sendA esA optA = (Inr cA, sigsA, trA)"
    and B: "direct_Accept libB sendB esB \<lparr>ms_Kind = ''offer'', ms_Ufrag = sg_Ufrag s, ms_Pwd = sg_Pwd s, ms_Cand = []\<rparr> optB = (Inr cB, sigsB, trB)"
    and ok: "list_all msg_ok (sigsA @ sigsB)" "utf8_valid cid"
    and knows: "deviceByRNS pubB dA = Some devB" "deviceByRNS pubA dB = Some devA"
    and hubs: "set msA \<subseteq> set sigsA" "set msB \<subseteq> set sigsB"
    and inA: "rnsInbox memA clipA (map (ice_message pubB cid) msB) dA = Some (dA', actsA)" "told cid actsA (incoming esA)"
    and inB: "rnsInbox memB clipB (map (ice_message pubA cid) msA) dB = Some (dB', actsB)" "told cid actsB (incoming esB)"
      "ServeOffer devA s \<in> set actsB"
  shows "\<exists>uA pA uB pB csA csB kA kB. il_creds libA = Inr (uA, pA) \<and> il_creds libB = Inr (uB, pB) \<and>
    il_connect libA True uB pB csA = Inr kA \<and> quic_stage libA True kA = Inr cA \<and>
    il_connect libB False uA pA csB = Inr kB \<and> quic_stage libB False kB = Inr cB \<and>
    set csA \<subseteq> set (candidates_of libA (candidate_signals esB)) \<and> set csB \<subseteq> set (candidates_of libB (candidate_signals esA))"
proof -
  obtain uA pA creds kA where a: "il_creds libA = Inr (uA, pA)"
    "sigsA = Msg0\<lparr>ms_Kind := ''offer'', ms_Ufrag := uA, ms_Pwd := pA\<rparr> # candidate_signals esA"
    "find (\<lambda>m. ms_Kind m = ''answer'') (incoming esA) = Some creds"
    "il_connect libA True (ms_Ufrag creds) (ms_Pwd creds) (candidates_of libA (incoming esA)) = Inr kA" "quic_stage libA True kA = Inr cA"
    by (rule setup_ok [OF A [unfolded direct_Dial_def]]) simp
  obtain uB pB kB where b: "il_creds libB = Inr (uB, pB)"
    "sigsB = Msg0\<lparr>ms_Kind := ''answer'', ms_Ufrag := uB, ms_Pwd := pB\<rparr> # candidate_signals esB"
    "il_connect libB False (sg_Ufrag s) (sg_Pwd s) (candidates_of libB (incoming esB)) = Inr kB" "quic_stage libB False kB = Inr cB"
    by (rule setup_ok [OF B [unfolded direct_Accept_def]]) auto
  have gotA: "set (incoming esA) \<subseteq> set sigsB"
    by (rule told_ice [OF _ knows(1) ok(2) hubs(2) inA]) (use ok(1) in simp)
  have gotB: "set (incoming esB) \<subseteq> set sigsA"
    by (rule told_ice [OF _ knows(2) ok(2) hubs(1) inB(1,2)]) (use ok(1) in simp)
  have "creds \<in> set sigsB" "ms_Kind creds = ''answer''" using a(3) gotA by (auto simp: find_Some_iff)
  then have credsB: "ms_Ufrag creds = uB" "ms_Pwd creds = pB" using b(2) candidate_signals_kind by (auto simp: Msg0_def)
  have "list_all msg_ok msA" using ok(1) hubs(1) by (auto simp: list_all_iff)
  from rnsInbox_ice [OF this knows(2) ok(2)] inB(1) have "actsB = map (ice_action devA cid) msA" by simp
  with inB(3) obtain m where "m \<in> set msA" "ServeOffer devA s = ice_action devA cid m" by auto
  then have "m \<in> set msA" "ms_Kind m = ''offer''" "s = iceSignal cid m" by (simp_all add: ice_action_def split: if_splits)
  with hubs(1) a(2) have s: "sg_Ufrag s = uA" "sg_Pwd s = pA"
    using candidate_signals_kind by (auto simp: iceSignal_def Signal0_def Msg0_def)
  have "set (candidates_of libA (incoming esA)) \<subseteq> set (candidates_of libA (candidate_signals esB))"
    "set (candidates_of libB (incoming esB)) \<subseteq> set (candidates_of libB (candidate_signals esA))"
    using gotA gotB a(2) b(2) by (auto simp: set_candidates Msg0_def)
  with a(4) b(3) have "il_connect libA True uB pB (candidates_of libA (incoming esA)) = Inr kA"
    "il_connect libB False uA pA (candidates_of libB (incoming esB)) = Inr kB" unfolding credsB s by simp_all
  with a(1,5) b(1,4) \<open>set (candidates_of libA (incoming esA)) \<subseteq> _\<close> \<open>set (candidates_of libB (incoming esB)) \<subseteq> _\<close>
  show ?thesis by blast
qed

definition demo_ice :: "string \<Rightarrow> string \<Rightarrow> (string, string, unit, unit) ice_lib" where
  "demo_ice u v = \<lparr>il_parse = Inr, il_new = \<lambda>_. None, il_onCandidate = None, il_creds = Inr (u, u), il_gather = None,
     il_candidate = Some, il_connect = \<lambda>_ x y _. if x = v \<and> y = v then Inr () else Inl ''failed'', il_dial = \<lambda>_ _. Inr (),
     il_open = \<lambda>_. Inr \<lparr>tc_certs = [''c''], tc_proto = direct_ALPN, tc_in = []\<rparr>, il_listen = \<lambda>_ _. None, il_accept = \<lambda>_. Inr (),
     il_stream = \<lambda>_. Inr \<lparr>tc_certs = [''c''], tc_proto = direct_ALPN, tc_in = []\<rparr>\<rparr>"

theorem direct_channel_agrees_witness:
  "\<exists>csA csB. il_connect (demo_ice ''a'' ''b'') True ''b'' ''b'' csA = Inr () \<and> set csA \<subseteq> {''10.0.0.9''} \<and>
     il_connect (demo_ice ''b'' ''a'') False ''a'' ''a'' csB = Inr () \<and> csB = []"
proof -
  let ?opt = "\<lparr>do_STUN = Some [], do_Loopback = True\<rparr>"
  let ?offer = "\<lparr>ms_Kind = ''offer'', ms_Ufrag = ''a'', ms_Pwd = ''a'', ms_Cand = []\<rparr>"
  let ?answer = "\<lparr>ms_Kind = ''answer'', ms_Ufrag = ''b'', ms_Pwd = ''b'', ms_Cand = []\<rparr>"
  let ?cand = "\<lparr>ms_Kind = ''cand'', ms_Ufrag = [], ms_Pwd = [], ms_Cand = ''10.0.0.9''\<rparr>"
  let ?c = "\<lparr>tc_certs = [''c''], tc_proto = direct_ALPN, tc_in = []\<rparr>"
  let ?tr = "[Opened Agent, Opened Transport, Opened QuicConn, Opened QuicStream]"
  let ?pub = "nd_pub demo_node"
  note defs = direct_setup_def newAgent_def demo_ice_def Msg0_def on_ice_msg_def quic_stage_def
  have A: "direct_Dial (demo_ice ''a'' ''b'') (\<lambda>_. None) [Incoming ?cand, Incoming ?answer] ?opt = (Inr ?c, [?offer], ?tr)"
    by (simp add: direct_Dial_def defs)
  have B: "direct_Accept (demo_ice ''b'' ''a'') (\<lambda>_. None) [LocalCandidate ''10.0.0.9'']
      \<lparr>ms_Kind = ''offer'', ms_Ufrag = sg_Ufrag (iceSignal ''id'' ?offer), ms_Pwd = sg_Pwd (iceSignal ''id'' ?offer), ms_Cand = []\<rparr> ?opt =
      (Inr ?c, [?answer, ?cand], ?tr)"
    by (simp add: direct_Accept_def defs iceSignal_def Signal0_def)
  have ok: "list_all msg_ok ([?offer] @ [?answer, ?cand])" "utf8_valid ''id''" by (simp_all add: msg_ok_def utf8_valid_ascii)
  obtain dev where dev: "deviceByRNS ?pub hub_daemon = Some dev" using hub_device by blast
  have oks: "list_all msg_ok [?cand, ?answer]" "list_all msg_ok [?offer]" using ok(1) by simp_all
  note runs = rnsInbox_ice [OF oks(1) dev ok(2), of 30 "\<lambda>_. True"] rnsInbox_ice [OF oks(2) dev ok(2), of 30 "\<lambda>_. True"]
  have "told ''id'' (map (ice_action dev ''id'') [?cand, ?answer]) (incoming [Incoming ?cand, Incoming ?answer])"
    "told ''id'' (map (ice_action dev ''id'') [?offer]) (incoming [LocalCandidate ''10.0.0.9''])"
    "ServeOffer dev (iceSignal ''id'' ?offer) \<in> set (map (ice_action dev ''id'') [?offer])"
    by (simp_all add: told_def ice_action_def)
  note t = this
  have "set [?offer] \<subseteq> set [?offer]" "set [?cand, ?answer] \<subseteq> set [?answer, ?cand]" by auto
  from direct_channel_agrees [OF A B ok dev dev this runs(1) t(1) runs(2) t(2,3)] show ?thesis
    by (auto simp: demo_ice_def candidates_of_def map_filter_simps Msg0_def)
qed

end
