(* ===== verification/File_Delivery.thy ===== *)
theory File_Delivery
  imports File_Transfer Dial
begin

text \<open>
  Files and folders between two daemons: \<^verbatim>\<open>SendFiles\<close> of one run against \<^verbatim>\<open>servePeer\<close> of the other, from
  the paths the user names to the files in the receiver's download directory.
\<close>

section \<open>What the user sends\<close>





section \<open>The manifest lists exactly that\<close>










section \<open>End to end\<close>


section \<open>A folder with a file in it\<close>









end
