(* ===== verification/Frames.thy ===== *)
theory Frames
  imports Handler Mdns
begin

text \<open>
  What the operations of the daemon leave alone: nearly all of them write no received file, open or close no
  pairing window and make nobody trusted. Other goroutines that run during an operation appear in its
  environment as functions on the daemon; they are required to be as harmless.
\<close>

definition harmless :: "daemon \<Rightarrow> daemon \<Rightarrow> bool" where
  "harmless d d' \<longleftrightarrow> dm_fs d' = dm_fs d \<and> dm_downloadDir d' = dm_downloadDir d \<and> dm_pairWindow d' = dm_pairWindow d \<and>
     trusted (dm_store d') \<subseteq> trusted (dm_store d)"

lemma harmless_refl [simp]: "harmless d d"
  by (simp add: harmless_def)

lemma harmless_trans [trans]: "harmless a b \<Longrightarrow> harmless b c \<Longrightarrow> harmless a c"
  unfolding harmless_def by (simp del: set_map) (blast intro: subset_trans)

named_theorems harmless_intros

lemma harmless_store [harmless_intros]:
  "trusted st \<subseteq> trusted (dm_store d) \<Longrightarrow> harmless d (d\<lparr>dm_store := st\<rparr>)"
  by (simp add: harmless_def)

lemma trusted_updates [simp]:
  "trusted (snd (UpdateAddr wok fp a s)) = trusted s" "trusted (UpdateFcmToken wok fp a s) = trusted s"
  "trusted (UpdateRNS wok fp a s) = trusted s" "trusted (SetLastPeer wok fp s) = trusted s"
  "trusted (snd (RenameDevice wok q n s)) = trusted s" "trusted (snd (RemoveDevice wok q s)) \<subseteq> trusted s"
  by (simp_all only: fps_updates fps_RenameDevice) (auto simp: RemoveDevice_devices)

section \<open>Addresses\<close>

lemma refresh_harmless [harmless_intros]: "harmless d (refreshAdvertiseAddr ip d)"
  by (simp add: refreshAdvertiseAddr_def harmless_def)

lemma advertise_harmless: "advertiseAddr ip d = (addr, d') \<Longrightarrow> harmless d d'"
  using advertiseAddr_frame by (simp add: harmless_def)

lemma mdns_refresh_harmless: "harmless d (snd (mdns_refresh wok want r (b, d)))"
  by (cases r) (simp add: mdns_refresh_def harmless_def Let_def del: set_map)

lemma refreshAddrViaMDNS_harmless: "harmless d (snd (refreshAddrViaMDNS wok rs want d))"
proof -
  have "harmless d (snd p) \<Longrightarrow> harmless d (snd (fold (mdns_refresh wok want) rs p))" for p
  proof (induction rs arbitrary: p)
    case (Cons r rs)
    have "harmless d (snd (mdns_refresh wok want r p))"
      using harmless_trans [OF Cons.prems] mdns_refresh_harmless [of "snd p" wok want r "fst p"] by simp
    then show ?case using Cons.IH by simp
  qed simp
  then show ?thesis by (simp add: refreshAddrViaMDNS_def)
qed

lemma browse_harmless: "harmless d (browse_line wok line d)"
proof -
  have o: "only_addresses (browse_line wok line d) d" by (rule browse_only)
  have "x \<in> trusted (dm_store (browse_line wok line d)) \<longleftrightarrow> x \<in> trusted (dm_store d)" for x
    unfolding IsTrusted_iff [symmetric] by (simp only: only_addresses_trust(1) [OF o])
  then have "trusted (dm_store (browse_line wok line d)) = trusted (dm_store d)" by (rule set_eqI)
  moreover obtain st nb where "browse_line wok line d = d\<lparr>dm_store := st, dm_nearby := nb\<rparr>"
    using o by (auto simp: only_addresses_def)
  ultimately show ?thesis by (simp add: harmless_def del: set_map)
qed

section \<open>Reaching a peer\<close>

text \<open>The goroutines beside a dial add no trust.\<close>

definition rounds_calm :: "round list \<Rightarrow> bool" where
  "rounds_calm rs \<longleftrightarrow> list_all (\<lambda>r. \<forall>d. harmless d (rd_others r d)) rs"

definition dial_calm :: "dial_env \<Rightarrow> bool" where
  "dial_calm env \<longleftrightarrow> rounds_calm (de_rounds env) \<and> rounds_calm (de_wakes env)"

lemma recover_harmless: "rounds_calm rs \<Longrightarrow> harmless d (fst (snd (recover lan target dev err d rs)))"
proof (induction lan target dev err d rs rule: recover.induct)
  case (2 lan target dev err d r rs)
  have h: "harmless d (rd_others r d)" using "2.prems" by (simp add: rounds_calm_def)
  then show ?case using 2 harmless_trans [OF h]
    by (auto simp: rounds_calm_def Let_def split: option.splits sum.splits prod.splits if_splits)
qed simp

lemma wake_poll_harmless: "rounds_calm rs \<Longrightarrow> harmless d (fst (snd (wake_poll lan target dev err d rs)))"
proof (induction lan target dev err d rs rule: wake_poll.induct)
  case (2 lan target dev err d r rs)
  have h: "harmless d (rd_others r d)" using "2.prems" by (simp add: rounds_calm_def)
  then show ?case using 2 harmless_trans [OF h]
    by (auto simp: rounds_calm_def Let_def split: option.splits sum.splits prod.splits if_splits)
qed simp

lemma try_wake_harmless: "dial_calm env \<Longrightarrow> harmless d (fst (snd (fst (try_wake env target dev err d))))"
  using wake_poll_harmless [of "de_wakes env" d] by (simp add: try_wake_def dial_calm_def Let_def split: option.splits)

lemma reach_harmless:
  assumes "dial_calm env" "reach env target dev d = (res, dev', d')"
  shows "harmless d d'"
proof -
  obtain seen d1 where m: "refreshAddrViaMDNS (de_wok env 0) (de_mdns env) (d_Fingerprint dev) d = (seen, d1)" by fastforce
  then have 1: "harmless d d1" using refreshAddrViaMDNS_harmless by (metis snd_conv)
  have 2: "harmless d1 (fst (snd (recover (de_lanControl env) target dev err d1 (de_rounds env))))" for err
    using assms(1) by (intro recover_harmless) (simp add: dial_calm_def)
  show ?thesis
    using assms m 1 harmless_trans [OF 1 2] harmless_trans [OF harmless_trans [OF 1 2] try_wake_harmless [OF assms(1)]]
    by (auto simp: reach_def Let_def split: sum.splits option.splits prod.splits if_splits) (metis fst_conv snd_conv)+
qed

lemma dialPeer_harmless:
  assumes "dial_calm env" "dialPeer env target folders d = (res, out, d')"
  shows "harmless d d'"
proof (cases "Lookup (dm_store d) target")
  case (Some dev0)
  obtain r dev d1 where r: "reach env target dev0 d = (r, dev, d1)" by (metis prod_cases3)
  have 1: "harmless d d1" by (rule reach_harmless [OF assms(1) r])
  obtain addr d2 where a: "advertiseAddr (de_lanIP env) d1 = (addr, d2)" by fastforce
  have 2: "harmless d d2" by (rule harmless_trans [OF 1 advertise_harmless [OF a]])
  then have 3: "harmless d (d2\<lparr>dm_store := UpdateRNS w f x (UpdateFcmToken v f y (dm_store d2))\<rparr>)" for w v f x y
    by (rule harmless_trans) (rule harmless_store, simp del: set_map)
  show ?thesis using assms(2) Some r a 1 2 3
    by (auto simp: dialPeer_def Let_def split: sum.splits prod.splits if_splits option.splits)
qed (use assms in \<open>simp add: dialPeer_def\<close>)

section \<open>Sending\<close>

lemma SendFiles_harmless:
  assumes "dial_calm env" "SendFiles env os src target paths d = (err, out, d')"
  shows "harmless d d'"
  using assms(2) harmless_trans [OF dialPeer_harmless [OF assms(1)] harmless_store] dialPeer_harmless [OF assms(1)]
  by (auto simp: SendFiles_def simp del: set_map split: sum.splits prod.splits option.splits)

lemma SendClipboard_harmless:
  assumes "dial_calm env" "SendClipboard env target data mime d = (err, out, d')"
  shows "harmless d d'"
  using assms(2) harmless_trans [OF dialPeer_harmless [OF assms(1)] harmless_store] dialPeer_harmless [OF assms(1)]
  by (auto simp: SendClipboard_def simp del: set_map split: sum.splits prod.splits option.splits if_splits)

lemma broadcasts_downloadDir [simp]: "dm_downloadDir (fold broadcast es d) = dm_downloadDir d"
  by (induction es arbitrary: d) simp_all

lemma queue_harmless:
  "harmless d (saveQueueLocked wok q d)" "harmless d (snd (enqueue rok wok idb now it d))" "harmless d (snd (Unqueue rok wok i d))"
  "harmless d (kickQueue d)" "harmless d (settle rok wok it out d)" "harmless d (fold broadcast es d)"
  by (simp_all add: harmless_def saveQueueLocked_def enqueue_def Unqueue_def kickQueue_def settle_def Let_def)

lemma SendFilesOrQueue_harmless:
  assumes "dial_calm (re_dial re)" "SendFilesOrQueue re idb now target paths d = (res, out, d')"
  shows "harmless d d'"
proof -
  obtain err o1 d1 where s: "SendFiles (re_dial re) (re_os re) (re_src re) target (map (\<lambda>p. (p, re_lstat re p)) paths) d = (err, o1, d1)"
    by (metis prod_cases3)
  have 1: "harmless d d1" by (rule SendFiles_harmless [OF assms(1) s])
  have 2: "harmless d (snd (enqueue r w i n x d1))" for r w i n x by (rule harmless_trans [OF 1 queue_harmless(2)])
  show ?thesis using assms(2) s 1 2
    by (auto simp: SendFilesOrQueue_def Let_def split: option.splits prod.splits) (metis snd_conv)
qed

lemma sendClipOverHubs_harmless: "harmless d (snd (sendClipOverHubs send acked cid data d))"
  by (simp add: sendClipOverHubs_def harmless_def Let_def split: option.splits)

lemma SendClipboardAnywhere_harmless:
  assumes "dial_calm (re_dial re)" "SendClipboardAnywhere re he idb now target data mime d = (res, out, d')"
  shows "harmless d d'"
proof -
  obtain err o1 d1 where s: "SendClipboard (re_dial re) target data mime d = (err, o1, d1)" by (metis prod_cases3)
  have 1: "harmless d d1" by (rule SendClipboard_harmless [OF assms(1) s])
  have 2: "harmless d (snd (sendClipOverHubs f g c x d1))" for f g c x
    by (rule harmless_trans [OF 1 sendClipOverHubs_harmless])
  have 3: "harmless d (e\<lparr>dm_store := SetLastPeer w f (dm_store e)\<rparr>)" if "harmless d e" for e w f
    by (rule harmless_trans [OF that harmless_store]) (simp del: set_map)
  have 4: "harmless d (snd (enqueue r w i n x e))" if "harmless d e" for e r w i n x
    by (rule harmless_trans [OF that queue_harmless(2)])
  show ?thesis using assms(2) s 1 3 4 2
    by (auto simp: SendClipboardAnywhere_def Let_def split: option.splits prod.splits if_splits) (metis snd_conv)+
qed

text \<open>A retry of the queue, item by item.\<close>

definition retry_calm :: "retry_env \<Rightarrow> bool" where
  "retry_calm re \<longleftrightarrow> dial_calm (re_dial re) \<and> (\<forall>d. harmless d (re_others re d))"

lemma attempt_harmless:
  assumes "retry_calm re"
  shows "harmless d (snd (attempt re it d))"
proof -
  have dial: "dial_calm (re_dial re)" and others: "harmless e (re_others re e)" for e
    using assms by (auto simp: retry_calm_def)
  show ?thesis
  proof (cases "q_Clip it")
    case None
    obtain err out d1 where "SendFiles (re_dial re) (re_os re) (re_src re) (q_Peer it) (map (\<lambda>p. (p, re_lstat re p)) (q_Paths it)) d = (err, out, d1)"
      by (metis prod_cases3)
    with None harmless_trans [OF SendFiles_harmless [OF dial this] others] show ?thesis by (simp add: attempt_def)
  next
    case (Some b)
    obtain err out d1 where "SendClipboard (re_dial re) (q_Peer it) b ''text/plain'' d = (err, out, d1)" by (metis prod_cases3)
    with Some harmless_trans [OF SendClipboard_harmless [OF dial this] others] show ?thesis by (simp add: attempt_def)
  qed
qed

lemma retryQueue_harmless: "list_all retry_calm res \<Longrightarrow> harmless d (retryQueue rok res d)"
proof -
  have "list_all retry_calm res \<Longrightarrow> harmless d (retry_items res its d)" for its
  proof (induction res its d rule: retry_items.induct)
    case (1 re res it its d)
    have "harmless d (snd (attempt re it d))" using "1.prems" by (intro attempt_harmless) simp
    then have "harmless d (settle (re_rok re) (re_wok re) it out (snd (attempt re it d)))" for out
      by (rule harmless_trans) (rule queue_harmless)
    with 1 show ?case using harmless_trans by (fastforce simp: Let_def split: prod.splits)
  qed simp_all
  then show "list_all retry_calm res \<Longrightarrow> ?thesis" by (simp add: retryQueue_def)
qed

section \<open>Messages through hubs\<close>

lemma receiveClipPart_harmless: "receiveClipPart mem cs dev s d = Some (d', t, a) \<Longrightarrow> harmless d d'"
  by (auto simp: receiveClipPart_def harmless_def Let_def split: option.splits if_splits)

lemma on_message_harmless:
  assumes "on_message mem cs m d = Some (d', acts)"
  shows "harmless d d'"
proof -
  have k: "harmless d (kickQueue d)" by (rule queue_harmless)
  from assms consider "d' = d" | "d' = kickQueue d" | i where "answer_waiter i (kickQueue d) = (d', acts)"
    | dev s t a where "receiveClipPart mem cs dev s (kickQueue d) = Some (d', t, a)"
    by (auto simp: on_message_def Let_def split: option.splits if_splits)
  then show ?thesis
  proof cases
    case 3
    then have "harmless (kickQueue d) d'" by (auto simp: answer_waiter_def harmless_def split: if_splits)
    with k show ?thesis by (rule harmless_trans)
  next
    case 4
    with k receiveClipPart_harmless show ?thesis by (blast intro: harmless_trans)
  qed (use k in simp_all)
qed

section \<open>Pairing by code or by scanning\<close>

text \<open>As \<^const>\<open>harmless\<close>, but the fingerprints \<^term>\<open>F\<close> may become trusted.\<close>

definition may_trust :: "string set \<Rightarrow> daemon \<Rightarrow> daemon \<Rightarrow> bool" where
  "may_trust F d d' \<longleftrightarrow> dm_fs d' = dm_fs d \<and> dm_downloadDir d' = dm_downloadDir d \<and> dm_pairWindow d' = dm_pairWindow d \<and>
     trusted (dm_store d') \<subseteq> trusted (dm_store d) \<union> F"

lemma may_trust_harmless: "harmless d d' \<Longrightarrow> may_trust F d d'"
  by (auto simp: may_trust_def harmless_def simp del: set_map)

lemma may_trust_trans: "may_trust F a b \<Longrightarrow> may_trust F b c \<Longrightarrow> may_trust F a c"
  unfolding may_trust_def by (simp del: set_map) blast

lemma may_trust_mono: "may_trust F d d' \<Longrightarrow> F \<subseteq> G \<Longrightarrow> may_trust G d d'"
  unfolding may_trust_def by blast

lemma trusted_AddDevice: "trusted (snd (AddDevice wok now dev s)) \<subseteq> insert (d_Fingerprint dev) (trusted s)"
  by (subst fps_AddDevice) auto

lemma broadcast_downloadDir' [simp]: "dm_downloadDir (broadcast e d) = dm_downloadDir d"
  by (simp add: broadcast_def)

lemma tapPairSession_frame:
  "tapPairSession ce et idb es conn peer fp d = (res, out, d') \<Longrightarrow>
   dm_fs d' = dm_fs d \<and> dm_downloadDir d' = dm_downloadDir d \<and> dm_pairWindow d' = dm_pairWindow d"
  by (auto simp: tapPairSession_def awaitAnswers_def Let_def split: prod.splits sum.splits option.splits if_splits)

lemma tapPairSession_may_trust:
  assumes "tapPairSession ce et idb es conn peer fp d = (res, out, d')"
  shows "may_trust {p. p = fp \<and> first_answer es = Some True \<and> remote_answer conn} d d'"
  using assms
proof (cases rule: tapPairSession_store)
  case same
  then show ?thesis using tapPairSession_frame [OF assms] by (simp add: may_trust_def)
next
  case (saved dev)
  then show ?thesis using tapPairSession_frame [OF assms] trusted_AddDevice [of "ce_wok ce 0" "ce_now ce" dev "dm_store d"]
    by (auto simp: may_trust_def simp del: set_map)
qed

lemma sendPairRequest_harmless: "sendPairRequest ip d = (e, out, d') \<Longrightarrow> harmless d d'"
  by (auto simp: sendPairRequest_def Let_def dest!: advertise_harmless split: prod.splits)

definition said_yes :: "tap_event list \<Rightarrow> string \<Rightarrow> string set" where
  "said_yes es fp = {p. p = fp \<and> first_answer es = Some True}"

lemma tap_may_trust: "tapPairSession ce et idb es conn peer fp d = (res, out, d') \<Longrightarrow> may_trust (said_yes es fp) d d'"
  by (rule may_trust_mono [OF tapPairSession_may_trust]) (auto simp: said_yes_def)

lemma handleTapPair_may_trust: "handleTapPair ce et idb es fp conn d = (res, out, d') \<Longrightarrow> may_trust (said_yes es fp) d d'"
  by (auto simp: handleTapPair_def Let_def split: prod.splits sum.splits option.splits
      intro: may_trust_harmless may_trust_trans [OF may_trust_harmless tap_may_trust] dest: sendPairRequest_harmless)

definition confirmed :: "(string \<times> bytes) option \<Rightarrow> tap_event list \<Rightarrow> string set" where
  "confirmed dial es = {p. \<exists>c. dial = Some (p, c) \<and> first_answer es = Some True}"

lemma PairWith_may_trust:
  assumes "PairWith ce et idb es dial d = (res, out, d')"
  shows "may_trust (confirmed dial es) d d'"
proof (cases dial)
  case (Some a)
  obtain fp conn where a: "a = (fp, conn)" by force
  have F: "confirmed dial es = said_yes es fp" by (auto simp: said_yes_def confirmed_def Some a)
  show ?thesis using assms unfolding F
    by (auto simp: PairWith_def Let_def Some a split: prod.splits sum.splits option.splits if_splits
        intro: may_trust_harmless may_trust_trans [OF may_trust_harmless tap_may_trust] dest: sendPairRequest_harmless)
qed (use assms in \<open>auto simp: PairWith_def may_trust_harmless split: if_splits\<close>)

lemma helloPeer_harmless: "harmless d (snd (snd (helloPeer env dev d)))"
proof -
  obtain addr d1 where a: "advertiseAddr (de_lanIP env) d = (addr, d1)" by fastforce
  note 1 = advertise_harmless [OF a]
  have "harmless d (d1\<lparr>dm_store := UpdateRNS w f x (dm_store d1)\<rparr>)" for w f x
    by (rule harmless_trans [OF 1 harmless_store]) (simp del: set_map)
  with 1 show ?thesis by (auto simp: helloPeer_def a Let_def split: sum.splits prod.splits)
qed

lemma AddPeer_may_trust:
  assumes "AddPeer env now uri d = (res, d')"
  shows "may_trust {fp. \<exists>p. Decode uri = Inr p \<and> p_Fingerprint p = fp} d d'"
proof -
  let ?d = "refreshAdvertiseAddr (de_lanIP env) d"
  have 0: "harmless d ?d" by (rule refresh_harmless)
  show ?thesis
  proof (cases "Decode uri")
    case (Inl e)
    then show ?thesis using assms 0 by (auto simp: AddPeer_def intro: may_trust_harmless)
  next
    case (Inr p)
    let ?dev = "Device0\<lparr>d_Name := p_Name p, d_Fingerprint := p_Fingerprint p, d_Addr := p_Addr p, d_PairedAt := now, d_RNS := p_RNS p\<rparr>"
    let ?st = "snd (AddDevice (de_wok env 4) now ?dev (dm_store ?d))"
    have "may_trust {p_Fingerprint p} d (?d\<lparr>dm_store := ?st\<rparr>)"
      using 0 trusted_AddDevice [of "de_wok env 4" now ?dev "dm_store ?d"] by (auto simp: may_trust_def harmless_def simp del: set_map)
    moreover from this have "may_trust {p_Fingerprint p} d (snd (snd (helloPeer env ?dev (?d\<lparr>dm_store := ?st\<rparr>))))"
      by (rule may_trust_trans [OF _ may_trust_harmless [OF helloPeer_harmless]])
    ultimately show ?thesis using assms Inr by (auto simp: AddPeer_def Let_def split: prod.splits if_splits)
  qed
qed

section \<open>Control requests\<close>

text \<open>Whom a request pairs: the device of a scanned code, or of a code the user compared and confirmed.\<close>

definition paired_by :: "handler_env \<Rightarrow> request \<Rightarrow> daemon \<Rightarrow> string set" where
  "paired_by env req d =
     (if rq_Cmd req = ''pair-add'' then {fp. \<exists>p. Decode (rq_PairURI req) = Inr p \<and> p_Fingerprint p = fp}
      else if rq_Cmd req = ''pair-with''
      then confirmed (pair_dial (re_dial (hv_retry env)) (pair_addr (rq_Target req) d)) (hv_tap env)
      else {})"

lemma stream_harmless: "stream_loop ch hs d = (rs, b, d') \<Longrightarrow> harmless d d'"
proof (induction ch hs d arbitrary: rs rule: stream_loop.induct)
  case (2 ch e hs d)
  have "harmless d (broadcast e d)" by (simp add: harmless_def)
  with 2 show ?case by (auto intro: harmless_trans)
next
  case (3 ch hs d)
  have u: "harmless d (d\<lparr>dm_subs := x\<rparr>)" for x by (simp add: harmless_def)
  with 3 show ?case by (auto simp: apfst_def map_prod_def intro: harmless_trans split: option.splits list.splits prod.splits)
qed (auto simp: harmless_def unsubscribe_def)

lemma arms_harmless:
  "handle_status env d = Some (rs, b, d') \<Longrightarrow> harmless d d'" "handle_devices d = Some (rs, b, d') \<Longrightarrow> harmless d d'"
  "handle_revoke env req d = Some (rs, b, d') \<Longrightarrow> harmless d d'" "handle_rename env req d = Some (rs, b, d') \<Longrightarrow> harmless d d'"
  "handle_pair_confirm env req d = Some (rs, b, d') \<Longrightarrow> harmless d d'" "handle_ping env req d = Some (rs, b, d') \<Longrightarrow> harmless d d'"
  "handle_unqueue env req d = Some (rs, b, d') \<Longrightarrow> harmless d d'" "streamEvents hs d = Some (rs, b, d') \<Longrightarrow> harmless d d'"
proof -
  show "handle_status env d = Some (rs, b, d') \<Longrightarrow> harmless d d'"
    using refresh_harmless advertise_harmless by (auto simp: handle_status_def Let_def split: prod.splits)
  show "handle_devices d = Some (rs, b, d') \<Longrightarrow> harmless d d'" by (simp add: handle_devices_def)
  have r: "harmless d (d\<lparr>dm_store := snd (RemoveDevice w q (dm_store d))\<rparr>)" "harmless d (d\<lparr>dm_store := snd (RenameDevice w q n (dm_store d))\<rparr>)" for w q n
    using trusted_updates(5,6) by (intro harmless_store; blast)+
  then show "handle_revoke env req d = Some (rs, b, d') \<Longrightarrow> harmless d d'" "handle_rename env req d = Some (rs, b, d') \<Longrightarrow> harmless d d'"
    by (auto simp: handle_revoke_def handle_rename_def split: prod.splits option.splits) (metis snd_conv)+
  show "handle_pair_confirm env req d = Some (rs, b, d') \<Longrightarrow> harmless d d'"
    by (auto simp: handle_pair_confirm_def split: sum.splits)
  show "handle_ping env req d = Some (rs, b, d') \<Longrightarrow> harmless d d'"
    by (auto simp: handle_ping_def Ping_def Let_def harmless_def split: prod.splits sum.splits option.splits if_splits)
  show "handle_unqueue env req d = Some (rs, b, d') \<Longrightarrow> harmless d d'"
    using queue_harmless(3) by (auto simp: handle_unqueue_def split: prod.splits bool.splits) (metis snd_conv)+
  have "harmless d (snd (subscribe d))" by (simp add: subscribe_def harmless_def)
  then show "streamEvents hs d = Some (rs, b, d') \<Longrightarrow> harmless d d'"
    by (auto simp: streamEvents_def split: prod.splits intro: harmless_trans dest: stream_harmless)
qed

lemma sending_arms_harmless:
  assumes "dial_calm (re_dial (hv_retry env))"
  shows "handle_send_files env req d = Some (rs, b, d') \<Longrightarrow> harmless d d'" "handle_send_clip env req d = Some (rs, b, d') \<Longrightarrow> harmless d d'"
  using SendFilesOrQueue_harmless [OF assms] SendClipboardAnywhere_harmless [OF assms]
  by (auto simp: handle_send_files_def handle_send_clip_def Let_def split: sum.splits prod.splits option.splits)

lemma if_eqE: "(if b then x else y) = z \<Longrightarrow> (b \<Longrightarrow> x = z \<Longrightarrow> R) \<Longrightarrow> (\<not> b \<Longrightarrow> y = z \<Longrightarrow> R) \<Longrightarrow> R"
  by (cases b) auto

lemma pairing_arms_may_trust:
  "handle_pair_add env req d = Some (rs, b, d') \<Longrightarrow> may_trust {fp. \<exists>p. Decode (rq_PairURI req) = Inr p \<and> p_Fingerprint p = fp} d d'"
  "handle_pair_with env req d = Some (rs, b, d') \<Longrightarrow>
     may_trust (confirmed (pair_dial (re_dial (hv_retry env)) (pair_addr (rq_Target req) d)) (hv_tap env)) d d'"
  by (auto simp: handle_pair_add_def handle_pair_with_def Let_def split: prod.splits sum.splits option.splits
      dest: AddPeer_may_trust PairWith_may_trust)

lemma dispatch_may_trust:
  assumes "dial_calm (re_dial (hv_retry env))" "rq_Cmd req \<noteq> ''pair-show''" "dispatch env req d = Some (rs, b, d')"
  shows "may_trust (paired_by env req d) d d'"
proof -
  note quiet = may_trust_harmless [OF arms_harmless(1)] may_trust_harmless [OF arms_harmless(2)] may_trust_harmless [OF arms_harmless(3)]
    may_trust_harmless [OF arms_harmless(4)] may_trust_harmless [OF arms_harmless(5)] may_trust_harmless [OF arms_harmless(6)]
    may_trust_harmless [OF arms_harmless(7)] may_trust_harmless [OF arms_harmless(8)]
    may_trust_harmless [OF sending_arms_harmless(1) [OF assms(1)]] may_trust_harmless [OF sending_arms_harmless(2) [OF assms(1)]]
  have same: "Some (x, True, d) = Some (rs, b, d') \<Longrightarrow> may_trust F d d'" for x F by (simp add: may_trust_def)
  have add: "paired_by env req d = {fp. \<exists>p. Decode (rq_PairURI req) = Inr p \<and> p_Fingerprint p = fp}" if "rq_Cmd req = ''pair-add''"
    using that by (simp only: paired_by_def if_True refl)
  have "''pair-with'' \<noteq> ''pair-add''" by simp
  then have pw: "paired_by env req d = confirmed (pair_dial (re_dial (hv_retry env)) (pair_addr (rq_Target req) d)) (hv_tap env)"
    if "rq_Cmd req = ''pair-with''" using that by (simp only: paired_by_def if_True if_False refl)
  have ps: "rq_Cmd req = ''pair-show'' \<Longrightarrow> X" for X using assms(2) by simp
  from assms(3) show ?thesis unfolding dispatch_def Let_def
    by (elim if_eqE)
      (erule quiet same ps | subst add, assumption, erule pairing_arms_may_trust | subst pw, assumption, erule pairing_arms_may_trust)+
qed

end
