(* ===== verification/Daemon_Run.thy ===== *)
theory Daemon_Run
  imports Frames
begin

text \<open>
  The life of a daemon: \<^verbatim>\<open>Run\<close>, \<^verbatim>\<open>Serve\<close>, \<^verbatim>\<open>acceptLoop\<close>, \<^verbatim>\<open>startMDNS\<close> (\<^verbatim>\<open>internal/daemon/daemon.go\<close>),
  \<^verbatim>\<open>startRNS\<close> (\<^verbatim>\<open>rns.go\<close>), \<^verbatim>\<open>runQueue\<close> (\<^verbatim>\<open>queue.go\<close>) and \<^verbatim>\<open>HubManager.Run\<close> (\<^verbatim>\<open>internal/rns/hubs.go\<close>). What its
  goroutines do is a list of occurrences in the order in which they take effect: accepted connections, lines
  of the browser, messages and ticks of the hubs, retries of the queue. An occurrence is one handler from its
  start to its end; only \<^verbatim>\<open>pair show\<close>, which waits for a device to connect, is two, its beginning and the
  closing of its window. Handlers of connections that overlap are in \<^verbatim>\<open>Pair_Window\<close>.
\<close>

section \<open>Hubs\<close>

definition BuiltinHubs :: "string list" where
  "BuiltinHubs = [''rns.michmesh.net:7822'', ''rns.pawgslayers.club:4242'', ''rns.buzag.ru:4242'', ''ralsei.ru:4343'',
     ''suah.dev:4343'', ''rns.mari-el.net:4242'', ''reticulum.nepamesh.com:4242'', ''rns.utn.lol:4965'',
     ''reticulum.washmesh.net:7242'', ''rns.simplyequipped.com:4242'', ''rns.radical.computer:4242'',
     ''rns.noderage.org:4242'', ''rns.reticulum.world:6666'', ''rmap.world:4242'']"

definition CatalogURL :: string where
  "CatalogURL = ''https://directory.rns.recipes/api/directory/submitted''"

text \<open>The download of the catalog: the request, the status and the body, cut at 4 MiB, or where it breaks.\<close>

datatype http_reply = NoReply | Reply int bytes bool

definition download :: "http_reply \<Rightarrow> bytes option" where
  "download r = (case r of
     NoReply \<Rightarrow> None
   | Reply status body complete \<Rightarrow>
       if status \<noteq> 200 then None
       else if length body < 4 * 1024 * 1024 \<and> \<not> complete then None
       else Some (take (4 * 1024 * 1024) body))"

text \<open>
  One turn of the loop of \<^verbatim>\<open>HubManager.Run\<close>: the measuring ticker (the times \<^verbatim>\<open>measure\<close> and \<^verbatim>\<open>fill\<close> read, the
  counters and which registrations succeed), the announcing ticker; and what the goroutines beside it do: a drop that measuring
  started comes to its end, \<^verbatim>\<open>announceWhenUp\<close> finds its hub up, a connection changes by itself.
\<close>

datatype hub_tick =
    CheckTick int int "string \<Rightarrow> nat" "string \<Rightarrow> bool"
  | AnnounceTick
  | DropDone string
  | HubUp string
  | LinkChanged string "hubConn \<Rightarrow> hubConn"

fun hub_turn :: "hub_tick \<Rightarrow> hub_system \<Rightarrow> hub_system" where
  "hub_turn (CheckTick now now2 rx reg) (m, n, pending) =
     (let (m1, k, drops) = measure_hubs now (HubStats rx n) m;
          (m2, n2) = fill (\<lambda>a. ConnectHub (reg a) a) now2 (m1, n) in
      (m2, n2, pending \<union> set drops))"
| "hub_turn AnnounceTick s = s"
| "hub_turn (DropDone a) (m, n, pending) =
     (if a \<in> pending then (m, snd (DropHub a n), pending - {a}) else (m, n, pending))"
| "hub_turn (HubUp a) (m, n, pending) =
     (case map_of (nd_hubs n) a of
        Some iface \<Rightarrow> if connected iface then (snd (announceWhenUp a m), n, pending) else (m, n, pending)
      | None \<Rightarrow> (m, n, pending))"
| "hub_turn (LinkChanged a f) (m, n, pending) =
     (m, n\<lparr>nd_hubs := map (\<lambda>(b, c). (b, if b = a then f c else c)) (nd_hubs n)\<rparr>, pending)"

definition hubs_start :: "int \<Rightarrow> (string \<Rightarrow> bool) \<Rightarrow> hubManager \<Rightarrow> node \<Rightarrow> hub_system" where
  "hubs_start now reg m n = (let (m', n') = fill (\<lambda>a. ConnectHub (reg a) a) now (m, n) in (m', n', {}))"

definition HubManager_Run :: "int \<Rightarrow> (string \<Rightarrow> bool) \<Rightarrow> hub_tick list \<Rightarrow> hubManager \<times> node \<Rightarrow> hub_system" where
  "HubManager_Run now reg ticks mn = fold hub_turn ticks (hubs_start now reg (fst mn) (snd mn))"

section \<open>A running daemon\<close>

record running =
  rn_daemon :: daemon
  rn_peers :: bool
  rn_control :: bool
  rn_mdns :: bool
  rn_catalog :: bool
  rn_hubs :: "hub_system option"
  rn_queue :: bool
  rn_dead :: bool

text \<open>
  What a start meets: the download directory, the two listeners, the Reticulum endpoint, the hubs of the
  options, the registrations of the first hubs.
\<close>

record start_env =
  se_mkdir :: bool
  se_listen :: bool
  se_ipc :: bool
  se_node :: "rns_error + node"
  se_rnsHubs :: "string list"
  se_now :: int
  se_reg :: "string \<Rightarrow> bool"

text \<open>\<^verbatim>\<open>rns.HubPolicy{}\<close>: every field takes its default.\<close>

definition run_policy :: hubPolicy where
  "run_policy = \<lparr>hp_Want = 0, hp_Check = 0, hp_ConnectGrace = 0, hp_Silence = 0, hp_Backoff = 0, hp_AnnounceEvery = 0\<rparr>"

definition startRNS :: "start_env \<Rightarrow> running \<Rightarrow> running" where
  "startRNS se r = (case se_node se of
     Inl e \<Rightarrow> r
   | Inr node \<Rightarrow>
       (let hubs = (if se_rnsHubs se = [] then BuiltinHubs else se_rnsHubs se);
            m = NewHubManager hubs run_policy in
        r\<lparr>rn_daemon := (rn_daemon r)\<lparr>dm_rnsKey := hex_encode (nd_pub node)\<rparr>,
          rn_hubs := Some (hubs_start (se_now se) (se_reg se) m node), rn_catalog := (se_rnsHubs se = []), rn_queue := True\<rparr>))"

datatype run_error = CreateDir | TlsListen | IpcListen

definition started :: "start_env \<Rightarrow> bool \<Rightarrow> daemon \<Rightarrow> running" where
  "started se control d =
     (let r = \<lparr>rn_daemon = d, rn_peers = True, rn_control = control, rn_mdns = control, rn_catalog = False,
              rn_hubs = None, rn_queue = False, rn_dead = False\<rparr> in
      if dm_rnsEnabled d then startRNS se r else if \<not> control \<and> dm_queueAll d then r\<lparr>rn_queue := True\<rparr> else r)"

section \<open>Occurrences\<close>

datatype occurrence =
    PeerAccepted conn_env "tap_error \<Rightarrow> string" bytes "tap_event list" bool "string list" "bytes list" bytes
  | PeerAcceptFailed
  | ControlAccepted handler_env bytes
  | ControlAcceptFailed
  | WindowClosed nat
  | Announced bool string
  | HubMessage int "bytes \<Rightarrow> bool" message conn_env "string + tls_conn"
  | HubTicked hub_tick
  | CatalogFetched bool http_reply "bytes option"
  | QueueWoken bool bool "retry_env list"

text \<open>\<^verbatim>\<open>pair show\<close> up to its wait.\<close>

definition show_begin :: "handler_env \<Rightarrow> daemon \<Rightarrow> daemon" where
  "show_begin env d = (case PairingURI (hv_lanIP env) d of
     (Inl e, d1) \<Rightarrow> d1
   | (Inr uri, d1) \<Rightarrow> (case hv_qr env uri of None \<Rightarrow> d1 | Some _ \<Rightarrow> snd (OpenPairWindow [] [] d1)))"

definition control :: "handler_env \<Rightarrow> bytes \<Rightarrow> daemon \<Rightarrow> daemon option" where
  "control env conn d = (case Decode_next request_fields Request0 conn of
     Some (req, _) \<Rightarrow>
       if rq_Cmd req = ''pair-show'' then Some (show_begin env d)
       else map_option (\<lambda>(rs, b, d'). d') (dispatch env req d)
   | None \<Rightarrow> map_option (\<lambda>(rs, b, d'). d') (handleIPC env conn d))"

text \<open>The goroutine an offer of a direct channel starts.\<close>

fun serve_offers :: "conn_env \<Rightarrow> string + tls_conn \<Rightarrow> action list \<Rightarrow> daemon \<Rightarrow> daemon" where
  "serve_offers ce chan [] d = d"
| "serve_offers ce chan (ServeOffer dev s # as) d = serve_offers ce chan as (fst (acceptDirect ce chan dev d))"
| "serve_offers ce chan (_ # as) d = serve_offers ce chan as d"

text \<open>A turn of \<^verbatim>\<open>runQueue\<close>: its ticker, or a kick that is waiting in its channel.\<close>

definition queue_woken :: "bool \<Rightarrow> bool \<Rightarrow> retry_env list \<Rightarrow> daemon \<Rightarrow> daemon" where
  "queue_woken kicked rok res d =
     (if \<not> kicked then retryQueue rok res d
      else if dm_kicked d then retryQueue rok res (d\<lparr>dm_kicked := False\<rparr>) else d)"

text \<open>
  One occurrence. \<^verbatim>\<open>acceptLoop\<close> ends at the first error of \<^verbatim>\<open>Accept\<close>, whatever it was; a panic ends the
  process.
\<close>

fun occur :: "occurrence \<Rightarrow> running \<Rightarrow> running" where
  "occur (PeerAccepted ce et idb es resumed protos certs conn) r =
     (if rn_peers r
      then r\<lparr>rn_daemon := fst (handlePeer (\<lambda>fp c d. let (res, out, d') = handleTapPair ce et idb es fp c d in (d', out))
                                 ce resumed protos certs conn (rn_daemon r))\<rparr>
      else r)"
| "occur PeerAcceptFailed r = r\<lparr>rn_peers := False\<rparr>"
| "occur (ControlAccepted env conn) r =
     (if rn_control r
      then (case control env conn (rn_daemon r) of None \<Rightarrow> r\<lparr>rn_dead := True\<rparr> | Some d \<Rightarrow> r\<lparr>rn_daemon := d\<rparr>)
      else r)"
| "occur ControlAcceptFailed r = r\<lparr>rn_control := False\<rparr>"
| "occur (WindowClosed ps) r = r\<lparr>rn_daemon := closePairWindow ps (rn_daemon r)\<rparr>"
| "occur (Announced wok line) r = (if rn_mdns r then r\<lparr>rn_daemon := browse_line wok line (rn_daemon r)\<rparr> else r)"
| "occur (HubMessage mem clip_set m ce chan) r =
     (if rn_hubs r = None then r
      else case on_message mem clip_set m (rn_daemon r) of
        None \<Rightarrow> r\<lparr>rn_dead := True\<rparr>
      | Some (d, acts) \<Rightarrow> r\<lparr>rn_daemon := serve_offers ce chan acts d\<rparr>)"
| "occur (HubTicked t) r = r\<lparr>rn_hubs := map_option (hub_turn t) (rn_hubs r)\<rparr>"
| "occur (CatalogFetched wok res cached) r =
     (if \<not> rn_catalog r then r
      else case fst (FetchCatalog wok (download res) cached) of
        None \<Rightarrow> r\<lparr>rn_catalog := False\<rparr>
      | Some hubs \<Rightarrow>
          r\<lparr>rn_catalog := False, rn_hubs := map_option (\<lambda>(m, n, p). (AddCandidates hubs m, n, p)) (rn_hubs r)\<rparr>)"
| "occur (QueueWoken kicked rok res) r =
     (if rn_queue r then r\<lparr>rn_daemon := queue_woken kicked rok res (rn_daemon r)\<rparr> else r)"

fun life :: "occurrence list \<Rightarrow> running \<Rightarrow> running" where
  "life [] r = r"
| "life (oc # os) r = (if rn_dead r then r else life os (occur oc r))"

text \<open>
  \<^verbatim>\<open>Run\<close> and \<^verbatim>\<open>Serve\<close>: the error of the start if there is one, and the daemon when the context ends. \<^verbatim>\<open>Serve\<close>
  starts Reticulum and the queue before it listens.
\<close>

definition Daemon_Run :: "start_env \<Rightarrow> occurrence list \<Rightarrow> daemon \<Rightarrow> run_error option \<times> daemon" where
  "Daemon_Run se os d =
     (if \<not> se_mkdir se then (Some CreateDir, d)
      else if \<not> se_listen se then (Some TlsListen, d)
      else if \<not> se_ipc se then (Some IpcListen, d)
      else (None, rn_daemon (life os (started se True d))))"

definition runPeerListener :: "start_env \<Rightarrow> occurrence list \<Rightarrow> running \<Rightarrow> run_error option \<times> daemon" where
  "runPeerListener se os r =
     (if \<not> se_mkdir se then (Some CreateDir, rn_daemon (life os (r\<lparr>rn_peers := False\<rparr>)))
      else if \<not> se_listen se then (Some TlsListen, rn_daemon (life os (r\<lparr>rn_peers := False\<rparr>)))
      else (None, rn_daemon (life os r)))"

definition Daemon_Serve :: "start_env \<Rightarrow> occurrence list \<Rightarrow> daemon \<Rightarrow> run_error option \<times> daemon" where
  "Daemon_Serve se os d = runPeerListener se os (started se False d)"

section \<open>Frames of connections\<close>

lemma keeps_trans: "keeps dir a b \<Longrightarrow> keeps dir b c \<Longrightarrow> keeps dir a c"
  unfolding keeps_def by metis

lemma keeps_refl [simp]: "keeps dir a a"
  by (simp add: keeps_def)

lemma end_session_downloadDir [simp]: "dm_downloadDir (end_session rv d) = dm_downloadDir d"
  by (simp add: end_session_def)

text \<open>
  As \<^const>\<open>may_trust\<close>, with files received into the download directory, and a window that may close but
  does not open.
\<close>

definition bounded :: "string set \<Rightarrow> daemon \<Rightarrow> daemon \<Rightarrow> bool" where
  "bounded F d d' \<longleftrightarrow> keeps (dm_downloadDir d) (dm_fs d) (dm_fs d') \<and> dm_downloadDir d' = dm_downloadDir d \<and>
     (dm_pairWindow d' = dm_pairWindow d \<or> dm_pairWindow d' = None) \<and> trusted (dm_store d') \<subseteq> trusted (dm_store d) \<union> F"

lemma bounded_may_trust: "may_trust F d d' \<Longrightarrow> bounded F d d'"
  by (simp add: bounded_def may_trust_def)

lemma bounded_harmless: "harmless d d' \<Longrightarrow> bounded F d d'"
  by (intro bounded_may_trust may_trust_harmless)

lemma bounded_trans: "bounded F a b \<Longrightarrow> bounded F b c \<Longrightarrow> bounded F a c"
  unfolding bounded_def by (auto intro: keeps_trans simp del: set_map)

lemma tryCompletePairing_window:
  "tryCompletePairing wok now fp name adv remote d = (b, d') \<Longrightarrow>
   dm_downloadDir d' = dm_downloadDir d \<and> (dm_pairWindow d' = dm_pairWindow d \<or> dm_pairWindow d' = None)"
  by (auto simp: tryCompletePairing_def closePairWindow_def Let_def split: option.splits if_splits prod.splits)

lemma servePeer_frame:
  assumes "servePeer ce fp lan conn d = (d', out, clip)"
  shows "dm_downloadDir d' = dm_downloadDir d \<and> (dm_pairWindow d' = dm_pairWindow d \<or> dm_pairWindow d' = None)"
proof -
  obtain addr d1 where a: "advertiseAddr (ce_lanIP ce) d = (addr, d1)" by fastforce
  note f = advertiseAddr_frame(4,6) [OF a]
  show ?thesis using assms a f tryCompletePairing_window
    by (fastforce simp: servePeer_def Let_def split: prod.splits sum.splits option.splits if_splits)
qed

lemma servePeer_bounded:
  assumes "servePeer ce fp lan conn d = (d', out, clip)"
  shows "bounded (if lan \<and> window_for d fp then {fp} else {}) d d'"
proof -
  have T: "trusted s = trusted s'" if "\<And>q. IsTrusted s q = IsTrusted s' q" for s s'
    using that IsTrusted_iff by (metis (no_types, lifting) set_eqI)
  from assms have "keeps (dm_downloadDir d) (dm_fs d) (dm_fs d') \<and>
      trusted (dm_store d') \<subseteq> trusted (dm_store d) \<union> (if lan \<and> window_for d fp then {fp} else {})"
  proof (cases rule: servePeer_cases)
    case greeted
    from greeting_outcome(1,4) [OF greeted(2,3)] greeted(4) T [OF greeted(7)] show ?thesis by simp
  next
    case (session hello r addr d1 d2 rv d3 err peer)
    note g = greeting_outcome [OF session(2,3)]
    have "keeps (dm_downloadDir d) (dm_fs d) (dm_fs d')"
      using receiveSession_keeps [OF session(7)] session(5,8) g(1,2) by simp
    with g(4) T [OF session(6)] show ?thesis by simp
  qed simp
  with servePeer_frame [OF assms] show ?thesis by (simp add: bounded_def)
qed

lemma acceptDirect_bounded: "bounded {} d (fst (acceptDirect ce chan dev d))"
proof -
  have "bounded {} d (fst (servePeer ce fp False conn d))" for fp conn
    using servePeer_bounded [of ce fp False conn d] by (cases "servePeer ce fp False conn d") simp
  then show ?thesis
    by (auto simp: acceptDirect_def bounded_harmless Let_def split: sum.splits option.splits prod.splits) (metis fst_conv)
qed

lemma serve_offers_bounded: "bounded {} d (serve_offers ce chan acts d)"
proof (induction ce chan acts d rule: serve_offers.induct)
  case (2 ce chan dev s acts d)
  then show ?case using bounded_trans [OF acceptDirect_bounded] by simp
qed (simp_all add: bounded_harmless)

section \<open>Consent\<close>

text \<open>
  The fingerprints the user agreed to trust in an occurrence: a device connecting while a code is shown, a
  tap pairing that the user of this device confirmed, a scanned code.
\<close>

fun consents :: "occurrence \<Rightarrow> daemon \<Rightarrow> string set" where
  "consents (PeerAccepted ce et idb es resumed protos certs conn) d =
     {fp. certs \<noteq> [] \<and> fp = Fingerprint (hd certs) \<and>
       (window_for d fp \<or> dm_tapPair d \<and> PairALPN \<in> set protos \<and> first_answer es = Some True)}"
| "consents (ControlAccepted env conn) d = (case Decode_next request_fields Request0 conn of
     None \<Rightarrow> {} | Some (req, _) \<Rightarrow> paired_by env req d)"
| "consents _ d = {}"

fun shows_code :: "occurrence \<Rightarrow> bool" where
  "shows_code (ControlAccepted env conn) = (case Decode_next request_fields Request0 conn of
     None \<Rightarrow> False | Some (req, _) \<Rightarrow> rq_Cmd req = ''pair-show'')"
| "shows_code _ = False"

text \<open>What other goroutines do appears as occurrences of its own, not inside the dials of another one.\<close>

fun calm :: "occurrence \<Rightarrow> bool" where
  "calm (ControlAccepted env conn) = dial_calm (re_dial (hv_retry env))"
| "calm (QueueWoken kicked rok res) = list_all retry_calm res"
| "calm _ = True"

text \<open>One occurrence, and a life.\<close>

lemma show_begin_frame:
  "dm_fs (show_begin env d) = dm_fs d" "dm_downloadDir (show_begin env d) = dm_downloadDir d" "dm_store (show_begin env d) = dm_store d"
proof -
  obtain addr d2 where a: "advertiseAddr (hv_lanIP env) (refreshAdvertiseAddr (hv_lanIP env) d) = (addr, d2)" by fastforce
  have "harmless d d2" by (rule harmless_trans [OF refresh_harmless advertise_harmless [OF a]])
  moreover have "dm_store d2 = dm_store d" using advertiseAddr_frame(1) [OF a] by (simp add: refreshAdvertiseAddr_def split: if_splits)
  moreover obtain x where u: "PairingURI (hv_lanIP env) d = (x, d2)" using a by (simp add: PairingURI_def)
  ultimately show "dm_fs (show_begin env d) = dm_fs d" "dm_downloadDir (show_begin env d) = dm_downloadDir d"
      "dm_store (show_begin env d) = dm_store d"
    by (simp_all add: show_begin_def u OpenPairWindow_def Let_def harmless_def split: sum.splits option.splits)
qed

lemma control_bounded:
  assumes "dial_calm (re_dial (hv_retry env))" "control env conn d = Some d'"
  shows "bounded (consents (ControlAccepted env conn) d) d d' \<or>
    (shows_code (ControlAccepted env conn) \<and> dm_fs d' = dm_fs d \<and> dm_downloadDir d' = dm_downloadDir d \<and> dm_store d' = dm_store d)"
proof (cases "Decode_next request_fields Request0 conn")
  case None
  then have "d' = d" using assms(2) by (simp add: control_def handleIPC_def)
  then show ?thesis by (simp add: bounded_harmless)
next
  case (Some a)
  obtain req r where a: "a = (req, r)" by force
  show ?thesis
  proof (cases "rq_Cmd req = ''pair-show''")
    case True
    have "d' = show_begin env d" using assms(2) Some a True by (simp add: control_def)
    with show_begin_frame [of env d] True Some a show ?thesis by simp
  next
    case False
    then obtain rs b where "dispatch env req d = Some (rs, b, d')"
      using assms(2) Some a by (auto simp: control_def)
    from dispatch_may_trust [OF assms(1) False this] show ?thesis
      using Some a by (simp add: bounded_may_trust)
  qed
qed

lemma handlePeer_bounded:
  "bounded (consents (PeerAccepted ce et idb es resumed protos certs conn) d) d
     (fst (handlePeer (\<lambda>fp c d. let (res, out, d') = handleTapPair ce et idb es fp c d in (d', out)) ce resumed protos certs conn d))"
proof (cases "server_handshake (Daemon_IsTrusted d) (dm_tapPair d) resumed protos certs")
  case (Inr a)
  obtain proto fp where a: "a = (proto, fp)" by force
  have hs: "certs \<noteq> []" "fp = Fingerprint (hd certs)" "proto = PairALPN \<Longrightarrow> dm_tapPair d \<and> PairALPN \<in> set protos"
    using server_handshake_Inr [OF Inr [unfolded a]] by simp_all
  show ?thesis
  proof (cases "proto = PairALPN")
    case True
    obtain res out d' where t: "handleTapPair ce et idb es fp conn d = (res, out, d')" by (metis prod_cases3)
    have "may_trust (said_yes es fp) d d'" by (rule handleTapPair_may_trust [OF t])
    then have "may_trust (consents (PeerAccepted ce et idb es resumed protos certs conn) d) d d'"
      by (rule may_trust_mono) (use hs True in \<open>auto simp: said_yes_def\<close>)
    then show ?thesis using Inr a True t by (simp add: handlePeer_def bounded_may_trust)
  next
    case False
    obtain d' out clip where t: "servePeer ce fp True conn d = (d', out, clip)" by (metis prod_cases3)
    have "bounded (if True \<and> window_for d fp then {fp} else {}) d d'" by (rule servePeer_bounded [OF t])
    then have "bounded (consents (PeerAccepted ce et idb es resumed protos certs conn) d) d d'"
      using hs(1,2) unfolding bounded_def by (auto simp del: set_map split: if_splits)
    then show ?thesis using Inr a False t by (simp add: handlePeer_def)
  qed
qed (simp add: handlePeer_def bounded_harmless)

lemma occur_safe:
  assumes "calm oc" and d_def: "d = rn_daemon r" and d'_def: "d' = rn_daemon (occur oc r)"
  shows "keeps (dm_downloadDir d) (dm_fs d) (dm_fs d')" "dm_downloadDir d' = dm_downloadDir d"
    "trusted (dm_store d') \<subseteq> trusted (dm_store d) \<union> consents oc d"
    "dm_pairWindow d' \<noteq> None \<Longrightarrow> dm_pairWindow d \<noteq> None \<or> shows_code oc"
proof -
  have same: "bounded F d d" for F by (simp add: bounded_harmless)
  have "bounded (consents oc d) d d' \<or>
    (shows_code oc \<and> dm_fs d' = dm_fs d \<and> dm_downloadDir d' = dm_downloadDir d \<and> dm_store d' = dm_store d)"
  proof (cases oc)
    case (PeerAccepted ce et idb es resumed protos certs conn)
    then show ?thesis using handlePeer_bounded same by (auto simp: d_def d'_def)
  next
    case (ControlAccepted env conn)
    then show ?thesis using control_bounded [of env conn d] assms(1) same
      by (auto simp: d_def d'_def simp del: consents.simps shows_code.simps split: option.splits)
  next
    case (WindowClosed ps)
    then show ?thesis by (simp add: d_def d'_def bounded_def closePairWindow_def)
  next
    case (Announced wok line)
    then show ?thesis using browse_harmless by (simp add: d_def d'_def bounded_harmless)
  next
    case (HubMessage mem cs m ce chan)
    have "bounded {} d (serve_offers ce chan acts e)" if "on_message mem cs m d = Some (e, acts)" for e acts
      by (rule bounded_trans [OF bounded_harmless [OF on_message_harmless [OF that]] serve_offers_bounded])
    then show ?thesis using HubMessage same by (auto simp: d_def d'_def split: option.splits)
  next
    case (QueueWoken kicked rok res)
    have "harmless d (retryQueue rok res (if kicked then d\<lparr>dm_kicked := False\<rparr> else d))"
      by (rule harmless_trans [OF _ retryQueue_harmless]) (use assms(1) QueueWoken in \<open>auto simp: harmless_def\<close>)
    then have "harmless d (queue_woken kicked rok res d)" by (auto simp: queue_woken_def)
    then show ?thesis using QueueWoken same by (simp add: d_def d'_def bounded_harmless)
  qed (use same in \<open>auto simp: d_def d'_def split: option.splits\<close>)
  then show "keeps (dm_downloadDir d) (dm_fs d) (dm_fs d')" "dm_downloadDir d' = dm_downloadDir d"
    "trusted (dm_store d') \<subseteq> trusted (dm_store d) \<union> consents oc d"
    "dm_pairWindow d' \<noteq> None \<Longrightarrow> dm_pairWindow d \<noteq> None \<or> shows_code oc"
    by (auto simp: bounded_def simp del: set_map)
qed

lemma life_append: "life (os @ ps) r = life ps (life os r)"
proof (induction os arbitrary: r)
  case Nil
  then show ?case by simp
next
  case (Cons oc os)
  have "life ps r = r" if "rn_dead r" for r ps using that by (cases ps) simp_all
  with Cons show ?case by simp
qed

lemma started_frame:
  "dm_fs (rn_daemon (started se c d)) = dm_fs d" "dm_downloadDir (rn_daemon (started se c d)) = dm_downloadDir d"
  "dm_store (rn_daemon (started se c d)) = dm_store d" "dm_pairWindow (rn_daemon (started se c d)) = dm_pairWindow d"
  by (simp_all add: started_def startRNS_def Let_def split: sum.splits)

lemma life_safe:
  assumes "list_all calm os"
  shows "keeps (dm_downloadDir (rn_daemon r)) (dm_fs (rn_daemon r)) (dm_fs (rn_daemon (life os r))) \<and>
    dm_downloadDir (rn_daemon (life os r)) = dm_downloadDir (rn_daemon r) \<and>
    trusted (dm_store (rn_daemon (life os r))) \<subseteq>
      trusted (dm_store (rn_daemon r)) \<union> (\<Union>i<length os. consents (os ! i) (rn_daemon (life (take i os) r))) \<and>
    (dm_pairWindow (rn_daemon (life os r)) \<noteq> None \<longrightarrow> dm_pairWindow (rn_daemon r) \<noteq> None \<or> list_ex shows_code os)"
  using assms
proof (induction os rule: rev_induct)
  case (snoc oc os)
  let ?r = "life os r"
  have IH: "keeps (dm_downloadDir (rn_daemon r)) (dm_fs (rn_daemon r)) (dm_fs (rn_daemon ?r))"
      "dm_downloadDir (rn_daemon ?r) = dm_downloadDir (rn_daemon r)"
      "trusted (dm_store (rn_daemon ?r)) \<subseteq>
         trusted (dm_store (rn_daemon r)) \<union> (\<Union>i<length os. consents (os ! i) (rn_daemon (life (take i os) r)))"
      "dm_pairWindow (rn_daemon ?r) \<noteq> None \<longrightarrow> dm_pairWindow (rn_daemon r) \<noteq> None \<or> list_ex shows_code os"
    using snoc by (simp_all del: set_map)
  have idx: "(\<Union>i<length (os @ [oc]). consents ((os @ [oc]) ! i) (rn_daemon (life (take i (os @ [oc])) r))) =
      (\<Union>i<length os. consents (os ! i) (rn_daemon (life (take i os) r))) \<union> consents oc (rn_daemon ?r)"
    by (auto simp: nth_append less_Suc_eq) (meson lessThan_iff)
  show ?case
  proof (cases "rn_dead ?r")
    case True
    then have "life (os @ [oc]) r = ?r" by (simp add: life_append)
    with IH idx show ?thesis by (auto simp del: set_map)
  next
    case False
    then have s: "life (os @ [oc]) r = occur oc ?r" by (simp add: life_append)
    note st = occur_safe [of oc "rn_daemon ?r" ?r, OF _ refl refl]
    have c: "calm oc" using snoc.prems by simp
    have 1: "keeps (dm_downloadDir (rn_daemon r)) (dm_fs (rn_daemon r)) (dm_fs (rn_daemon (occur oc ?r)))"
      using keeps_trans [OF IH(1)] st(1) [OF c] IH(2) by simp
    have 2: "trusted (dm_store (rn_daemon (occur oc ?r))) \<subseteq> trusted (dm_store (rn_daemon r)) \<union>
        (\<Union>i<length (os @ [oc]). consents ((os @ [oc]) ! i) (rn_daemon (life (take i (os @ [oc])) r)))"
      unfolding idx using IH(3) st(3) [OF c] by blast
    show ?thesis unfolding s using 1 2 IH(2,4) st(2,4) [OF c] by (auto simp del: set_map)
  qed
qed simp

section \<open>The hubs of a running daemon\<close>

text \<open>The loop of \<^verbatim>\<open>HubManager.Run\<close> makes only steps of the system of manager and node.\<close>

lemma hub_turn_steps: "system_step\<^sup>*\<^sup>* s (hub_turn t s)"
proof (cases "(t, s)" rule: hub_turn.cases)
  case (1 now now2 rx reg m n pending)
  obtain m1 k drops where m: "measure_hubs now (HubStats rx n) m = (m1, k, drops)" by (metis prod_cases3)
  obtain m2 n2 where f: "fill (\<lambda>a. ConnectHub (reg a) a) now2 (m1, n) = (m2, n2)" by fastforce
  have "system_step (m, n, pending) (m1, n, pending \<union> set drops)" by (rule system_step.measured [OF m])
  moreover have "system_step (m1, n, pending \<union> set drops) (m2, n2, pending \<union> set drops)" by (rule system_step.filled [OF f])
  ultimately show ?thesis using 1 m f by (auto intro: converse_rtranclp_into_rtranclp)
next
  case (3 a m n pending)
  then show ?thesis using system_step.dropped [of a pending m n] by auto
next
  case (4 a m n pending)
  then show ?thesis using system_step.announced [of m n pending a] by (auto split: option.splits)
next
  case (5 a f m n pending)
  have "map fst (map (\<lambda>(b, c). (b, if b = a then f c else c)) (nd_hubs n)) = map fst (nd_hubs n)" by auto
  with 5 show ?thesis using system_step.traffic [of _ n m pending] by auto
qed simp

lemma hubs_start_steps: "system_step\<^sup>*\<^sup>* (m, n, {}) (hubs_start now reg m n)"
proof -
  obtain m2 n2 where f: "fill (\<lambda>a. ConnectHub (reg a) a) now (m, n) = (m2, n2)" by fastforce
  then show ?thesis using system_step.filled [OF f, of "{}"] by (auto simp: hubs_start_def)
qed

lemma HubManager_Run_steps: "system_step\<^sup>*\<^sup>* (m, n, {}) (HubManager_Run now reg ticks (m, n))"
proof -
  have "system_step\<^sup>*\<^sup>* s (fold hub_turn ticks s)" for s
  proof (induction ticks arbitrary: s)
    case (Cons t ticks)
    show ?case using rtranclp_trans [OF hub_turn_steps Cons.IH] by simp
  qed simp
  from rtranclp_trans [OF hubs_start_steps this] show ?thesis by (simp add: HubManager_Run_def)
qed

lemma occur_hubs:
  assumes "rn_hubs (occur oc r) = Some s'"
  obtains s where "rn_hubs r = Some s" "system_step\<^sup>*\<^sup>* s s'"
proof (cases oc)
  case (HubTicked t)
  then show thesis using assms hub_turn_steps that by auto
next
  case (CatalogFetched wok res cached)
  then show thesis using assms that system_step.candidates
    by (auto split: if_splits option.splits) blast+
qed (use assms that in \<open>auto split: if_splits option.splits\<close>)

lemma life_hubs:
  assumes "rn_hubs (life os r) = Some s'"
  obtains s where "rn_hubs r = Some s" "system_step\<^sup>*\<^sup>* s s'"
  using assms
proof (induction os arbitrary: r thesis)
  case (Cons oc os)
  show ?case
  proof (cases "rn_dead r")
    case False
    then have "rn_hubs (life os (occur oc r)) = Some s'" using Cons.prems(2) by simp
    then obtain s1 where s1: "rn_hubs (occur oc r) = Some s1" "system_step\<^sup>*\<^sup>* s1 s'" by (rule Cons.IH [rotated])
    from occur_hubs [OF s1(1)] obtain s where "rn_hubs r = Some s" "system_step\<^sup>*\<^sup>* s s1" by blast
    moreover from this(2) s1(2) have "system_step\<^sup>*\<^sup>* s s'" by (rule rtranclp_trans)
    ultimately show ?thesis by (intro Cons.prems(1))
  qed (use Cons.prems in simp)
qed simp

lemma fill_policy: "fill connect now (m, n) = (m', n') \<Longrightarrow> hm_policy m' = hm_policy m"
proof -
  have "connect_picks connect now as (m, n) = (m', n') \<Longrightarrow> hm_policy m' = hm_policy m" for as m
    by (induction as arbitrary: m n) (auto split: prod.splits option.splits)
  from this [of "picks now m" "m\<lparr>hm_state := hm_state m @ map (\<lambda>a. (a, new_hub now)) (picks now m)\<rparr>"]
  show "fill connect now (m, n) = (m', n') \<Longrightarrow> hm_policy m' = hm_policy m" by (simp add: fill_def Let_def)
qed

lemma system_policy: "system_step\<^sup>*\<^sup>* s s' \<Longrightarrow> hm_policy (fst s') = hm_policy (fst s)"
proof (induction rule: rtranclp_induct)
  case (step s1 s2)
  from step.hyps(2) have "hm_policy (fst s2) = hm_policy (fst s1)"
    by (cases rule: system_step.cases)
      (auto simp: measure_hubs_def Let_def AddCandidates_def announceWhenUp_def split: option.splits dest: fill_policy)
  with step.IH show ?case by simp
qed simp

text \<open>
  Property C24. The hubs of a running daemon refine the step system of manager and node: whatever happens in
  its life, the hubs it has are reached by steps of that system from a new manager over the configured hubs,
  or the built-in ones, and a node without hubs. So at most three are managed, none twice, none
  within half an hour of having been found bad, and every connection the node holds is managed or being dropped.
\<close>

theorem hub_loop_refines:
  assumes "rn_hubs (life os (started se c d)) = Some (m, n, pending)" "se_node se = Inr node" "nd_hubs node = []"
  shows "system_step\<^sup>*\<^sup>* (NewHubManager (if se_rnsHubs se = [] then BuiltinHubs else se_rnsHubs se) run_policy, node, {}) (m, n, pending) \<and>
    length (hm_state m) \<le> 3 \<and> distinct (map fst (hm_state m)) \<and>
    (\<forall>a st t. (a, st) \<in> set (hm_state m) \<and> map_of (hm_bad m) a = Some t \<longrightarrow> t + 30 * 60 * second \<le> hs_added st) \<and>
    fst ` set (nd_hubs n) \<subseteq> fst ` set (hm_state m) \<union> pending"
proof -
  let ?m = "NewHubManager (if se_rnsHubs se = [] then BuiltinHubs else se_rnsHubs se) run_policy"
  obtain s where s: "rn_hubs (started se c d) = Some s" "system_step\<^sup>*\<^sup>* s (m, n, pending)" using life_hubs [OF assms(1)] .
  have "s = hubs_start (se_now se) (se_reg se) ?m node"
    using s(1) assms(2) by (auto simp: started_def startRNS_def Let_def split: if_splits)
  then have steps: "system_step\<^sup>*\<^sup>* (?m, node, {}) (m, n, pending)" using s(2) hubs_start_steps by (metis rtranclp_trans)
  have "hp_Want (hm_policy m) = 3" "hp_Backoff (hm_policy m) = 30 * 60 * second"
    using system_policy [OF steps] by (simp_all add: NewHubManager_def run_policy_def withDefaults_def or_default_def)
  with steps hubs_managed [OF steps assms(3)] show ?thesis by simp
qed

definition demo_start_env :: start_env where
  "demo_start_env = \<lparr>se_mkdir = True, se_listen = True, se_ipc = True, se_node = Inr demo_node, se_rnsHubs = [''a:1''],
     se_now = 0, se_reg = (\<lambda>a. True)\<rparr>"

definition demo_rns_daemon :: daemon where
  "demo_rns_daemon = demo_daemon\<lparr>dm_rnsEnabled := True\<rparr>"

theorem hub_loop_refines_witness:
  "\<exists>m n. rn_hubs (life [HubTicked AnnounceTick] (started demo_start_env True demo_rns_daemon)) = Some (m, n, {}) \<and>
     length (hm_state m) \<le> 3 \<and> fst ` set (nd_hubs n) \<subseteq> fst ` set (hm_state m)"
proof -
  let ?m = "NewHubManager [''a:1''] run_policy"
  obtain m n where f: "fill (\<lambda>a. ConnectHub True a) 0 (?m, demo_node) = (m, n)" by fastforce
  then have h: "rn_hubs (life [HubTicked AnnounceTick] (started demo_start_env True demo_rns_daemon)) = Some (m, n, {})"
    by (simp add: started_def startRNS_def demo_start_env_def demo_rns_daemon_def hubs_start_def Let_def)
  from hub_loop_refines [OF this, of demo_node] h show ?thesis
    by (auto simp: demo_start_env_def demo_node_def)
qed

section \<open>Safety of a whole life\<close>

text \<open>How a life begins: under \<^verbatim>\<open>Run\<close>, under \<^verbatim>\<open>Serve\<close>, or under \<^verbatim>\<open>Serve\<close> when it cannot listen.\<close>

definition start_states :: "start_env \<Rightarrow> daemon \<Rightarrow> running set" where
  "start_states se d = {started se True d, started se False d, (started se False d)\<lparr>rn_peers := False\<rparr>}"

lemma daemon_life:
  assumes "Daemon_Run se os d = (err, d') \<or> Daemon_Serve se os d = (err, d')" "list_all calm os"
    and "dm_pairWindow d = None"
  shows "(dm_fs d p = Some n \<longrightarrow> \<not> part_name p \<longrightarrow> dm_fs d' p = Some n) \<and>
    (dm_fs d' p \<noteq> dm_fs d p \<longrightarrow> inside (dm_downloadDir d) p) \<and>
    (IsTrusted (dm_store d') fp \<noteq> None \<longrightarrow> IsTrusted (dm_store d) fp \<noteq> None \<or>
       (\<exists>r i. r \<in> start_states se d \<and> i < length os \<and>
          fp \<in> consents (os ! i) (rn_daemon (life (take i os) r)) \<and>
          (dm_pairWindow (rn_daemon (life (take i os) r)) \<noteq> None \<longrightarrow> list_ex shows_code (take i os))))"
proof -
  from assms(1) consider "d' = d" | r where "r \<in> start_states se d" "d' = rn_daemon (life os r)"
    by (auto simp: Daemon_Run_def Daemon_Serve_def runPeerListener_def start_states_def split: if_splits)
  then show ?thesis
  proof cases
    case 2
    have frame: "dm_fs (rn_daemon r) = dm_fs d" "dm_downloadDir (rn_daemon r) = dm_downloadDir d"
        "dm_store (rn_daemon r) = dm_store d" "dm_pairWindow (rn_daemon r) = None"
      using 2(1) started_frame assms(3) by (auto simp: start_states_def)
    note safe = life_safe [OF assms(2), of r, unfolded frame]
    have k: "keeps (dm_downloadDir d) (dm_fs d) (dm_fs d')" using safe 2(2) by simp
    have code: "list_ex shows_code (take i os)" if "dm_pairWindow (rn_daemon (life (take i os) r)) \<noteq> None" for i
      using life_safe [of "take i os" r, unfolded frame] that assms(2)
      by (auto simp: list_all_iff dest: in_set_takeD)
    have "fp \<in> trusted (dm_store d) \<or> (\<exists>i<length os. fp \<in> consents (os ! i) (rn_daemon (life (take i os) r)))"
      if "fp \<in> trusted (dm_store d')" using that safe 2(2) by blast
    with k code 2(1) show ?thesis unfolding IsTrusted_iff keeps_def by blast
  qed simp
qed

text \<open>
  Property C5. From its start to its end, whatever peers, announcements, hub messages and control requests arrive and in
  whatever order, a daemon started by \<^verbatim>\<open>Run\<close> or \<^verbatim>\<open>Serve\<close> changes files only inside its download directory and
  no file that was there except partial files; and a device that is trusted at the end was trusted at the
  start or was agreed to by the user at some point of the life: it connected while a code was shown, its
  tap pairing was confirmed here, or its code was scanned. A code is shown only on a control request. The
  daemon starts with no code shown, and what other goroutines do is an occurrence of its own.
\<close>

theorem daemon_life_safe:
  assumes "Daemon_Run se os d = (err, d') \<or> Daemon_Serve se os d = (err, d')" "list_all calm os"
    and "dm_pairWindow d = None"
  shows "(dm_fs d p = Some n \<longrightarrow> \<not> part_name p \<longrightarrow> dm_fs d' p = Some n) \<and>
    (dm_fs d' p \<noteq> dm_fs d p \<longrightarrow> inside (dm_downloadDir d) p) \<and>
    (IsTrusted (dm_store d') fp \<noteq> None \<longrightarrow> IsTrusted (dm_store d) fp \<noteq> None \<or>
       (\<exists>r i. r \<in> start_states se d \<and> i < length os \<and>
          fp \<in> consents (os ! i) (rn_daemon (life (take i os) r)) \<and>
          (dm_pairWindow (rn_daemon (life (take i os) r)) \<noteq> None \<longrightarrow> list_ex shows_code (take i os))))"
  using daemon_life [OF assms] .

theorem daemon_life_safe_witness:
  "IsTrusted (dm_store (snd (Daemon_Run demo_start_env
      [PeerAccepted demo_conn (\<lambda>_. []) [] [] True [] [''evil''] ''xyz'', PeerAcceptFailed] demo_daemon))) (Fingerprint ''evil'') = None"
proof -
  let ?oc = "PeerAccepted demo_conn (\<lambda>_. []) [] [] True [] [''evil''] ''xyz''"
  let ?os = "[?oc, PeerAcceptFailed]"
  obtain err d' where run: "Daemon_Run demo_start_env ?os demo_daemon = (err, d')" by fastforce
  have "list_all calm ?os" "dm_pairWindow demo_daemon = None" by (simp_all add: demo_daemon_def)
  note safe = daemon_life_safe [OF disjI1 [OF run] this, where fp = "Fingerprint ''evil''"]
  have none: "consents (?os ! i) (rn_daemon (life (take i ?os) r)) = {}"
    if "i < length ?os" "r \<in> start_states demo_start_env demo_daemon" for i r
    using that by (auto simp: less_Suc_eq start_states_def started_frame window_for_def demo_daemon_def)
  have "IsTrusted (dm_store demo_daemon) (Fingerprint ''evil'') = None" by (simp add: demo_daemon_def IsTrusted_def)
  with safe none have "IsTrusted (dm_store d') (Fingerprint ''evil'') = None" by blast
  then show ?thesis using run by simp
qed

section \<open>Waiting for a scan, and a listener that failed\<close>

text \<open>
  \<^verbatim>\<open>pair show\<close> as one request is its beginning, what the other goroutines do while it waits, and the closing of
  its window.
\<close>

lemma pair_show_split:
  assumes "handle_pair_show env d = Some (rs, b, d')"
  shows "d' = show_begin env d \<or>
    (\<exists>ps. dm_pairWindow (show_begin env d) = Some ps \<and> d' = closePairWindow ps (hv_others env (show_begin env d)))"
  using assms by (auto simp: handle_pair_show_def show_begin_def OpenPairWindow_def Let_def split: prod.splits sum.splits option.splits)

text \<open>
  After one failed \<^verbatim>\<open>Accept\<close> the daemon goes on without its listener: no later connection has any effect, be
  the error as passing as a lack of file descriptors.
\<close>

fun by_peer :: "occurrence \<Rightarrow> bool" where
  "by_peer (PeerAccepted ce et idb es resumed protos certs conn) = True"
| "by_peer _ = False"

lemma occur_deaf: "\<not> rn_peers r \<Longrightarrow> \<not> rn_peers (occur oc r) \<and> (by_peer oc \<longrightarrow> occur oc r = r)"
  by (cases oc) (auto split: option.splits)

lemma accept_error_deaf: "life (PeerAcceptFailed # os) r = life (PeerAcceptFailed # filter (\<lambda>oc. \<not> by_peer oc) os) r"
proof -
  have "\<not> rn_peers r \<Longrightarrow> life os r = life (filter (\<lambda>oc. \<not> by_peer oc) os) r" for r
  proof (induction os arbitrary: r)
    case (Cons oc os)
    have dead: "rn_dead r \<Longrightarrow> life xs r = r" for xs by (cases xs) simp_all
    show ?case using Cons occur_deaf [of r oc] dead by (cases "rn_dead r") auto
  qed simp
  then show ?thesis by simp
qed

end
