(* ===== verification/Identity.thy ===== *)
theory Identity
  imports Store_Typed
begin

text \<open>
  The directory of a device, \<^verbatim>\<open>internal/config/config.go\<close>: where it is, the identity (a key and a self-signed
  certificate) that is created in it on the first run, and opening the store from its three files. Keys and
  certificates are made and parsed by Go's crypto packages, arguments here; the files are explicit, and a
  write may fail before or after the file was truncated.
\<close>

section \<open>The directory\<close>

text \<open>
  \<^verbatim>\<open>Dir\<close>: environment variables (empty when unset), \<^verbatim>\<open>os.UserConfigDir\<close> on Windows, the home directory, and
  the platform's \<^verbatim>\<open>filepath.Join\<close>.
\<close>

definition config_Dir ::
  "(string \<Rightarrow> string \<Rightarrow> string) \<Rightarrow> string \<Rightarrow> bool \<Rightarrow> string option \<Rightarrow> string \<Rightarrow> string \<Rightarrow> string" where
  "config_Dir join adrop_config_dir windows userConfigDir xdg_config_home home =
     (if adrop_config_dir \<noteq> [] then adrop_config_dir
      else case (if windows then userConfigDir else None) of
        Some d \<Rightarrow> join d ''adrop''
      | None \<Rightarrow>
          if xdg_config_home \<noteq> [] then join xdg_config_home ''adrop''
          else join (join home ''.config'') ''adrop'')"

record config_disk =
  cd_key :: "bytes option"
  cd_crt :: "bytes option"
  cd_devices :: "bytes option"

text \<open>\<^verbatim>\<open>os.WriteFile\<close> succeeds, fails to open the file, or fails when it has been truncated and a part is written.\<close>

datatype write_outcome = Written | NotOpened | Cut nat

fun WriteFile :: "write_outcome \<Rightarrow> bytes \<Rightarrow> bytes option \<Rightarrow> bool \<times> bytes option" where
  "WriteFile Written data old = (True, Some data)"
| "WriteFile NotOpened data old = (False, old)"
| "WriteFile (Cut n) data old = (False, Some (take n data))"

text \<open>\<^verbatim>\<open>os.ReadFile\<close>: whether another error than a missing file occurs.\<close>

definition ReadFile :: "bool \<Rightarrow> bytes option \<Rightarrow> read_result" where
  "ReadFile err stored = (if err then RErr else case stored of None \<Rightarrow> RNotExist | Some b \<Rightarrow> RData b)"

section \<open>Creating an identity\<close>

record template =
  ct_SerialNumber :: int
  ct_CommonName :: string
  ct_NotBefore :: int
  ct_NotAfter :: int
  ct_DigitalSignature :: bool
  ct_ServerAuth :: bool
  ct_ClientAuth :: bool
  ct_BasicConstraintsValid :: bool

text \<open>
  What one start meets: whether the directory can be made and which files cannot be read; a random key and
  serial number, the host name and the two readings of the clock (nanoseconds); how the two writes end.
\<close>

record 'k open_env =
  oe_mkdir :: bool
  oe_keyErr :: bool
  oe_crtErr :: bool
  oe_devicesErr :: bool
  oe_generate :: "'k option"
  oe_serial :: "int option"
  oe_host :: string
  oe_now :: int
  oe_now2 :: int
  oe_writeCrt :: write_outcome
  oe_writeKey :: write_outcome

text \<open>\<^verbatim>\<open>x509.CreateCertificate\<close>, \<^verbatim>\<open>x509.MarshalPKCS8PrivateKey\<close>, \<^verbatim>\<open>tls.X509KeyPair\<close> (its first certificate).\<close>

record 'k x509 =
  xl_create :: "template \<Rightarrow> 'k \<Rightarrow> bytes option"
  xl_marshal :: "'k \<Rightarrow> bytes option"
  xl_pair :: "bytes \<Rightarrow> bytes \<Rightarrow> bytes option"

definition hour :: int where
  "hour = 3600 * 1000000000"

definition identity_template :: "int \<Rightarrow> string \<Rightarrow> int \<Rightarrow> int \<Rightarrow> template" where
  "identity_template serial host now now2 =
     \<lparr>ct_SerialNumber = serial, ct_CommonName = ''adrop-'' @ host, ct_NotBefore = now - hour,
      ct_NotAfter = now2 + 100 * 365 * 24 * hour, ct_DigitalSignature = True, ct_ServerAuth = True, ct_ClientAuth = True,
      ct_BasicConstraintsValid = True\<rparr>"

definition createIdentity ::
  "'k x509 \<Rightarrow> 'k open_env \<Rightarrow> config_disk \<Rightarrow> (store_error + bytes) \<times> config_disk" where
  "createIdentity lib env disk =
     (case oe_generate env of
        None \<Rightarrow> (Inl IdentityFailed, disk)
      | Some priv \<Rightarrow>
     (case oe_serial env of
        None \<Rightarrow> (Inl IdentityFailed, disk)
      | Some serial \<Rightarrow>
     (case xl_create lib (identity_template serial (oe_host env) (oe_now env) (oe_now2 env)) priv of
        None \<Rightarrow> (Inl IdentityFailed, disk)
      | Some der \<Rightarrow>
     (case xl_marshal lib priv of
        None \<Rightarrow> (Inl IdentityFailed, disk)
      | Some keyDER \<Rightarrow>
          (let crtPEM = EncodeToMemory ''CERTIFICATE'' der;
               keyPEM = EncodeToMemory ''PRIVATE KEY'' keyDER;
               (ok1, crt) = WriteFile (oe_writeCrt env) crtPEM (cd_crt disk);
               disk1 = disk\<lparr>cd_crt := crt\<rparr> in
           if \<not> ok1 then (Inl SaveFailed, disk1)
           else
             let (ok2, key) = WriteFile (oe_writeKey env) keyPEM (cd_key disk1);
                 disk2 = disk1\<lparr>cd_key := key\<rparr> in
             if \<not> ok2 then (Inl SaveFailed, disk2)
             else case xl_pair lib crtPEM keyPEM of
                 None \<Rightarrow> (Inl BadIdentity, disk2)
               | Some _ \<Rightarrow> (Inr der, disk2))))))"

definition identity :: "'k x509 \<Rightarrow> 'k open_env \<Rightarrow> config_disk \<Rightarrow> (store_error + bytes) \<times> config_disk" where
  "identity lib env disk =
     (case (ReadFile (oe_keyErr env) (cd_key disk), ReadFile (oe_crtErr env) (cd_crt disk)) of
        (RData k, RData c) \<Rightarrow>
          ((case xl_pair lib c k of None \<Rightarrow> Inl BadIdentity | Some der \<Rightarrow> Inr der), disk)
      | (RErr, _) \<Rightarrow> (Inl ReadFailed, disk)
      | _ \<Rightarrow> createIdentity lib env disk)"

definition open_store :: "'k x509 \<Rightarrow> 'k open_env \<Rightarrow> config_disk \<Rightarrow> (store_error + store) \<times> config_disk" where
  "open_store lib env disk =
     (if \<not> oe_mkdir env then (Inl MkdirFailed, disk)
      else case identity lib env disk of
        (Inl e, disk1) \<Rightarrow> (Inl e, disk1)
      | (Inr der, disk1) \<Rightarrow>
          ((if oe_devicesErr env then Inl ReadFailed
            else loadDevices \<lparr>st_certDER = der, st_devices = [], st_lastPeer = [], st_disk = cd_devices disk1\<rparr>), disk1))"

text \<open>The store of \<^verbatim>\<open>Config\<close>, which takes the outcome of \<^verbatim>\<open>createIdentity\<close> as an argument, is what this opens.\<close>

lemma identity_refines:
  "loadOrCreateIdentity (xl_pair lib) (case fst (createIdentity lib env disk) of Inl _ \<Rightarrow> None | Inr der \<Rightarrow> Some der)
     (ReadFile (oe_keyErr env) (cd_key disk)) (ReadFile (oe_crtErr env) (cd_crt disk)) = Inr der \<longleftrightarrow>
   fst (identity lib env disk) = Inr der"
  unfolding identity_def loadOrCreateIdentity_def Let_def
  by (cases "ReadFile (oe_keyErr env) (cd_key disk)"; cases "ReadFile (oe_crtErr env) (cd_crt disk)")
    (auto split: sum.splits option.splits)

lemma open_store_refines:
  "fst (open_store lib env disk) = Inr s \<longleftrightarrow>
   Open (oe_mkdir env) (xl_pair lib) (case fst (createIdentity lib env disk) of Inl _ \<Rightarrow> None | Inr der \<Rightarrow> Some der)
     (ReadFile (oe_keyErr env) (cd_key disk)) (ReadFile (oe_crtErr env) (cd_crt disk))
     (ReadFile (oe_devicesErr env) (cd_devices (snd (identity lib env disk)))) = Inr s"
  (is "_ \<longleftrightarrow> Open _ _ ?gen ?k ?c _ = _")
proof (cases "loadOrCreateIdentity (xl_pair lib) ?gen ?k ?c")
  case (Inl e)
  then obtain e' d1 where "identity lib env disk = (Inl e', d1)"
    using identity_refines [of lib env disk] by (cases "identity lib env disk"; cases "fst (identity lib env disk)") auto
  with Inl show ?thesis by (simp add: open_store_def Open_def)
next
  case (Inr der)
  then have "identity lib env disk = (Inr der, snd (identity lib env disk))" using identity_refines by (metis prod.collapse)
  with Inr show ?thesis
    by (cases "cd_devices (snd (identity lib env disk))") (auto simp: open_store_def Open_def ReadFile_def split: prod.splits)
qed

section \<open>Restarts\<close>

text \<open>Nothing is in the way of reading the directory.\<close>

definition readable :: "'k open_env \<Rightarrow> bool" where
  "readable env \<longleftrightarrow> oe_mkdir env \<and> \<not> oe_keyErr env \<and> \<not> oe_crtErr env \<and> \<not> oe_devicesErr env"

text \<open>The documented behaviour of the library: the pair's leaf is the first certificate of the PEM text.\<close>

definition pair_leaf :: "'k x509 \<Rightarrow> bool" where
  "pair_leaf lib \<longleftrightarrow> (\<forall>c k d. xl_pair lib c k = Some d \<longrightarrow> CertDERFromPEM c = Some d)"

lemma createIdentity_stored:
  assumes "createIdentity lib env disk = (Inr der, disk')" "pair_leaf lib" "\<forall>tm k. xl_create lib tm k \<noteq> Some []"
  shows "\<exists>c k. cd_crt disk' = Some c \<and> cd_key disk' = Some k \<and> xl_pair lib c k = Some der"
proof -
  obtain keyDER d tm priv where w: "cd_crt disk' = Some (EncodeToMemory ''CERTIFICATE'' der)"
      "cd_key disk' = Some (EncodeToMemory ''PRIVATE KEY'' keyDER)"
      "xl_pair lib (EncodeToMemory ''CERTIFICATE'' der) (EncodeToMemory ''PRIVATE KEY'' keyDER) = Some d" "xl_create lib tm priv = Some der"
    using assms(1)
    by (cases "oe_writeCrt env"; cases "oe_writeKey env") (auto simp: createIdentity_def Let_def split: option.splits)
  have "der \<noteq> []" using w(4) assms(3) by blast
  moreover have "CertDERFromPEM (EncodeToMemory ''CERTIFICATE'' der) = Some d" using w(3) assms(2) unfolding pair_leaf_def by blast
  ultimately show ?thesis using CertDERFromPEM_encode w by auto
qed

lemma identity_stored:
  assumes "identity lib env disk = (Inr der, disk')" "pair_leaf lib" "\<forall>tm k. xl_create lib tm k \<noteq> Some []"
  shows "\<exists>c k. cd_crt disk' = Some c \<and> cd_key disk' = Some k \<and> xl_pair lib c k = Some der"
  using assms(1) createIdentity_stored [OF _ assms(2,3)]
  by (auto simp: identity_def ReadFile_def split: option.splits if_splits)

text \<open>A store whose file gives it back.\<close>

definition reloads :: "store \<Rightarrow> bool" where
  "reloads s \<longleftrightarrow> (\<forall>der. loadDevices \<lparr>st_certDER = der, st_devices = [], st_lastPeer = [], st_disk = st_disk s\<rparr> =
     Inr \<lparr>st_certDER = der, st_devices = st_devices s,
          st_lastPeer = (if st_lastPeer s \<in> trusted s then st_lastPeer s else []), st_disk = st_disk s\<rparr>)"

lemma loadDevices_cert:
  "loadDevices (s\<lparr>st_certDER := der\<rparr>) = map_sum id (\<lambda>t. t\<lparr>st_certDER := der\<rparr>) (loadDevices s)"
  by (simp add: loadDevices_def Let_def split: option.splits)

lemma loaded_last:
  assumes "loadDevices s = Inr t" "st_lastPeer s = []"
  shows "st_disk t = st_disk s \<and> (st_lastPeer t = [] \<or> st_lastPeer t \<in> trusted t)"
  using assms by (auto simp: loadDevices_def Let_def split: option.splits if_splits) (metis imageI)+

lemma loaded_reloads:
  assumes "loadDevices \<lparr>st_certDER = der, st_devices = [], st_lastPeer = [], st_disk = disk\<rparr> = Inr s"
  shows "reloads s"
proof -
  let ?s = "\<lparr>st_certDER = der, st_devices = [], st_lastPeer = [], st_disk = disk\<rparr>"
  note l = loaded_last [OF assms]
  have "loadDevices (?s\<lparr>st_certDER := c\<rparr>) = Inr (s\<lparr>st_certDER := c\<rparr>)" for c
    unfolding loadDevices_cert assms by simp
  with l show ?thesis by (auto simp: reloads_def simp del: set_map)
qed

lemma step_saves: "run_op (True, now, c) s = s \<or> synced (run_op (True, now, c) s)"
proof (cases c)
  case (OpRemove q)
  then show ?thesis by (simp add: RemoveDevice_snd)
next
  case (OpRename q n)
  then show ?thesis by (cases rule: RenameDevice_cases [of True q n s]) auto
qed (auto simp: AddDevice_def UpdateAddr_def UpdateFcmToken_def UpdateRNS_def SetLastPeer_def Let_def split: option.splits)

lemma reloads_ops:
  assumes "reloads s" "store_ok s" "\<forall>op\<in>set ops. fst op \<and> op_ok op"
  shows "reloads (run_ops ops s)"
proof -
  have "reloads (fold run_op ops s) \<and> store_ok (fold run_op ops s)" using assms
  proof (induction ops arbitrary: s)
    case (Cons op ops)
    obtain now c where op: "op = (True, now, c)" using Cons.prems(3) by (cases op) auto
    have ok: "store_ok (run_op op s)" using store_ok_step Cons.prems by simp
    have "reloads (run_op op s)"
      using step_saves [of now c s] load_synced [OF _ ok] Cons.prems(1) op by (auto simp: reloads_def)
    with ok Cons show ?case by simp
  qed simp
  then show ?thesis by (simp add: run_ops_def)
qed

text \<open>
  Property C20. A device stays itself across restarts: when a start succeeded, the first one included, and the
  store was changed by operations whose saves succeeded and whose texts (names, addresses, keys, tokens) are
  valid UTF-8 and times RFC 3339, the next start that can read the directory succeeds, writes nothing, and has
  the same certificate, so the fingerprint its peers have pinned, and exactly the devices of the memory
  before, with the last send target when it is still a paired device. A key pair is taken to load as the
  certificate in its file, and no certificate is empty, as \<^verbatim>\<open>crypto/tls\<close> and \<^verbatim>\<open>crypto/x509\<close> have it.
\<close>

theorem restart_keeps_device:
  assumes "open_store lib env disk = (Inr s, disk')" "pair_leaf lib" "\<forall>tm k. xl_create lib tm k \<noteq> Some []"
    and "\<forall>op\<in>set ops. fst op \<and> op_ok op" "readable env'"
  defines "u \<equiv> run_ops ops s" and "disk'' \<equiv> disk'\<lparr>cd_devices := st_disk (run_ops ops s)\<rparr>"
  shows "\<exists>t. open_store lib env' disk'' = (Inr t, disk'') \<and> st_certDER t = st_certDER s \<and>
    Store_Fingerprint t = Store_Fingerprint s \<and> st_devices t = st_devices u \<and>
    st_lastPeer t = (if IsTrusted u (st_lastPeer u) \<noteq> None then st_lastPeer u else [])"
proof -
  obtain der where i: "identity lib env disk = (Inr der, disk')"
      and l: "loadDevices \<lparr>st_certDER = der, st_devices = [], st_lastPeer = [], st_disk = cd_devices disk'\<rparr> = Inr s"
    using assms(1) by (auto simp: open_store_def split: if_splits prod.splits sum.splits)
  have der: "st_certDER s = der" using l by (auto simp: loadDevices_def Let_def split: option.splits if_splits)
  obtain c k where d: "cd_crt disk'' = Some c" "cd_key disk'' = Some k" "xl_pair lib c k = Some der"
    using identity_stored [OF i assms(2,3)] by (auto simp: disk''_def)
  have "identity lib env' disk'' = (Inr der, disk'')" using d assms(5) by (simp add: identity_def readable_def ReadFile_def)
  moreover have "store_ok \<lparr>st_certDER = der, st_devices = [], st_lastPeer = [], st_disk = cd_devices disk'\<rparr>"
    by (simp add: store_ok_def utf8_valid_ascii)
  then have "reloads u" unfolding u_def using loadDevices_ok [OF _ l] loaded_reloads [OF l] reloads_ops [OF _ _ assms(4)] by blast
  moreover have "cd_devices disk'' = st_disk u" by (simp add: disk''_def u_def)
  ultimately have "open_store lib env' disk'' = (Inr \<lparr>st_certDER = der, st_devices = st_devices u,
      st_lastPeer = (if st_lastPeer u \<in> trusted u then st_lastPeer u else []), st_disk = st_disk u\<rparr>, disk'')"
    using assms(5) by (simp add: open_store_def readable_def reloads_def)
  then show ?thesis using der IsTrusted_iff [of u "st_lastPeer u"] by (auto simp: Store_Fingerprint_def)
qed

text \<open>
  What comes from the network as JSON is valid UTF-8; what a scanned code carries need not be. \<^verbatim>\<open>decodeCompact\<close>
  takes any bytes as a name, and a byte that is not UTF-8 is written to \<^verbatim>\<open>devices.json\<close> as the escape of
  U+FFFD, so after a restart the device has another name than before.
\<close>

lemma scanned_name_not_utf8:
  obtains uri p where "Decode uri = Inr p" "p_Name p = [CHR 0xFF]" "\<not> utf8_valid (p_Name p)"
    "json_quote (p_Name p) = [CHR 0x22, CHR 0x5C] @ ''ufffd'' @ [CHR 0x22]"
proof -
  let ?raw = "compact 2 [CHR 0xFF] ''10.0.0.9:53127'' (sha256 ''c'') ''c'' []"
  have "decodeCompact ?raw = Inr \<lparr>p_Version = 2, p_Name = [CHR 0xFF], p_Fingerprint = Fingerprint ''c'',
      p_CertPEM = EncodeToMemory ''CERTIFICATE'' ''c'', p_Addr = ''10.0.0.9:53127'', p_RNS = []\<rparr>"
    by (subst decodeCompact_written) (simp_all add: Fingerprint_def)
  moreover have "?raw \<noteq> []" "?raw ! 0 \<noteq> CHR ''{''"
    by (auto simp: compact_def dest!: arg_cong [where f = "of_char :: char \<Rightarrow> nat"])
  ultimately obtain uri p where p: "Decode uri = Inr p" "p_Name p = [CHR 0xFF]"
    using Decode_uri by (metis payload.select_convs(2))
  have rune: "rune_len [CHR 0xFF] = 0" "\<not> utf8_valid [CHR 0xFF]" by code_simp+
  then have "json_quote [CHR 0xFF] = [CHR 0x22, CHR 0x5C] @ ''ufffd'' @ [CHR 0x22]"
    by (simp add: json_quote_def json_body.simps)
  with p rune(2) show thesis by (intro that [of uri p]) simp_all
qed

definition demo_x509 :: "string x509" where
  "demo_x509 = \<lparr>xl_create = (\<lambda>tm k. Some (''cert of '' @ k)), xl_marshal = Some,
     xl_pair = (\<lambda>c k. if k = [] then None else CertDERFromPEM c)\<rparr>"

definition demo_open_env :: "string open_env" where
  "demo_open_env = \<lparr>oe_mkdir = True, oe_keyErr = False, oe_crtErr = False, oe_devicesErr = False, oe_generate = Some ''key'',
     oe_serial = Some 7, oe_host = ''laptop'', oe_now = 0, oe_now2 = 0, oe_writeCrt = Written, oe_writeKey = Written\<rparr>"

lemma demo_first_start:
  "open_store demo_x509 demo_open_env \<lparr>cd_key = None, cd_crt = None, cd_devices = None\<rparr> =
     (Inr \<lparr>st_certDER = ''cert of key'', st_devices = [], st_lastPeer = [], st_disk = None\<rparr>,
      \<lparr>cd_key = Some (EncodeToMemory ''PRIVATE KEY'' ''key''), cd_crt = Some (EncodeToMemory ''CERTIFICATE'' ''cert of key''),
       cd_devices = None\<rparr>)"
proof -
  have "EncodeToMemory ''PRIVATE KEY'' ''key'' \<noteq> []" by (simp add: EncodeToMemory_def)
  then show ?thesis
    by (simp add: open_store_def identity_def createIdentity_def demo_x509_def demo_open_env_def ReadFile_def loadDevices_def
        Let_def CertDERFromPEM_encode)
qed

theorem restart_keeps_device_witness:
  "\<exists>t disk. open_store demo_x509 demo_open_env disk = (Inr t, disk) \<and> st_certDER t = ''cert of key'' \<and>
     map d_Name (st_devices t) = [''bob'']"
proof -
  let ?ops = "[(True, time_zero, OpAdd (Device0\<lparr>d_Name := ''bob'', d_Fingerprint := ''bb''\<rparr>))]"
  have "rfc3339_ok time_zero" by code_simp
  moreover have "utf8_valid time_zero" by (rule utf8_valid_ascii) (simp add: time_zero_def)
  ultimately have ops: "\<forall>op\<in>set ?ops. fst op \<and> op_ok op"
    by (simp add: device_ok_def Device0_def utf8_valid_ascii)
  have "pair_leaf demo_x509" "\<forall>tm k. xl_create demo_x509 tm k \<noteq> Some []" "readable demo_open_env"
    by (simp_all add: pair_leaf_def demo_x509_def readable_def demo_open_env_def)
  from restart_keeps_device [OF demo_first_start this(1,2) ops this(3)] show ?thesis
    by (auto simp: run_ops_def AddDevice_def Device0_def)
qed

section \<open>Identities that are lost\<close>

text \<open>
  A new identity is made whenever the certificate cannot be read, also when the key is there and intact: the
  key is overwritten and the device has another fingerprint.
\<close>

lemma unreadable_certificate_replaces_key:
  assumes "cd_key disk = Some k" "\<not> oe_keyErr env" "oe_crtErr env \<or> cd_crt disk = None"
    and "identity lib env disk = (Inr der, disk')"
  shows "\<exists>priv keyDER. oe_generate env = Some priv \<and> xl_marshal lib priv = Some keyDER \<and>
    cd_key disk' = Some (EncodeToMemory ''PRIVATE KEY'' keyDER)"
proof -
  have "createIdentity lib env disk = (Inr der, disk')"
    using assms by (auto simp: identity_def ReadFile_def split: option.splits if_splits)
  then show ?thesis
    by (cases "oe_writeCrt env"; cases "oe_writeKey env") (auto simp: createIdentity_def Let_def split: option.splits)
qed

text \<open>
  The key is written in place: when the disk is full the file stays, cut, and from then on no start succeeds,
  as long as the library refuses a cut key.
\<close>

lemma cut_key_never_opens:
  assumes "createIdentity lib env disk = (e, disk')" "oe_writeCrt env = Written" "oe_writeKey env = Cut n"
    and "oe_generate env = Some priv" "oe_serial env = Some serial"
    and "xl_create lib (identity_template serial (oe_host env) (oe_now env) (oe_now2 env)) priv = Some der"
    and "xl_marshal lib priv = Some keyDER"
    and "xl_pair lib (EncodeToMemory ''CERTIFICATE'' der) (take n (EncodeToMemory ''PRIVATE KEY'' keyDER)) = None"
  shows "e = Inl SaveFailed" "readable env' \<Longrightarrow> open_store lib env' disk' = (Inl BadIdentity, disk')"
  using assms by (auto simp: createIdentity_def open_store_def identity_def readable_def ReadFile_def)

end
