(* ===== verification/Program.thy ===== *)
theory Program
  imports Client Daemon_Run Identity
begin

text \<open>
  The daemon as a process, \<^verbatim>\<open>runDaemon\<close> of \<^verbatim>\<open>cmd/adrop/daemon.go\<close>: the store opened from its directory, the
  daemon made from the environment variables, its life until a signal, and what it leaves on the disk.
\<close>

datatype process_error = StoreError store_error | NoStore | RunFailed run_error

definition runDaemon ::
  "'k x509 \<Rightarrow> 'k open_env \<Rightarrow> (string \<Rightarrow> string) \<Rightarrow> sys_env \<Rightarrow> start_env \<Rightarrow> occurrence list \<Rightarrow> config_disk
   \<Rightarrow> process_error option \<times> fs \<times> config_disk" where
  "runDaemon lib oe getenv sys se os disk =
     (case open_store lib oe disk of
        (Inl e, disk1) \<Rightarrow> (Some (StoreError e), sys_fs sys, disk1)
      | (Inr st, disk1) \<Rightarrow>
          (case New sys (runDaemon_options getenv st) of
             None \<Rightarrow> (Some NoStore, sys_fs sys, disk1)
           | Some d \<Rightarrow>
               (let (err, d') = Daemon_Run (se\<lparr>se_rnsHubs := splitList (getenv ''ADROP_RNS_HUBS'')\<rparr>) os d in
                (map_option RunFailed err, dm_fs d', disk1\<lparr>cd_devices := st_disk (dm_store d')\<rparr>))))"

text \<open>The options always carry the store, and a new daemon shows no code.\<close>

lemma New_options:
  "\<exists>d. New sys (runDaemon_options getenv st) = Some d \<and> dm_store d = st \<and> dm_fs d = sys_fs sys \<and> dm_pairWindow d = None \<and>
     dm_downloadDir d = (if getenv ''ADROP_DOWNLOAD_DIR'' = [] then sys_home sys @ ''/Downloads'' else getenv ''ADROP_DOWNLOAD_DIR'')"
  by (simp add: New_def runDaemon_options_def Let_def)

text \<open>
  What a process does to the files it meets: from its start to its end everything outside the download
  directory of its settings stays as it was, and inside it every file that is no partial one.
\<close>

lemma process_confined:
  assumes "runDaemon lib oe getenv sys se os disk = (err, fs', disk')" "list_all calm os"
  shows "(sys_fs sys p = Some n \<longrightarrow> \<not> part_name p \<longrightarrow> fs' p = Some n) \<and>
    (fs' p \<noteq> sys_fs sys p \<longrightarrow>
       inside (if getenv ''ADROP_DOWNLOAD_DIR'' = [] then sys_home sys @ ''/Downloads'' else getenv ''ADROP_DOWNLOAD_DIR'') p)"
proof (cases "open_store lib oe disk")
  case (Pair r disk1)
  show ?thesis
  proof (cases r)
    case (Inr st)
    obtain d where d: "New sys (runDaemon_options getenv st) = Some d" "dm_fs d = sys_fs sys" "dm_pairWindow d = None"
        "dm_downloadDir d = (if getenv ''ADROP_DOWNLOAD_DIR'' = [] then sys_home sys @ ''/Downloads'' else getenv ''ADROP_DOWNLOAD_DIR'')"
      using New_options by blast
    obtain e d' where run: "Daemon_Run (se\<lparr>se_rnsHubs := splitList (getenv ''ADROP_RNS_HUBS'')\<rparr>) os d = (e, d')" by fastforce
    have "fs' = dm_fs d'" using assms(1) Pair Inr d(1) run by (simp add: runDaemon_def)
    with daemon_life [OF disjI1 [OF run] assms(2) d(3), of p n] d(2,4) show ?thesis by simp
  qed (use assms(1) Pair in \<open>simp add: runDaemon_def\<close>)
qed

text \<open>The identity is made before anything is listened to and is never touched again.\<close>

lemma process_keeps_identity:
  assumes "runDaemon lib oe getenv sys se os disk = (err, fs', disk')"
  shows "cd_key disk' = cd_key (snd (open_store lib oe disk)) \<and> cd_crt disk' = cd_crt (snd (open_store lib oe disk))"
  using assms by (auto simp: runDaemon_def Let_def split: prod.splits sum.splits option.splits)

end
