(* ===== verification/Discovery.thy ===== *)
theory Discovery
  imports Mdns
begin

text \<open>
  Announcing and browsing over time, \<^verbatim>\<open>internal/mdns\<close>: \<^verbatim>\<open>Advertise\<close>, \<^verbatim>\<open>Browse\<close> and \<^verbatim>\<open>ResolveOnce\<close> for avahi
  (\<^verbatim>\<open>mdns.go\<close>), which restart the program they run, and for the zeroconf library (\<^verbatim>\<open>mdns_zeroconf.go\<close>), which
  browses in windows of a minute. Both loops run until their context ends; what each round meets is a list.
\<close>

section \<open>Avahi\<close>

text \<open>
  A round of a loop: what the program gave, whether it failed, whether the context is done then, and whether
  it ends during the pause before the restart.
\<close>

record 'a attempt_round =
  ar_out :: 'a
  ar_failed :: bool
  ar_done :: bool
  ar_stopped :: bool

text \<open>The command lines \<^verbatim>\<open>Advertise\<close> runs one after the other; a program that ended well is restarted at once.\<close>

fun advertise_loop :: "string list \<Rightarrow> unit attempt_round list \<Rightarrow> string list list" where
  "advertise_loop args [] = []"
| "advertise_loop args (r # rs) =
     args # (if ar_done r then [] else if ar_failed r \<and> ar_stopped r then [] else advertise_loop args rs)"

definition Advertise :: "bool \<Rightarrow> unit attempt_round list \<Rightarrow> daemon \<Rightarrow> string list list" where
  "Advertise installed rs d =
     (if installed then advertise_loop (''avahi-publish-service'' # advertise_args d) rs else [])"

fun browse_loop :: "bool \<Rightarrow> string list attempt_round list \<Rightarrow> daemon \<Rightarrow> daemon" where
  "browse_loop wok [] d = d"
| "browse_loop wok (r # rs) d =
     (let d1 = runBrowse wok (ar_out r) d in
      if ar_done r \<or> ar_stopped r then d1 else browse_loop wok rs d1)"

definition Browse :: "bool \<Rightarrow> bool \<Rightarrow> string list attempt_round list \<Rightarrow> daemon \<Rightarrow> daemon" where
  "Browse installed wok rs d = (if installed then browse_loop wok rs d else d)"

text \<open>The records \<^verbatim>\<open>ResolveOnce\<close> reports; lines about services that went away are skipped.\<close>

definition ResolveOnce :: "bool \<Rightarrow> string list \<Rightarrow> (string \<times> string \<times> string) list" where
  "ResolveOnce installed lines = (if installed then List.map_filter parseBrowseLine lines else [])"

section \<open>Zeroconf\<close>

definition service :: string where "service = ''_adrop._tcp''"

definition domain :: string where "domain = ''local.''"

definition zc_Advertise :: "daemon \<Rightarrow> string \<times> string \<times> string \<times> int \<times> string list" where
  "zc_Advertise d = (dm_name d, service, domain, dm_port d, [''fp='' @ Store_Fingerprint (dm_store d)])"

text \<open>One entry of a browse as a record, and the loop over windows: what was received and whether the context is done.\<close>

definition entry_record :: "service_entry \<Rightarrow> (string \<times> string \<times> string) option" where
  "entry_record e =
     (if se_TTL e = 0 \<or> entry_fp (se_Text e) = [] \<or> se_AddrIPv4 e = [] then None
      else Some (se_Instance e, JoinHostPort (hd (se_AddrIPv4 e)) (show_int (se_Port e)), entry_fp (se_Text e)))"

fun zc_Browse :: "bool \<Rightarrow> (bool \<times> service_entry list) list \<Rightarrow> daemon \<Rightarrow> daemon" where
  "zc_Browse wok [] d = d"
| "zc_Browse wok ((ended, entries) # ws) d = (if ended then d else zc_Browse wok ws (fold (browse_entry wok) entries d))"

definition zc_ResolveOnce :: "service_entry list \<Rightarrow> (string \<times> string \<times> string) list" where
  "zc_ResolveOnce entries = List.map_filter entry_record entries"

section \<open>Laws\<close>

text \<open>Until its context ends the announcement is restarted after every exit, and always says the same.\<close>

lemma advertise_restarts:
  "set (advertise_loop args rs) \<subseteq> {args}"
  "\<forall>r\<in>set rs. \<not> ar_done r \<and> \<not> ar_stopped r \<Longrightarrow> length (advertise_loop args rs) = length rs"
  by (induction rs) auto

lemma runBrowse_only: "only_addresses (runBrowse wok lines d) d"
  using announcements_harmless by blast

lemma Browse_only: "only_addresses (Browse installed wok rs d) d"
proof -
  have "only_addresses (browse_loop wok rs d) d"
  proof (induction rs arbitrary: d)
    case (Cons r rs)
    show ?case using only_addresses_trans [OF Cons.IH runBrowse_only] runBrowse_only by (simp add: Let_def)
  qed (simp add: only_addresses_refl)
  then show ?thesis by (simp add: Browse_def only_addresses_refl)
qed

lemma zc_Browse_only: "only_addresses (zc_Browse wok ws d) d"
proof (induction wok ws d rule: zc_Browse.induct)
  case (2 wok ended entries ws d)
  have "only_addresses (fold (browse_entry wok) entries d) d" using announcements_harmless by blast
  with 2 show ?case by (auto intro: only_addresses_trans only_addresses_refl)
qed (simp add: only_addresses_refl)

text \<open>An entry does what its record does, whichever build reads it.\<close>

lemma browse_entry_record:
  "browse_entry wok e d = (case entry_record e of
     Some (name, addr, fp) \<Rightarrow> mdns_found wok name addr fp d
   | None \<Rightarrow> if se_TTL e = 0 then RemoveNearby (se_Instance e) d else d)"
  by (simp add: browse_entry_def entry_record_def)

lemma builds_agree:
  assumes "announces_ok iface proto name host addr port fp" "colon \<notin> set addr" "ttl \<noteq> 0"
  shows "browse_entry wok \<lparr>se_TTL = ttl, se_Instance = name, se_Text = [''fp='' @ fp], se_AddrIPv4 = [addr], se_Port = port\<rparr> =
    browse_line wok (avahi_line iface proto name host addr port fp)"
proof -
  have p: "parseBrowseLine (avahi_line iface proto name host addr port fp) = Some (name, addr @ '':'' @ show_int port, fp)" "fp \<noteq> []"
    using assms(1) unfolding announces_ok_def by (blast intro: parse_avahi_line)+
  have "JoinHostPort addr (show_int port) = addr @ '':'' @ show_int port" using assms(2) by (simp add: JoinHostPort_def)
  then show ?thesis
    using p(2) assms(3) by (intro ext) (simp add: browse_entry_def browse_line_def p(1) entry_fp_def)
qed

text \<open>
  What a device announces about itself another one understands: when the name and the address can be
  printed, the record of \<^term>\<open>a\<close> gives its own name, port and fingerprint, and a daemon that has paired
  with it stores its address, also by the single browse that a failed dial makes.
\<close>

lemma hex_digit_plain:
  assumes "n < 16"
  shows "32 < cv (hex_digit n) \<and> cv (hex_digit n) < 128 \<and> hex_digit n \<notin> quotes \<and> hex_digit n \<noteq> semicolon"
proof -
  have "hex_digit n \<notin> quotes" "hex_digit n \<noteq> semicolon" using hex_val_digit [OF assms] by (auto simp: hex_val_def quotes_def)
  then show ?thesis using assms by (simp add: hex_digit_def)
qed

lemma fingerprint_plain:
  "\<forall>c\<in>set (hex_encode b). 32 < cv c \<and> cv c < 128 \<and> c \<notin> quotes \<and> c \<noteq> semicolon"
proof -
  have "cv c div 16 < 16" for c by (simp add: less_mult_imp_div_less)
  then show ?thesis by (induction b rule: hex_encode.induct) (simp_all add: hex_digit_plain)
qed

lemma announcement_ok:
  assumes "\<forall>x\<in>{iface, proto, dm_name a, host, addr}. semicolon \<notin> set x" "dm_name a \<noteq> []" "addr \<noteq> []" "int64 (dm_port a)"
  shows "announces_ok iface proto (dm_name a) host addr (dm_port a) (Store_Fingerprint (dm_store a))"
proof -
  have "length (Store_Fingerprint (dm_store a)) = 64" by (simp add: Store_Fingerprint_def Fingerprint_def)
  then have "Store_Fingerprint (dm_store a) \<noteq> []" by auto
  then show ?thesis
    using assms fingerprint_plain unfolding announces_ok_def Store_Fingerprint_def Fingerprint_def by simp
qed

lemma discovered:
  assumes "\<forall>x\<in>{iface, proto, dm_name a, host, addr}. semicolon \<notin> set x" "dm_name a \<noteq> []" "addr \<noteq> []" "int64 (dm_port a)"
    and "Store_Fingerprint (dm_store a) \<noteq> Store_Fingerprint (dm_store b)"
    and "find (\<lambda>x. d_Fingerprint x = Store_Fingerprint (dm_store a)) (st_devices (dm_store b)) = Some dev"
  defines "line \<equiv> avahi_line iface proto (dm_name a) host addr (dm_port a) (Store_Fingerprint (dm_store a))"
  shows "ResolveOnce True [line] = [(dm_name a, addr @ '':'' @ show_int (dm_port a), Store_Fingerprint (dm_store a))]"
    "\<exists>dev'. find (\<lambda>x. d_Fingerprint x = Store_Fingerprint (dm_store a)) (st_devices (dm_store
        (Browse True wok [\<lparr>ar_out = lines @ [line], ar_failed = f, ar_done = e, ar_stopped = True\<rparr>] b))) = Some dev' \<and>
       d_Addr dev' = addr @ '':'' @ show_int (dm_port a)"
proof -
  have ok: "announces_ok iface proto (dm_name a) host addr (dm_port a) (Store_Fingerprint (dm_store a))"
    by (rule announcement_ok [OF assms(1-4)])
  then have "parseBrowseLine line = Some (dm_name a, addr @ '':'' @ show_int (dm_port a), Store_Fingerprint (dm_store a))"
    unfolding line_def announces_ok_def by (blast intro: parse_avahi_line)
  then show "ResolveOnce True [line] = [(dm_name a, addr @ '':'' @ show_int (dm_port a), Store_Fingerprint (dm_store a))]"
    by (simp add: ResolveOnce_def List.map_filter_def)
  let ?b = "runBrowse wok lines b" and ?P = "\<lambda>x. d_Fingerprint x = Store_Fingerprint (dm_store a)"
  have only: "same_but_addr (dm_store ?b) (dm_store b)" using runBrowse_only [of wok lines b] by (auto simp: only_addresses_def)
  then have "Store_Fingerprint (dm_store a) \<noteq> Store_Fingerprint (dm_store ?b)"
    using assms(5) by (simp add: same_but_addr_def Store_Fingerprint_def)
  moreover have "IsTrusted (dm_store ?b) (Store_Fingerprint (dm_store a)) \<noteq> None"
    using assms(6) same_but_addr_trust [OF only] by (simp add: IsTrusted_def)
  then obtain dev0 where "find ?P (st_devices (dm_store ?b)) = Some dev0" by (auto simp: IsTrusted_def split: option.splits)
  ultimately show "\<exists>dev'. find ?P (st_devices (dm_store
        (Browse True wok [\<lparr>ar_out = lines @ [line], ar_failed = f, ar_done = e, ar_stopped = True\<rparr>] b))) = Some dev' \<and>
       d_Addr dev' = addr @ '':'' @ show_int (dm_port a)"
    using announced_address [OF ok] by (simp add: Browse_def runBrowse_def line_def Let_def)
qed

end
