(* ===== verification/Desktop.thy ===== *)
theory Desktop
  imports Net_Addr Paths Pem "HOL-Library.AList"
begin

text \<open>
  The edges of the program on a desktop and a phone: the clipboard (\<^verbatim>\<open>internal/clipboard\<close>) and notifications
  (\<^verbatim>\<open>internal/notify\<close>), which run other programs; the window and the log file (\<^verbatim>\<open>cmd/adrop\<close>); the Unix socket
  of the control protocol (\<^verbatim>\<open>internal/ipc/conn_unix.go\<close>); the interface a dial in the local network leaves by
  (\<^verbatim>\<open>internal/transport/bindlan*.go\<close>). Running a program is an argument: from its name, its arguments and its
  input to its output, or to the text of the error and what it wrote to its error output.
\<close>

section \<open>Running programs\<close>

record command =
  cm_name :: string
  cm_args :: "string list"
  cm_stdin :: bytes

datatype run_result = Ran bytes | Exited string bytes

section \<open>The clipboard on Wayland\<close>

definition plain_mime :: "string \<Rightarrow> string" where
  "plain_mime mime = (if mime = [] then ''text/plain'' else mime)"

definition clip_Get :: "(command \<Rightarrow> run_result) \<Rightarrow> string \<Rightarrow> string + bytes" where
  "clip_Get exec mime0 =
     (let mime = plain_mime mime0;
          args = [''-t'', mime];
          args' = (if mime = ''text/plain'' then ''-n'' # args else args) in
      case exec \<lparr>cm_name = ''wl-paste'', cm_args = args', cm_stdin = []\<rparr> of
        Exited e errb \<Rightarrow> Inl (''wl-paste: '' @ e @ '': '' @ errb)
      | Ran out \<Rightarrow> Inr out)"

definition clip_Paste :: "(command \<Rightarrow> run_result) \<Rightarrow> string + bytes" where
  "clip_Paste exec = clip_Get exec ''text/plain''"

definition clip_Copy :: "(command \<Rightarrow> run_result) \<Rightarrow> bytes \<Rightarrow> string \<Rightarrow> string option" where
  "clip_Copy exec data mime =
     (case exec \<lparr>cm_name = ''wl-copy'', cm_args = [''-t'', plain_mime mime], cm_stdin = data\<rparr> of
        Exited e errb \<Rightarrow> Some (''wl-copy: '' @ e)
      | Ran out \<Rightarrow> None)"

section \<open>The clipboard on Windows\<close>

definition psPrelude :: string where
  "psPrelude = ''[Console]::InputEncoding=[Console]::OutputEncoding=[Text.Encoding]::UTF8;''"

definition powershell :: "(command \<Rightarrow> run_result) \<Rightarrow> string \<Rightarrow> bytes \<Rightarrow> string + bytes" where
  "powershell exec script input =
     (case exec \<lparr>cm_name = ''powershell'',
                 cm_args = [''-NoProfile'', ''-NonInteractive'', ''-Command'', psPrelude @ script], cm_stdin = input\<rparr> of
        Exited e errb \<Rightarrow> Inl (''powershell: '' @ e @ '': '' @ trim_space errb)
      | Ran out \<Rightarrow> Inr out)"

definition not_supported :: "string \<Rightarrow> string" where
  "not_supported mime = ''clipboard: '' @ mime @ '' is not supported on Windows''"

definition win_Get :: "(command \<Rightarrow> run_result) \<Rightarrow> string \<Rightarrow> string + bytes" where
  "win_Get exec mime =
     (if mime \<noteq> [] \<and> mime \<noteq> ''text/plain'' then Inl (not_supported mime)
      else case powershell exec ''Get-Clipboard -Raw | Write-Output -NoEnumerate'' [] of
        Inl e \<Rightarrow> Inl e
      | Inr out \<Rightarrow> Inr (TrimSuffix (TrimSuffix out [newline]) [CHR 0x0D]))"

definition win_Copy :: "(command \<Rightarrow> run_result) \<Rightarrow> bytes \<Rightarrow> string \<Rightarrow> string option" where
  "win_Copy exec data mime =
     (if mime \<noteq> [] \<and> mime \<noteq> ''text/plain'' then Some (not_supported mime)
      else case powershell exec ''$t=[Console]::In.ReadToEnd(); Set-Clipboard -Value $t'' data of
        Inl e \<Rightarrow> Some e
      | Inr _ \<Rightarrow> None)"

section \<open>Notifications\<close>

definition notify_Send :: "bool \<Rightarrow> (command \<Rightarrow> run_result) \<Rightarrow> string \<Rightarrow> string \<Rightarrow> bool" where
  "notify_Send installed exec summary body =
     (installed \<and>
      (case exec \<lparr>cm_name = ''notify-send'', cm_args = [''--app-name=adrop'', ''--icon=phone'', summary, body], cm_stdin = []\<rparr> of
         Ran _ \<Rightarrow> True | Exited _ _ \<Rightarrow> False))"

text \<open>\<^verbatim>\<open>strings.NewReplacer\<close> with single characters to replace works byte by byte.\<close>

definition esc_char :: "char \<Rightarrow> string" where
  "esc_char c =
     (if c = CHR ''&'' then ''&amp;'' else if c = CHR ''<'' then ''&lt;'' else if c = CHR ''>'' then ''&gt;''
      else if c = CHR 0x27 then [CHR 0x27, CHR 0x27] else [c])"

definition esc :: "string \<Rightarrow> string" where
  "esc s = concat (map esc_char s)"

definition toast_head :: string where
  "toast_head =
     ''[Windows.UI.Notifications.ToastNotificationManager, Windows.UI.Notifications, ContentType = WindowsRuntime] > $null;'' @
     ''[Windows.Data.Xml.Dom.XmlDocument, Windows.Data.Xml.Dom.XmlDocument, ContentType = WindowsRuntime] > $null;'' @
     ''$x = New-Object Windows.Data.Xml.Dom.XmlDocument;'' @ ''$x.LoadXml('' @ [CHR 0x27]"

definition toast_xml :: "string \<Rightarrow> string \<Rightarrow> string" where
  "toast_xml summary body =
     ''<toast><visual><binding template='' @ [CHR 0x22] @ ''ToastGeneric'' @ [CHR 0x22] @ ''><text>'' @ summary @
     ''</text><text>'' @ body @ ''</text></binding></visual></toast>''"

definition toast_tail :: string where
  "toast_tail =
     [CHR 0x27] @ '');'' @ ''$id = '' @ [CHR 0x27] @ ''{1AC14E77-02E7-4E5D-B744-2EB1AE5198B7}'' @ [CHR 0x5C] @ ''WindowsPowerShell'' @
     [CHR 0x5C] @ ''v1.0'' @ [CHR 0x5C] @ ''powershell.exe'' @ [CHR 0x27] @ '';'' @
     ''[Windows.UI.Notifications.ToastNotificationManager]::CreateToastNotifier($id).Show([Windows.UI.Notifications.ToastNotification]::new($x))''"

definition toast_script :: "string \<Rightarrow> string \<Rightarrow> string" where
  "toast_script summary body = toast_head @ toast_xml (esc summary) (esc body) @ toast_tail"

definition win_notify_Send :: "(command \<Rightarrow> run_result) \<Rightarrow> string \<Rightarrow> string \<Rightarrow> bool" where
  "win_notify_Send exec summary body =
     (case exec \<lparr>cm_name = ''powershell'',
                 cm_args = [''-NoProfile'', ''-NonInteractive'', ''-Command'', toast_script summary body], cm_stdin = []\<rparr> of
        Ran _ \<Rightarrow> True | Exited _ _ \<Rightarrow> False)"

section \<open>The window and the log\<close>

text \<open>
  \<^verbatim>\<open>openWindow\<close>: the display variables, this program's own path, the platform's \<^verbatim>\<open>filepath.Dir\<close> and \<^verbatim>\<open>Join\<close>, which
  files exist, \<^verbatim>\<open>exec.LookPath\<close>, and starting the program (the error if it fails).
\<close>

definition fileExists :: "(string \<Rightarrow> bool) \<Rightarrow> string \<Rightarrow> bool" where
  "fileExists stat p = stat p"

definition beside :: "(string \<Rightarrow> string) \<Rightarrow> (string \<Rightarrow> string \<Rightarrow> string) \<Rightarrow> (string \<Rightarrow> bool) \<Rightarrow> string option \<Rightarrow> string \<Rightarrow> string" where
  "beside dir join stat self name =
     (case self of None \<Rightarrow> [] | Some s \<Rightarrow> let p = join (dir s) name in if fileExists stat p then p else [])"

definition openWindow ::
  "bool \<Rightarrow> string \<Rightarrow> string \<Rightarrow> string option \<Rightarrow> (string \<Rightarrow> string) \<Rightarrow> (string \<Rightarrow> string \<Rightarrow> string) \<Rightarrow> (string \<Rightarrow> bool)
   \<Rightarrow> (string \<Rightarrow> string option) \<Rightarrow> (string \<Rightarrow> string option) \<Rightarrow> string + string" where
  "openWindow windows wayland display self dir join stat look start =
     (if \<not> windows \<and> wayland = [] \<and> display = []
      then Inl ''no display (DISPLAY/WAYLAND_DISPLAY unset), no window to open''
      else
        let name = (if windows then ''adrop-gui.exe'' else ''adrop-gui'');
            near = beside dir join stat self name in
        case (if near \<noteq> [] then Some near else look name) of
          None \<Rightarrow> Inl ''the window is not installed (make app-install)''
        | Some gui \<Rightarrow> (case start gui of Some e \<Rightarrow> Inl e | None \<Rightarrow> Inr gui))"

datatype log_writer = Stderr | LogFile string

definition logOutput :: "bool \<Rightarrow> (string \<Rightarrow> string \<Rightarrow> string) \<Rightarrow> string \<Rightarrow> (string \<Rightarrow> bool) \<Rightarrow> log_writer" where
  "logOutput windows join config_dir can_open =
     (if \<not> windows then Stderr
      else let path = join config_dir ''daemon.log'' in if can_open path then LogFile path else Stderr)"

section \<open>The control socket\<close>

text \<open>
  \<^verbatim>\<open>Listen\<close> on a Unix socket over the set of paths that exist: whether the old file can be removed, whether
  the socket can be bound, whether its mode can be set. Closing the listener removes its file.
\<close>

datatype socket_error = ListenFailed | ChmodFailed

definition unix_Listen :: "string \<Rightarrow> bool \<Rightarrow> bool \<Rightarrow> bool \<Rightarrow> string set \<Rightarrow> (socket_error + string) \<times> string set" where
  "unix_Listen path removable bindable chmod_ok files =
     (let files1 = (if removable then files - {path} else files) in
      if \<not> bindable \<or> path \<in> files1 then (Inl ListenFailed, files1)
      else if \<not> chmod_ok then (Inl ChmodFailed, files1)
      else (Inr path, insert path files1))"

definition unix_close :: "string \<Rightarrow> string set \<Rightarrow> string set" where
  "unix_close path files = files - {path}"

definition unix_Dial :: "string \<Rightarrow> (string \<Rightarrow> string option) \<Rightarrow> string + string" where
  "unix_Dial path dial = (case dial path of
     Some e \<Rightarrow> Inl (''cannot reach daemon at '' @ path @ '' (is `adrop daemon` running?): '' @ e)
   | None \<Rightarrow> Inr path)"

lemma stale_socket_replaced:
  "unix_Listen path True True True files = (Inr path, insert path files)"
  "unix_Listen path r b c files = (Inl e, files') \<Longrightarrow> files' \<subseteq> files \<and> (r \<longrightarrow> path \<notin> files')"
  "unix_Listen path r b c files = (Inr p, files') \<Longrightarrow> unix_close p files' = files - {path}"
  by (auto simp: unix_Listen_def unix_close_def Let_def split: if_splits)

section \<open>Dials in the local network\<close>

record ipnet =
  in_IP :: ip
  in_Mask :: "nat list"

text \<open>Go's \<^verbatim>\<open>IP.To4\<close>, \<^verbatim>\<open>IP.IsPrivate\<close> and \<^verbatim>\<open>IPNet.Contains\<close>.\<close>

definition To4 :: "ip \<Rightarrow> ip option" where
  "To4 i = (if length i = 4 then Some i else if length i = 16 \<and> v4_mapped i then Some (drop 12 i) else None)"

definition IsPrivate :: "ip \<Rightarrow> bool" where
  "IsPrivate i \<longleftrightarrow> (case To4 i of
     Some x \<Rightarrow> x ! 0 = 10 \<or> (x ! 0 = 172 \<and> and (x ! 1) 240 = 16) \<or> (x ! 0 = 192 \<and> x ! 1 = 168)
   | None \<Rightarrow> length i = 16 \<and> and (i ! 0) 254 = 252)"

definition networkNumberAndMask :: "ipnet \<Rightarrow> (ip \<times> nat list) option" where
  "networkNumberAndMask n =
     (case (case To4 (in_IP n) of Some x \<Rightarrow> Some x | None \<Rightarrow> if length (in_IP n) = 16 then Some (in_IP n) else None) of
        None \<Rightarrow> None
      | Some i \<Rightarrow>
          if length (in_Mask n) = 4 then (if length i \<noteq> 4 then None else Some (i, in_Mask n))
          else if length (in_Mask n) = 16 then Some (i, if length i = 4 then drop 12 (in_Mask n) else in_Mask n)
          else None)"

definition Contains :: "ipnet \<Rightarrow> ip \<Rightarrow> bool" where
  "Contains n i \<longleftrightarrow> (case networkNumberAndMask n of
     None \<Rightarrow> False
   | Some (nn, m) \<Rightarrow>
       let x = (case To4 i of Some x \<Rightarrow> x | None \<Rightarrow> i) in
       length x = length nn \<and> list_all (\<lambda>(a, b, k). and a k = and b k) (zip nn (zip x m)))"

text \<open>The map of subnets in the order in which Go happens to walk it.\<close>

definition lanInterface :: "ip option \<Rightarrow> (string \<times> ipnet list) list \<Rightarrow> string" where
  "lanInterface i subnets = (case i of
     None \<Rightarrow> []
   | Some a \<Rightarrow>
       if \<not> IsPrivate a then []
       else case find (\<lambda>(name, nets). list_ex (\<lambda>n. Contains n a) nets) subnets of
         Some (name, _) \<Rightarrow> name | None \<Rightarrow> [])"

record iface =
  if_Name :: string
  if_Up :: bool
  if_Loopback :: bool
  if_Addrs :: "ipnet option list option"

definition add_iface :: "iface \<Rightarrow> (string \<times> ipnet list) list \<Rightarrow> (string \<times> ipnet list) list" where
  "add_iface f out =
     (if \<not> if_Up f \<or> if_Loopback f then out
      else case if_Addrs f of
        None \<Rightarrow> out
      | Some addrs \<Rightarrow>
          (case List.map_filter id addrs of
             [] \<Rightarrow> out
           | ns \<Rightarrow> AList.update (if_Name f)
                     ((case map_of out (if_Name f) of Some old \<Rightarrow> old | None \<Rightarrow> []) @ ns) out))"

definition systemSubnets :: "iface list option \<Rightarrow> (string \<times> ipnet list) list" where
  "systemSubnets ifaces = (case ifaces of None \<Rightarrow> [] | Some fs \<Rightarrow> fold add_iface fs [])"

text \<open>The control function \<^verbatim>\<open>BindLANDials\<close> installs: the interface the socket is bound to, if any.\<close>

definition bind_dial :: "iface list option \<Rightarrow> string \<Rightarrow> string option" where
  "bind_dial ifaces address = (case SplitHostPort address of
     None \<Rightarrow> None
   | Some (host, _) \<Rightarrow>
       let name = lanInterface (ParseIP host) (systemSubnets ifaces) in if name = [] then None else Some name)"

text \<open>A dial is bound only to an interface that is up, not the loopback, and holds the private address in a subnet of its own.\<close>

definition listed :: "iface set \<Rightarrow> string \<Rightarrow> ipnet \<Rightarrow> bool" where
  "listed fs name n \<longleftrightarrow> (\<exists>f\<in>fs. if_Name f = name \<and> if_Up f \<and> \<not> if_Loopback f \<and>
     (\<exists>addrs. if_Addrs f = Some addrs \<and> Some n \<in> set addrs))"

definition all_listed :: "iface set \<Rightarrow> (string \<times> ipnet list) list \<Rightarrow> bool" where
  "all_listed fs out \<longleftrightarrow> (\<forall>(name, nets)\<in>set out. \<forall>n\<in>set nets. listed fs name n)"

lemma in_update: "p \<in> set (AList.update k v al) \<Longrightarrow> p = (k, v) \<or> p \<in> set al"
  by (induction al) (auto split: if_splits)

lemma add_iface_listed:
  assumes "all_listed fs out"
  shows "all_listed (insert f fs) (add_iface f out)"
proof -
  have mono: "listed fs name n \<Longrightarrow> listed (insert f fs) name n" for name n by (auto simp: listed_def)
  have new: "listed (insert f fs) (if_Name f) n" if "if_Up f" "\<not> if_Loopback f" "if_Addrs f = Some addrs" "n \<in> set (List.map_filter id addrs)" for addrs n
    using that by (auto simp: listed_def List.map_filter_def)
  have old: "listed (insert f fs) (if_Name f) n" if "map_of out (if_Name f) = Some nets" "n \<in> set nets" for nets n
    using assms that mono by (auto simp: all_listed_def dest!: map_of_SomeD)
  show ?thesis
    using assms mono new old
    by (fastforce simp: all_listed_def add_iface_def dest!: in_update split: option.splits list.splits)
qed

lemma systemSubnets_listed: "all_listed (set fs) (systemSubnets (Some fs))"
proof -
  have "all_listed gs out \<Longrightarrow> all_listed (set fs \<union> gs) (fold add_iface fs out)" for gs out
    by (induction fs arbitrary: gs out) (simp_all, metis add_iface_listed Un_insert_right)
  from this [of "{}" "[]"] show ?thesis by (simp add: systemSubnets_def all_listed_def)
qed

lemma bound_dial:
  assumes "bind_dial (Some fs) address = Some name"
  shows "\<exists>host port i n. SplitHostPort address = Some (host, port) \<and> ParseIP host = Some i \<and> IsPrivate i \<and>
    listed (set fs) name n \<and> Contains n i"
proof -
  obtain host port i nets where h: "SplitHostPort address = Some (host, port)" "ParseIP host = Some i" "IsPrivate i"
      "find (\<lambda>(name, nets). list_ex (\<lambda>n. Contains n i) nets) (systemSubnets (Some fs)) = Some (name, nets)"
    using assms by (auto simp: bind_dial_def lanInterface_def Let_def split: option.splits if_splits)
  then obtain n where "(name, nets) \<in> set (systemSubnets (Some fs))" "n \<in> set nets" "Contains n i"
    by (auto simp: find_Some_iff list_ex_iff in_set_conv_nth) (metis in_set_conv_nth)
  with h(1-3) systemSubnets_listed [of fs] show ?thesis by (fastforce simp: all_listed_def)
qed

text \<open>
  The order in which Go walks the map does not matter when the address is in the subnets of one interface only;
  and the cases of \<^verbatim>\<open>bindlan_test.go\<close>.
\<close>

lemma lanInterface_unique:
  assumes "IsPrivate i" "(name, nets) \<in> set subnets" "n \<in> set nets" "Contains n i"
    and "\<And>name' nets'. (name', nets') \<in> set subnets \<Longrightarrow> list_ex (\<lambda>n. Contains n i) nets' \<Longrightarrow> name' = name"
  shows "lanInterface (Some i) subnets = name"
proof -
  have "find (\<lambda>(name, nets). list_ex (\<lambda>n. Contains n i) nets) subnets \<noteq> None"
    using assms(2-4) by (auto simp: find_None_iff list_ex_iff)
  then obtain name' nets' where f: "find (\<lambda>(name, nets). list_ex (\<lambda>n. Contains n i) nets) subnets = Some (name', nets')" by auto
  then have "(name', nets') \<in> set subnets" "list_ex (\<lambda>n. Contains n i) nets'"
    by (auto simp: find_Some_iff) (metis nth_mem)
  with assms(1,5) f show ?thesis by (simp add: lanInterface_def)
qed

definition demo_subnets :: "(string \<times> ipnet list) list" where
  "demo_subnets =
     [(''wlan0'', [\<lparr>in_IP = [192, 168, 0, 132], in_Mask = [255, 255, 255, 0]\<rparr>,
                   \<lparr>in_IP = [254, 128, 0, 0, 0, 0, 0, 0, 0, 0, 0, 0, 0, 0, 0, 1],
                    in_Mask = [255, 255, 255, 255, 255, 255, 255, 255, 0, 0, 0, 0, 0, 0, 0, 0]\<rparr>]),
      (''tun0'', [\<lparr>in_IP = [172, 19, 0, 1], in_Mask = [255, 255, 255, 252]\<rparr>]),
      (''rmnet0'', [\<lparr>in_IP = [10, 208, 141, 161], in_Mask = [255, 255, 255, 0]\<rparr>])]"

lemmas subnet_defs = lanInterface_def IsPrivate_def Contains_def networkNumberAndMask_def To4_def v4_mapped_def demo_subnets_def Let_def

lemma lanInterface_cases:
  "lanInterface (Some [192, 168, 0, 123]) demo_subnets = ''wlan0''"
  "lanInterface (Some [192, 168, 1, 5]) demo_subnets = []"
  "lanInterface (Some [8, 8, 8, 8]) demo_subnets = []"
  "lanInterface (Some [254, 128, 0, 0, 0, 0, 0, 0, 0, 0, 0, 0, 0, 0, 0, 2]) demo_subnets = []"
  by (simp_all add: subnet_defs)

section \<open>Texts of peers in a script\<close>

text \<open>
  How PowerShell reads a verbatim string, after its opening quote: up to a quote that is not doubled.
  \<^term>\<open>q\<close> says how long the quote is that a text starts with, 0 for none.
\<close>

function verbatim :: "(string \<Rightarrow> nat) \<Rightarrow> string \<Rightarrow> (string \<times> string) option" where
  "verbatim q s = (case s of
     [] \<Rightarrow> None
   | c # t \<Rightarrow>
       (let n = q s; m = q (drop n s) in
        if n = 0 then map_option (apfst (Cons c)) (verbatim q t)
        else if m = 0 then Some ([], drop n s)
        else map_option (apfst (append (take m (drop n s)))) (verbatim q (drop (n + m) s))))"
  by pat_completeness auto
termination
  by (relation "measure (\<lambda>(q, s). length s)") auto

declare verbatim.simps [simp del]

definition ascii_quote :: "string \<Rightarrow> nat" where
  "ascii_quote s = (if prefix [CHR 0x27] s then 1 else 0)"

text \<open>The text of an XML element.\<close>

definition xml_char :: "char \<Rightarrow> string" where
  "xml_char c = (if c = CHR ''&'' then ''&amp;'' else if c = CHR ''<'' then ''&lt;'' else if c = CHR ''>'' then ''&gt;'' else [c])"

lemma verbatim_char: "q (c # t) = 0 \<Longrightarrow> verbatim q (c # t) = map_option (apfst (Cons c)) (verbatim q t)"
  by (subst verbatim.simps) simp

lemma verbatim_end: "s \<noteq> [] \<Longrightarrow> q s \<noteq> 0 \<Longrightarrow> q (drop (q s) s) = 0 \<Longrightarrow> verbatim q s = Some ([], drop (q s) s)"
  by (cases s; subst verbatim.simps) (simp_all add: Let_def)

lemma verbatim_plain:
  "(\<And>c t. c \<in> set p \<Longrightarrow> q (c # t) = 0) \<Longrightarrow> verbatim q (p @ r) = map_option (apfst (append p)) (verbatim q r)"
proof (induction p)
  case Nil
  then show ?case by (cases "verbatim q r") auto
next
  case (Cons c p)
  then show ?case by (cases "verbatim q r") (auto simp: verbatim_char)
qed

lemma ascii_quote_0: "c \<noteq> CHR 0x27 \<Longrightarrow> ascii_quote (c # t) = 0"
  by (simp add: ascii_quote_def)

lemma verbatim_doubled:
  "verbatim ascii_quote (CHR 0x27 # CHR 0x27 # t) = map_option (apfst (Cons (CHR 0x27))) (verbatim ascii_quote t)"
  by (subst verbatim.simps) (cases "verbatim ascii_quote t", auto simp: ascii_quote_def Let_def)

lemma read_on: "map_option (apfst (append a)) (map_option (apfst (append b)) R) = map_option (apfst (append (a @ b))) R"
  by (cases R) auto

lemma verbatim_esc_char: "verbatim ascii_quote (esc_char c @ r) = map_option (apfst (append (xml_char c))) (verbatim ascii_quote r)"
proof (cases "c = CHR 0x27")
  case True
  then show ?thesis using verbatim_doubled [of r] by (cases "verbatim ascii_quote r") (auto simp: esc_char_def xml_char_def)
next
  case False
  then have "esc_char c = xml_char c" "\<And>b. b \<in> set (xml_char c) \<Longrightarrow> b \<noteq> CHR 0x27"
    by (auto simp: esc_char_def xml_char_def split: if_splits)
  then show ?thesis using verbatim_plain [of "xml_char c" ascii_quote r] ascii_quote_0 by simp
qed

lemma verbatim_esc:
  "verbatim ascii_quote (esc s @ r) = map_option (apfst (append (concat (map xml_char s)))) (verbatim ascii_quote r)"
proof (induction s)
  case Nil
  then show ?case by (cases "verbatim ascii_quote r") (auto simp: esc_def)
next
  case (Cons c s)
  have "esc (c # s) @ r = esc_char c @ esc s @ r" by (simp add: esc_def)
  then have "verbatim ascii_quote (esc (c # s) @ r) =
      map_option (apfst (append (xml_char c @ concat (map xml_char s)))) (verbatim ascii_quote r)"
    by (simp only: verbatim_esc_char Cons.IH read_on)
  then show ?case by (simp only: list.map concat.simps)
qed

text \<open>
  With the straight quote as the only one, whatever a peer puts into its name or a file name stays text: the
  string PowerShell reads is the notification with the two texts as XML text, and the script goes on after it.
\<close>

lemma toast_is_text:
  "\<exists>rest. toast_tail = CHR 0x27 # rest \<and> toast_script summary body = toast_head @ toast_xml (esc summary) (esc body) @ toast_tail \<and>
     verbatim ascii_quote (toast_xml (esc summary) (esc body) @ toast_tail) =
       Some (toast_xml (concat (map xml_char summary)) (concat (map xml_char body)), rest)"
proof -
  let ?a = "''<toast><visual><binding template='' @ [CHR 0x22] @ ''ToastGeneric'' @ [CHR 0x22] @ ''><text>''"
  let ?z = "''</text></binding></visual></toast>''"
  obtain rest where t: "toast_tail = CHR 0x27 # CHR '')'' # rest" by (simp add: toast_tail_def)
  have z: "verbatim ascii_quote toast_tail = Some ([], CHR '')'' # rest)"
    unfolding t by (subst verbatim_end) (simp_all add: ascii_quote_def)
  have plain: "verbatim ascii_quote (p @ r) = map_option (apfst (append p)) (verbatim ascii_quote r)" if "CHR 0x27 \<notin> set p" for p r
    using that by (intro verbatim_plain ascii_quote_0) metis
  have "verbatim ascii_quote (?z @ toast_tail) = Some (?z, CHR '')'' # rest)" by (subst plain) (simp_all add: z)
  then have "verbatim ascii_quote (''</text><text>'' @ esc body @ ?z @ toast_tail) =
      Some (''</text><text>'' @ concat (map xml_char body) @ ?z, CHR '')'' # rest)"
    by (subst plain) (simp_all add: verbatim_esc)
  then have "verbatim ascii_quote (?a @ esc summary @ ''</text><text>'' @ esc body @ ?z @ toast_tail) =
      Some (?a @ concat (map xml_char summary) @ ''</text><text>'' @ concat (map xml_char body) @ ?z, CHR '')'' # rest)"
    by (subst plain) (simp_all add: verbatim_esc)
  then show ?thesis using t by (auto simp: toast_script_def toast_xml_def)
qed

text \<open>
  PowerShell also takes the typographic single quotes U+2018 to U+201B for quotes. \<^verbatim>\<open>esc\<close> leaves them, so a
  name with one of them ends the string, and what follows it in the name is read as commands.
\<close>

definition ps_quote :: "string \<Rightarrow> nat" where
  "ps_quote s =
     (if prefix [CHR 0x27] s then 1
      else if 3 \<le> length s \<and> take 2 s = [CHR 0xE2, CHR 0x80] \<and> s ! 2 \<in> {CHR 0x98, CHR 0x99, CHR 0x9A, CHR 0x9B} then 3 else 0)"

lemma ps_quote_0: "c \<noteq> CHR 0x27 \<Longrightarrow> c \<noteq> CHR 0xE2 \<Longrightarrow> ps_quote (c # t) = 0"
  by (simp add: ps_quote_def)

lemma toast_runs_name:
  assumes "code \<noteq> []" "hd code \<notin> {CHR 0x27, CHR 0xE2}"
  shows "\<exists>before after. verbatim ps_quote (toast_xml (esc ([CHR 0xE2, CHR 0x80, CHR 0x99] @ code)) (esc body) @ toast_tail) =
    Some (before, esc code @ after)"
proof -
  let ?a = "''<toast><visual><binding template='' @ [CHR 0x22] @ ''ToastGeneric'' @ [CHR 0x22] @ ''><text>''"
  let ?r = "''</text><text>'' @ esc body @ ''</text></binding></visual></toast>'' @ toast_tail"
  let ?s = "CHR 0xE2 # CHR 0x80 # CHR 0x99 # esc code @ ?r"
  have x: "toast_xml (esc ([CHR 0xE2, CHR 0x80, CHR 0x99] @ code)) (esc body) @ toast_tail = ?a @ ?s"
    by (simp add: toast_xml_def esc_def esc_char_def)
  obtain c cs where "esc code = c # cs" "c \<notin> {CHR 0x27, CHR 0xE2}"
    using assms by (cases code) (cases "hd code \<in> {CHR ''&'', CHR ''<'', CHR ''>''}"; auto simp: esc_def esc_char_def)+
  then have "ps_quote (esc code @ ?r) = 0" by (simp add: ps_quote_0 del: append_assoc)
  moreover have "ps_quote ?s = 3" by (simp add: ps_quote_def)
  ultimately have e: "verbatim ps_quote ?s = Some ([], esc code @ ?r)" by (subst verbatim_end) simp_all
  have "verbatim ps_quote (?a @ ?s) = map_option (apfst (append ?a)) (verbatim ps_quote ?s)"
    by (rule verbatim_plain, rule ps_quote_0) auto
  then show ?thesis unfolding x e by auto
qed

section \<open>Programs and their output\<close>

text \<open>The line end that PowerShell adds to its output is removed, and only one; other kinds of data run nothing.\<close>

lemma win_Get_line:
  assumes "\<And>c. exec c = Ran (data @ eol)" "eol = [CHR 0x0D, newline] \<or> (eol = [newline] \<and> (data = [] \<or> last data \<noteq> CHR 0x0D))"
  shows "win_Get exec [] = Inr data"
proof -
  have "\<not> suffix [CHR 0x0D] data" if "data = [] \<or> last data \<noteq> CHR 0x0D" using that by (auto simp: suffix_def)
  then show ?thesis using assms by (auto simp: win_Get_def powershell_def TrimSuffix_def suffix_def)
qed

lemma win_text_only:
  "mime \<notin> {[], ''text/plain''} \<Longrightarrow> win_Get exec mime = Inl (not_supported mime) \<and> win_Copy exec data mime = Some (not_supported mime)"
  by (simp add: win_Get_def win_Copy_def)

text \<open>The window that is started lies beside this program when it is there, and there is a display to show it on.\<close>

lemma window_started:
  assumes "openWindow windows wayland display self dir join stat look start = Inr gui"
  defines "name \<equiv> if windows then ''adrop-gui.exe'' else ''adrop-gui''"
  shows "(windows \<or> wayland \<noteq> [] \<or> display \<noteq> []) \<and> start gui = None \<and>
    ((\<exists>s. self = Some s \<and> gui = join (dir s) name \<and> stat gui) \<or> (beside dir join stat self name = [] \<and> look name = Some gui))"
  using assms(1) unfolding openWindow_def name_def
  by (auto simp: Let_def beside_def fileExists_def split: if_splits option.splits)

end
