(* ===== verification/Spec2Isabelle.thy ===== *)
theory Spec2Isabelle
  imports Resume Pair_Window Session_End Store_Typed Client Core Relay Direct File_Delivery Program Discovery Desktop
begin

text \<open>
  \<^bold>\<open>A verification development of adrop\<close>

  adrop sends files and clipboard texts between a person's own devices. A daemon runs on each computer
  (\<^verbatim>\<open>cmd/adrop\<close>) and inside the phone app (\<^verbatim>\<open>core\<close>); daemons talk TLS with pinned certificates on the
  local network, over a direct QUIC channel between networks, and in short signed messages through
  Reticulum hubs; a small relay wakes a phone that sleeps. This development models the Go code of all of
  these, in the order data, wire, store, files, sessions, connections, pairing, dialing, hubs, queue, control.

  \<^bold>\<open>Shared ground.\<close> \<^verbatim>\<open>Prelude\<close> has the generic lemmas, the decimal texts and the wrap-around of
  \<^verbatim>\<open>int64\<close>; \<^verbatim>\<open>Go_Strings\<close>, \<^verbatim>\<open>Base64\<close>, \<^verbatim>\<open>Pem\<close>, \<^verbatim>\<open>Sha256\<close>, \<^verbatim>\<open>Net_Addr\<close> and
  \<^verbatim>\<open>Json\<close>, \<^verbatim>\<open>Json_Laws\<close>, \<^verbatim>\<open>Json_Struct\<close> model what the source uses of Go's standard library, computably:
  \<^verbatim>\<open>strings\<close> and \<^verbatim>\<open>path/filepath\<close>, the encodings, the hash (32-bit words), host and port texts, and
  \<^verbatim>\<open>encoding/json\<close> with its escapes, invalid UTF-8, case-folded member names and \<^verbatim>\<open>omitempty\<close>.
  \<^verbatim>\<open>Json_Typed\<close> shows what any decoded value is: texts in UTF-8, numbers within 64 bits.

  \<^bold>\<open>Wire protocol\<close> (\<^verbatim>\<open>internal/proto/proto.go\<close>): \<^verbatim>\<open>Proto\<close>, and \<^verbatim>\<open>Header_Size\<close> for which headers fit
  a frame. Headers survive the encoding, a frame stops exactly at its payload, and a frame that announces too
  much is refused unread. The locale \<^verbatim>\<open>framing\<close> is the interface the transfers read through.

  \<^bold>\<open>Trusted devices\<close> (\<^verbatim>\<open>internal/config/config.go\<close>): \<^verbatim>\<open>Config\<close>. The store is the list in memory and
  the bytes of \<^verbatim>\<open>devices.json\<close>; each write has an argument that says whether it succeeds. Only pairing makes
  a fingerprint trusted, revoking lasts, what was written is read back (locale \<^verbatim>\<open>trust_list\<close>).
  \<^verbatim>\<open>Store_Typed\<close>: neither the file nor a peer can bring in what cannot be written back.
  \<^verbatim>\<open>Identity\<close>: the directory, the identity made on the first run, and that a device is itself after a restart.

  \<^bold>\<open>Receiving\<close> (\<^verbatim>\<open>internal/daemon/receive.go\<close>, \<^verbatim>\<open>util.go\<close>): \<^verbatim>\<open>Paths\<close> (names and paths a peer
  chooses), \<^verbatim>\<open>Files\<close> (an explicit file system, slots, partial files), \<^verbatim>\<open>Receive\<close> (one file, a session, the
  clipboard). Every answer of the operating system comes from the argument \<^verbatim>\<open>os_env\<close>. \<^verbatim>\<open>Receive_Laws\<close> and
  \<^verbatim>\<open>Session_Laws\<close>: a session changes nothing outside the download directory and nothing that existed except
  partial files, and every file of a session that ends well has the declared hash, except that one named
  like a partial file may be lost to another file of the session. \<^verbatim>\<open>Session_End\<close>: it ends.

  \<^bold>\<open>Sending\<close> (\<^verbatim>\<open>internal/daemon/send.go\<close>): \<^verbatim>\<open>Send\<close> (manifest, file, session, clipboard). \<^verbatim>\<open>File_Transfer\<close>
  runs the two sessions against each other, \<^verbatim>\<open>File_Delivery\<close> the two daemons: every file and every folder
  (\<^verbatim>\<open>Folders\<close>) the user named arrives. \<^verbatim>\<open>Resume\<close>: cut anywhere, a transfer leaves a prefix and goes on from there.

  \<^bold>\<open>Daemon and connections\<close> (\<^verbatim>\<open>internal/daemon/daemon.go\<close>, \<^verbatim>\<open>pairing.go\<close>, \<^verbatim>\<open>internal/transport/transport.go\<close>):
  \<^verbatim>\<open>Daemon\<close> has the record \<^verbatim>\<open>daemon\<close>, events, addresses and the pairing window; \<^verbatim>\<open>Peer\<close> one inbound
  connection from the handshake, full or resumed, to its end; \<^verbatim>\<open>Pair_Window\<close> the window under every interleaving of the
  locked blocks of concurrent connections and of its timer, refining the single step of \<^verbatim>\<open>Peer\<close>; \<^verbatim>\<open>Tap_Pair\<close>
  pairing by comparing codes (\<^verbatim>\<open>tappair.go\<close>) over every order of the events of its \<^verbatim>\<open>select\<close>.
  \<^verbatim>\<open>Pairing\<close> is the pairing URI and QR text (\<^verbatim>\<open>internal/pairing\<close>).

  \<^bold>\<open>Reaching a peer\<close> (\<^verbatim>\<open>send.go\<close>, \<^verbatim>\<open>dialerror.go\<close>, \<^verbatim>\<open>directch.go\<close>): \<^verbatim>\<open>Dial\<close>, with the network as an
  argument that answers each attempt. Nothing is written except to the pinned fingerprint of the target.
  \<^verbatim>\<open>Direct\<close> (\<^verbatim>\<open>internal/direct\<close>, \<^verbatim>\<open>directch.go\<close>) sets up a direct channel: both roles, the signals between
  them, what is opened and released; the two sides agree on each other's credentials.
  \<^verbatim>\<open>Mdns\<close> (\<^verbatim>\<open>internal/mdns\<close>) parses announcements, which never touch trust; \<^verbatim>\<open>Discovery\<close> announces and browses
  over time, with avahi and with zeroconf, which agree.

  \<^bold>\<open>Hubs\<close> (\<^verbatim>\<open>internal/rns\<close>, \<^verbatim>\<open>internal/daemon/rns.go\<close>, \<^verbatim>\<open>queue.go\<close>): \<^verbatim>\<open>Hdlc\<close> is one hub connection
  (\<^verbatim>\<open>hubconn.go\<close>) with its framing and its life as a step relation; \<^verbatim>\<open>Rns_Node\<close> the node (\<^verbatim>\<open>rns.go\<close>) and its
  signed envelope; \<^verbatim>\<open>Hub_Manager\<close> the choice of hubs (\<^verbatim>\<open>hubs.go\<close>) and its composition with the node over the
  locale \<^verbatim>\<open>hub_links\<close>; \<^verbatim>\<open>Signals\<close> what daemons say to each other through hubs, among it a clipboard in
  parts; \<^verbatim>\<open>Queue\<close> sends that wait (locale \<^verbatim>\<open>saved_list\<close>), in a file whose reads and writes may fail.

  \<^bold>\<open>Control\<close> (\<^verbatim>\<open>internal/ipc\<close>, \<^verbatim>\<open>internal/daemon/ipc_handler.go\<close>, \<^verbatim>\<open>cmd/adrop\<close>, \<^verbatim>\<open>core\<close>): \<^verbatim>\<open>Ipc\<close> and
  \<^verbatim>\<open>Control\<close> have the requests, responses and events with their JSON, streams of them (locale
  \<^verbatim>\<open>json_codec\<close>) and the token endpoint; \<^verbatim>\<open>Handler\<close> every arm of \<^verbatim>\<open>handleIPC\<close>; \<^verbatim>\<open>Client\<close> the
  command line, run against the handler; \<^verbatim>\<open>Core\<close> the operations of the phone app. \<^verbatim>\<open>Relay\<close> is the wake
  relay (\<^verbatim>\<open>cmd/adrop-relay\<close>) with its Firebase client (\<^verbatim>\<open>internal/fcm\<close>).

  \<^bold>\<open>The life of a daemon\<close> (\<^verbatim>\<open>Run\<close>, \<^verbatim>\<open>Serve\<close>, \<^verbatim>\<open>acceptLoop\<close>, \<^verbatim>\<open>startMDNS\<close>, \<^verbatim>\<open>startRNS\<close>, \<^verbatim>\<open>runQueue\<close>,
  \<^verbatim>\<open>HubManager.Run\<close>): \<^verbatim>\<open>Daemon_Run\<close>. A start with its errors, then a list of occurrences: what each goroutine
  does, in the order in which it takes effect. \<^verbatim>\<open>Frames\<close> shows what each operation leaves alone; together they
  give safety from start to end, and the loop of the hub manager refines the step system of \<^verbatim>\<open>Hub_Manager\<close>. \<^verbatim>\<open>Program\<close>
  is the process (\<^verbatim>\<open>runDaemon\<close>): store, options, life, and what is on the disk afterwards.

  \<^bold>\<open>How effects are modelled.\<close> A connection is the bytes still to be read and the bytes written; its end is the
  end of input, be it the peer's doing or a deadline's. What is done under one mutex is one step. In a life
  (\<^verbatim>\<open>Daemon_Run\<close>) a handler is one occurrence, the files are those of received transfers, and \<^verbatim>\<open>devices.json\<close>
  and \<^verbatim>\<open>queue.json\<close> are fields of their own; looking up a hub's connection and writing to it is one step. Choices of the scheduler, timers and other
  goroutines are lists of events or rounds, or step relations, and the theorems quantify over them. Go's
  \<^verbatim>\<open>int\<close> and \<^verbatim>\<open>int64\<close> are \<^typ>\<open>int\<close>, with the wrap-around written out where sums and products of peer data
  are taken. Errors are values of one datatype per layer; the text of an error is a function argument where
  it is sent on. Third-party code (Reticulum, QUIC and ICE, the QR encoder, RSA signatures, the HTTP client,
  TLS handshakes, mDNS programs) is an argument of the definitions that call it, and what is relied on is a
  named hypothesis.

  \<^bold>\<open>Bounds.\<close> Loops over input recurse on its length and need no fuel. The JSON parser has fuel
  \<^verbatim>\<open>2 * length s + 2\<close>, more calls than an input of that length can make (\<^verbatim>\<open>Json_Laws\<close> shows that everything
  the program prints is read back). The search for a free file name has no bound in the code; it is a partial
  function here, and \<^verbatim>\<open>Session_End\<close> shows that it returns on every finite disk. Polling loops take the list of
  what each round meets.

  \<^bold>\<open>The edges\<close> (\<^verbatim>\<open>internal/clipboard\<close>, \<^verbatim>\<open>internal/notify\<close>, \<^verbatim>\<open>internal/transport/bindlan*.go\<close>, the window, the
  control socket): \<^verbatim>\<open>Desktop\<close>, the command lines and scripts for other programs, and what a peer's text can do in
  them; which interface a dial in the local network is bound to.

  \<^bold>\<open>Not modelled.\<close> The TLS, QUIC and ICE handshakes themselves; what other programs (\<^verbatim>\<open>wl-copy\<close>, PowerShell,
  \<^verbatim>\<open>avahi\<close>) and system calls do; the Windows autostart entry; log lines, usage texts and the column alignment of
  tables; symbolic links in the download directory; errors of \<^verbatim>\<open>Stat\<close> other than a missing file, of
  \<^verbatim>\<open>WalkDir\<close>, and of reading a file that is being sent; Unicode case folding beyond ASCII, which no hexadecimal
  digest has; the durations of deadlines; the Flutter app under \<^verbatim>\<open>app\<close>, which only calls \<^verbatim>\<open>core\<close>.
\<close>

end
